(* ===== verification/Go_Base.thy ===== *)
theory Go_Base
  imports Main "HOL-Library.Word"
begin

text \<open>
  What every component of the model shares: the Go data types the source uses, its
  error values, the outcome of a call, byte readers and writers, and the parts of the
  standard library (\<open>io\<close>, \<open>encoding/binary\<close>, \<open>encoding/hex\<close>, \<open>strings\<close>, \<open>time\<close>) that
  the sources call.

  A Go \<open>string\<close> is a sequence of bytes and is modelled by \<^typ>\<open>string\<close>, whose characters
  are bytes; a \<open>[]byte\<close> or a fixed array \<open>[N]byte\<close> is a list of 8-bit words.  Fixed-width
  integers are words of their width.
\<close>

named_theorems go_simps \<open>equations that evaluate outcomes, readers and writers\<close>

type_synonym byte = "8 word"
type_synonym bytes = "byte list"
type_synonym uint16 = "16 word"
type_synonym uint32 = "32 word"
type_synonym uint64 = "64 word"

section \<open>Errors and outcomes\<close>

text \<open>
  \<open>ErrVar\<close> is a package-level error variable, named by its Go name; \<open>ErrNew\<close> is the
  value of \<open>errors.New\<close> or \<open>errors.Errorf\<close> at a call site; \<open>ErrWrap\<close> is
  \<open>errors.Wrap(err, msg)\<close> of \<open>github.com/pkg/errors\<close> on a non-nil error.
\<close>

datatype err = ErrVar string | ErrNew string | ErrWrap err string

abbreviation io_EOF :: err where
  "io_EOF \<equiv> ErrVar ''io.EOF''"

abbreviation io_ErrUnexpectedEOF :: err where
  "io_ErrUnexpectedEOF \<equiv> ErrVar ''io.ErrUnexpectedEOF''"

text \<open>\<open>errors.Wrap\<close> returns nil on a nil error: some callers of the source rely on the opposite.\<close>

definition errors_Wrap :: "err option \<Rightarrow> string \<Rightarrow> err option" where
  "errors_Wrap e msg = map_option (\<lambda>x. ErrWrap x msg) e"

fun errors_Is :: "err \<Rightarrow> err \<Rightarrow> bool" where
  "errors_Is (ErrWrap e m) target = (ErrWrap e m = target \<or> errors_Is e target)"
| "errors_Is e target = (e = target)"

text \<open>The outcome of a call: a value, a non-nil error, or a panic.\<close>

datatype 'a go = Ok 'a | Err err | Panic string

primrec go_bind :: "'a go \<Rightarrow> ('a \<Rightarrow> 'b go) \<Rightarrow> 'b go" where
  "go_bind (Ok x) f = f x"
| "go_bind (Err e) f = Err e"
| "go_bind (Panic m) f = Panic m"

declare go_bind.simps [go_simps]

lemma go_bind_eq_Ok [go_simps]:
  "go_bind m f = Ok y \<longleftrightarrow> (\<exists>x. m = Ok x \<and> f x = Ok y)"
  by (cases m) auto

lemma go_bind_eq_Panic [go_simps]:
  "go_bind m f = Panic s \<longleftrightarrow> m = Panic s \<or> (\<exists>x. m = Ok x \<and> f x = Panic s)"
  by (cases m) auto

text \<open>\<open>if err != nil { return errors.Wrap(err, msg) }\<close> around a call.\<close>

primrec go_wrap :: "'a go \<Rightarrow> string \<Rightarrow> 'a go" where
  "go_wrap (Ok x) msg = Ok x"
| "go_wrap (Err e) msg = Err (ErrWrap e msg)"
| "go_wrap (Panic p) msg = Panic p"

declare go_wrap.simps [go_simps]

lemma go_wrap_eq_Ok [go_simps]: "go_wrap m msg = Ok x \<longleftrightarrow> m = Ok x"
  by (cases m) auto

text \<open>A call that returns a value or an error and does not panic.\<close>

primrec go_of :: "err + 'a \<Rightarrow> 'a go" where
  "go_of (Inl e) = Err e"
| "go_of (Inr x) = Ok x"

lemma go_of_not_Panic [simp]: "go_of x \<noteq> Panic m"
  by (cases x) auto

lemma go_of_eq_Ok [simp]: "go_of x = Ok y \<longleftrightarrow> x = Inr y"
  by (cases x) auto

definition is_panic :: "'a go \<Rightarrow> bool" where
  "is_panic r = (case r of Panic _ \<Rightarrow> True | _ \<Rightarrow> False)"

lemma is_panic_simps [simp]:
  "\<not> is_panic (Ok x)" "\<not> is_panic (Err e)" "is_panic (Panic m)"
  by (simp_all add: is_panic_def)

section \<open>Slices\<close>

text \<open>\<open>copy(dst, src)\<close>: the destination afterwards.\<close>

definition go_copy :: "'a list \<Rightarrow> 'a list \<Rightarrow> 'a list" where
  "go_copy dst src = take (length dst) src @ drop (length src) dst"

lemma length_go_copy [simp]: "length (go_copy dst src) = length dst"
  by (simp add: go_copy_def)

lemma go_copy_same_length: "length src = length dst \<Longrightarrow> go_copy dst src = src"
  by (simp add: go_copy_def)

lemma go_copy_nth:
  "i < length dst \<Longrightarrow> go_copy dst src ! i = (if i < length src then src ! i else dst ! i)"
  by (simp add: go_copy_def nth_append min_def)

section \<open>Writers\<close>

text \<open>
  Encoding into an \<open>io.Writer\<close> yields the bytes written so far and the error that stopped
  it, if any.  Buffers and hashers accept every write.
\<close>

type_synonym wr = "bytes \<times> err option"

definition wr_bytes :: "bytes \<Rightarrow> wr" where
  "wr_bytes bs = (bs, None)"

definition wr_fail :: "err \<Rightarrow> wr" where
  "wr_fail e = ([], Some e)"

fun wr_seq :: "wr \<Rightarrow> wr \<Rightarrow> wr" where
  "wr_seq (b1, Some e) w2 = (b1, Some e)"
| "wr_seq (b1, None) (b2, e2) = (b1 @ b2, e2)"

lemma wr_seq_Ok [go_simps]:
  "wr_seq w1 w2 = (bs, None) \<longleftrightarrow> (\<exists>b1 b2. w1 = (b1, None) \<and> w2 = (b2, None) \<and> bs = b1 @ b2)"
  by (cases "(w1, w2)" rule: wr_seq.cases) auto

lemma wr_bytes_Ok [go_simps]: "wr_bytes bs = (cs, e) \<longleftrightarrow> cs = bs \<and> e = None"
  by (auto simp: wr_bytes_def)

lemma wr_fail_not_Ok [go_simps]: "wr_fail e = (bs, None) \<longleftrightarrow> False"
  by (simp add: wr_fail_def)

section \<open>Readers\<close>

text \<open>
  A reader over a byte sequence is the bytes not yet read.  \<open>io.ReadFull\<close> fills a buffer of
  \<open>n\<close> bytes: no byte at all is \<open>io.EOF\<close>, too few is \<open>io.ErrUnexpectedEOF\<close>.
\<close>

definition io_ReadFull :: "nat \<Rightarrow> bytes \<Rightarrow> (bytes \<times> bytes) go" where
  "io_ReadFull n r =
     (if n \<le> length r then Ok (take n r, drop n r)
      else if r = [] then Err io_EOF
      else Err io_ErrUnexpectedEOF)"

lemma io_ReadFull_append [go_simps]:
  "length bs = n \<Longrightarrow> io_ReadFull n (bs @ rest) = Ok (bs, rest)"
  by (simp add: io_ReadFull_def)

lemma io_ReadFull_Ok:
  "io_ReadFull n r = Ok (b, r') \<longleftrightarrow> length b = n \<and> r = b @ r'"
  by (auto simp: io_ReadFull_def min_def)

lemma io_ReadFull_not_Panic [go_simps]: "io_ReadFull n r \<noteq> Panic m"
  by (simp add: io_ReadFull_def)

text \<open>
  One \<open>Read\<close> of a \<open>bytes.Reader\<close> into a buffer: at the end it fails with \<open>io.EOF\<close>, otherwise
  it overwrites as much of the buffer as there are bytes and leaves the rest as it was.
\<close>

definition bytes_Read :: "bytes \<Rightarrow> bytes \<Rightarrow> (bytes \<times> bytes) go" where
  "bytes_Read buf r =
     (if r = [] then Err io_EOF else Ok (go_copy buf (take (length buf) r), drop (length buf) r))"

lemma bytes_Read_append [go_simps]:
  "length bs = length buf \<Longrightarrow> bs \<noteq> [] \<Longrightarrow> bytes_Read buf (bs @ rest) = Ok (bs, rest)"
  by (simp add: bytes_Read_def go_copy_same_length)

section \<open>Strings as bytes\<close>

definition bytes_of_string :: "string \<Rightarrow> bytes" where
  "bytes_of_string s = map (\<lambda>c. of_nat (of_char c)) s"

definition string_of_bytes :: "bytes \<Rightarrow> string" where
  "string_of_bytes bs = map (\<lambda>b. char_of (unat b)) bs"

lemma length_bytes_of_string [simp]: "length (bytes_of_string s) = length s"
  by (simp add: bytes_of_string_def)

lemma length_string_of_bytes [simp]: "length (string_of_bytes s) = length s"
  by (simp add: string_of_bytes_def)

lemma unat_of_char [simp]: "unat (of_nat (of_char c) :: byte) = of_char c"
  by (simp add: unat_of_nat)

lemma string_of_bytes_of_string [simp]: "string_of_bytes (bytes_of_string s) = s"
  by (simp add: string_of_bytes_def bytes_of_string_def comp_def map_idI)

lemma bytes_of_string_of_bytes [simp]: "bytes_of_string (string_of_bytes bs) = bs"
proof -
  have "of_nat (of_char (char_of (unat b) :: char) :: nat) = b" for b :: byte
  proof -
    have "unat b < 2 ^ LENGTH(8)" by (rule unsigned_less)
    then show ?thesis by simp
  qed
  then show ?thesis
    by (simp add: string_of_bytes_def bytes_of_string_def comp_def map_idI)
qed

lemma bytes_of_string_inject [simp]: "bytes_of_string s = bytes_of_string t \<longleftrightarrow> s = t"
  by (metis string_of_bytes_of_string)

lemma bytes_of_string_append: "bytes_of_string (s @ t) = bytes_of_string s @ bytes_of_string t"
  by (simp add: bytes_of_string_def)

section \<open>Fixed-width integers as bytes\<close>

text \<open>
  \<open>binary.BigEndian\<close> and \<open>binary.LittleEndian\<close>: \<open>put_be n v\<close> are the \<open>n\<close> low bytes of \<open>v\<close>,
  most significant first.
\<close>

fun put_be :: "nat \<Rightarrow> nat \<Rightarrow> bytes" where
  "put_be 0 v = []"
| "put_be (Suc n) v = put_be n (v div 256) @ [of_nat (v mod 256)]"

definition get_be :: "bytes \<Rightarrow> nat" where
  "get_be bs = foldl (\<lambda>a b. a * 256 + unat b) 0 bs"

lemma length_put_be [simp]: "length (put_be n v) = n"
  by (induction n arbitrary: v) auto

lemma put_be_numeral:
  "put_be (numeral k) v = put_be (pred_numeral k) (v div 256) @ [of_nat (v mod 256)]"
  by (simp only: numeral_eq_Suc [of k] put_be.simps)

lemma get_be_put_be: "get_be (put_be n v) = v mod 256 ^ n"
proof (induction n arbitrary: v)
  case 0
  then show ?case by (simp add: get_be_def)
next
  case (Suc n)
  have "get_be (put_be (Suc n) v) = get_be (put_be n (v div 256)) * 256 + v mod 256"
    by (simp add: get_be_def unat_of_nat)
  also have "\<dots> = v mod 256 ^ Suc n"
    by (simp add: Suc mod_mult2_eq mult.commute)
  finally show ?case .
qed

lemma get_be_less: "get_be bs < 256 ^ length bs"
proof (induction bs rule: rev_induct)
  case Nil
  then show ?case by (simp add: get_be_def)
next
  case (snoc b bs)
  have "unat b < 2 ^ LENGTH(8)" by (rule unsigned_less)
  with snoc show ?case by (simp add: get_be_def)
qed

lemma put_be_get_be: "put_be (length bs) (get_be bs) = bs"
proof (induction bs rule: rev_induct)
  case Nil
  then show ?case by simp
next
  case (snoc b bs)
  have b: "unat b < 256" using unsigned_less [of b, where ?'a = nat] by simp
  have "get_be (bs @ [b]) = get_be bs * 256 + unat b" by (simp add: get_be_def)
  moreover from b have "(get_be bs * 256 + unat b) div 256 = get_be bs"
    and "(get_be bs * 256 + unat b) mod 256 = unat b" by auto
  ultimately show ?case using snoc by simp
qed

definition PutUint16 :: "uint16 \<Rightarrow> bytes" where
  "PutUint16 w = put_be 2 (unat w)"

definition PutUint32 :: "uint32 \<Rightarrow> bytes" where
  "PutUint32 w = put_be 4 (unat w)"

definition PutUint64 :: "uint64 \<Rightarrow> bytes" where
  "PutUint64 w = put_be 8 (unat w)"

definition Uint16 :: "bytes \<Rightarrow> uint16" where
  "Uint16 b = of_nat (get_be (take 2 b))"

definition Uint32 :: "bytes \<Rightarrow> uint32" where
  "Uint32 b = of_nat (get_be (take 4 b))"

definition Uint64 :: "bytes \<Rightarrow> uint64" where
  "Uint64 b = of_nat (get_be (take 8 b))"

lemma length_PutUint [simp]:
  "length (PutUint16 a) = 2" "length (PutUint32 b) = 4" "length (PutUint64 c) = 8"
  by (simp_all add: PutUint16_def PutUint32_def PutUint64_def)

lemma word_of_nat_unat_mod: "LENGTH('a::len) = 8 * n \<Longrightarrow> (of_nat (unat (w :: 'a word) mod 256 ^ n) :: 'a word) = w"
proof -
  assume "LENGTH('a) = 8 * n"
  then have "(256 :: nat) ^ n = 2 ^ LENGTH('a)"
    by (simp add: power_mult)
  then have "unat w < 256 ^ n" by simp
  then show ?thesis by simp
qed

lemma Uint16_PutUint16 [simp]: "Uint16 (PutUint16 w) = w"
  by (simp add: Uint16_def PutUint16_def get_be_put_be del: put_be.simps)
    (rule word_of_nat_unat_mod [where n = 2, simplified], simp)

lemma Uint32_PutUint32 [simp]: "Uint32 (PutUint32 w) = w"
  by (simp add: Uint32_def PutUint32_def get_be_put_be del: put_be.simps)
    (rule word_of_nat_unat_mod [where n = 4, simplified], simp)

lemma Uint64_PutUint64 [simp]: "Uint64 (PutUint64 w) = w"
  by (simp add: Uint64_def PutUint64_def get_be_put_be del: put_be.simps)
    (rule word_of_nat_unat_mod [where n = 8, simplified], simp)

lemma PutUint64_Uint64: "length b = 8 \<Longrightarrow> PutUint64 (Uint64 b) = b"
  using get_be_less [of b] put_be_get_be [of b]
  by (simp add: PutUint64_def Uint64_def unat_of_nat)

section \<open>Hexadecimal text\<close>

definition hextable :: string where
  "hextable = ''0123456789abcdef''"

definition hex_EncodeToString :: "bytes \<Rightarrow> string" where
  "hex_EncodeToString bs = concat (map (\<lambda>b. [hextable ! (unat b div 16), hextable ! (unat b mod 16)]) bs)"

definition fromHexChar :: "char \<Rightarrow> nat option" where
  "fromHexChar c =
     (let n = of_char c in
      if 48 \<le> n \<and> n \<le> 57 then Some (n - 48)
      else if 97 \<le> n \<and> n \<le> 102 then Some (n - 97 + 10)
      else if 65 \<le> n \<and> n \<le> 70 then Some (n - 65 + 10)
      else None)"

text \<open>An invalid digit is reported before an odd length.\<close>

fun hex_DecodeString :: "string \<Rightarrow> bytes go" where
  "hex_DecodeString [] = Ok []"
| "hex_DecodeString [c] =
     (case fromHexChar c of None \<Rightarrow> Err (ErrNew ''encoding/hex: invalid byte'')
      | Some _ \<Rightarrow> Err (ErrVar ''hex.ErrLength''))"
| "hex_DecodeString (c # d # cs) =
     (case (fromHexChar c, fromHexChar d) of
        (Some a, Some b) \<Rightarrow>
          go_bind (hex_DecodeString cs) (\<lambda>bs. Ok (of_nat (a * 16 + b) # bs))
      | _ \<Rightarrow> Err (ErrNew ''encoding/hex: invalid byte''))"

lemma fromHexChar_hextable: "n < 16 \<Longrightarrow> fromHexChar (hextable ! n) = Some n"
proof -
  assume "n < 16"
  moreover have "\<forall>n \<in> set [0..<16]. fromHexChar (hextable ! n) = Some n"
    by (simp add: fromHexChar_def hextable_def upt_rec)
  ultimately show ?thesis by simp
qed

lemma length_hex_EncodeToString [simp]: "length (hex_EncodeToString bs) = 2 * length bs"
  by (induction bs) (auto simp: hex_EncodeToString_def)

lemma hex_DecodeString_EncodeToString [simp]: "hex_DecodeString (hex_EncodeToString bs) = Ok bs"
proof (induction bs)
  case Nil
  then show ?case by (simp add: hex_EncodeToString_def)
next
  case (Cons b bs)
  have b: "unat b < 256" using unsigned_less [of b, where ?'a = nat] by simp
  have "hex_EncodeToString (b # bs)
      = hextable ! (unat b div 16) # hextable ! (unat b mod 16) # hex_EncodeToString bs"
    by (simp add: hex_EncodeToString_def)
  moreover have "fromHexChar (hextable ! (unat b div 16)) = Some (unat b div 16)"
    using b by (intro fromHexChar_hextable) auto
  moreover have "fromHexChar (hextable ! (unat b mod 16)) = Some (unat b mod 16)"
    by (intro fromHexChar_hextable) auto
  moreover have "(of_nat (unat b div 16 * 16 + unat b mod 16) :: byte) = b"
    by simp
  ultimately show ?case
    using Cons by (simp only: hex_DecodeString.simps option.case prod.case go_bind.simps)
qed

lemma hex_EncodeToString_inject [simp]: "hex_EncodeToString a = hex_EncodeToString b \<longleftrightarrow> a = b"
  by (metis go.inject(1) hex_DecodeString_EncodeToString)

section \<open>Decimal text\<close>

fun fmt_nat :: "nat \<Rightarrow> string" where
  "fmt_nat n =
     (if n < 10 then [char_of (48 + n)] else fmt_nat (n div 10) @ [char_of (48 + n mod 10)])"

declare fmt_nat.simps [simp del]

section \<open>Time\<close>

text \<open>
  A \<open>time.Time\<close> is an instant in nanoseconds from the Unix epoch; its zero value is the
  first of January of the year 1.  A \<open>time.Duration\<close> is a number of nanoseconds.  The clock
  is an argument of the operations that read it.
\<close>

type_synonym time = int
type_synonym duration = int

definition time_Second :: duration where "time_Second = 1000000000"
definition time_Millisecond :: duration where "time_Millisecond = 1000000"
definition time_Hour :: duration where "time_Hour = 3600 * time_Second"

definition time_zero :: time where
  "time_zero = - 62135596800 * time_Second"

definition time_IsZero :: "time \<Rightarrow> bool" where
  "time_IsZero t = (t = time_zero)"

definition time_Unix :: "time \<Rightarrow> int" where
  "time_Unix t = t div time_Second"

definition time_FromUnix :: "int \<Rightarrow> time" where
  "time_FromUnix s = s * time_Second"

text \<open>\<open>Time.Sub\<close> saturates at the range of a 64-bit duration.\<close>

definition time_Sub :: "time \<Rightarrow> time \<Rightarrow> duration" where
  "time_Sub t u = max (- (2 ^ 63)) (min (2 ^ 63 - 1) (t - u))"

lemma time_Unix_FromUnix [simp]: "time_Unix (time_FromUnix s) = s"
  by (simp add: time_Unix_def time_FromUnix_def time_Second_def)

end
