(* ===== verification/Util_Locker.thy ===== *)
theory Util_Locker
  imports Go_Base
begin

text \<open>
  The per-name reader/writer lock of \<open>util/multi_locker.go\<close>.  Every method holds the mutex
  \<open>mtx\<close> from its first to its last statement, so each is one atomic step on \<open>inUse\<close>.  A
  method that panics still leaves behind the counter that \<open>getLocker\<close> created.  Counters are
  unbounded integers: 2^63 simultaneous readers are out of reach.
\<close>

section \<open>State and operations\<close>

record refCounter =
  readers :: int
  writers :: int

record 'k lock =
  inUse :: "'k \<rightharpoonup> refCounter"

definition NewMultiLocker :: "'k lock" where
  "NewMultiLocker = \<lparr>inUse = Map.empty\<rparr>"

definition getLocker :: "'k lock \<Rightarrow> 'k \<Rightarrow> refCounter \<times> 'k lock" where
  "getLocker l key =
     (case inUse l key of
        None \<Rightarrow>
          let res = \<lparr>readers = 0, writers = 0\<rparr>
          in (res, l\<lparr>inUse := (inUse l)(key \<mapsto> res)\<rparr>)
      | Some res \<Rightarrow> (res, l))"

definition lock_TryLock :: "'k lock \<Rightarrow> 'k \<Rightarrow> bool \<times> 'k lock" where
  "lock_TryLock l key =
     (let (m, l1) = getLocker l key in
      if readers m > 0 \<or> writers m > 0 then (False, l1)
      else (True, l1\<lparr>inUse := (inUse l1)(key \<mapsto> m\<lparr>writers := writers m + 1\<rparr>)\<rparr>))"

definition lock_TryRLock :: "'k lock \<Rightarrow> 'k \<Rightarrow> bool \<times> 'k lock" where
  "lock_TryRLock l key =
     (let (m, l1) = getLocker l key in
      if writers m > 0 then (False, l1)
      else (True, l1\<lparr>inUse := (inUse l1)(key \<mapsto> m\<lparr>readers := readers m + 1\<rparr>)\<rparr>))"

definition lock_Unlock :: "'k lock \<Rightarrow> 'k \<Rightarrow> unit go \<times> 'k lock" where
  "lock_Unlock l key =
     (let (m, l1) = getLocker l key in
      if writers m \<noteq> 1 then (Panic ''unlocking unlocked multi locker'', l1)
      else
        let m' = m\<lparr>writers := writers m - 1\<rparr> in
        (Ok (), l1\<lparr>inUse := (inUse l1)(key := if writers m' = 0 then None else Some m')\<rparr>))"

definition lock_RUnlock :: "'k lock \<Rightarrow> 'k \<Rightarrow> unit go \<times> 'k lock" where
  "lock_RUnlock l key =
     (let (m, l1) = getLocker l key in
      if readers m < 1 then (Panic ''unlocking unlocked multi locker'', l1)
      else
        let m' = m\<lparr>readers := readers m - 1\<rparr> in
        (Ok (), l1\<lparr>inUse := (inUse l1)(key := if readers m' = 0 then None else Some m')\<rparr>))"

lemmas lock_ops_defs =
  getLocker_def lock_TryLock_def lock_TryRLock_def lock_Unlock_def lock_RUnlock_def

section \<open>The contract of a multi-locker\<close>

text \<open>
  What the update server, the sector server, the updater and the RPC server rely on: \<open>rd l k\<close>
  is the number of read holders of \<open>k\<close> and \<open>wr l k\<close> says whether \<open>k\<close> is write-held.
\<close>

locale multi_locker =
  fixes new :: "'l"
    and TryLock :: "'l \<Rightarrow> 'k \<Rightarrow> bool \<times> 'l"
    and TryRLock :: "'l \<Rightarrow> 'k \<Rightarrow> bool \<times> 'l"
    and Unlock :: "'l \<Rightarrow> 'k \<Rightarrow> unit go \<times> 'l"
    and RUnlock :: "'l \<Rightarrow> 'k \<Rightarrow> unit go \<times> 'l"
    and inv :: "'l \<Rightarrow> bool"
    and rd :: "'l \<Rightarrow> 'k \<Rightarrow> nat"
    and wrt :: "'l \<Rightarrow> 'k \<Rightarrow> bool"
  assumes inv_new: "inv new"
    and rd_new: "rd new k = 0"
    and wrt_new: "\<not> wrt new k"
    and excl: "inv l \<Longrightarrow> wrt l k \<Longrightarrow> rd l k = 0"
    and inv_TryLock: "inv l \<Longrightarrow> inv (snd (TryLock l k))"
    and inv_TryRLock: "inv l \<Longrightarrow> inv (snd (TryRLock l k))"
    and inv_Unlock: "inv l \<Longrightarrow> inv (snd (Unlock l k))"
    and inv_RUnlock: "inv l \<Longrightarrow> inv (snd (RUnlock l k))"
    and TryLock_grant: "inv l \<Longrightarrow> fst (TryLock l k) \<longleftrightarrow> rd l k = 0 \<and> \<not> wrt l k"
    and TryRLock_grant: "inv l \<Longrightarrow> fst (TryRLock l k) \<longleftrightarrow> \<not> wrt l k"
    and TryLock_holders: "inv l \<Longrightarrow> rd (snd (TryLock l k)) = rd l"
      "inv l \<Longrightarrow> wrt (snd (TryLock l k)) = (if fst (TryLock l k) then (wrt l)(k := True) else wrt l)"
    and TryRLock_holders: "inv l \<Longrightarrow> wrt (snd (TryRLock l k)) = wrt l"
      "inv l \<Longrightarrow> rd (snd (TryRLock l k))
        = (if fst (TryRLock l k) then (rd l)(k := Suc (rd l k)) else rd l)"
    and Unlock_result: "inv l \<Longrightarrow> fst (Unlock l k) = Ok () \<longleftrightarrow> wrt l k"
    and RUnlock_result: "inv l \<Longrightarrow> fst (RUnlock l k) = Ok () \<longleftrightarrow> 0 < rd l k"
    and Unlock_holders: "inv l \<Longrightarrow> rd (snd (Unlock l k)) = rd l"
      "inv l \<Longrightarrow> wrt (snd (Unlock l k)) = (wrt l)(k := False)"
    and RUnlock_holders: "inv l \<Longrightarrow> wrt (snd (RUnlock l k)) = wrt l"
      "inv l \<Longrightarrow> rd (snd (RUnlock l k)) = (rd l)(k := rd l k - 1)"
begin

text \<open>A write section that was entered excludes every other entry and can be left.\<close>

lemma write_section:
  assumes "inv l" and "TryLock l k = (True, l1)"
  shows "inv l1" and "\<not> fst (TryLock l1 k)" and "\<not> fst (TryRLock l1 k)"
    and "fst (Unlock l1 k) = Ok ()"
    and "rd (snd (Unlock l1 k)) = rd l" and "wrt (snd (Unlock l1 k)) = wrt l"
proof -
  show inv1: "inv l1" using inv_TryLock [OF assms(1), of k] assms(2) by simp
  have w1: "wrt l1 k" using TryLock_holders(2) [OF assms(1), of k] assms(2) by simp
  show "\<not> fst (TryLock l1 k)" "\<not> fst (TryRLock l1 k)"
    using inv1 w1 by (simp_all add: TryLock_grant TryRLock_grant)
  show "fst (Unlock l1 k) = Ok ()" using inv1 w1 by (simp add: Unlock_result)
  show "rd (snd (Unlock l1 k)) = rd l"
    using TryLock_holders(1) [OF assms(1), of k] assms(2) inv1 by (simp add: Unlock_holders)
  have "\<not> wrt l k" using TryLock_grant [OF assms(1), of k] assms(2) by simp
  then show "wrt (snd (Unlock l1 k)) = wrt l"
    using TryLock_holders(2) [OF assms(1), of k] assms(2) inv1
    by (auto simp: Unlock_holders fun_upd_idem)
qed

text \<open>A read section that was entered keeps writers out and can be left.\<close>

lemma read_section:
  assumes "inv l" and "TryRLock l k = (True, l1)"
  shows "inv l1" and "\<not> fst (TryLock l1 k)" and "fst (RUnlock l1 k) = Ok ()"
    and "rd (snd (RUnlock l1 k)) = rd l" and "wrt (snd (RUnlock l1 k)) = wrt l"
proof -
  show inv1: "inv l1" using inv_TryRLock [OF assms(1), of k] assms(2) by simp
  have r1: "rd l1 = (rd l)(k := Suc (rd l k))" and w1: "wrt l1 = wrt l"
    using TryRLock_holders [OF assms(1), of k] assms(2) by simp_all
  show "\<not> fst (TryLock l1 k)" using inv1 r1 by (simp add: TryLock_grant)
  show "fst (RUnlock l1 k) = Ok ()" using inv1 r1 by (simp add: RUnlock_result)
  show "rd (snd (RUnlock l1 k)) = rd l" using inv1 r1 by (simp add: RUnlock_holders fun_upd_idem)
  show "wrt (snd (RUnlock l1 k)) = wrt l" using inv1 w1 by (simp add: RUnlock_holders)
qed

end

section \<open>The lock of the source meets the contract\<close>

definition lock_inv :: "'k lock \<Rightarrow> bool" where
  "lock_inv l \<longleftrightarrow>
     (\<forall>k m. inUse l k = Some m \<longrightarrow>
        0 \<le> readers m \<and> (writers m = 0 \<or> writers m = 1) \<and> (writers m = 0 \<or> readers m = 0))"

definition read_holders :: "'k lock \<Rightarrow> 'k \<Rightarrow> nat" where
  "read_holders l k = (case inUse l k of None \<Rightarrow> 0 | Some m \<Rightarrow> nat (readers m))"

definition write_held :: "'k lock \<Rightarrow> 'k \<Rightarrow> bool" where
  "write_held l k = (case inUse l k of None \<Rightarrow> False | Some m \<Rightarrow> writers m = 1)"

lemma lock_invD:
  "lock_inv l \<Longrightarrow> inUse l k = Some m \<Longrightarrow>
     0 \<le> readers m \<and> (writers m = 0 \<or> writers m = 1) \<and> (writers m = 0 \<or> readers m = 0)"
  by (simp add: lock_inv_def)

lemma lock_inv_upd:
  assumes "lock_inv l"
    and "\<And>m. c = Some m \<Longrightarrow>
      0 \<le> readers m \<and> (writers m = 0 \<or> writers m = 1) \<and> (writers m = 0 \<or> readers m = 0)"
  shows "lock_inv (l\<lparr>inUse := (inUse l)(k := c)\<rparr>)"
  using assms by (auto simp: lock_inv_def)

lemma holders_upd [simp]:
  "read_holders (l\<lparr>inUse := (inUse l)(k := c)\<rparr>)
     = (read_holders l)(k := case c of None \<Rightarrow> 0 | Some m \<Rightarrow> nat (readers m))"
  "write_held (l\<lparr>inUse := (inUse l)(k := c)\<rparr>)
     = (write_held l)(k := case c of None \<Rightarrow> False | Some m \<Rightarrow> writers m = 1)"
  by (simp_all add: fun_eq_iff read_holders_def write_held_def)

lemma holders_at:
  "inUse l k = None \<Longrightarrow> read_holders l k = 0" "inUse l k = None \<Longrightarrow> \<not> write_held l k"
  "inUse l k = Some m \<Longrightarrow> read_holders l k = nat (readers m)"
  "inUse l k = Some m \<Longrightarrow> write_held l k = (writers m = 1)"
  by (simp_all add: read_holders_def write_held_def)

lemmas lock_step_simps = lock_ops_defs Let_def holders_at fun_upd_idem_iff

interpretation ml: multi_locker NewMultiLocker lock_TryLock lock_TryRLock lock_Unlock lock_RUnlock
  lock_inv read_holders write_held
proof (unfold_locales, goal_cases)
  case 1 show ?case by (simp add: lock_inv_def NewMultiLocker_def)
next
  case 2 show ?case by (simp add: read_holders_def NewMultiLocker_def)
next
  case 3 show ?case by (simp add: write_held_def NewMultiLocker_def)
next
  case (4 l k) then show ?case
    by (cases "inUse l k") (auto simp: holders_at dest: lock_invD)
next
  case (5 l k) then show ?case
    by (cases "inUse l k") (auto simp: lock_ops_defs Let_def intro!: lock_inv_upd dest: lock_invD)
next
  case (6 l k) then show ?case
    by (cases "inUse l k") (auto simp: lock_ops_defs Let_def intro!: lock_inv_upd dest: lock_invD)
next
  case (7 l k) then show ?case
    by (cases "inUse l k") (auto simp: lock_ops_defs Let_def intro!: lock_inv_upd dest: lock_invD)
next
  case (8 l k) then show ?case
    by (cases "inUse l k") (auto simp: lock_ops_defs Let_def intro!: lock_inv_upd dest: lock_invD)
next
  case (9 l k) then show ?case
    by (cases "inUse l k") (auto simp: lock_step_simps dest: lock_invD)
next
  case (10 l k) then show ?case
    by (cases "inUse l k") (auto simp: lock_step_simps dest: lock_invD)
next
  case (11 l k) then show ?case
    by (cases "inUse l k") (auto simp: lock_step_simps fun_eq_iff)
next
  case (12 l k) then show ?case
    by (cases "inUse l k") (auto simp: lock_step_simps fun_eq_iff dest: lock_invD)
next
  case (13 l k) then show ?case
    by (cases "inUse l k") (auto simp: lock_step_simps fun_eq_iff)
next
  case (14 l k) then show ?case
    by (cases "inUse l k") (auto simp: lock_step_simps fun_eq_iff dest: lock_invD)
next
  case (15 l k) then show ?case
    by (cases "inUse l k") (auto simp: lock_step_simps)
next
  case (16 l k) then show ?case
    by (cases "inUse l k") (auto simp: lock_step_simps)
next
  case (17 l k) then show ?case
    by (cases "inUse l k") (auto simp: lock_step_simps fun_eq_iff dest: lock_invD)
next
  case (18 l k) then show ?case
    by (cases "inUse l k") (auto simp: lock_step_simps fun_eq_iff dest: lock_invD)
next
  case (19 l k) then show ?case
    by (cases "inUse l k") (auto simp: lock_step_simps fun_eq_iff dest: lock_invD)
next
  case (20 l k) then show ?case
    by (cases "inUse l k") (auto simp: lock_step_simps fun_eq_iff dest: lock_invD)
qed

section \<open>Runs of well-behaved clients\<close>

text \<open>
  A run interleaves the methods of any number of goroutines.  \<open>W k\<close> and \<open>R k\<close> count the write
  and read sections that are open: a granted \<open>TryLock\<close> or \<open>TryRLock\<close> opens one, and a client
  only calls \<open>Unlock\<close> or \<open>RUnlock\<close> for a section it has open.
\<close>

inductive lock_run :: "'k lock \<Rightarrow> ('k \<Rightarrow> nat) \<Rightarrow> ('k \<Rightarrow> nat) \<Rightarrow> bool" where
  run_new: "lock_run NewMultiLocker (\<lambda>_. 0) (\<lambda>_. 0)"
| run_TryLock: "lock_run l W R \<Longrightarrow> lock_TryLock l k = (b, l') \<Longrightarrow>
    lock_run l' (if b then W(k := Suc (W k)) else W) R"
| run_TryRLock: "lock_run l W R \<Longrightarrow> lock_TryRLock l k = (b, l') \<Longrightarrow>
    lock_run l' W (if b then R(k := Suc (R k)) else R)"
| run_Unlock: "lock_run l W R \<Longrightarrow> 0 < W k \<Longrightarrow> lock_Unlock l k = (r, l') \<Longrightarrow>
    lock_run l' (W(k := W k - 1)) R"
| run_RUnlock: "lock_run l W R \<Longrightarrow> 0 < R k \<Longrightarrow> lock_RUnlock l k = (r, l') \<Longrightarrow>
    lock_run l' W (R(k := R k - 1))"

lemma lock_run_abs:
  assumes "lock_run l W R"
  shows "lock_inv l \<and> read_holders l = R \<and> (\<forall>k. W k = (if write_held l k then 1 else 0))"
  using assms
proof (induction rule: lock_run.induct)
  case run_new
  then show ?case by (simp add: fun_eq_iff ml.inv_new ml.rd_new ml.wrt_new)
next
  case (run_TryLock l W R k b l')
  then show ?case
    using ml.inv_TryLock [of l k] ml.TryLock_holders [of l k] ml.TryLock_grant [of l k] by auto
next
  case (run_TryRLock l W R k b l')
  then show ?case
    using ml.inv_TryRLock [of l k] ml.TryRLock_holders [of l k] by auto
next
  case (run_Unlock l W R k r l')
  then show ?case
    using ml.inv_Unlock [of l k] ml.Unlock_holders [of l k] by auto
next
  case (run_RUnlock l W R k r l')
  then show ?case
    using ml.inv_RUnlock [of l k] ml.RUnlock_holders [of l k] by auto
qed

text \<open>
  C18. Mutual exclusion: in every interleaving of well-behaved clients a key has at most one open
  write section, never together with an open read section, and no unlock of an open section
  panics.
\<close>

theorem lock_mutual_exclusion:
  assumes "lock_run l W R"
  shows "W k \<le> 1 \<and> (W k = 0 \<or> R k = 0)
    \<and> (0 < W k \<longrightarrow> fst (lock_Unlock l k) = Ok ())
    \<and> (0 < R k \<longrightarrow> fst (lock_RUnlock l k) = Ok ())"
proof -
  have inv: "lock_inv l" and R: "read_holders l k = R k"
    and W: "W k = (if write_held l k then 1 else 0)"
    using lock_run_abs [OF assms] by auto
  show ?thesis
    using ml.excl [OF inv, of k] ml.Unlock_result [OF inv, of k] ml.RUnlock_result [OF inv, of k] R W
    by auto
qed

theorem lock_mutual_exclusion_witness:
  "lock_run (snd (lock_TryLock NewMultiLocker ''name'')) ((\<lambda>_. 0)(''name'' := 1)) (\<lambda>_. 0)
   \<and> fst (lock_Unlock (snd (lock_TryLock NewMultiLocker ''name'')) ''name'') = Ok ()"
proof -
  have grant: "lock_TryLock NewMultiLocker ''name''
      = (True, snd (lock_TryLock NewMultiLocker ''name''))"
    by (simp add: lock_ops_defs NewMultiLocker_def Let_def)
  have run: "lock_run (snd (lock_TryLock NewMultiLocker ''name'')) ((\<lambda>_. 0)(''name'' := 1)) (\<lambda>_. 0)"
    using run_TryLock [OF run_new grant] by simp
  then show ?thesis
    using lock_mutual_exclusion [OF run, of "''name''"] by simp
qed

end
