(* ===== verification/Util_Cache.thy ===== *)
theory Util_Cache
  imports Go_Base "HOL-Library.AList"
begin

text \<open>
  The expiring cache of \<open>util/cache.go\<close>.  Times are nanoseconds since the Unix epoch and are
  passed in as \<open>now\<close>.  The entries are an association list with distinct keys, whose order is
  the unspecified order in which Go iterates the map.  The calls of \<open>ReaperFunc\<close> are returned
  as a list of key/value pairs.  The reaper goroutine is the step \<open>Cache_reapTick\<close>, enabled
  while \<open>reapTicker\<close> is set.
\<close>

section \<open>State and operations\<close>

definition int64 :: "int \<Rightarrow> int" where
  "int64 x = (x + 2 ^ 63) mod 2 ^ 64 - 2 ^ 63"

definition MaxInt16 :: int where
  "MaxInt16 = 32767"

record 'v entry =
  entry_val :: 'v
  entry_expiry :: int

record 'v Cache =
  cache_entries :: "(string \<times> 'v entry) list"
  cache_reapTicker :: bool

definition NewCache :: "'v Cache" where
  "NewCache = \<lparr>cache_entries = [], cache_reapTicker = False\<rparr>"

definition Cache_Get ::
  "time \<Rightarrow> 'v Cache \<Rightarrow> string \<Rightarrow> 'v option \<times> (string \<times> 'v) list \<times> 'v Cache" where
  "Cache_Get now l key =
     (case map_of (cache_entries l) key of
        None \<Rightarrow> (None, [], l)
      | Some e \<Rightarrow>
          if now > entry_expiry e
          then (None, [(key, entry_val e)],
                l\<lparr>cache_entries := AList.delete key (cache_entries l)\<rparr>)
          else (Some (entry_val e), [], l))"

definition Cache_touchReaper :: "'v Cache \<Rightarrow> 'v Cache" where
  "Cache_touchReaper l = (if cache_reapTicker l then l else l\<lparr>cache_reapTicker := True\<rparr>)"

text \<open>A value of \<open>None\<close> is the nil interface.\<close>

definition Cache_Set ::
  "time \<Rightarrow> 'v Cache \<Rightarrow> string \<Rightarrow> 'v option \<Rightarrow> int \<Rightarrow> unit go \<times> 'v Cache" where
  "Cache_Set now l key val expMS =
     (case val of
        None \<Rightarrow> (Panic ''cache values cannot be nil'', l)
      | Some v \<Rightarrow>
          let expiry = (if expMS = 0 then MaxInt16
                        else int64 (now + int64 (expMS * time_Millisecond)));
              l1 = l\<lparr>cache_entries := AList.update key
                       \<lparr>entry_val = v, entry_expiry = expiry\<rparr> (cache_entries l)\<rparr>
          in (Ok (), Cache_touchReaper l1))"

definition Cache_Has ::
  "time \<Rightarrow> 'v Cache \<Rightarrow> string \<Rightarrow> bool \<times> (string \<times> 'v) list \<times> 'v Cache" where
  "Cache_Has now l key = (let (v, reaped, l') = Cache_Get now l key in (v \<noteq> None, reaped, l'))"

definition Cache_Del :: "'v Cache \<Rightarrow> string \<Rightarrow> 'v Cache" where
  "Cache_Del l key = l\<lparr>cache_entries := AList.delete key (cache_entries l)\<rparr>"

definition Cache_toDelete :: "time \<Rightarrow> 'v Cache \<Rightarrow> (string \<times> 'v entry) list" where
  "Cache_toDelete now l = filter (\<lambda>(k, e). \<not> time_Unix now < entry_expiry e) (cache_entries l)"

definition Cache_reap :: "time \<Rightarrow> 'v Cache \<Rightarrow> (string \<times> 'v) list \<times> 'v Cache" where
  "Cache_reap now l =
     (map (\<lambda>(k, e). (k, entry_val e)) (Cache_toDelete now l),
      l\<lparr>cache_entries := fold (\<lambda>(k, e). AList.delete k) (Cache_toDelete now l) (cache_entries l)\<rparr>)"

text \<open>One tick of the goroutine that \<open>touchReaper\<close> starts; it stops once the cache is empty.\<close>

definition Cache_reapTick :: "time \<Rightarrow> 'v Cache \<Rightarrow> (string \<times> 'v) list \<times> 'v Cache" where
  "Cache_reapTick now l =
     (let (reaped, l1) = Cache_reap now l in
      (reaped, if cache_entries l1 = [] then l1\<lparr>cache_reapTicker := False\<rparr> else l1))"

section \<open>Lookup laws\<close>

definition cache_wf :: "'v Cache \<Rightarrow> bool" where
  "cache_wf l \<longleftrightarrow> distinct (map fst (cache_entries l)) \<and>
     (cache_entries l \<noteq> [] \<longrightarrow> cache_reapTicker l)"

lemma AList_delete_Nil_iff: "AList.delete k xs = [] \<longleftrightarrow> fst ` set xs \<subseteq> {k}"
  by (induction xs) auto

lemma fold_delete_filter:
  "fold (\<lambda>(k, e). AList.delete k) ds xs = filter (\<lambda>(k, e). k \<notin> fst ` set ds) xs"
proof (induction ds arbitrary: xs)
  case (Cons d ds)
  then show ?case
    by (cases d) (auto simp: AList.delete_eq case_prod_unfold intro: filter_cong)
qed simp

lemma Cache_reap_entries:
  assumes "cache_wf l"
  shows "cache_entries (snd (Cache_reap now l))
    = filter (\<lambda>(k, e). time_Unix now < entry_expiry e) (cache_entries l)"
proof -
  have "p \<in> set (cache_entries l) \<Longrightarrow>
      fst p \<in> fst ` set (Cache_toDelete now l) \<longleftrightarrow> \<not> time_Unix now < entry_expiry (snd p)" for p
    using assms by (force simp: Cache_toDelete_def cache_wf_def distinct_map inj_on_def)
  then show ?thesis
    by (simp add: Cache_reap_def fold_delete_filter) (rule filter_cong, simp_all add: case_prod_unfold)
qed

lemma cache_wf_New: "cache_wf NewCache"
  by (simp add: cache_wf_def NewCache_def)

lemma cache_wf_Get: "cache_wf l \<Longrightarrow> cache_wf (snd (snd (Cache_Get now l key)))"
  by (auto simp: Cache_Get_def cache_wf_def distinct_delete split: option.splits)

lemma AList_update_not_Nil [simp]: "AList.update k v xs \<noteq> []"
  by (cases xs) auto

lemma cache_wf_Set: "cache_wf l \<Longrightarrow> cache_wf (snd (Cache_Set now l key val expMS))"
  by (auto simp: Cache_Set_def Cache_touchReaper_def cache_wf_def Let_def distinct_update
      split: option.splits)

lemma cache_wf_Del: "cache_wf l \<Longrightarrow> cache_wf (Cache_Del l key)"
  by (auto simp: Cache_Del_def cache_wf_def distinct_delete)

lemma cache_wf_reapTick:
  assumes "cache_wf l"
  shows "cache_wf (snd (Cache_reapTick now l))"
proof -
  have ticker: "cache_reapTicker (snd (Cache_reap now l)) = cache_reapTicker l"
    by (simp add: Cache_reap_def)
  have "distinct (map fst (cache_entries (snd (Cache_reap now l))))"
    using assms by (simp add: Cache_reap_entries cache_wf_def distinct_map_filter)
  moreover have "cache_entries (snd (Cache_reap now l)) \<noteq> [] \<Longrightarrow> cache_reapTicker l"
    using assms by (auto simp: Cache_reap_entries cache_wf_def)
  ultimately show ?thesis
    using ticker by (auto simp: Cache_reapTick_def cache_wf_def case_prod_unfold Let_def)
qed

text \<open>The value a reader sees, without the effect of the read.\<close>

definition cache_lookup :: "time \<Rightarrow> 'v Cache \<Rightarrow> string \<Rightarrow> 'v option" where
  "cache_lookup now l key = fst (Cache_Get now l key)"

lemma cache_lookup_eq:
  "cache_lookup now l key =
     (case map_of (cache_entries l) key of
        None \<Rightarrow> None | Some e \<Rightarrow> if now > entry_expiry e then None else Some (entry_val e))"
  by (simp add: cache_lookup_def Cache_Get_def split: option.splits)

lemma cache_lookup_Set:
  assumes "Cache_Set now l key (Some v) expMS = (Ok (), l')"
  shows "cache_lookup t l' k =
    (if k = key
     then if t > (if expMS = 0 then MaxInt16 else int64 (now + int64 (expMS * time_Millisecond)))
          then None else Some v
     else cache_lookup t l k)"
  using assms
  by (auto simp: Cache_Set_def Cache_touchReaper_def Let_def cache_lookup_eq update_conv'
      split: if_splits)

lemma cache_lookup_Del: "cache_lookup t (Cache_Del l key) k = (if k = key then None else cache_lookup t l k)"
  by (simp add: Cache_Del_def cache_lookup_eq delete_conv')

lemma cache_lookup_Get:
  "cache_lookup now' (snd (snd (Cache_Get now l key))) k =
     (if k = key \<and> cache_lookup now l key = None then None else cache_lookup now' l k)"
  by (auto simp: Cache_Get_def cache_lookup_eq delete_conv' split: option.splits)

lemma int64_id: "- (2 ^ 63) \<le> x \<Longrightarrow> x < 2 ^ 63 \<Longrightarrow> int64 x = x"
  by (simp add: int64_def)

section \<open>Properties\<close>

text \<open>
  A value stored with a positive lifetime is returned by \<open>Get\<close> at every time up to its
  expiry and by none after it; other keys are not affected; and the first late \<open>Get\<close> hands the
  value to the reaper function exactly once and forgets the key.
\<close>

theorem Cache_Set_Get:
  assumes "Cache_Set now l key (Some v) expMS = (Ok (), l')"
    and "0 < expMS" and "0 \<le> now" and "now + expMS * time_Millisecond < 2 ^ 63"
  shows "fst (Cache_Get t l' k) =
      (if k = key then if t \<le> now + expMS * time_Millisecond then Some v else None
       else fst (Cache_Get t l k))
    \<and> (t > now + expMS * time_Millisecond \<longrightarrow>
        fst (snd (Cache_Get t l' key)) = [(key, v)]
        \<and> Cache_Get t2 (snd (snd (Cache_Get t l' key))) key
            = (None, [], snd (snd (Cache_Get t l' key))))"
proof -
  have "int64 (expMS * time_Millisecond) = expMS * time_Millisecond"
    and "int64 (now + expMS * time_Millisecond) = now + expMS * time_Millisecond"
    using assms(2-4) by (auto intro!: int64_id simp: time_Millisecond_def)
  then have e: "int64 (now + int64 (expMS * time_Millisecond)) = now + expMS * time_Millisecond"
    by simp
  have "fst (Cache_Get t l' k) =
      (if k = key then if t \<le> now + expMS * time_Millisecond then Some v else None
       else fst (Cache_Get t l k))"
    using cache_lookup_Set [OF assms(1), of t k] assms(2) e by (auto simp: cache_lookup_def)
  moreover have "map_of (cache_entries l') key
      = Some \<lparr>entry_val = v, entry_expiry = now + expMS * time_Millisecond\<rparr>"
    using assms(1,2) e
    by (auto simp: Cache_Set_def Cache_touchReaper_def Let_def update_conv' split: if_splits)
  ultimately show ?thesis
    by (simp add: Cache_Get_def delete_conv')
qed

theorem Cache_Set_Get_witness:
  "fst (Cache_Get 5000000 (snd (Cache_Set 0 NewCache ''k'' (Some (7::int)) 5)) ''k'') = Some 7
   \<and> fst (snd (Cache_Get 5000001 (snd (Cache_Set 0 NewCache ''k'' (Some (7::int)) 5)) ''k''))
       = [(''k'', 7)]"
proof -
  have s: "Cache_Set 0 NewCache ''k'' (Some (7::int)) 5
      = (Ok (), snd (Cache_Set 0 NewCache ''k'' (Some (7::int)) 5))"
    by (simp add: Cache_Set_def Let_def)
  show ?thesis
    using Cache_Set_Get [OF s, of 5000000 "''k''"] Cache_Set_Get [OF s, of 5000001]
    by (simp add: time_Millisecond_def)
qed

text \<open>
  The background reaper compares whole seconds with an expiry in nanoseconds, so a tick never
  removes an entry whose lifetime ended unless a billion times the expiry has passed: every entry
  with a positive expiry survives every tick before that.
\<close>

theorem Cache_reap_misses_expired:
  assumes "cache_wf l" and "map_of (cache_entries l) key = Some e"
    and "t < 1000000000 * entry_expiry e"
  shows "map_of (cache_entries (snd (Cache_reapTick t l))) key = Some e"
proof -
  have "time_Unix t < entry_expiry e"
    using assms(3) by (simp add: time_Unix_def time_Second_def)
  moreover have "(key, e) \<in> set (cache_entries l)"
    using assms(2) by (rule map_of_SomeD)
  ultimately have kept: "(key, e) \<in> set (cache_entries (snd (Cache_reap t l)))"
    by (simp add: Cache_reap_entries [OF assms(1)])
  then have "cache_entries (snd (Cache_reap t l)) \<noteq> []" by auto
  then have "(key, e) \<in> set (cache_entries (snd (Cache_reapTick t l)))"
    using kept by (simp add: Cache_reapTick_def case_prod_unfold Let_def)
  moreover have "cache_wf (snd (Cache_reapTick t l))"
    by (rule cache_wf_reapTick [OF assms(1)])
  ultimately show ?thesis
    by (simp add: cache_wf_def)
qed

theorem Cache_reap_misses_expired_witness:
  "map_of (cache_entries (snd (Cache_reapTick 1700000000000000000
      (snd (Cache_Set 1600000000000000000 NewCache ''tx'' (Some True) 1000))))) ''tx''
    = Some \<lparr>entry_val = True, entry_expiry = 1600000001000000000\<rparr>"
proof -
  define l where "l = snd (Cache_Set 1600000000000000000 NewCache ''tx'' (Some True) 1000)"
  have "cache_wf l" unfolding l_def by (rule cache_wf_Set [OF cache_wf_New])
  moreover have "map_of (cache_entries l) ''tx''
      = Some \<lparr>entry_val = True, entry_expiry = 1600000001000000000\<rparr>"
    by (simp add: l_def Cache_Set_def Cache_touchReaper_def NewCache_def Let_def int64_def
        time_Millisecond_def)
  ultimately show ?thesis
    using Cache_reap_misses_expired [of l "''tx''" _ 1700000000000000000] by (simp add: l_def)
qed

end
