(* ===== verification/Util_Sampler.thy ===== *)
theory Util_Sampler
  imports Go_Base
begin

text \<open>
  Random sampling of indices, \<open>util/sampler.go\<close>.  The generator is the argument \<open>rnd\<close>: its
  \<open>p\<close>-th draw below \<open>n\<close> is \<open>rnd p n\<close>, and \<open>rand_ok\<close> is the documented range of
  \<open>math/rand.Intn\<close>.
\<close>

definition rand_ok :: "(nat \<Rightarrow> nat \<Rightarrow> nat) \<Rightarrow> bool" where
  "rand_ok rnd \<longleftrightarrow> (\<forall>p n. 0 < n \<longrightarrow> rnd p n < n)"

text \<open>The inner loop: at most 100 draws for one unused index.  The second component counts draws.\<close>

function SampleOne :: "(nat \<Rightarrow> nat \<Rightarrow> nat) \<Rightarrow> nat \<Rightarrow> nat list \<Rightarrow> nat \<Rightarrow> nat \<Rightarrow> (nat \<times> nat) go" where
  "SampleOne rnd sliceLen used p i =
     (if 100 \<le> i then Panic ''failed to find random sample in time''
      else
        let j = rnd p sliceLen in
        if j \<notin> set used then Ok (j, Suc p) else SampleOne rnd sliceLen used (Suc p) (Suc i))"
  by pat_completeness auto
termination
  by (relation "measure (\<lambda>(_, _, _, _, i). 100 - i)") auto

declare SampleOne.simps [simp del]

fun SampleLoop :: "(nat \<Rightarrow> nat \<Rightarrow> nat) \<Rightarrow> nat \<Rightarrow> nat list \<Rightarrow> nat \<Rightarrow> nat \<Rightarrow> nat list go" where
  "SampleLoop rnd sliceLen out p 0 = Ok out"
| "SampleLoop rnd sliceLen out p (Suc missing) =
     go_bind (SampleOne rnd sliceLen out p 0)
       (\<lambda>(j, p'). SampleLoop rnd sliceLen (out @ [j]) p' missing)"

definition SampleIndices :: "(nat \<Rightarrow> nat \<Rightarrow> nat) \<Rightarrow> nat \<Rightarrow> int \<Rightarrow> nat list go" where
  "SampleIndices rnd sliceLen count =
     (if sliceLen = 0 then Ok []
      else if count > int sliceLen then Ok [0..<sliceLen]
      else SampleLoop rnd sliceLen [] 0 (nat count))"

lemma SampleOne_Ok:
  assumes "SampleOne rnd n used p i = Ok (j, p')" and "rand_ok rnd" and "0 < n"
  shows "j \<notin> set used \<and> j < n"
  using assms
proof (induction rnd n used p i arbitrary: j p' rule: SampleOne.induct)
  case (1 rnd n used p i)
  then show ?case
    by (subst (asm) SampleOne.simps) (auto simp: Let_def rand_ok_def split: if_splits)
qed

lemma SampleLoop_Ok:
  assumes "SampleLoop rnd n out p m = Ok res" and "rand_ok rnd" and "0 < n"
    and "distinct out" and "set out \<subseteq> {..<n}"
  shows "distinct res \<and> set res \<subseteq> {..<n} \<and> length res = length out + m"
  using assms
proof (induction m arbitrary: out p)
  case (Suc m)
  then obtain j p' where one: "SampleOne rnd n out p 0 = Ok (j, p')"
    and rest: "SampleLoop rnd n (out @ [j]) p' m = Ok res"
    by (auto simp: go_bind_eq_Ok)
  have "j \<notin> set out \<and> j < n" using SampleOne_Ok [OF one Suc.prems(2,3)] .
  then have "distinct res \<and> set res \<subseteq> {..<n} \<and> length res = length (out @ [j]) + m"
    using Suc.prems by (intro Suc.IH [OF rest]) auto
  then show ?case by simp
qed simp

lemma SampleOne_hit:
  "rnd p n \<notin> set used \<Longrightarrow> i < 100 \<Longrightarrow> SampleOne rnd n used p i = Ok (rnd p n, Suc p)"
  by (subst SampleOne.simps) (simp add: Let_def)

text \<open>A draw that hits an unused index among the next 100 ends the inner loop.\<close>

lemma SampleOne_returns:
  assumes "rnd (p + d) n \<notin> set used" and "i + d < 100"
  shows "\<exists>j p'. SampleOne rnd n used p i = Ok (j, p')"
  using assms
proof (induction d arbitrary: p i)
  case 0
  then show ?case by (simp add: SampleOne_hit)
next
  case (Suc d)
  then have "\<exists>j p'. SampleOne rnd n used (Suc p) (Suc i) = Ok (j, p')" by simp
  with Suc.prems show ?case by (subst SampleOne.simps) (auto simp: Let_def)
qed

text \<open>
  Whatever the generator draws, a sample that is returned has no repeated index, only indices
  of the slice, and as many of them as were asked for and are available.
\<close>

theorem SampleIndices_sample:
  assumes "rand_ok rnd" and "SampleIndices rnd n count = Ok res"
  shows "distinct res \<and> set res \<subseteq> {..<n} \<and> length res = min (nat count) n"
  using assms SampleLoop_Ok [of rnd n "[]" 0 "nat count" res]
  by (auto simp: SampleIndices_def split: if_splits)

theorem SampleIndices_sample_witness:
  "SampleIndices (\<lambda>p n. p mod n) 5 3 = Ok [0, 1, 2] \<and> distinct [0, 1, 2 :: nat]"
proof -
  have ok: "rand_ok (\<lambda>p n. p mod n)" by (simp add: rand_ok_def)
  have eq: "SampleIndices (\<lambda>p n. p mod n) 5 3 = Ok [0, 1, 2]"
    by (simp add: SampleIndices_def SampleOne_hit numeral_3_eq_3)
  show ?thesis using SampleIndices_sample [OF ok eq] eq by simp
qed

end
