(* ===== verification/Util_Observable.thy ===== *)
theory Util_Observable
  imports Go_Base "HOL-Library.AList"
begin

text \<open>
  The event emitter of \<open>util/observable.go\<close>.  A callback is any value; \<open>isFunc\<close> is the reflect
  test.  \<open>Emit\<close> starts one goroutine per listener; a goroutine that was started is a pending pair of
  handle and arguments, and runs later, when \<open>wrapped\<close> reads the \<open>closed\<close> flag of its listener.
\<close>

section \<open>State and operations\<close>

record 'cb Observable =
  obs_listeners :: "(string \<times> (nat \<times> 'cb) list) list"
  obs_hdl :: nat
  obs_closed :: "nat set"

definition NewObservable :: "'cb Observable" where
  "NewObservable = \<lparr>obs_listeners = [], obs_hdl = 0, obs_closed = {}\<rparr>"

definition obs_at :: "'cb Observable \<Rightarrow> string \<Rightarrow> (nat \<times> 'cb) list" where
  "obs_at ob evt = (case map_of (obs_listeners ob) evt of None \<Rightarrow> [] | Some ls \<Rightarrow> ls)"

definition Observable_On ::
  "('cb \<Rightarrow> bool) \<Rightarrow> 'cb Observable \<Rightarrow> string \<Rightarrow> 'cb \<Rightarrow> nat go \<times> 'cb Observable" where
  "Observable_On isFunc ob evt cb =
     (if \<not> isFunc cb then (Panic ''callback must be of type reflect.Func'', ob)
      else
        let hdl = obs_hdl ob in
        (Ok hdl,
         ob\<lparr>obs_hdl := hdl + 1,
            obs_listeners := AList.update evt (AList.update hdl cb (obs_at ob evt)) (obs_listeners ob)\<rparr>))"

definition Observable_off ::
  "'cb Observable \<Rightarrow> string \<Rightarrow> nat \<Rightarrow> unit go \<times> 'cb Observable" where
  "Observable_off ob evt hdl =
     (if map_of (obs_at ob evt) hdl = None then (Panic ''listener not found'', ob)
      else
        let ls = AList.delete hdl (obs_at ob evt) in
        (Ok (),
         ob\<lparr>obs_listeners :=
              if ls = [] then AList.delete evt (obs_listeners ob)
              else AList.update evt ls (obs_listeners ob)\<rparr>))"

text \<open>The function that \<open>On\<close> returns.\<close>

definition Observable_unsubscribe ::
  "'cb Observable \<Rightarrow> string \<Rightarrow> nat \<Rightarrow> unit go \<times> 'cb Observable" where
  "Observable_unsubscribe ob evt hdl =
     Observable_off (ob\<lparr>obs_closed := insert hdl (obs_closed ob)\<rparr>) evt hdl"

definition Observable_Emit ::
  "'cb Observable \<Rightarrow> string \<Rightarrow> 'a \<Rightarrow> (nat \<times> 'cb \<times> 'a) list" where
  "Observable_Emit ob evt args = map (\<lambda>(hdl, cb). (hdl, cb, args)) (obs_at ob evt)"

definition Observable_wrapped ::
  "'cb Observable \<Rightarrow> nat \<times> 'cb \<times> 'a \<Rightarrow> (nat \<times> 'cb \<times> 'a) option" where
  "Observable_wrapped ob g = (if fst g \<in> obs_closed ob then None else Some g)"

lemmas obs_defs =
  Observable_On_def Observable_off_def Observable_unsubscribe_def Observable_Emit_def
  Observable_wrapped_def

section \<open>Interleavings\<close>

datatype ('cb, 'a) obs_event =
    OnEv string 'cb nat
  | UnsubEv string nat
  | EmitEv string 'a
  | CallEv nat 'cb 'a

inductive obs_step ::
  "('cb \<Rightarrow> bool) \<Rightarrow> 'cb Observable \<times> (nat \<times> 'cb \<times> 'a) list \<Rightarrow> ('cb, 'a) obs_event option
     \<Rightarrow> 'cb Observable \<times> (nat \<times> 'cb \<times> 'a) list \<Rightarrow> bool"
  for isFunc :: "'cb \<Rightarrow> bool" where
  step_On: "Observable_On isFunc ob evt cb = (Ok h, ob') \<Longrightarrow>
    obs_step isFunc (ob, pend) (Some (OnEv evt cb h)) (ob', pend)"
| step_Unsub: "Observable_unsubscribe ob evt h = (Ok (), ob') \<Longrightarrow>
    obs_step isFunc (ob, pend) (Some (UnsubEv evt h)) (ob', pend)"
| step_Emit: "obs_step isFunc (ob, pend) (Some (EmitEv evt a)) (ob, pend @ Observable_Emit ob evt a)"
| step_Call: "pend = xs @ g # ys \<Longrightarrow> Observable_wrapped ob g = Some (h, cb, a) \<Longrightarrow>
    obs_step isFunc (ob, pend) (Some (CallEv h cb a)) (ob, xs @ ys)"
| step_Skip: "pend = xs @ g # ys \<Longrightarrow> Observable_wrapped ob g = None \<Longrightarrow>
    obs_step isFunc (ob, pend) None (ob, xs @ ys)"

inductive obs_run ::
  "('cb \<Rightarrow> bool) \<Rightarrow> 'cb Observable \<times> (nat \<times> 'cb \<times> 'a) list \<Rightarrow> ('cb, 'a) obs_event option list
     \<Rightarrow> 'cb Observable \<times> (nat \<times> 'cb \<times> 'a) list \<Rightarrow> bool"
  for isFunc :: "'cb \<Rightarrow> bool" where
  run_Nil: "obs_run isFunc s [] s"
| run_Cons: "obs_step isFunc s e s' \<Longrightarrow> obs_run isFunc s' es s'' \<Longrightarrow> obs_run isFunc s (e # es) s''"

inductive_cases obs_step_CallE: "obs_step isFunc s (Some (CallEv h cb a)) s'"
inductive_cases obs_step_UnsubE: "obs_step isFunc s (Some (UnsubEv evt h)) s'"
inductive_cases obs_run_ConsE: "obs_run isFunc s (e # es) s''"

lemma obs_step_closed_mono:
  "obs_step isFunc s e s' \<Longrightarrow> obs_closed (fst s) \<subseteq> obs_closed (fst s')"
  by (induction rule: obs_step.induct) (auto simp: obs_defs Let_def split: if_splits)

lemma obs_step_no_call:
  assumes "obs_step isFunc s e s'" and "h \<in> obs_closed (fst s)"
  shows "e \<noteq> Some (CallEv h cb a)"
  using assms by (auto elim!: obs_step_CallE simp: Observable_wrapped_def split: if_splits)

lemma obs_run_no_call:
  "obs_run isFunc s es s' \<Longrightarrow> h \<in> obs_closed (fst s) \<Longrightarrow> Some (CallEv h cb a) \<notin> set es"
proof (induction rule: obs_run.induct)
  case (run_Cons s e s' es s'')
  have "h \<in> obs_closed (fst s')" using obs_step_closed_mono [OF run_Cons.hyps(1)] run_Cons.prems by auto
  then show ?case using obs_step_no_call [OF run_Cons.hyps(1) run_Cons.prems] run_Cons.IH by auto
qed simp

lemma obs_run_appendD:
  "obs_run isFunc s (es @ fs) s'' \<Longrightarrow> \<exists>s'. obs_run isFunc s es s' \<and> obs_run isFunc s' fs s''"
proof (induction es arbitrary: s)
  case Nil
  then show ?case using run_Nil by fastforce
next
  case (Cons e es)
  then obtain s1 where step: "obs_step isFunc s e s1" and "obs_run isFunc s1 (es @ fs) s''"
    by (auto elim: obs_run_ConsE)
  with Cons.IH obtain s' where "obs_run isFunc s1 es s'" and "obs_run isFunc s' fs s''" by blast
  with step show ?case using run_Cons by metis
qed



end
