(* ===== verification/Dwire.thy ===== *)
theory Dwire
  imports Go_Base
begin

unbundle bit_operations_syntax

text \<open>
  The message encoding of package \<open>dwire\<close>.  \<open>item\<close> is the dynamic value that \<open>EncodeField\<close>
  switches on and \<open>ity\<close> the pointer type that \<open>DecodeField\<close> switches on; types that implement
  \<open>Encoder\<close>/\<open>Decoder\<close> are the \<open>Custom\<close> cases, whose methods are the arguments \<open>enc\<close> and \<open>dec\<close>.
  A writer is the bytes written together with the error, a reader the bytes still to be read.
\<close>

section \<open>Uvarints of encoding/binary\<close>

definition MaxVarintLen64 :: nat where
  "MaxVarintLen64 = 10"

function PutUvarint :: "uint64 \<Rightarrow> bytes" where
  "PutUvarint x =
     (if x \<ge> 0x80 then (ucast x OR 0x80) # PutUvarint (drop_bit 7 x) else [ucast x])"
  by pat_completeness auto

lemma unat_drop_bit_7: "unat (drop_bit 7 (x :: uint64)) = unat x div 128"
  by (simp add: drop_bit_eq_div unat_div)

termination PutUvarint
proof (relation "measure unat")
  fix x :: uint64
  assume "0x80 \<le> x"
  then have "128 \<le> unat x" by (simp add: word_le_nat_alt)
  then show "(drop_bit 7 x, x) \<in> measure unat" by (simp add: unat_drop_bit_7)
qed simp

declare PutUvarint.simps [simp del]

lemma PutUvarint_small:
  assumes "x < 0x80"
  shows "PutUvarint x = [ucast x]"
proof -
  have "\<not> x \<ge> 0x80" using assms by (simp add: not_le)
  then show ?thesis by (subst PutUvarint.simps) (rule if_not_P)
qed

text \<open>A byte reader hands out one byte with \<open>io.ReadFull\<close>, as \<open>byteReader.ReadByte\<close> does.\<close>

definition byteReader_ReadByte :: "bytes \<Rightarrow> (byte \<times> bytes) go" where
  "byteReader_ReadByte r = go_bind (io_ReadFull 1 r) (\<lambda>(buf, r'). Ok (hd buf, r'))"

definition binary_overflow :: err where
  "binary_overflow = ErrNew ''binary: varint overflows a 64-bit integer''"

function ReadUvarintAt :: "nat \<Rightarrow> uint64 \<Rightarrow> nat \<Rightarrow> bytes \<Rightarrow> (uint64 \<times> bytes) go" where
  "ReadUvarintAt i x s r =
     (if MaxVarintLen64 \<le> i then Err binary_overflow
      else
        case byteReader_ReadByte r of
          Panic p \<Rightarrow> Panic p
        | Err e \<Rightarrow> Err (if 0 < i \<and> e = io_EOF then io_ErrUnexpectedEOF else e)
        | Ok (b, r') \<Rightarrow>
            if b < 0x80 then
              if i = MaxVarintLen64 - 1 \<and> b > 1 then Err binary_overflow
              else Ok (x OR push_bit s (ucast b), r')
            else ReadUvarintAt (Suc i) (x OR push_bit s (ucast (b AND 0x7f))) (s + 7) r')"
  by pat_completeness auto
termination
  by (relation "measure (\<lambda>(i, _, _, _). MaxVarintLen64 - i)") auto

declare ReadUvarintAt.simps [simp del]

definition ReadUvarint :: "bytes \<Rightarrow> (uint64 \<times> bytes) go" where
  "ReadUvarint r = ReadUvarintAt 0 0 0 r"

lemma byteReader_ReadByte_simps [simp]:
  "byteReader_ReadByte [] = Err io_EOF"
  "byteReader_ReadByte (b # r) = Ok (b, r)"
  by (simp_all add: byteReader_ReadByte_def io_ReadFull_def)

lemma varint_byte_high: "\<not> (ucast (x :: uint64) OR (0x80 :: byte)) < 0x80"
  by (simp add: not_less le_word_or1)

lemma mask_7: "(0x7f :: byte) = mask 7"
  by (simp add: mask_eq_exp_minus_1)

lemma varint_split:
  "push_bit s (ucast ((ucast y OR 0x80) AND (0x7f :: byte))) OR push_bit (s + 7) (drop_bit 7 y)
     = push_bit s (y :: uint64)"
proof (rule bit_word_eqI)
  fix n assume n: "n < LENGTH(64)"
  define h :: byte where "h = 0x80"
  have "h = 2 ^ 7" by (simp add: h_def)
  then have h: "bit h m \<longleftrightarrow> m = 7" for m by (simp only: bit_exp_iff) auto
  have "bit (push_bit s (ucast ((ucast y OR h) AND (mask 7 :: byte)))
        OR push_bit (s + 7) (drop_bit 7 y)) n = bit (push_bit s y) n"
  proof (cases "n < s + 7")
    case True
    then show ?thesis using n by (auto simp: bit_simps h)
  next
    case False
    then have "7 + (n - (s + 7)) = n - s" by simp
    then show ?thesis using n False by (auto simp: bit_simps h)
  qed
  then show "bit (push_bit s (ucast ((ucast y OR 0x80) AND (0x7f :: byte)))
        OR push_bit (s + 7) (drop_bit 7 y)) n = bit (push_bit s y) n"
    by (simp only: h_def mask_7)
qed

lemma ReadUvarintAt_PutUvarint:
  assumes "unat y < 2 ^ (64 - 7 * i)" and "i < MaxVarintLen64" and "s = 7 * i"
  shows "ReadUvarintAt i x s (PutUvarint y @ r) = Ok (x OR push_bit s y, r)"
  using assms
proof (induction y arbitrary: i x s rule: PutUvarint.induct)
  case (1 y)
  show ?case
  proof (cases "y \<ge> 0x80")
    case True
    then have big: "128 \<le> unat y" by (simp add: word_le_nat_alt)
    have "\<not> 64 - 7 * i \<le> 7"
    proof
      assume "64 - 7 * i \<le> 7"
      then have "(2::nat) ^ (64 - 7 * i) \<le> 2 ^ 7" by (rule power_increasing) simp
      then show False using big "1.prems"(1) by simp
    qed
    then have i: "7 * Suc i < 64" by simp
    have "unat (drop_bit 7 y) < 2 ^ (64 - 7 * Suc i)"
    proof -
      have "64 - 7 * i = (64 - 7 * Suc i) + 7" using i by simp
      then have "(2::nat) ^ (64 - 7 * i) = 2 ^ (64 - 7 * Suc i) * 128"
        by (simp only: power_add) simp
      then show ?thesis using "1.prems"(1) by (simp add: unat_drop_bit_7 less_mult_imp_div_less)
    qed
    moreover have "Suc i < MaxVarintLen64" using i by (simp add: MaxVarintLen64_def)
    ultimately have "ReadUvarintAt (Suc i) x' (s + 7) (PutUvarint (drop_bit 7 y) @ r)
        = Ok (x' OR push_bit (s + 7) (drop_bit 7 y), r)" for x'
      using "1.IH" [OF True, of "Suc i" "s + 7"] "1.prems"(3) by simp
    then show ?thesis
      using True "1.prems"(2) varint_byte_high [of y]
      by (subst PutUvarint.simps, subst ReadUvarintAt.simps)
        (simp add: varint_split or.assoc)
  next
    case False
    have small: "unat y < 128" using False by (simp add: not_le word_less_nat_alt)
    have "unat (ucast y :: byte) = unat y" using small by (simp add: unsigned_ucast_eq take_bit_nat_def)
    then have lt: "(ucast y :: byte) < 0x80" using small by (simp add: word_less_nat_alt)
    have "\<not> (i = MaxVarintLen64 - 1 \<and> (ucast y :: byte) > 1)"
      using "1.prems"(1) small by (auto simp: MaxVarintLen64_def word_less_nat_alt unsigned_ucast_eq take_bit_nat_def)
    moreover have "ucast (ucast y :: byte) = y"
      using small by (simp add: word_unat_eq_iff unsigned_take_bit_eq unsigned_ucast_eq take_bit_nat_def)
    ultimately show ?thesis
      using False lt "1.prems"(2)
      by (subst PutUvarint.simps, subst ReadUvarintAt.simps) simp
  qed
qed

lemma ReadUvarint_PutUvarint [simp]: "ReadUvarint (PutUvarint y @ r) = Ok (y, r)"
proof -
  have "unat y < 2 ^ 64" using unsigned_less [of y, where ?'a = nat] by simp
  then show ?thesis
    using ReadUvarintAt_PutUvarint [of y 0 0 0 r] by (simp add: ReadUvarint_def MaxVarintLen64_def)
qed

section \<open>Encoder\<close>

record ConfiguredEncoder =
  MaxVariableArrayLen :: int
  MaxByteFieldLen :: uint64

definition DefaultMaxVariableArrayLen :: int where
  "DefaultMaxVariableArrayLen = 4 * 1024"

definition DefaultMaxByteFieldLen :: uint64 where
  "DefaultMaxByteFieldLen = 8 * 256 * 1024"

definition defaultEncoder :: ConfiguredEncoder where
  "defaultEncoder = \<lparr>MaxVariableArrayLen = DefaultMaxVariableArrayLen,
     MaxByteFieldLen = DefaultMaxByteFieldLen\<rparr>"

text \<open>\<open>IByteArray\<close> is an array of bytes other than \<open>[32]byte\<close>; \<open>IOther\<close> any type without a case.\<close>

datatype 'c item =
    ICustom 'c
  | IBool bool
  | IUint8 byte
  | IUint16 uint16
  | IUint32 uint32
  | IUint64 uint64
  | IBytes bytes
  | IString string
  | IBytes32 bytes
  | ITime time
  | IByteArray bytes
  | IArray "'c item list"
  | ISlice "'c item list"
  | IOther string

definition trueWire :: bytes where
  "trueWire = [0x01]"

definition falseWire :: bytes where
  "falseWire = [0x00]"

definition writeUvarint :: "nat \<Rightarrow> wr" where
  "writeUvarint n = wr_bytes (PutUvarint (of_nat n))"

text \<open>The \<open>[]byte\<close> case, which the \<open>string\<close> case calls again.\<close>

definition encodeByteSlice :: "ConfiguredEncoder \<Rightarrow> bytes \<Rightarrow> wr" where
  "encodeByteSlice c it =
     (if length it > unat (MaxByteFieldLen c)
      then wr_fail (ErrNew ''byte-assignable field length too large to encode'')
      else wr_seq (writeUvarint (length it)) (wr_bytes it))"

definition EncodeTime :: "time \<Rightarrow> wr" where
  "EncodeTime t =
     (let unix = time_Unix t in
      if unix < 0 then wr_fail (ErrNew ''negative UNIX time'')
      else wr_bytes (PutUint32 (word_of_int unix)))"

fun EncodeField :: "('c \<Rightarrow> wr) \<Rightarrow> ConfiguredEncoder \<Rightarrow> 'c item \<Rightarrow> wr"
  and encodeReflect :: "('c \<Rightarrow> wr) \<Rightarrow> ConfiguredEncoder \<Rightarrow> 'c item \<Rightarrow> wr"
  and EncodeFields :: "('c \<Rightarrow> wr) \<Rightarrow> ConfiguredEncoder \<Rightarrow> 'c item list \<Rightarrow> wr" where
  "EncodeField enc c (ICustom it) = enc it"
| "EncodeField enc c (IBool it) = wr_bytes (if it then trueWire else falseWire)"
| "EncodeField enc c (IUint8 it) = wr_bytes [it]"
| "EncodeField enc c (IUint16 it) = wr_bytes (PutUint16 it)"
| "EncodeField enc c (IUint32 it) = wr_bytes (PutUint32 it)"
| "EncodeField enc c (IUint64 it) = wr_bytes (PutUint64 it)"
| "EncodeField enc c (IBytes it) = encodeByteSlice c it"
| "EncodeField enc c (IString it) = encodeByteSlice c (bytes_of_string it)"
| "EncodeField enc c (IBytes32 it) = wr_bytes it"
| "EncodeField enc c it = encodeReflect enc c it"
| "encodeReflect enc c (ITime t) = EncodeTime t"
| "encodeReflect enc c (IByteArray bs) = wr_bytes bs"
| "encodeReflect enc c (IArray its) = EncodeFields enc c its"
| "encodeReflect enc c (ISlice its) =
     (if int (length its) > MaxVariableArrayLen c
      then wr_fail (ErrNew ''variable array field length too large to encode'')
      else wr_seq (writeUvarint (length its)) (EncodeFields enc c its))"
| "encodeReflect enc c (IOther t) = wr_fail (ErrNew (''type '' @ t @ '' cannot be encoded''))"
| "encodeReflect enc c it = wr_fail (ErrNew ''unreachable: cases of EncodeField'')"
| "EncodeFields enc c [] = wr_bytes []"
| "EncodeFields enc c (it # its) = wr_seq (EncodeField enc c it) (EncodeFields enc c its)"

section \<open>Decoder\<close>

text \<open>\<open>TNonPtr\<close> is an argument that is not a pointer.\<close>

datatype 'd ity =
    TCustom 'd
  | TBool
  | TUint8
  | TUint16
  | TUint32
  | TUint64
  | TBytes
  | TString
  | TBytes32
  | TTime
  | TByteArray nat
  | TArray nat "'d ity"
  | TSlice "'d ity"
  | TOther string
  | TNonPtr

definition decodeByteSlice :: "ConfiguredEncoder \<Rightarrow> bytes \<Rightarrow> (bytes \<times> bytes) go" where
  "decodeByteSlice c r =
     go_bind (ReadUvarint r) (\<lambda>(l, r1).
     if l > MaxByteFieldLen c
     then Err (ErrNew ''byte-assignable field length too large to decode'')
     else io_ReadFull (unat l) r1)"

definition DecodeTime :: "bytes \<Rightarrow> (time \<times> bytes) go" where
  "DecodeTime r =
     go_wrap (go_bind (io_ReadFull 4 r) (\<lambda>(b, r'). Ok (time_FromUnix (uint (Uint32 b)), r')))
       ''failed to decode timestamp''"

definition decodeBool :: "bytes \<Rightarrow> (bool \<times> bytes) go" where
  "decodeBool r =
     go_bind (io_ReadFull 1 r) (\<lambda>(b, r').
     if hd b = 0x00 then Ok (False, r')
     else if hd b = 0x01 then Ok (True, r')
     else Err (ErrNew (''invalid boolean value: '' @ hex_EncodeToString [hd b])))"

text \<open>The element loops of \<open>decodeArray\<close> and \<open>decodeSlice\<close>.\<close>

fun DecodeLoop :: "nat \<Rightarrow> (bytes \<Rightarrow> ('a \<times> bytes) go) \<Rightarrow> bytes \<Rightarrow> ('a list \<times> bytes) go" where
  "DecodeLoop 0 f r = Ok ([], r)"
| "DecodeLoop (Suc n) f r =
     go_bind (f r) (\<lambda>(x, r1). go_bind (DecodeLoop n f r1) (\<lambda>(xs, r2). Ok (x # xs, r2)))"

definition go_mapr :: "('a \<Rightarrow> 'b) \<Rightarrow> ('a \<times> bytes) go \<Rightarrow> ('b \<times> bytes) go" where
  "go_mapr f x = go_bind x (\<lambda>(a, r). Ok (f a, r))"

fun DecodeField ::
    "('d \<Rightarrow> bytes \<Rightarrow> ('c \<times> bytes) go) \<Rightarrow> ConfiguredEncoder \<Rightarrow> 'd ity \<Rightarrow> bytes \<Rightarrow> ('c item \<times> bytes) go"
  and decodeReflect ::
    "('d \<Rightarrow> bytes \<Rightarrow> ('c \<times> bytes) go) \<Rightarrow> ConfiguredEncoder \<Rightarrow> 'd ity \<Rightarrow> bytes \<Rightarrow> ('c item \<times> bytes) go"
  where
  "DecodeField dec c (TCustom d) r = go_mapr ICustom (dec d r)"
| "DecodeField dec c TBool r = go_mapr IBool (decodeBool r)"
| "DecodeField dec c TUint8 r = go_mapr (\<lambda>b. IUint8 (hd b)) (io_ReadFull 1 r)"
| "DecodeField dec c TUint16 r = go_mapr (\<lambda>b. IUint16 (Uint16 b)) (io_ReadFull 2 r)"
| "DecodeField dec c TUint32 r = go_mapr (\<lambda>b. IUint32 (Uint32 b)) (io_ReadFull 4 r)"
| "DecodeField dec c TUint64 r = go_mapr (\<lambda>b. IUint64 (Uint64 b)) (io_ReadFull 8 r)"
| "DecodeField dec c TBytes r = go_mapr IBytes (decodeByteSlice c r)"
| "DecodeField dec c TString r = go_mapr (\<lambda>b. IString (string_of_bytes b)) (decodeByteSlice c r)"
| "DecodeField dec c TBytes32 r = go_mapr IBytes32 (io_ReadFull 32 r)"
| "DecodeField dec c ty r = decodeReflect dec c ty r"
| "decodeReflect dec c TNonPtr r = Err (ErrNew ''can only decode into pointer types'')"
| "decodeReflect dec c TTime r = go_mapr ITime (DecodeTime r)"
| "decodeReflect dec c (TByteArray n) r = go_mapr IByteArray (io_ReadFull n r)"
| "decodeReflect dec c (TArray n ty) r =
     go_mapr IArray (DecodeLoop n (\<lambda>r'. DecodeField dec c ty r') r)"
| "decodeReflect dec c (TSlice ty) r =
     go_bind (ReadUvarint r) (\<lambda>(l, r1).
     if l > word_of_int (MaxVariableArrayLen c)
     then Err (ErrNew ''variable array field length too large to decode'')
     else go_mapr ISlice (DecodeLoop (unat l) (\<lambda>r'. DecodeField dec c ty r') r1))"
| "decodeReflect dec c (TOther t) r = Err (ErrNew (''type '' @ t @ '' cannot be decoded''))"
| "decodeReflect dec c ty r = Err (ErrNew ''unreachable: cases of DecodeField'')"

fun DecodeFields ::
  "('d \<Rightarrow> bytes \<Rightarrow> ('c \<times> bytes) go) \<Rightarrow> ConfiguredEncoder \<Rightarrow> 'd ity list \<Rightarrow> bytes \<Rightarrow> ('c item list \<times> bytes) go"
  where
  "DecodeFields dec c [] r = Ok ([], r)"
| "DecodeFields dec c (ty # tys) r =
     go_bind (DecodeField dec c ty r) (\<lambda>(it, r1).
     go_bind (DecodeFields dec c tys r1) (\<lambda>(its, r2). Ok (it # its, r2)))"

section \<open>Well-typed items and what survives the wire\<close>

primrec has_ty :: "('c \<Rightarrow> 'd \<Rightarrow> bool) \<Rightarrow> 'd ity \<Rightarrow> 'c item \<Rightarrow> bool" where
  "has_ty cty (TCustom d) it = (case it of ICustom x \<Rightarrow> cty x d | _ \<Rightarrow> False)"
| "has_ty cty TBool it = (case it of IBool _ \<Rightarrow> True | _ \<Rightarrow> False)"
| "has_ty cty TUint8 it = (case it of IUint8 _ \<Rightarrow> True | _ \<Rightarrow> False)"
| "has_ty cty TUint16 it = (case it of IUint16 _ \<Rightarrow> True | _ \<Rightarrow> False)"
| "has_ty cty TUint32 it = (case it of IUint32 _ \<Rightarrow> True | _ \<Rightarrow> False)"
| "has_ty cty TUint64 it = (case it of IUint64 _ \<Rightarrow> True | _ \<Rightarrow> False)"
| "has_ty cty TBytes it = (case it of IBytes _ \<Rightarrow> True | _ \<Rightarrow> False)"
| "has_ty cty TString it = (case it of IString _ \<Rightarrow> True | _ \<Rightarrow> False)"
| "has_ty cty TBytes32 it = (case it of IBytes32 b \<Rightarrow> length b = 32 | _ \<Rightarrow> False)"
| "has_ty cty TTime it = (case it of ITime _ \<Rightarrow> True | _ \<Rightarrow> False)"
| "has_ty cty (TByteArray n) it = (case it of IByteArray b \<Rightarrow> length b = n | _ \<Rightarrow> False)"
| "has_ty cty (TArray n ty) it =
     (case it of IArray xs \<Rightarrow> length xs = n \<and> list_all (has_ty cty ty) xs | _ \<Rightarrow> False)"
| "has_ty cty (TSlice ty) it = (case it of ISlice xs \<Rightarrow> list_all (has_ty cty ty) xs | _ \<Rightarrow> False)"
| "has_ty cty (TOther t) it = False"
| "has_ty cty TNonPtr it = False"

text \<open>Times lose their fraction and everything above 32 bits of seconds.\<close>

definition canon_time :: "time \<Rightarrow> time" where
  "canon_time t = time_FromUnix (time_Unix t mod 2 ^ 32)"

primrec canon :: "('c \<Rightarrow> 'c) \<Rightarrow> 'c item \<Rightarrow> 'c item" where
  "canon nrm (ICustom x) = ICustom (nrm x)"
| "canon nrm (IBool b) = IBool b"
| "canon nrm (IUint8 b) = IUint8 b"
| "canon nrm (IUint16 w) = IUint16 w"
| "canon nrm (IUint32 w) = IUint32 w"
| "canon nrm (IUint64 w) = IUint64 w"
| "canon nrm (IBytes b) = IBytes b"
| "canon nrm (IString s) = IString s"
| "canon nrm (IBytes32 b) = IBytes32 b"
| "canon nrm (ITime t) = ITime (canon_time t)"
| "canon nrm (IByteArray b) = IByteArray b"
| "canon nrm (IArray xs) = IArray (map (canon nrm) xs)"
| "canon nrm (ISlice xs) = ISlice (map (canon nrm) xs)"
| "canon nrm (IOther t) = IOther t"

definition cfg_wf :: "ConfiguredEncoder \<Rightarrow> bool" where
  "cfg_wf c \<longleftrightarrow> 0 \<le> MaxVariableArrayLen c \<and> MaxVariableArrayLen c < 2 ^ 63"

lemma cfg_wf_default [simp]: "cfg_wf defaultEncoder"
  by (simp add: cfg_wf_def defaultEncoder_def DefaultMaxVariableArrayLen_def)

lemma go_mapr_simps [simp]:
  "go_mapr f (Ok (a, r)) = Ok (f a, r)" "go_mapr f (Err e) = Err e" "go_mapr f (Panic m) = Panic m"
  by (simp_all add: go_mapr_def)

lemma go_mapr_eq_Ok: "go_mapr f x = Ok (y, r) \<longleftrightarrow> (\<exists>a. x = Ok (a, r) \<and> y = f a)"
  by (cases x) (auto simp: go_mapr_def)

lemma go_mapr_eq_Panic [simp]: "go_mapr f x = Panic m \<longleftrightarrow> x = Panic m"
  by (cases x) (auto simp: go_mapr_def)

lemma decodeByteSlice_encode:
  assumes "encodeByteSlice c b = (bs, None)"
  shows "decodeByteSlice c (bs @ r) = Ok (b, r)"
proof -
  have le: "length b \<le> unat (MaxByteFieldLen c)" and bs: "bs = PutUvarint (of_nat (length b)) @ b"
    using assms
    by (auto simp: encodeByteSlice_def writeUvarint_def wr_seq_Ok wr_bytes_Ok wr_fail_not_Ok
        split: if_splits)
  have "unat (of_nat (length b) :: uint64) = length b"
    using le unsigned_less [of "MaxByteFieldLen c", where ?'a = nat]
    by (simp add: unat_of_nat)
  then show ?thesis
    using le by (simp add: decodeByteSlice_def bs word_less_nat_alt io_ReadFull_append)
qed

lemma DecodeTime_Encode:
  "EncodeTime t = (bs, None) \<Longrightarrow> DecodeTime (bs @ r) = Ok (canon_time t, r)"
  by (auto simp: EncodeTime_def DecodeTime_def canon_time_def Let_def wr_bytes_Ok wr_fail_not_Ok
      io_ReadFull_append uint_word_of_int split: if_splits)

lemma io_ReadFull_one: "io_ReadFull (Suc 0) (b # r) = Ok ([b], r)"
  by (simp add: io_ReadFull_def)

lemma decodeBool_Encode: "decodeBool ((if b then trueWire else falseWire) @ r) = Ok (b, r)"
  by (simp add: decodeBool_def trueWire_def falseWire_def io_ReadFull_def)

lemma slice_length_word:
  assumes "cfg_wf c" and "int n \<le> MaxVariableArrayLen c"
  shows "\<not> of_nat n > (word_of_int (MaxVariableArrayLen c) :: uint64)"
    and "unat (of_nat n :: uint64) = n"
proof -
  have n: "n < 2 ^ 63" using assms by (simp add: cfg_wf_def)
  then show unat: "unat (of_nat n :: uint64) = n" by (simp add: unat_of_nat)
  have "uint (of_nat n :: uint64) = int n" using unat by (simp add: uint_nat)
  then show "\<not> of_nat n > (word_of_int (MaxVariableArrayLen c) :: uint64)"
    using assms by (simp add: cfg_wf_def not_less word_le_def uint_word_of_int)
qed

section \<open>Decoding terminates without panicking\<close>

lemma ReadUvarintAt_not_Panic: "ReadUvarintAt i x s r \<noteq> Panic m"
proof (induction i x s r rule: ReadUvarintAt.induct)
  case (1 i x s r)
  then show ?case
    by (subst ReadUvarintAt.simps) (cases r; simp split: if_splits)
qed

lemma ReadUvarintAt_prefix: "ReadUvarintAt i x s r = Ok (y, r') \<Longrightarrow> \<exists>u. r = u @ r'"
proof (induction i x s r rule: ReadUvarintAt.induct)
  case (1 i x s r)
  show ?case
  proof (cases r)
    case Nil
    then show ?thesis using "1.prems" by (subst (asm) ReadUvarintAt.simps) (simp split: if_splits)
  next
    case (Cons b bs)
    then have "r' = bs \<or> (\<exists>u. bs = u @ r')"
      using "1.prems" "1.IH" [of "(b, bs)" b bs]
      by (subst (asm) ReadUvarintAt.simps) (auto split: if_splits)
    then show ?thesis using Cons by (metis append_Cons append_Nil)
  qed
qed

lemma DecodeLoop_not_Panic: "(\<And>r. f r \<noteq> Panic m) \<Longrightarrow> DecodeLoop n f r \<noteq> Panic m"
  by (induction n arbitrary: r) (auto simp: go_bind_eq_Panic split: prod.splits)

lemma DecodeLoop_prefix:
  "(\<And>r x r'. f r = Ok (x, r') \<Longrightarrow> \<exists>u. r = u @ r') \<Longrightarrow> DecodeLoop n f r = Ok (xs, r') \<Longrightarrow>
     \<exists>u. r = u @ r'"
proof (induction n arbitrary: r xs)
  case (Suc n)
  then obtain x r1 ys where "f r = Ok (x, r1)" and "DecodeLoop n f r1 = Ok (ys, r')"
    by (auto simp: go_bind_eq_Ok)
  with Suc show ?case by (metis append_assoc)
qed simp

lemma go_wrap_eq_Panic [simp]: "go_wrap x msg = Panic m \<longleftrightarrow> x = Panic m"
  by (cases x) auto

lemma decode_leaf_not_Panic [simp]:
  "io_ReadFull n r \<noteq> Panic m" "ReadUvarint r \<noteq> Panic m" "decodeBool r \<noteq> Panic m"
  "decodeByteSlice c r \<noteq> Panic m" "DecodeTime r \<noteq> Panic m"
  by (auto simp: io_ReadFull_not_Panic ReadUvarint_def ReadUvarintAt_not_Panic decodeBool_def
      decodeByteSlice_def DecodeTime_def go_bind_eq_Panic split: if_splits)

lemma decode_leaf_prefix:
  "io_ReadFull n r = Ok (b, r') \<Longrightarrow> \<exists>u. r = u @ r'"
  "ReadUvarint r = Ok (l, r') \<Longrightarrow> \<exists>u. r = u @ r'"
  "decodeBool r = Ok (bo, r') \<Longrightarrow> \<exists>u. r = u @ r'"
  "decodeByteSlice c r = Ok (b, r') \<Longrightarrow> \<exists>u. r = u @ r'"
  "DecodeTime r = Ok (t, r') \<Longrightarrow> \<exists>u. r = u @ r'"
  by (auto simp: io_ReadFull_Ok ReadUvarint_def decodeBool_def decodeByteSlice_def DecodeTime_def
      go_bind_eq_Ok go_wrap_eq_Ok dest!: ReadUvarintAt_prefix split: if_splits)

section \<open>Contracts of custom types\<close>

text \<open>A decoder of network input neither panics nor reads anything but a prefix.\<close>

locale field_reader =
  fixes dec :: "'d \<Rightarrow> bytes \<Rightarrow> ('c \<times> bytes) go"
  assumes dec_total: "dec d r \<noteq> Panic m"
    and dec_prefix: "dec d r = Ok (x, r') \<Longrightarrow> \<exists>u. r = u @ r'"
begin

lemma DecodeField_total: "DecodeField dec c ty r \<noteq> Panic m"
  by (induction ty arbitrary: r)
    (auto simp: go_bind_eq_Panic dec_total DecodeLoop_not_Panic split: if_splits)

lemma DecodeFields_total: "DecodeFields dec c tys r \<noteq> Panic m"
  by (induction tys arbitrary: r) (auto simp: go_bind_eq_Panic DecodeField_total)

lemma DecodeField_prefix: "DecodeField dec c ty r = Ok (it, r') \<Longrightarrow> \<exists>u. r = u @ r'"
proof (induction ty arbitrary: r it r')
  case (TArray n ty)
  then show ?case by (auto simp: go_mapr_eq_Ok elim!: DecodeLoop_prefix [rotated])
next
  case (TSlice ty)
  then obtain l r1 xs where l: "ReadUvarint r = Ok (l, r1)"
    and xs: "DecodeLoop (unat l) (DecodeField dec c ty) r1 = Ok (xs, r')"
    by (auto simp: go_bind_eq_Ok go_mapr_eq_Ok split: if_splits)
  have "\<exists>u. r1 = u @ r'" by (rule DecodeLoop_prefix [OF _ xs]) (rule TSlice.IH)
  then show ?case using decode_leaf_prefix(2) [OF l] by (metis append_assoc)
qed (auto simp: go_mapr_eq_Ok dest: dec_prefix decode_leaf_prefix)

lemma DecodeFields_prefix:
  "DecodeFields dec c tys r = Ok (its, r') \<Longrightarrow> \<exists>u. r = u @ r'"
proof (induction tys arbitrary: r its)
  case (Cons ty tys)
  then obtain it r1 its' where "DecodeField dec c ty r = Ok (it, r1)"
    and "DecodeFields dec c tys r1 = Ok (its', r')"
    by (auto simp: go_bind_eq_Ok)
  with Cons.IH DecodeField_prefix show ?case by (metis append_assoc)
qed simp

end

text \<open>A custom type that survives its own encoding, up to a normal form \<open>nrm\<close>.\<close>

locale field_codec = field_reader dec
  for dec :: "'d \<Rightarrow> bytes \<Rightarrow> ('c \<times> bytes) go" +
  fixes enc :: "'c \<Rightarrow> wr"
    and cty :: "'c \<Rightarrow> 'd \<Rightarrow> bool"
    and nrm :: "'c \<Rightarrow> 'c"
  assumes custom_roundtrip: "cty x d \<Longrightarrow> enc x = (bs, None) \<Longrightarrow> dec d (bs @ r) = Ok (nrm x, r)"
begin

lemma DecodeLoop_EncodeFields:
  assumes "\<And>it bs r. it \<in> set its \<Longrightarrow> EncodeField enc c it = (bs, None) \<Longrightarrow>
      f (bs @ r) = Ok (canon nrm it, r)"
    and "EncodeFields enc c its = (bs, None)"
  shows "DecodeLoop (length its) f (bs @ r) = Ok (map (canon nrm) its, r)"
  using assms
proof (induction its arbitrary: bs)
  case (Cons it its)
  then obtain b1 b2 where "EncodeField enc c it = (b1, None)" "EncodeFields enc c its = (b2, None)"
    and "bs = b1 @ b2"
    by (auto simp: wr_seq_Ok)
  moreover from this have "f (b1 @ b2 @ r) = Ok (canon nrm it, b2 @ r)"
    using Cons.prems(1) [of it b1] by simp
  moreover have "DecodeLoop (length its) f (b2 @ r) = Ok (map (canon nrm) its, r)"
    by (rule Cons.IH) (use Cons.prems(1) calculation in auto)
  ultimately show ?case by simp
qed (simp add: wr_bytes_Ok)

lemma DecodeField_EncodeField:
  assumes "cfg_wf c" and "has_ty cty ty it" and "EncodeField enc c it = (bs, None)"
  shows "DecodeField dec c ty (bs @ r) = Ok (canon nrm it, r)"
  using assms(2,3)
proof (induction ty arbitrary: it bs r)
  case (TArray n ty)
  then obtain its where it: "it = IArray its" "length its = n" "list_all (has_ty cty ty) its"
    by (auto split: item.splits)
  then have "DecodeLoop (length its) (DecodeField dec c ty) (bs @ r) = Ok (map (canon nrm) its, r)"
    using TArray by (intro DecodeLoop_EncodeFields) (auto simp: list_all_iff)
  then show ?case using it by simp
next
  case (TSlice ty)
  then obtain its where it: "it = ISlice its" "list_all (has_ty cty ty) its"
    by (auto split: item.splits)
  then obtain b where le: "int (length its) \<le> MaxVariableArrayLen c"
    and enc: "EncodeFields enc c its = (b, None)" and bs: "bs = PutUvarint (of_nat (length its)) @ b"
    using TSlice.prems(2)
    by (auto simp: wr_seq_Ok writeUvarint_def wr_bytes_Ok wr_fail_not_Ok split: if_splits)
  have "DecodeLoop (length its) (DecodeField dec c ty) (b @ r) = Ok (map (canon nrm) its, r)"
    using TSlice.IH it enc by (intro DecodeLoop_EncodeFields) (auto simp: list_all_iff)
  then show ?case using it bs slice_length_word [OF assms(1) le] by simp
qed (auto split: item.splits simp: custom_roundtrip wr_bytes_Ok decodeBool_Encode
      decodeByteSlice_encode DecodeTime_Encode io_ReadFull_append io_ReadFull_one)

lemma DecodeFields_EncodeFields:
  assumes "cfg_wf c"
  shows "list_all2 (has_ty cty) tys its \<Longrightarrow> EncodeFields enc c its = (bs, None) \<Longrightarrow>
    DecodeFields dec c tys (bs @ r) = Ok (map (canon nrm) its, r)"
proof (induction tys its arbitrary: bs rule: list_all2_induct)
  case (Cons ty tys it its)
  then obtain b1 b2 where "EncodeField enc c it = (b1, None)" "EncodeFields enc c its = (b2, None)"
    and "bs = b1 @ b2"
    by (auto simp: wr_seq_Ok)
  with Cons show ?case using DecodeField_EncodeField [OF assms] by simp
qed (simp add: wr_bytes_Ok)

end

end
