(* ===== verification/Crypto.thy ===== *)
theory Crypto
  imports Go_Base
begin

text \<open>
  Package \<open>crypto\<close>: hashes and signatures.  BLAKE2b (\<open>golang.org/x/crypto\<close>) is the argument
  \<open>blake2b\<close>, the digest of the bytes written; secp256k1 (\<open>btcd/btcec\<close>) is the record \<open>btcec\<close> of
  the functions the package calls.  \<open>btcec_laws\<close> states what their documentation promises.
  Public keys are values compared with \<open>=\<close>, which is what \<open>IsEqual\<close> does with the point.
\<close>

section \<open>Hashes\<close>

type_synonym Hash = bytes

definition hash_wf :: "Hash \<Rightarrow> bool" where
  "hash_wf h \<longleftrightarrow> length h = 32"

definition ZeroHash :: Hash where
  "ZeroHash = replicate 32 0"

definition Hash_String :: "Hash \<Rightarrow> string" where
  "Hash_String h = hex_EncodeToString h"

definition Hash_Bytes :: "Hash \<Rightarrow> bytes" where
  "Hash_Bytes h = h"

definition Hash_Hash :: "Hash \<Rightarrow> Hash go" where
  "Hash_Hash h = Ok h"

definition Hash_Encode :: "Hash \<Rightarrow> wr" where
  "Hash_Encode h = wr_bytes (Hash_Bytes h)"

definition Hash_Decode :: "bytes \<Rightarrow> (Hash \<times> bytes) go" where
  "Hash_Decode r = io_ReadFull 32 r"

definition Blake2B256 :: "(bytes \<Rightarrow> bytes) \<Rightarrow> bytes list \<Rightarrow> Hash" where
  "Blake2B256 blake2b data = go_copy ZeroHash (blake2b (concat data))"

definition NewHashFromBytes :: "bytes \<Rightarrow> Hash go" where
  "NewHashFromBytes b =
     (if length b \<noteq> 32 then Err (ErrNew ''hash must be 32 bytes'') else Ok (go_copy ZeroHash b))"

text \<open>A string that is not hexadecimal gives the zero hash and no error.\<close>

definition NewHashFromHex :: "string \<Rightarrow> Hash go" where
  "NewHashFromHex s =
     (case hex_DecodeString s of
        Panic p \<Rightarrow> Panic p
      | Err _ \<Rightarrow> Ok ZeroHash
      | Ok b \<Rightarrow> NewHashFromBytes b)"

section \<open>Signatures\<close>

type_synonym Signature = bytes

definition sig_wf :: "Signature \<Rightarrow> bool" where
  "sig_wf s \<longleftrightarrow> length s = 65"

definition ZeroSignature :: Signature where
  "ZeroSignature = replicate 65 0"

definition Signature_String :: "Signature \<Rightarrow> string" where
  "Signature_String s = hex_EncodeToString s"

definition NewSignatureFromBytes :: "bytes \<Rightarrow> Signature go" where
  "NewSignatureFromBytes b =
     (if length b \<noteq> 65 then Err (ErrNew ''signature must be 65 bytes'')
      else Ok (go_copy ZeroSignature b))"

record ('pk, 'sk) btcec =
  ec_SignCompact :: "'sk \<Rightarrow> bytes \<Rightarrow> err + bytes"
  ec_RecoverCompact :: "bytes \<Rightarrow> bytes \<Rightarrow> err + 'pk"
  ec_PubKey :: "'sk \<Rightarrow> 'pk"
  ec_SerializeCompressed :: "'pk \<Rightarrow> bytes"
  ec_ParsePubKey :: "bytes \<Rightarrow> err + 'pk"

definition btcec_laws :: "('pk, 'sk) btcec \<Rightarrow> bool" where
  "btcec_laws ec \<longleftrightarrow>
     (\<forall>sk h s. length h = 32 \<longrightarrow> ec_SignCompact ec sk h = Inr s \<longrightarrow>
        length s = 65 \<and> ec_RecoverCompact ec s h = Inr (ec_PubKey ec sk)) \<and>
     (\<forall>pk. length (ec_SerializeCompressed ec pk) = 33 \<and>
        ec_ParsePubKey ec (ec_SerializeCompressed ec pk) = Inr pk)"

definition HashPub :: "(bytes \<Rightarrow> bytes) \<Rightarrow> ('pk, 'sk) btcec \<Rightarrow> 'pk \<Rightarrow> Hash" where
  "HashPub blake2b ec pub = Blake2B256 blake2b [ec_SerializeCompressed ec pub]"

text \<open>A \<open>Hasher\<close> is the outcome of its \<open>Hash\<close> method.\<close>

definition SECP256k1Signer_Sign :: "('pk, 'sk) btcec \<Rightarrow> 'sk \<Rightarrow> Hash go \<Rightarrow> Signature go" where
  "SECP256k1Signer_Sign ec pk hasher =
     go_bind hasher (\<lambda>hash.
     go_bind (go_of (ec_SignCompact ec pk (Hash_Bytes hash))) (\<lambda>sigBuf.
     Ok (go_copy ZeroSignature sigBuf)))"

definition SECP256k1Signer_Pub :: "('pk, 'sk) btcec \<Rightarrow> 'sk \<Rightarrow> 'pk" where
  "SECP256k1Signer_Pub ec pk = ec_PubKey ec pk"

definition VerifySigPub :: "('pk, 'sk) btcec \<Rightarrow> 'pk \<Rightarrow> Signature \<Rightarrow> Hash go \<Rightarrow> bool go" where
  "VerifySigPub ec pub signature msg =
     (case msg of
        Panic p \<Rightarrow> Panic p
      | Err _ \<Rightarrow> Ok False
      | Ok hash \<Rightarrow>
          (case ec_RecoverCompact ec signature (Hash_Bytes hash) of
             Inl _ \<Rightarrow> Ok False
           | Inr key \<Rightarrow> Ok (key = pub)))"

definition VerifySigHashedPub ::
  "(bytes \<Rightarrow> bytes) \<Rightarrow> ('pk, 'sk) btcec \<Rightarrow> Hash \<Rightarrow> Signature \<Rightarrow> Hash go \<Rightarrow> bool go" where
  "VerifySigHashedPub blake2b ec hashedPub signature msg =
     (case msg of
        Panic p \<Rightarrow> Panic p
      | Err _ \<Rightarrow> Ok False
      | Ok hash \<Rightarrow>
          (case ec_RecoverCompact ec signature (Hash_Bytes hash) of
             Inl _ \<Rightarrow> Ok False
           | Inr key \<Rightarrow> Ok (HashPub blake2b ec key = hashedPub)))"

section \<open>Lemmas\<close>

lemma length_ZeroHash [simp]: "length ZeroHash = 32"
  by (simp add: ZeroHash_def)

lemma length_Blake2B256 [simp]: "length (Blake2B256 blake2b data) = 32"
  by (simp add: Blake2B256_def)

lemma hash_wf_Blake2B256 [simp]: "hash_wf (Blake2B256 blake2b data)"
  by (simp add: hash_wf_def)

lemma Blake2B256_chunks: "concat xs = concat ys \<Longrightarrow> Blake2B256 blake2b xs = Blake2B256 blake2b ys"
  by (simp add: Blake2B256_def)

lemma Hash_Encode_Decode [simp]:
  "hash_wf h \<Longrightarrow> Hash_Decode (fst (Hash_Encode h) @ r) = Ok (h, r)"
  by (simp add: Hash_Encode_def Hash_Decode_def Hash_Bytes_def wr_bytes_def hash_wf_def
      io_ReadFull_append)

lemma NewHashFromBytes_Ok: "NewHashFromBytes b = Ok h \<longleftrightarrow> hash_wf b \<and> h = b"
  by (auto simp: NewHashFromBytes_def hash_wf_def go_copy_same_length)

lemma NewHashFromHex_String: "hash_wf h \<Longrightarrow> NewHashFromHex (Hash_String h) = Ok h"
  by (simp add: NewHashFromHex_def Hash_String_def NewHashFromBytes_Ok)

lemma Hash_String_inject: "Hash_String a = Hash_String b \<longleftrightarrow> a = b"
  by (simp add: Hash_String_def)

lemma NewSignatureFromBytes_Ok: "NewSignatureFromBytes b = Ok s \<longleftrightarrow> sig_wf b \<and> s = b"
  by (auto simp: NewSignatureFromBytes_def sig_wf_def ZeroSignature_def go_copy_same_length)

lemma Sign_Ok:
  assumes "btcec_laws ec" and "SECP256k1Signer_Sign ec sk (Ok h) = Ok s" and "hash_wf h"
  shows "sig_wf s \<and> ec_RecoverCompact ec s h = Inr (ec_PubKey ec sk)"
  using assms
  by (auto simp: SECP256k1Signer_Sign_def go_bind_eq_Ok Hash_Bytes_def btcec_laws_def hash_wf_def
      sig_wf_def ZeroSignature_def go_copy_same_length)

text \<open>A toy curve that satisfies the laws: the key is one byte and a signature carries key and hash.\<close>

definition toy_ec :: "(byte, byte) btcec" where
  "toy_ec = \<lparr>
     ec_SignCompact = (\<lambda>sk h. Inr (sk # h @ replicate 32 0)),
     ec_RecoverCompact = (\<lambda>s h.
       if s = hd s # h @ replicate 32 0 then Inr (hd s) else Inl (ErrNew ''invalid signature'')),
     ec_PubKey = (\<lambda>sk. sk),
     ec_SerializeCompressed = (\<lambda>pk. replicate 32 2 @ [pk]),
     ec_ParsePubKey = (\<lambda>b. if length b = 33 then Inr (last b) else Inl (ErrNew ''malformed''))\<rparr>"

lemma btcec_laws_toy_ec: "btcec_laws toy_ec"
  by (simp add: btcec_laws_def toy_ec_def)

text \<open>
  A signature that the signer returns for a hash verifies for that hash, both against the
  signer's public key and against the hash of that key; and a signature only verifies against a
  key hash when the key it recovers to hashes to it.
\<close>

theorem Sign_Verify:
  assumes "btcec_laws ec" and "hash_wf h" and "SECP256k1Signer_Sign ec sk (Hash_Hash h) = Ok s"
  shows "VerifySigPub ec (SECP256k1Signer_Pub ec sk) s (Hash_Hash h) = Ok True
    \<and> VerifySigHashedPub b2 ec (HashPub b2 ec (SECP256k1Signer_Pub ec sk)) s (Hash_Hash h) = Ok True
    \<and> (VerifySigHashedPub b2 ec ph s (Hash_Hash h) = Ok True
        \<longleftrightarrow> ph = HashPub b2 ec (SECP256k1Signer_Pub ec sk))"
  using Sign_Ok [OF assms(1) _ assms(2)] assms(3)
  by (auto simp: VerifySigPub_def VerifySigHashedPub_def SECP256k1Signer_Pub_def Hash_Hash_def
      Hash_Bytes_def)

theorem Sign_Verify_witness:
  "btcec_laws toy_ec \<and> VerifySigPub toy_ec 5 (5 # ZeroHash @ replicate 32 0) (Hash_Hash ZeroHash) = Ok True"
proof -
  have "SECP256k1Signer_Sign toy_ec 5 (Hash_Hash ZeroHash) = Ok (5 # ZeroHash @ replicate 32 0)"
    by (simp add: SECP256k1Signer_Sign_def toy_ec_def Hash_Hash_def Hash_Bytes_def
        ZeroSignature_def go_copy_same_length)
  from Sign_Verify [OF btcec_laws_toy_ec _ this] show ?thesis
    by (simp add: btcec_laws_toy_ec hash_wf_def SECP256k1Signer_Pub_def) (simp add: toy_ec_def)
qed

end
