(* ===== verification/Blob_Sector.thy ===== *)
theory Blob_Sector
  imports Go_Base
begin

text \<open>Sectors and the constants of package \<open>blob\<close> (\<open>blob/sector.go\<close>, \<open>blob/consts.go\<close>).\<close>

definition SectorBytes :: nat where
  "SectorBytes = 256"

definition MaxSectors :: nat where
  "MaxSectors = 4096"

definition blob_Size :: nat where
  "blob_Size = SectorBytes * MaxSectors"

type_synonym Sector = bytes

definition sector_wf :: "Sector \<Rightarrow> bool" where
  "sector_wf s \<longleftrightarrow> length s = SectorBytes"

definition ZeroSector :: Sector where
  "ZeroSector = replicate SectorBytes 0"

definition Sector_Encode :: "Sector \<Rightarrow> wr" where
  "Sector_Encode s = wr_bytes s"

definition Sector_Decode :: "bytes \<Rightarrow> (Sector \<times> bytes) go" where
  "Sector_Decode r = io_ReadFull SectorBytes r"

lemma length_ZeroSector [simp]: "length ZeroSector = SectorBytes"
  by (simp add: ZeroSector_def)

lemma sector_wf_ZeroSector [simp]: "sector_wf ZeroSector"
  by (simp add: sector_wf_def)

lemma SectorBytes_pos [simp]: "0 < SectorBytes" "SectorBytes \<noteq> 0"
  by (simp_all add: SectorBytes_def)

end
