(* ===== verification/Wire_Codec.thy ===== *)
theory Wire_Codec
  imports Dwire Crypto Blob_Sector
begin

text \<open>
  The types of the wire package that implement \<open>Encoder\<close> and \<open>Decoder\<close> (\<open>wire/encoders.go\<close>,
  \<open>wire/message.go\<close>, the peer of \<open>wire/peer_res.go\<close>, \<open>crypto.Hash\<close> and \<open>blob.Sector\<close>), and the
  proof that they meet the contract of \<open>dwire\<close>.  A nil public key is not represented: \<open>Hello\<close>
  values carry one.
\<close>

section \<open>Message types\<close>

type_synonym MessageType = uint16

definition MessageTypeHello :: MessageType where "MessageTypeHello = 0"
definition MessageTypeHelloAck :: MessageType where "MessageTypeHelloAck = 1"
definition MessageTypePing :: MessageType where "MessageTypePing = 2"
definition MessageTypeUpdate :: MessageType where "MessageTypeUpdate = 3"
definition MessageTypeNilUpdate :: MessageType where "MessageTypeNilUpdate = 4"
definition MessageTypeBlobReq :: MessageType where "MessageTypeBlobReq = 5"
definition MessageTypeBlobRes :: MessageType where "MessageTypeBlobRes = 6"
definition MessageTypePeerReq :: MessageType where "MessageTypePeerReq = 7"
definition MessageTypePeerRes :: MessageType where "MessageTypePeerRes = 8"
definition MessageTypeUpdateReq :: MessageType where "MessageTypeUpdateReq = 9"
definition MessageTypeNameRes :: MessageType where "MessageTypeNameRes = 10"
definition MessageTypeEquivocationProof :: MessageType where "MessageTypeEquivocationProof = 11"

lemmas MessageType_defs =
  MessageTypeHello_def MessageTypeHelloAck_def MessageTypePing_def MessageTypeUpdate_def
  MessageTypeNilUpdate_def MessageTypeBlobReq_def MessageTypeBlobRes_def MessageTypePeerReq_def
  MessageTypePeerRes_def MessageTypeUpdateReq_def MessageTypeNameRes_def
  MessageTypeEquivocationProof_def

definition MessageType_String :: "MessageType \<Rightarrow> string" where
  "MessageType_String t =
     (if t = MessageTypeHello then ''Hello''
      else if t = MessageTypeHelloAck then ''HelloAck''
      else if t = MessageTypePing then ''Ping''
      else if t = MessageTypeUpdate then ''Update''
      else if t = MessageTypeNilUpdate then ''NilUpdate''
      else if t = MessageTypeBlobReq then ''BlobReq''
      else if t = MessageTypeBlobRes then ''BlobRes''
      else if t = MessageTypePeerReq then ''PeerReq''
      else if t = MessageTypePeerRes then ''PeerRes''
      else if t = MessageTypeUpdateReq then ''UpdateReq''
      else if t = MessageTypeNameRes then ''NameRes''
      else if t = MessageTypeEquivocationProof then ''EquivocationProof''
      else ''unknown'')"

definition MessageType_Encode :: "MessageType \<Rightarrow> wr" where
  "MessageType_Encode t = wr_bytes (PutUint16 t)"

definition MessageType_Decode :: "bytes \<Rightarrow> (MessageType \<times> bytes) go" where
  "MessageType_Decode r = go_mapr Uint16 (io_ReadFull 2 r)"

section \<open>IP addresses (net.IP)\<close>

type_synonym IP = bytes

definition v4InV6Prefix :: bytes where
  "v4InV6Prefix = [0, 0, 0, 0, 0, 0, 0, 0, 0, 0, 0xff, 0xff]"

definition IP_To16 :: "IP \<Rightarrow> IP option" where
  "IP_To16 ip =
     (if length ip = 4 then Some (v4InV6Prefix @ ip)
      else if length ip = 16 then Some ip
      else None)"

definition IP_To4 :: "IP \<Rightarrow> IP option" where
  "IP_To4 ip =
     (if length ip = 4 then Some ip
      else if length ip = 16 \<and> take 12 ip = v4InV6Prefix then Some (drop 12 ip)
      else None)"

definition IP_Equal :: "IP \<Rightarrow> IP \<Rightarrow> bool" where
  "IP_Equal ip x =
     (if length ip = length x then ip = x
      else if length ip = 4 \<and> length x = 16 then take 12 x = v4InV6Prefix \<and> ip = drop 12 x
      else if length ip = 16 \<and> length x = 4 then take 12 ip = v4InV6Prefix \<and> drop 12 ip = x
      else False)"

definition IPEncoder_Encode :: "IP \<Rightarrow> wr" where
  "IPEncoder_Encode i =
     (case IP_To16 i of
        None \<Rightarrow> wr_fail (ErrNew ''not an IP address'')
      | Some to16 \<Rightarrow> wr_bytes to16)"

definition IPEncoder_Decode :: "bytes \<Rightarrow> (IP \<times> bytes) go" where
  "IPEncoder_Decode r = io_ReadFull 16 r"

section \<open>Public keys\<close>

definition PublicKeyEncoder_Encode :: "('pk, 'sk) btcec \<Rightarrow> 'pk \<Rightarrow> wr" where
  "PublicKeyEncoder_Encode ec p = wr_bytes (ec_SerializeCompressed ec p)"

definition PublicKeyEncoder_Decode :: "('pk, 'sk) btcec \<Rightarrow> bytes \<Rightarrow> ('pk \<times> bytes) go" where
  "PublicKeyEncoder_Decode ec r =
     go_bind (io_ReadFull 33 r) (\<lambda>(buf, r').
     go_bind (go_of (ec_ParsePubKey ec buf)) (\<lambda>key. Ok (key, r')))"

section \<open>Custom types as one sum\<close>

datatype 'pk leaf =
    LHash Hash
  | LSector Sector
  | LMsgType MessageType
  | LPub 'pk
  | LIP IP

datatype leaf_kind = DHash | DSector | DMsgType | DPub | DIP

primrec leaf_Encode :: "('pk, 'sk) btcec \<Rightarrow> 'pk leaf \<Rightarrow> wr" where
  "leaf_Encode ec (LHash h) = Hash_Encode h"
| "leaf_Encode ec (LSector s) = Sector_Encode s"
| "leaf_Encode ec (LMsgType t) = MessageType_Encode t"
| "leaf_Encode ec (LPub p) = PublicKeyEncoder_Encode ec p"
| "leaf_Encode ec (LIP i) = IPEncoder_Encode i"

primrec leaf_Decode :: "('pk, 'sk) btcec \<Rightarrow> leaf_kind \<Rightarrow> bytes \<Rightarrow> ('pk leaf \<times> bytes) go" where
  "leaf_Decode ec DHash r = go_mapr LHash (Hash_Decode r)"
| "leaf_Decode ec DSector r = go_mapr LSector (Sector_Decode r)"
| "leaf_Decode ec DMsgType r = go_mapr LMsgType (MessageType_Decode r)"
| "leaf_Decode ec DPub r = go_mapr LPub (PublicKeyEncoder_Decode ec r)"
| "leaf_Decode ec DIP r = go_mapr LIP (IPEncoder_Decode r)"

text \<open>Well-formed values of each kind; a key must survive its serialisation.\<close>

definition pub_wf :: "('pk, 'sk) btcec \<Rightarrow> 'pk \<Rightarrow> bool" where
  "pub_wf ec p \<longleftrightarrow> length (ec_SerializeCompressed ec p) = 33
     \<and> ec_ParsePubKey ec (ec_SerializeCompressed ec p) = Inr p"

definition leaf_ty :: "('pk, 'sk) btcec \<Rightarrow> 'pk leaf \<Rightarrow> leaf_kind \<Rightarrow> bool" where
  "leaf_ty ec x d =
     (case (x, d) of
        (LHash h, DHash) \<Rightarrow> hash_wf h
      | (LSector s, DSector) \<Rightarrow> sector_wf s
      | (LMsgType t, DMsgType) \<Rightarrow> True
      | (LPub p, DPub) \<Rightarrow> pub_wf ec p
      | (LIP i, DIP) \<Rightarrow> True
      | _ \<Rightarrow> False)"

text \<open>An address comes back in its 16-byte form.\<close>

definition canon_IP :: "IP \<Rightarrow> IP" where
  "canon_IP i = (case IP_To16 i of None \<Rightarrow> i | Some j \<Rightarrow> j)"

primrec leaf_nrm :: "'pk leaf \<Rightarrow> 'pk leaf" where
  "leaf_nrm (LHash h) = LHash h"
| "leaf_nrm (LSector s) = LSector s"
| "leaf_nrm (LMsgType t) = LMsgType t"
| "leaf_nrm (LPub p) = LPub p"
| "leaf_nrm (LIP i) = LIP (canon_IP i)"

lemma btcec_laws_pub_wf: "btcec_laws ec \<Longrightarrow> pub_wf ec p"
  by (simp add: btcec_laws_def pub_wf_def)

lemma length_v4InV6Prefix [simp]: "length v4InV6Prefix = 12"
  by (simp add: v4InV6Prefix_def)

lemma length_IP_To16: "IP_To16 i = Some j \<Longrightarrow> length j = 16"
  by (auto simp: IP_To16_def split: if_splits)

lemma canon_IP_idem [simp]: "canon_IP (canon_IP i) = canon_IP i"
  by (auto simp: canon_IP_def IP_To16_def)

lemma canon_IP_Equal: "length i = 4 \<or> length i = 16 \<Longrightarrow> IP_Equal i (canon_IP i)"
  by (auto simp: canon_IP_def IP_To16_def IP_Equal_def)

lemmas leaf_codec_defs =
  Hash_Encode_def Hash_Decode_def Hash_Bytes_def Sector_Encode_def Sector_Decode_def
  MessageType_Encode_def MessageType_Decode_def PublicKeyEncoder_Encode_def
  PublicKeyEncoder_Decode_def IPEncoder_Encode_def IPEncoder_Decode_def

interpretation leafc: field_codec "leaf_Decode ec" "leaf_Encode ec" "leaf_ty ec" leaf_nrm
  for ec :: "('pk, 'sk) btcec"
proof (unfold_locales, goal_cases)
  case (1 d r m)
  show ?case by (cases d) (simp_all add: leaf_codec_defs go_bind_eq_Panic)
next
  case (2 d r x r')
  then show ?case
    by (cases d) (auto simp: leaf_codec_defs go_mapr_eq_Ok go_bind_eq_Ok io_ReadFull_Ok)
next
  case (3 x d bs r)
  then show ?case
    by (auto simp: leaf_ty_def leaf_codec_defs hash_wf_def sector_wf_def pub_wf_def canon_IP_def
        wr_bytes_Ok wr_fail_not_Ok io_ReadFull_append length_IP_To16
        split: leaf.splits leaf_kind.splits option.splits)
qed

section \<open>Peers\<close>

record Peer =
  wpeer_IP :: IP
  wpeer_ID :: Hash

definition Peer_Encode :: "('pk, 'sk) btcec \<Rightarrow> Peer \<Rightarrow> wr" where
  "Peer_Encode ec p =
     EncodeFields (leaf_Encode ec) defaultEncoder
       [ICustom (LIP (wpeer_IP p)), ICustom (LHash (wpeer_ID p))]"

fun as_IP :: "'pk leaf item \<Rightarrow> IP" where
  "as_IP (ICustom (LIP i)) = i" | "as_IP _ = []"

fun as_hash :: "'pk leaf item \<Rightarrow> Hash" where
  "as_hash (ICustom (LHash h)) = h" | "as_hash _ = ZeroHash"

definition Peer_Decode :: "('pk, 'sk) btcec \<Rightarrow> bytes \<Rightarrow> (Peer \<times> bytes) go" where
  "Peer_Decode ec r =
     go_mapr (\<lambda>its. \<lparr>wpeer_IP = as_IP (its ! 0), wpeer_ID = as_hash (its ! 1)\<rparr>)
       (DecodeFields (leaf_Decode ec) defaultEncoder [TCustom DIP, TCustom DHash] r)"

definition peer_canon :: "Peer \<Rightarrow> Peer" where
  "peer_canon p = p\<lparr>wpeer_IP := canon_IP (wpeer_IP p)\<rparr>"

definition peer_ty :: "Peer \<Rightarrow> unit \<Rightarrow> bool" where
  "peer_ty p _ \<longleftrightarrow> hash_wf (wpeer_ID p)"

lemma Peer_Decode_Encode:
  assumes "peer_ty p ()" and "Peer_Encode ec p = (bs, None)"
  shows "Peer_Decode ec (bs @ r) = Ok (peer_canon p, r)"
proof -
  have "DecodeFields (leaf_Decode ec) defaultEncoder [TCustom DIP, TCustom DHash] (bs @ r)
      = Ok (map (canon leaf_nrm) [ICustom (LIP (wpeer_IP p)), ICustom (LHash (wpeer_ID p))], r)"
    using assms unfolding Peer_Encode_def
    by (intro leafc.DecodeFields_EncodeFields) (simp_all add: peer_ty_def leaf_ty_def)
  then show ?thesis by (simp add: Peer_Decode_def peer_canon_def)
qed

interpretation peerc: field_codec "\<lambda>_ :: unit. Peer_Decode ec" "Peer_Encode ec" peer_ty peer_canon
  for ec :: "('pk, 'sk) btcec"
proof (unfold_locales, goal_cases)
  case (1 d r m)
  show ?case by (simp add: Peer_Decode_def leafc.DecodeFields_total del: DecodeFields.simps)
next
  case (2 d r x r')
  then show ?case by (auto simp: Peer_Decode_def go_mapr_eq_Ok dest: leafc.DecodeFields_prefix
      simp del: DecodeFields.simps)
next
  case (3 x d bs r)
  then show ?case using Peer_Decode_Encode by simp
qed

end
