(* ===== verification/Wire_Message.thy ===== *)
theory Wire_Message
  imports Wire_Codec
begin

text \<open>
  The messages of package \<open>wire\<close>: one record per message struct with its \<open>Encode\<close>, \<open>Decode\<close>
  and \<open>Equals\<close>, the sum \<open>Message\<close> for the interface, and the cached hash of \<open>hash_cacher.go\<close>.
  \<open>Decode\<close> assigns fields through pointers: a decoded field list is read off by position.
\<close>

section \<open>Reading decoded fields\<close>

fun as_u16 :: "'c item \<Rightarrow> uint16" where
  "as_u16 (IUint16 w) = w" | "as_u16 _ = 0"

fun as_u32 :: "'c item \<Rightarrow> uint32" where
  "as_u32 (IUint32 w) = w" | "as_u32 _ = 0"

fun as_string :: "'c item \<Rightarrow> string" where
  "as_string (IString s) = s" | "as_string _ = []"

fun as_bytes :: "'c item \<Rightarrow> bytes" where
  "as_bytes (IBytes b) = b" | "as_bytes (IBytes32 b) = b" | "as_bytes (IByteArray b) = b"
| "as_bytes _ = []"

fun as_time :: "'c item \<Rightarrow> time" where
  "as_time (ITime t) = t" | "as_time _ = time_zero"

fun as_pub :: "'pk leaf item \<Rightarrow> 'pk" where
  "as_pub (ICustom (LPub p)) = p"

fun as_msgtype :: "'pk leaf item \<Rightarrow> MessageType" where
  "as_msgtype (ICustom (LMsgType t)) = t" | "as_msgtype _ = 0"

fun as_sector :: "'pk leaf item \<Rightarrow> Sector" where
  "as_sector (ICustom (LSector s)) = s" | "as_sector _ = ZeroSector"

fun as_sectors :: "'pk leaf item \<Rightarrow> Sector list" where
  "as_sectors (ISlice xs) = map as_sector xs" | "as_sectors _ = []"

fun as_peer :: "Peer item \<Rightarrow> Peer" where
  "as_peer (ICustom p) = p" | "as_peer _ = \<lparr>wpeer_IP = [], wpeer_ID = ZeroHash\<rparr>"

fun as_peers :: "Peer item \<Rightarrow> Peer list" where
  "as_peers (ISlice xs) = map as_peer xs" | "as_peers _ = []"

section \<open>Message structs\<close>

record 'pk Hello =
  hello_ProtocolVersion :: uint32
  hello_LocalNonce :: bytes
  hello_RemoteNonce :: bytes
  hello_PublicKey :: 'pk
  hello_UserAgent :: string

record HelloAck =
  helloAck_Nonce :: bytes

record Update =
  update_Name :: string
  update_EpochHeight :: uint16
  update_SectorSize :: uint16

record NilUpdate =
  nilUpdate_Name :: string

record BlobReq =
  blobReq_Name :: string
  blobReq_EpochHeight :: uint16
  blobReq_SectorSize :: uint16

record BlobRes =
  blobRes_Name :: string
  blobRes_EpochHeight :: uint16
  blobRes_PayloadPosition :: uint16
  blobRes_PrevHash :: Hash
  blobRes_ReservedRoot :: Hash
  blobRes_Payload :: "Sector list"
  blobRes_Signature :: Signature

record PeerRes =
  peerRes_Peers :: "Peer list"

record UpdateReq =
  updateReq_Name :: string
  updateReq_EpochHeight :: uint16
  updateReq_SectorSize :: uint16

record EquivocationProof =
  ep_Name :: string
  ep_RemoteEpochHeight :: uint16
  ep_RemotePayloadPosition :: uint16
  ep_RemotePrevHash :: Hash
  ep_RemoteReservedRoot :: Hash
  ep_RemotePayload :: "Sector list"
  ep_RemoteSignature :: Signature
  ep_LocalEpochHeight :: uint16
  ep_LocalSectorSize :: uint16
  ep_LocalSectorTipHash :: Hash
  ep_LocalReservedRoot :: Hash
  ep_LocalSignature :: Signature

datatype 'pk Message =
    MHello "'pk Hello"
  | MHelloAck HelloAck
  | MPing
  | MUpdate Update
  | MNilUpdate NilUpdate
  | MBlobReq BlobReq
  | MBlobRes BlobRes
  | MPeerReq
  | MPeerRes PeerRes
  | MUpdateReq UpdateReq
  | MEquivocationProof EquivocationProof

primrec MsgType :: "'pk Message \<Rightarrow> MessageType" where
  "MsgType (MHello _) = MessageTypeHello"
| "MsgType (MHelloAck _) = MessageTypeHelloAck"
| "MsgType MPing = MessageTypePing"
| "MsgType (MUpdate _) = MessageTypeUpdate"
| "MsgType (MNilUpdate _) = MessageTypeNilUpdate"
| "MsgType (MBlobReq _) = MessageTypeBlobReq"
| "MsgType (MBlobRes _) = MessageTypeBlobRes"
| "MsgType MPeerReq = MessageTypePeerReq"
| "MsgType (MPeerRes _) = MessageTypePeerRes"
| "MsgType (MUpdateReq _) = MessageTypeUpdateReq"
| "MsgType (MEquivocationProof _) = MessageTypeEquivocationProof"

section \<open>Encoders and decoders\<close>

definition Hello_Encode :: "('pk, 'sk) btcec \<Rightarrow> 'pk Hello \<Rightarrow> wr" where
  "Hello_Encode ec h = EncodeFields (leaf_Encode ec) defaultEncoder
     [IUint32 (hello_ProtocolVersion h), IBytes32 (hello_LocalNonce h),
      IBytes32 (hello_RemoteNonce h), ICustom (LPub (hello_PublicKey h)),
      IString (hello_UserAgent h)]"

definition Hello_Decode :: "('pk, 'sk) btcec \<Rightarrow> bytes \<Rightarrow> ('pk Hello \<times> bytes) go" where
  "Hello_Decode ec r = go_mapr
     (\<lambda>its. \<lparr>hello_ProtocolVersion = as_u32 (its ! 0), hello_LocalNonce = as_bytes (its ! 1),
        hello_RemoteNonce = as_bytes (its ! 2), hello_PublicKey = as_pub (its ! 3),
        hello_UserAgent = as_string (its ! 4)\<rparr>)
     (DecodeFields (leaf_Decode ec) defaultEncoder
        [TUint32, TBytes32, TBytes32, TCustom DPub, TString] r)"

definition HelloAck_Encode :: "('pk, 'sk) btcec \<Rightarrow> HelloAck \<Rightarrow> wr" where
  "HelloAck_Encode ec h =
     EncodeFields (leaf_Encode ec) defaultEncoder [IBytes32 (helloAck_Nonce h)]"

definition HelloAck_Decode :: "('pk, 'sk) btcec \<Rightarrow> bytes \<Rightarrow> (HelloAck \<times> bytes) go" where
  "HelloAck_Decode ec r = go_mapr (\<lambda>its. \<lparr>helloAck_Nonce = as_bytes (its ! 0)\<rparr>)
     (DecodeFields (leaf_Decode ec) defaultEncoder [TBytes32] r)"

definition Ping_Encode :: wr where
  "Ping_Encode = wr_bytes []"

definition Ping_Decode :: "bytes \<Rightarrow> (unit \<times> bytes) go" where
  "Ping_Decode r = Ok ((), r)"

definition Update_Encode :: "('pk, 'sk) btcec \<Rightarrow> Update \<Rightarrow> wr" where
  "Update_Encode ec u = EncodeFields (leaf_Encode ec) defaultEncoder
     [IString (update_Name u), IUint16 (update_EpochHeight u), IUint16 (update_SectorSize u)]"

definition Update_Decode :: "('pk, 'sk) btcec \<Rightarrow> bytes \<Rightarrow> (Update \<times> bytes) go" where
  "Update_Decode ec r = go_mapr
     (\<lambda>its. \<lparr>update_Name = as_string (its ! 0), update_EpochHeight = as_u16 (its ! 1),
        update_SectorSize = as_u16 (its ! 2)\<rparr>)
     (DecodeFields (leaf_Decode ec) defaultEncoder [TString, TUint16, TUint16] r)"

definition NilUpdate_Encode :: "('pk, 'sk) btcec \<Rightarrow> NilUpdate \<Rightarrow> wr" where
  "NilUpdate_Encode ec n =
     EncodeFields (leaf_Encode ec) defaultEncoder [IString (nilUpdate_Name n)]"

definition NilUpdate_Decode :: "('pk, 'sk) btcec \<Rightarrow> bytes \<Rightarrow> (NilUpdate \<times> bytes) go" where
  "NilUpdate_Decode ec r = go_mapr (\<lambda>its. \<lparr>nilUpdate_Name = as_string (its ! 0)\<rparr>)
     (DecodeFields (leaf_Decode ec) defaultEncoder [TString] r)"

definition BlobReq_Encode :: "('pk, 'sk) btcec \<Rightarrow> BlobReq \<Rightarrow> wr" where
  "BlobReq_Encode ec u = EncodeFields (leaf_Encode ec) defaultEncoder
     [IString (blobReq_Name u), IUint16 (blobReq_EpochHeight u), IUint16 (blobReq_SectorSize u)]"

definition BlobReq_Decode :: "('pk, 'sk) btcec \<Rightarrow> bytes \<Rightarrow> (BlobReq \<times> bytes) go" where
  "BlobReq_Decode ec r = go_mapr
     (\<lambda>its. \<lparr>blobReq_Name = as_string (its ! 0), blobReq_EpochHeight = as_u16 (its ! 1),
        blobReq_SectorSize = as_u16 (its ! 2)\<rparr>)
     (DecodeFields (leaf_Decode ec) defaultEncoder [TString, TUint16, TUint16] r)"

definition BlobRes_Encode :: "('pk, 'sk) btcec \<Rightarrow> BlobRes \<Rightarrow> wr" where
  "BlobRes_Encode ec s = EncodeFields (leaf_Encode ec) defaultEncoder
     [IString (blobRes_Name s), IUint16 (blobRes_EpochHeight s),
      IUint16 (blobRes_PayloadPosition s), ICustom (LHash (blobRes_PrevHash s)),
      ICustom (LHash (blobRes_ReservedRoot s)),
      ISlice (map (\<lambda>x. ICustom (LSector x)) (blobRes_Payload s)),
      IByteArray (blobRes_Signature s)]"

definition BlobRes_Decode :: "('pk, 'sk) btcec \<Rightarrow> bytes \<Rightarrow> (BlobRes \<times> bytes) go" where
  "BlobRes_Decode ec r = go_mapr
     (\<lambda>its. \<lparr>blobRes_Name = as_string (its ! 0), blobRes_EpochHeight = as_u16 (its ! 1),
        blobRes_PayloadPosition = as_u16 (its ! 2), blobRes_PrevHash = as_hash (its ! 3),
        blobRes_ReservedRoot = as_hash (its ! 4), blobRes_Payload = as_sectors (its ! 5),
        blobRes_Signature = as_bytes (its ! 6)\<rparr>)
     (DecodeFields (leaf_Decode ec) defaultEncoder
        [TString, TUint16, TUint16, TCustom DHash, TCustom DHash, TSlice (TCustom DSector),
         TByteArray 65] r)"

definition PeerReq_Encode :: wr where
  "PeerReq_Encode = wr_bytes []"

definition PeerReq_Decode :: "bytes \<Rightarrow> (unit \<times> bytes) go" where
  "PeerReq_Decode r = Ok ((), r)"

text \<open>The peers are first encoded into a buffer that is thrown away, to find an error early.\<close>

fun PeerRes_dryRun :: "('pk, 'sk) btcec \<Rightarrow> Peer list \<Rightarrow> err option" where
  "PeerRes_dryRun ec [] = None"
| "PeerRes_dryRun ec (p # ps) =
     (case Peer_Encode ec p of (_, Some e) \<Rightarrow> Some e | (_, None) \<Rightarrow> PeerRes_dryRun ec ps)"

definition PeerRes_Encode :: "('pk, 'sk) btcec \<Rightarrow> PeerRes \<Rightarrow> wr" where
  "PeerRes_Encode ec p =
     (case PeerRes_dryRun ec (peerRes_Peers p) of
        Some e \<Rightarrow> wr_fail e
      | None \<Rightarrow> EncodeFields (Peer_Encode ec) defaultEncoder [ISlice (map ICustom (peerRes_Peers p))])"

definition PeerRes_Decode :: "('pk, 'sk) btcec \<Rightarrow> bytes \<Rightarrow> (PeerRes \<times> bytes) go" where
  "PeerRes_Decode ec r = go_mapr (\<lambda>its. \<lparr>peerRes_Peers = as_peers (its ! 0)\<rparr>)
     (DecodeFields (\<lambda>_ :: unit. Peer_Decode ec) defaultEncoder [TSlice (TCustom ())] r)"

definition UpdateReq_Encode :: "('pk, 'sk) btcec \<Rightarrow> UpdateReq \<Rightarrow> wr" where
  "UpdateReq_Encode ec n = EncodeFields (leaf_Encode ec) defaultEncoder
     [IString (updateReq_Name n), IUint16 (updateReq_EpochHeight n),
      IUint16 (updateReq_SectorSize n)]"

definition UpdateReq_Decode :: "('pk, 'sk) btcec \<Rightarrow> bytes \<Rightarrow> (UpdateReq \<times> bytes) go" where
  "UpdateReq_Decode ec r = go_mapr
     (\<lambda>its. \<lparr>updateReq_Name = as_string (its ! 0), updateReq_EpochHeight = as_u16 (its ! 1),
        updateReq_SectorSize = as_u16 (its ! 2)\<rparr>)
     (DecodeFields (leaf_Decode ec) defaultEncoder [TString, TUint16, TUint16] r)"

definition EquivocationProof_Encode :: "('pk, 'sk) btcec \<Rightarrow> EquivocationProof \<Rightarrow> wr" where
  "EquivocationProof_Encode ec s = EncodeFields (leaf_Encode ec) defaultEncoder
     [IString (ep_Name s), IUint16 (ep_RemoteEpochHeight s),
      IUint16 (ep_RemotePayloadPosition s), ICustom (LHash (ep_RemotePrevHash s)),
      ICustom (LHash (ep_RemoteReservedRoot s)),
      ISlice (map (\<lambda>x. ICustom (LSector x)) (ep_RemotePayload s)),
      IByteArray (ep_RemoteSignature s),
      IUint16 (ep_LocalEpochHeight s), IUint16 (ep_LocalSectorSize s),
      ICustom (LHash (ep_LocalSectorTipHash s)), ICustom (LHash (ep_LocalReservedRoot s)),
      IByteArray (ep_LocalSignature s)]"

definition EquivocationProof_Decode ::
  "('pk, 'sk) btcec \<Rightarrow> bytes \<Rightarrow> (EquivocationProof \<times> bytes) go" where
  "EquivocationProof_Decode ec r = go_mapr
     (\<lambda>its. \<lparr>ep_Name = as_string (its ! 0), ep_RemoteEpochHeight = as_u16 (its ! 1),
        ep_RemotePayloadPosition = as_u16 (its ! 2), ep_RemotePrevHash = as_hash (its ! 3),
        ep_RemoteReservedRoot = as_hash (its ! 4), ep_RemotePayload = as_sectors (its ! 5),
        ep_RemoteSignature = as_bytes (its ! 6), ep_LocalEpochHeight = as_u16 (its ! 7),
        ep_LocalSectorSize = as_u16 (its ! 8), ep_LocalSectorTipHash = as_hash (its ! 9),
        ep_LocalReservedRoot = as_hash (its ! 10), ep_LocalSignature = as_bytes (its ! 11)\<rparr>)
     (DecodeFields (leaf_Decode ec) defaultEncoder
        [TString, TUint16, TUint16, TCustom DHash, TCustom DHash, TSlice (TCustom DSector),
         TByteArray 65, TUint16, TUint16, TCustom DHash, TCustom DHash, TByteArray 65] r)"

primrec Message_Encode :: "('pk, 'sk) btcec \<Rightarrow> 'pk Message \<Rightarrow> wr" where
  "Message_Encode ec (MHello m) = Hello_Encode ec m"
| "Message_Encode ec (MHelloAck m) = HelloAck_Encode ec m"
| "Message_Encode ec MPing = Ping_Encode"
| "Message_Encode ec (MUpdate m) = Update_Encode ec m"
| "Message_Encode ec (MNilUpdate m) = NilUpdate_Encode ec m"
| "Message_Encode ec (MBlobReq m) = BlobReq_Encode ec m"
| "Message_Encode ec (MBlobRes m) = BlobRes_Encode ec m"
| "Message_Encode ec MPeerReq = PeerReq_Encode"
| "Message_Encode ec (MPeerRes m) = PeerRes_Encode ec m"
| "Message_Encode ec (MUpdateReq m) = UpdateReq_Encode ec m"
| "Message_Encode ec (MEquivocationProof m) = EquivocationProof_Encode ec m"

section \<open>Comparison\<close>

definition Hello_Equals :: "'pk Hello \<Rightarrow> 'pk Hello \<Rightarrow> bool" where
  "Hello_Equals h cast \<longleftrightarrow>
     hello_ProtocolVersion h = hello_ProtocolVersion cast \<and>
     hello_LocalNonce h = hello_LocalNonce cast \<and>
     hello_RemoteNonce h = hello_RemoteNonce cast \<and>
     hello_PublicKey h = hello_PublicKey cast \<and>
     hello_UserAgent h = hello_UserAgent cast"

definition HelloAck_Equals :: "HelloAck \<Rightarrow> HelloAck \<Rightarrow> bool" where
  "HelloAck_Equals h cast \<longleftrightarrow> helloAck_Nonce h = helloAck_Nonce cast"

definition Update_Equals :: "Update \<Rightarrow> Update \<Rightarrow> bool" where
  "Update_Equals u cast \<longleftrightarrow>
     update_Name u = update_Name cast \<and> update_EpochHeight u = update_EpochHeight cast \<and>
     update_SectorSize u = update_SectorSize cast"

definition NilUpdate_Equals :: "NilUpdate \<Rightarrow> NilUpdate \<Rightarrow> bool" where
  "NilUpdate_Equals n cast \<longleftrightarrow> nilUpdate_Name n = nilUpdate_Name cast"

definition BlobReq_Equals :: "BlobReq \<Rightarrow> BlobReq \<Rightarrow> bool" where
  "BlobReq_Equals u cast \<longleftrightarrow>
     blobReq_Name u = blobReq_Name cast \<and> blobReq_EpochHeight u = blobReq_EpochHeight cast \<and>
     blobReq_SectorSize u = blobReq_SectorSize cast"

definition BlobRes_Equals :: "BlobRes \<Rightarrow> BlobRes \<Rightarrow> bool" where
  "BlobRes_Equals s cast \<longleftrightarrow>
     blobRes_Name s = blobRes_Name cast \<and>
     blobRes_EpochHeight s = blobRes_EpochHeight cast \<and>
     blobRes_PayloadPosition s = blobRes_PayloadPosition cast \<and>
     blobRes_PrevHash s = blobRes_PrevHash cast \<and>
     blobRes_ReservedRoot s = blobRes_ReservedRoot cast \<and>
     blobRes_Signature s = blobRes_Signature cast"

text \<open>The loop runs over the receiver's peers and indexes the other list.\<close>

fun PeerRes_EqualsLoop :: "Peer list \<Rightarrow> Peer list \<Rightarrow> bool go" where
  "PeerRes_EqualsLoop [] bs = Ok True"
| "PeerRes_EqualsLoop (a # as) [] = Panic ''index out of range''"
| "PeerRes_EqualsLoop (a # as) (b # bs) =
     (if IP_Equal (wpeer_IP a) (wpeer_IP b) \<and> wpeer_ID a = wpeer_ID b
      then PeerRes_EqualsLoop as bs else Ok False)"

definition PeerRes_Equals :: "PeerRes \<Rightarrow> PeerRes \<Rightarrow> bool go" where
  "PeerRes_Equals p cast = PeerRes_EqualsLoop (peerRes_Peers p) (peerRes_Peers cast)"

definition UpdateReq_Equals :: "UpdateReq \<Rightarrow> UpdateReq \<Rightarrow> bool" where
  "UpdateReq_Equals n cast \<longleftrightarrow>
     updateReq_Name n = updateReq_Name cast \<and>
     updateReq_EpochHeight n = updateReq_EpochHeight cast \<and>
     updateReq_SectorSize n = updateReq_SectorSize cast"

definition EquivocationProof_Equals :: "EquivocationProof \<Rightarrow> EquivocationProof \<Rightarrow> bool" where
  "EquivocationProof_Equals s cast \<longleftrightarrow>
     ep_Name s = ep_Name cast \<and>
     ep_RemoteEpochHeight s = ep_RemoteEpochHeight cast \<and>
     ep_RemotePayloadPosition s = ep_RemotePayloadPosition cast \<and>
     ep_RemotePrevHash s = ep_RemotePrevHash cast \<and>
     ep_RemoteReservedRoot s = ep_RemoteReservedRoot cast \<and>
     ep_RemoteSignature s = ep_RemoteSignature cast \<and>
     ep_LocalEpochHeight s = ep_LocalEpochHeight cast \<and>
     ep_LocalSectorSize s = ep_LocalSectorSize cast \<and>
     ep_LocalSectorTipHash s = ep_LocalSectorTipHash cast \<and>
     ep_LocalReservedRoot s = ep_LocalReservedRoot cast \<and>
     ep_LocalSignature s = ep_LocalSignature cast"

definition Message_Equals :: "'pk Message \<Rightarrow> 'pk Message \<Rightarrow> bool go" where
  "Message_Equals m other =
     (case (m, other) of
        (MHello a, MHello b) \<Rightarrow> Ok (Hello_Equals a b)
      | (MHelloAck a, MHelloAck b) \<Rightarrow> Ok (HelloAck_Equals a b)
      | (MPing, MPing) \<Rightarrow> Ok True
      | (MUpdate a, MUpdate b) \<Rightarrow> Ok (Update_Equals a b)
      | (MNilUpdate a, MNilUpdate b) \<Rightarrow> Ok (NilUpdate_Equals a b)
      | (MBlobReq a, MBlobReq b) \<Rightarrow> Ok (BlobReq_Equals a b)
      | (MBlobRes a, MBlobRes b) \<Rightarrow> Ok (BlobRes_Equals a b)
      | (MPeerReq, MPeerReq) \<Rightarrow> Ok True
      | (MPeerRes a, MPeerRes b) \<Rightarrow> PeerRes_Equals a b
      | (MUpdateReq a, MUpdateReq b) \<Rightarrow> Ok (UpdateReq_Equals a b)
      | (MEquivocationProof a, MEquivocationProof b) \<Rightarrow> Ok (EquivocationProof_Equals a b)
      | _ \<Rightarrow> Ok False)"

section \<open>Cached hashes\<close>

record HashCacher =
  hc_hash :: Hash
  hc_done :: bool

definition HashCacher_new :: HashCacher where
  "HashCacher_new = \<lparr>hc_hash = ZeroHash, hc_done = False\<rparr>"

text \<open>
  \<open>sync.Once\<close> counts a call that panicked as done.  The buffer of the pool is reset before use,
  so it holds exactly the encoding.
\<close>

definition HashCacher_Hash ::
  "(bytes \<Rightarrow> bytes) \<Rightarrow> HashCacher \<Rightarrow> wr \<Rightarrow> Hash go \<times> HashCacher" where
  "HashCacher_Hash b2 h enc =
     (if hc_done h then (Ok (hc_hash h), h)
      else
        case enc of
          (_, Some e) \<Rightarrow> (Panic ''encoding failed'', h\<lparr>hc_done := True\<rparr>)
        | (buf, None) \<Rightarrow>
            let hash = Blake2B256 b2 [buf] in
            (Ok hash, h\<lparr>hc_hash := hash, hc_done := True\<rparr>))"

text \<open>The \<open>Hash\<close> method of every message struct.\<close>

definition Message_Hash ::
  "(bytes \<Rightarrow> bytes) \<Rightarrow> ('pk, 'sk) btcec \<Rightarrow> HashCacher \<Rightarrow> 'pk Message \<Rightarrow> Hash go \<times> HashCacher" where
  "Message_Hash b2 ec h m = HashCacher_Hash b2 h (Message_Encode ec m)"

section \<open>Well-formed messages and round trips\<close>

text \<open>Array fields have the length of their Go type.\<close>

primrec message_wf :: "('pk, 'sk) btcec \<Rightarrow> 'pk Message \<Rightarrow> bool" where
  "message_wf ec (MHello m) \<longleftrightarrow>
     length (hello_LocalNonce m) = 32 \<and> length (hello_RemoteNonce m) = 32 \<and>
     pub_wf ec (hello_PublicKey m)"
| "message_wf ec (MHelloAck m) \<longleftrightarrow> length (helloAck_Nonce m) = 32"
| "message_wf ec MPing \<longleftrightarrow> True"
| "message_wf ec (MUpdate m) \<longleftrightarrow> True"
| "message_wf ec (MNilUpdate m) \<longleftrightarrow> True"
| "message_wf ec (MBlobReq m) \<longleftrightarrow> True"
| "message_wf ec (MBlobRes m) \<longleftrightarrow>
     hash_wf (blobRes_PrevHash m) \<and> hash_wf (blobRes_ReservedRoot m) \<and>
     list_all sector_wf (blobRes_Payload m) \<and> sig_wf (blobRes_Signature m)"
| "message_wf ec MPeerReq \<longleftrightarrow> True"
| "message_wf ec (MPeerRes m) \<longleftrightarrow> list_all (\<lambda>p. hash_wf (wpeer_ID p)) (peerRes_Peers m)"
| "message_wf ec (MUpdateReq m) \<longleftrightarrow> True"
| "message_wf ec (MEquivocationProof m) \<longleftrightarrow>
     hash_wf (ep_RemotePrevHash m) \<and> hash_wf (ep_RemoteReservedRoot m) \<and>
     list_all sector_wf (ep_RemotePayload m) \<and> sig_wf (ep_RemoteSignature m) \<and>
     hash_wf (ep_LocalSectorTipHash m) \<and> hash_wf (ep_LocalReservedRoot m) \<and>
     sig_wf (ep_LocalSignature m)"

definition message_canon :: "'pk Message \<Rightarrow> 'pk Message" where
  "message_canon m =
     (case m of MPeerRes p \<Rightarrow> MPeerRes \<lparr>peerRes_Peers = map peer_canon (peerRes_Peers p)\<rparr> | _ \<Rightarrow> m)"

lemma decode_fields:
  assumes "EncodeFields (leaf_Encode ec) defaultEncoder its = (bs, None)"
    and "list_all2 (has_ty (leaf_ty ec)) tys its"
  shows "go_mapr f (DecodeFields (leaf_Decode ec) defaultEncoder tys (bs @ r))
    = Ok (f (map (canon leaf_nrm) its), r)"
  using leafc.DecodeFields_EncodeFields [OF cfg_wf_default assms(2,1), of r] by simp

lemma list_all2_Nil_Cons_simps [simp]:
  "list_all2 P (t # ts) (x # xs) \<longleftrightarrow> P t x \<and> list_all2 P ts xs" "list_all2 P [] []"
  by auto

lemmas msg_field_simps =
  list_all_iff leaf_ty_def sig_wf_def nth_Cons_numeral comp_def

lemma Hello_roundtrip:
  "Hello_Encode ec m = (bs, None) \<Longrightarrow> message_wf ec (MHello m) \<Longrightarrow>
     Hello_Decode ec (bs @ r) = Ok (m, r)"
  unfolding Hello_Encode_def Hello_Decode_def
  by (subst decode_fields, assumption) (simp_all add: msg_field_simps)

lemma HelloAck_roundtrip:
  "HelloAck_Encode ec m = (bs, None) \<Longrightarrow> message_wf ec (MHelloAck m) \<Longrightarrow>
     HelloAck_Decode ec (bs @ r) = Ok (m, r)"
  unfolding HelloAck_Encode_def HelloAck_Decode_def
  by (subst decode_fields, assumption) (simp_all add: msg_field_simps)

lemma Update_roundtrip:
  "Update_Encode ec m = (bs, None) \<Longrightarrow> Update_Decode ec (bs @ r) = Ok (m, r)"
  unfolding Update_Encode_def Update_Decode_def
  by (subst decode_fields, assumption) (simp_all add: msg_field_simps)

lemma NilUpdate_roundtrip:
  "NilUpdate_Encode ec m = (bs, None) \<Longrightarrow> NilUpdate_Decode ec (bs @ r) = Ok (m, r)"
  unfolding NilUpdate_Encode_def NilUpdate_Decode_def
  by (subst decode_fields, assumption) (simp_all add: msg_field_simps)

lemma BlobReq_roundtrip:
  "BlobReq_Encode ec m = (bs, None) \<Longrightarrow> BlobReq_Decode ec (bs @ r) = Ok (m, r)"
  unfolding BlobReq_Encode_def BlobReq_Decode_def
  by (subst decode_fields, assumption) (simp_all add: msg_field_simps)

lemma UpdateReq_roundtrip:
  "UpdateReq_Encode ec m = (bs, None) \<Longrightarrow> UpdateReq_Decode ec (bs @ r) = Ok (m, r)"
  unfolding UpdateReq_Encode_def UpdateReq_Decode_def
  by (subst decode_fields, assumption) (simp_all add: msg_field_simps)

lemma BlobRes_roundtrip:
  "BlobRes_Encode ec m = (bs, None) \<Longrightarrow> message_wf ec (MBlobRes m) \<Longrightarrow>
     BlobRes_Decode ec (bs @ r) = Ok (m, r)"
  unfolding BlobRes_Encode_def BlobRes_Decode_def
  by (subst decode_fields, assumption) (simp_all add: msg_field_simps)

lemma EquivocationProof_roundtrip:
  "EquivocationProof_Encode ec m = (bs, None) \<Longrightarrow> message_wf ec (MEquivocationProof m) \<Longrightarrow>
     EquivocationProof_Decode ec (bs @ r) = Ok (m, r)"
  unfolding EquivocationProof_Encode_def EquivocationProof_Decode_def
  by (subst decode_fields, assumption) (simp_all add: msg_field_simps)

lemma PeerRes_roundtrip:
  assumes "PeerRes_Encode ec m = (bs, None)" and "message_wf ec (MPeerRes m)"
  shows "PeerRes_Decode ec (bs @ r) = Ok (\<lparr>peerRes_Peers = map peer_canon (peerRes_Peers m)\<rparr>, r)"
proof -
  have enc: "EncodeFields (Peer_Encode ec) defaultEncoder
      [ISlice (map ICustom (peerRes_Peers m))] = (bs, None)"
    using assms(1) by (auto simp: PeerRes_Encode_def wr_fail_not_Ok split: option.splits)
  have "DecodeFields (\<lambda>_ :: unit. Peer_Decode ec) defaultEncoder [TSlice (TCustom ())] (bs @ r)
      = Ok (map (canon peer_canon) [ISlice (map ICustom (peerRes_Peers m))], r)"
    using assms(2) enc
    by (intro peerc.DecodeFields_EncodeFields) (auto simp: list_all_iff peer_ty_def)
  then show ?thesis
    by (simp add: PeerRes_Decode_def comp_def del: DecodeFields.simps)
qed

text \<open>Encoding fails only for oversized fields and for addresses that are not IP addresses.\<close>

definition name_fits :: "string \<Rightarrow> bool" where
  "name_fits s \<longleftrightarrow> length s \<le> 2097152"

primrec message_fits :: "'pk Message \<Rightarrow> bool" where
  "message_fits (MHello m) \<longleftrightarrow> name_fits (hello_UserAgent m)"
| "message_fits (MHelloAck m) \<longleftrightarrow> True"
| "message_fits MPing \<longleftrightarrow> True"
| "message_fits (MUpdate m) \<longleftrightarrow> name_fits (update_Name m)"
| "message_fits (MNilUpdate m) \<longleftrightarrow> name_fits (nilUpdate_Name m)"
| "message_fits (MBlobReq m) \<longleftrightarrow> name_fits (blobReq_Name m)"
| "message_fits (MBlobRes m) \<longleftrightarrow> name_fits (blobRes_Name m) \<and> length (blobRes_Payload m) \<le> 4096"
| "message_fits MPeerReq \<longleftrightarrow> True"
| "message_fits (MPeerRes m) \<longleftrightarrow> length (peerRes_Peers m) \<le> 4096 \<and>
     list_all (\<lambda>p. IP_To16 (wpeer_IP p) \<noteq> None) (peerRes_Peers m)"
| "message_fits (MUpdateReq m) \<longleftrightarrow> name_fits (updateReq_Name m)"
| "message_fits (MEquivocationProof m) \<longleftrightarrow>
     name_fits (ep_Name m) \<and> length (ep_RemotePayload m) \<le> 4096"

lemma snd_wr_bytes [simp]: "snd (wr_bytes b) = None"
  by (simp add: wr_bytes_def)

lemma snd_wr_seq [simp]: "snd (wr_seq a b) = None \<longleftrightarrow> snd a = None \<and> snd b = None"
  by (cases "(a, b)" rule: wr_seq.cases) auto

lemma snd_encodeByteSlice:
  "snd (encodeByteSlice defaultEncoder (bytes_of_string s)) = None \<longleftrightarrow> name_fits s"
  by (simp add: encodeByteSlice_def writeUvarint_def name_fits_def defaultEncoder_def
      DefaultMaxByteFieldLen_def wr_fail_def bytes_of_string_def)

lemma snd_EncodeFields_map:
  "snd (EncodeFields enc c (map f xs)) = None \<longleftrightarrow> (\<forall>x \<in> set xs. snd (EncodeField enc c (f x)) = None)"
  by (induction xs) (auto split: option.splits)

lemma snd_Peer_Encode: "snd (Peer_Encode ec p) = None \<longleftrightarrow> IP_To16 (wpeer_IP p) \<noteq> None"
  by (auto simp: Peer_Encode_def leaf_codec_defs wr_fail_def split: option.splits)

lemma PeerRes_dryRun_None:
  "PeerRes_dryRun ec ps = None \<longleftrightarrow> (\<forall>p \<in> set ps. IP_To16 (wpeer_IP p) \<noteq> None)"
proof (induction ps)
  case (Cons p ps)
  then show ?case using snd_Peer_Encode [of ec p] by (auto split: prod.splits option.splits)
qed simp

lemmas msg_enc_defs =
  Hello_Encode_def HelloAck_Encode_def Ping_Encode_def Update_Encode_def NilUpdate_Encode_def
  BlobReq_Encode_def BlobRes_Encode_def PeerReq_Encode_def PeerRes_Encode_def UpdateReq_Encode_def
  EquivocationProof_Encode_def

lemmas msg_dec_defs =
  Hello_Decode_def HelloAck_Decode_def Ping_Decode_def Update_Decode_def NilUpdate_Decode_def
  BlobReq_Decode_def BlobRes_Decode_def PeerReq_Decode_def PeerRes_Decode_def UpdateReq_Decode_def
  EquivocationProof_Decode_def

lemma Message_Encode_total: "snd (Message_Encode ec m) = None \<longleftrightarrow> message_fits m"
proof (cases m)
  case (MPeerRes p)
  then show ?thesis
    using PeerRes_dryRun_None [of ec "peerRes_Peers p"]
    by (cases "PeerRes_dryRun ec (peerRes_Peers p)")
      (auto simp: msg_enc_defs writeUvarint_def snd_EncodeFields_map snd_Peer_Encode list_all_iff
        defaultEncoder_def DefaultMaxVariableArrayLen_def wr_fail_def)
qed (auto simp: msg_enc_defs snd_encodeByteSlice leaf_codec_defs writeUvarint_def
    snd_EncodeFields_map wr_fail_def defaultEncoder_def [THEN arg_cong [where f = MaxVariableArrayLen]]
    DefaultMaxVariableArrayLen_def split: option.splits)

end
