(* ===== verification/Wire_Envelope.thy ===== *)
theory Wire_Envelope
  imports Wire_Message
begin

text \<open>The signed envelope around every message, \<open>wire/envelope.go\<close>.\<close>

section \<open>Envelopes\<close>

record 'pk Envelope =
  env_Magic :: uint32
  env_MessageType :: MessageType
  env_Timestamp :: time
  env_Message :: "'pk Message"
  env_Signature :: Signature

definition Envelope_Encode :: "('pk, 'sk) btcec \<Rightarrow> 'pk Envelope \<Rightarrow> wr" where
  "Envelope_Encode ec e =
     (case Message_Encode ec (env_Message e) of
        (_, Some err) \<Rightarrow> wr_fail err
      | (buf, None) \<Rightarrow>
          EncodeFields (leaf_Encode ec) defaultEncoder
            [IUint32 (env_Magic e), ICustom (LMsgType (env_MessageType e)),
             ITime (env_Timestamp e), IBytes buf, IByteArray (env_Signature e)])"

text \<open>The switch on the message type and the call of \<open>Decode\<close> on the message buffer.\<close>

definition go_val :: "('a \<times> bytes) go \<Rightarrow> 'a go" where
  "go_val x = go_bind x (\<lambda>(a, _). Ok a)"

definition Envelope_decodeMessage ::
  "('pk, 'sk) btcec \<Rightarrow> MessageType \<Rightarrow> bytes \<Rightarrow> 'pk Message go" where
  "Envelope_decodeMessage ec t msgBuf =
     (if t = MessageTypeHello then go_val (go_mapr MHello (Hello_Decode ec msgBuf))
      else if t = MessageTypeHelloAck then go_val (go_mapr MHelloAck (HelloAck_Decode ec msgBuf))
      else if t = MessageTypePing then go_val (go_mapr (\<lambda>_. MPing) (Ping_Decode msgBuf))
      else if t = MessageTypeUpdate then go_val (go_mapr MUpdate (Update_Decode ec msgBuf))
      else if t = MessageTypeNilUpdate then go_val (go_mapr MNilUpdate (NilUpdate_Decode ec msgBuf))
      else if t = MessageTypeBlobReq then go_val (go_mapr MBlobReq (BlobReq_Decode ec msgBuf))
      else if t = MessageTypeBlobRes then go_val (go_mapr MBlobRes (BlobRes_Decode ec msgBuf))
      else if t = MessageTypePeerReq then go_val (go_mapr (\<lambda>_. MPeerReq) (PeerReq_Decode msgBuf))
      else if t = MessageTypePeerRes then go_val (go_mapr MPeerRes (PeerRes_Decode ec msgBuf))
      else if t = MessageTypeUpdateReq then go_val (go_mapr MUpdateReq (UpdateReq_Decode ec msgBuf))
      else if t = MessageTypeEquivocationProof
        then go_val (go_mapr MEquivocationProof (EquivocationProof_Decode ec msgBuf))
      else Err (ErrNew (''invalid message type: '' @ fmt_nat (unat t))))"

definition Envelope_Decode :: "('pk, 'sk) btcec \<Rightarrow> bytes \<Rightarrow> ('pk Envelope \<times> bytes) go" where
  "Envelope_Decode ec r =
     go_bind (DecodeFields (leaf_Decode ec) defaultEncoder
                [TUint32, TCustom DMsgType, TTime, TBytes, TByteArray 65] r) (\<lambda>(its, r').
     go_bind (Envelope_decodeMessage ec (as_msgtype (its ! 1)) (as_bytes (its ! 3))) (\<lambda>msg.
     Ok (\<lparr>env_Magic = as_u32 (its ! 0), env_MessageType = as_msgtype (its ! 1),
          env_Timestamp = as_time (its ! 2), env_Message = msg,
          env_Signature = as_bytes (its ! 4)\<rparr>, r')))"

text \<open>
  The message is encoded into \<open>msgBuf\<close>, but the fourth field is \<open>buf.Bytes()\<close>, which is
  evaluated while \<open>buf\<close> is still empty.
\<close>

definition Envelope_Hash ::
  "(bytes \<Rightarrow> bytes) \<Rightarrow> ('pk, 'sk) btcec \<Rightarrow> 'pk Envelope \<Rightarrow> Hash go" where
  "Envelope_Hash b2 ec e =
     (case Message_Encode ec (env_Message e) of
        (_, Some err) \<Rightarrow> Err err
      | (msgBuf, None) \<Rightarrow>
          (case EncodeFields (leaf_Encode ec) defaultEncoder
              [IUint32 (env_Magic e), ICustom (LMsgType (env_MessageType e)),
               ITime (env_Timestamp e), IBytes []] of
             (_, Some err) \<Rightarrow> Err err
           | (buf, None) \<Rightarrow> Ok (Blake2B256 b2 [buf])))"

definition NewEnvelope ::
  "(bytes \<Rightarrow> bytes) \<Rightarrow> ('pk, 'sk) btcec \<Rightarrow> time \<Rightarrow> uint32 \<Rightarrow> 'pk Message \<Rightarrow> 'sk \<Rightarrow> 'pk Envelope go" where
  "NewEnvelope b2 ec now magic message signer =
     (let envelope = \<lparr>env_Magic = magic, env_MessageType = MsgType message, env_Timestamp = now,
                      env_Message = message, env_Signature = ZeroSignature\<rparr> in
      go_bind (SECP256k1Signer_Sign ec signer (Envelope_Hash b2 ec envelope)) (\<lambda>sig.
      Ok (envelope\<lparr>env_Signature := sig\<rparr>)))"

definition Envelope_Equals :: "'pk Envelope \<Rightarrow> 'pk Envelope \<Rightarrow> bool go" where
  "Envelope_Equals e other =
     (if env_Magic e = env_Magic other \<and> env_MessageType e = env_MessageType other \<and>
         time_Unix (env_Timestamp e) = time_Unix (env_Timestamp other)
      then go_bind (Message_Equals (env_Message e) (env_Message other)) (\<lambda>b.
           Ok (b \<and> env_Signature e = env_Signature other))
      else Ok False)"

section \<open>Round trip\<close>

definition env_wf :: "('pk, 'sk) btcec \<Rightarrow> 'pk Envelope \<Rightarrow> bool" where
  "env_wf ec e \<longleftrightarrow> env_MessageType e = MsgType (env_Message e) \<and> message_wf ec (env_Message e)
     \<and> sig_wf (env_Signature e)"

definition env_canon :: "'pk Envelope \<Rightarrow> 'pk Envelope" where
  "env_canon e = e\<lparr>env_Timestamp := canon_time (env_Timestamp e),
                   env_Message := message_canon (env_Message e)\<rparr>"

lemma go_val_simps [simp]: "go_val (Ok (a, r)) = Ok a"
  by (simp add: go_val_def)

lemma go_val_eq_Panic [simp]: "go_val x = Panic m \<longleftrightarrow> x = Panic m"
  by (cases x) (auto simp: go_val_def)

lemmas msg_roundtrips =
  Hello_roundtrip HelloAck_roundtrip Update_roundtrip NilUpdate_roundtrip BlobReq_roundtrip
  UpdateReq_roundtrip BlobRes_roundtrip EquivocationProof_roundtrip PeerRes_roundtrip

lemma decodeMessage_Encode:
  assumes "Message_Encode ec m = (buf, None)" and "message_wf ec m"
  shows "Envelope_decodeMessage ec (MsgType m) buf = Ok (message_canon m)"
  using assms msg_roundtrips [where bs = buf and r = "[]" and ec = ec]
  by (cases m)
    (simp_all add: Envelope_decodeMessage_def MessageType_defs message_canon_def Ping_Decode_def
      PeerReq_Decode_def)

lemma Envelope_Encode_Ok:
  assumes "Envelope_Encode ec e = (bs, None)"
  obtains buf where "Message_Encode ec (env_Message e) = (buf, None)"
    and "EncodeFields (leaf_Encode ec) defaultEncoder
      [IUint32 (env_Magic e), ICustom (LMsgType (env_MessageType e)),
       ITime (env_Timestamp e), IBytes buf, IByteArray (env_Signature e)] = (bs, None)"
  using assms
  by (auto simp: Envelope_Encode_def wr_fail_not_Ok simp del: EncodeFields.simps
      split: prod.splits option.splits)

lemma Envelope_Decode_Encode:
  assumes "env_wf ec e" and "Envelope_Encode ec e = (bs, None)"
  shows "Envelope_Decode ec (bs @ r) = Ok (env_canon e, r)"
proof -
  obtain buf where msg: "Message_Encode ec (env_Message e) = (buf, None)"
    and enc: "EncodeFields (leaf_Encode ec) defaultEncoder
      [IUint32 (env_Magic e), ICustom (LMsgType (env_MessageType e)),
       ITime (env_Timestamp e), IBytes buf, IByteArray (env_Signature e)] = (bs, None)"
    by (rule Envelope_Encode_Ok [OF assms(2)])
  have "DecodeFields (leaf_Decode ec) defaultEncoder
      [TUint32, TCustom DMsgType, TTime, TBytes, TByteArray 65] (bs @ r)
    = Ok (map (canon leaf_nrm) [IUint32 (env_Magic e), ICustom (LMsgType (env_MessageType e)),
       ITime (env_Timestamp e), IBytes buf, IByteArray (env_Signature e)], r)"
    using assms(1) enc
    by (intro leafc.DecodeFields_EncodeFields) (simp_all add: leaf_ty_def env_wf_def sig_wf_def)
  then show ?thesis
    using decodeMessage_Encode [OF msg] assms(1)
    by (simp add: Envelope_Decode_def env_canon_def env_wf_def del: DecodeFields.simps)
qed

lemma decodeMessage_not_Panic: "Envelope_decodeMessage ec t buf \<noteq> Panic m"
  by (simp add: Envelope_decodeMessage_def msg_dec_defs leafc.DecodeFields_total
      peerc.DecodeFields_total del: DecodeFields.simps)

lemma IP_To16_canon: "(\<exists>j. IP_To16 (canon_IP i) = Some j) \<longleftrightarrow> (\<exists>j. IP_To16 i = Some j)"
  by (auto simp: canon_IP_def IP_To16_def)

lemma message_canon_fits: "message_fits m \<Longrightarrow> message_fits (message_canon m)"
  by (cases m) (simp_all add: message_canon_def list_all_iff peer_canon_def IP_To16_canon)

lemma canon_time_Unix: "time_Unix (canon_time t) = time_Unix t mod 2 ^ 32"
  by (simp add: canon_time_def)

lemma EncodeTime_canon: "0 \<le> time_Unix t \<Longrightarrow> EncodeTime (canon_time t) = EncodeTime t"
proof -
  have "(word_of_int (time_Unix t mod 2 ^ 32) :: uint32) = word_of_int (time_Unix t)"
    by (simp add: word_of_int_eq_iff take_bit_eq_mod)
  moreover have "\<not> time_Unix t mod 2 ^ 32 < 0" by (simp add: not_less)
  ultimately show "0 \<le> time_Unix t \<Longrightarrow> EncodeTime (canon_time t) = EncodeTime t"
    unfolding EncodeTime_def canon_time_Unix Let_def by simp
qed

lemma Envelope_Hash_Signature:
  "Envelope_Hash b2 ec (e\<lparr>env_Signature := s\<rparr>) = Envelope_Hash b2 ec e"
  by (simp add: Envelope_Hash_def del: EncodeFields.simps split: prod.splits option.splits)

text \<open>The transported envelope hashes to what the sender signed.\<close>

lemma Envelope_Hash_canon:
  assumes "message_fits (env_Message e)" and "0 \<le> time_Unix (env_Timestamp e)"
  shows "Envelope_Hash b2 ec (env_canon e) = Envelope_Hash b2 ec e"
proof -
  obtain b1 b2 where "Message_Encode ec (env_Message e) = (b1, None)"
    and "Message_Encode ec (message_canon (env_Message e)) = (b2, None)"
    using Message_Encode_total [of ec] message_canon_fits [OF assms(1)] assms(1)
    by (metis prod.collapse)
  then show ?thesis
    using assms(2) by (simp add: Envelope_Hash_def env_canon_def EncodeTime_canon)
qed

lemma Envelope_Hash_message:
  assumes "message_fits (env_Message e)" and "message_fits m"
  shows "Envelope_Hash b2 ec (e\<lparr>env_Message := m\<rparr>) = Envelope_Hash b2 ec e"
proof -
  obtain x y where "Message_Encode ec (env_Message e) = (x, None)" and "Message_Encode ec m = (y, None)"
    using assms Message_Encode_total [of ec] by (metis prod.collapse)
  then show ?thesis by (simp add: Envelope_Hash_def del: EncodeFields.simps)
qed

section \<open>Properties\<close>

text \<open>
  C12. Every well-formed envelope that encodes decodes to itself from any stream it starts, with
  the timestamp cut to whole seconds below 2^32 and peer addresses in their 16-byte form; exactly
  its bytes are consumed.
\<close>

theorem Envelope_roundtrip:
  assumes "env_wf ec e" and "Envelope_Encode ec e = (bs, None)"
  shows "Envelope_Decode ec (bs @ r) = Ok (env_canon e, r)"
  by (rule Envelope_Decode_Encode [OF assms])

definition sample_env :: "byte Envelope" where
  "sample_env = \<lparr>env_Magic = 7, env_MessageType = MessageTypeNilUpdate,
     env_Timestamp = 1500000000, env_Message = MNilUpdate \<lparr>nilUpdate_Name = ''ab''\<rparr>,
     env_Signature = ZeroSignature\<rparr>"

lemma sample_env_facts:
  "env_wf toy_ec sample_env"
  "Envelope_Encode toy_ec sample_env = ([0, 0, 0, 7, 0, 4, 0, 0, 0, 1, 3, 2, 97, 98] @ ZeroSignature, None)"
  by (simp_all add: env_wf_def sample_env_def sig_wf_def ZeroSignature_def Envelope_Encode_def
      NilUpdate_Encode_def encodeByteSlice_def defaultEncoder_def DefaultMaxByteFieldLen_def
      writeUvarint_def PutUvarint_small wr_bytes_def MessageType_Encode_def EncodeTime_def
      time_Unix_def time_Second_def MessageTypeNilUpdate_def PutUint16_def PutUint32_def
      put_be_numeral bytes_of_string_def)

theorem Envelope_roundtrip_witness:
  "Envelope_Decode toy_ec
      (([0, 0, 0, 7, 0, 4, 0, 0, 0, 1, 3, 2, 97, 98] @ ZeroSignature) @ [42])
    = Ok (sample_env\<lparr>env_Timestamp := 1000000000\<rparr>, [42])"
  using Envelope_roundtrip [OF sample_env_facts, of "[42]"]
  by (simp add: env_canon_def sample_env_def canon_time_def time_Unix_def time_FromUnix_def
      time_Second_def message_canon_def)


text \<open>
  C17. When an envelope made by \<open>NewEnvelope\<close> encodes, what a peer decodes from it carries the same message (addresses in 16-byte form) and a
  signature that verifies against the sender's public key.
\<close>

theorem NewEnvelope_delivers:
  assumes "btcec_laws ec" and "message_wf ec m" and "0 \<le> time_Unix now"
    and "NewEnvelope b2 ec now magic m sk = Ok e"
    and "Envelope_Encode ec e = (bs, None)"
  shows "\<exists>e'. Envelope_Decode ec (bs @ r) = Ok (e', r) \<and> env_Magic e' = magic
    \<and> env_Message e' = message_canon m \<and> env_MessageType e' = MsgType m
    \<and> VerifySigPub ec (SECP256k1Signer_Pub ec sk) (env_Signature e') (Envelope_Hash b2 ec e') = Ok True"
proof -
  define e0 where "e0 = \<lparr>env_Magic = magic, env_MessageType = MsgType m, env_Timestamp = now,
      env_Message = m, env_Signature = ZeroSignature\<rparr>"
  obtain s where s: "SECP256k1Signer_Sign ec sk (Envelope_Hash b2 ec e0) = Ok s"
    and e: "e = e0\<lparr>env_Signature := s\<rparr>"
    using assms(4) by (auto simp: NewEnvelope_def Let_def go_bind_eq_Ok e0_def)
  then obtain h where h: "Envelope_Hash b2 ec e0 = Ok h"
    by (auto simp: SECP256k1Signer_Sign_def go_bind_eq_Ok)
  then have wf: "hash_wf h"
    by (auto simp: Envelope_Hash_def simp del: EncodeFields.simps split: prod.splits option.splits)
  have sig: "sig_wf s \<and> ec_RecoverCompact ec s h = Inr (ec_PubKey ec sk)"
    by (rule Sign_Ok [OF assms(1) _ wf]) (use s h in simp)
  have "env_wf ec e" using assms(2) sig by (simp add: env_wf_def e e0_def)
  then have dec: "Envelope_Decode ec (bs @ r) = Ok (env_canon e, r)"
    by (rule Envelope_Decode_Encode [OF _ assms(5)])
  have fits: "message_fits (env_Message e)"
    by (rule Envelope_Encode_Ok [OF assms(5)]) (simp flip: Message_Encode_total [of ec])
  have "Envelope_Hash b2 ec (env_canon e) = Envelope_Hash b2 ec e"
    by (rule Envelope_Hash_canon [OF fits]) (use assms(3) in \<open>simp add: e e0_def\<close>)
  also have "\<dots> = Ok h" using h by (simp add: e Envelope_Hash_Signature)
  finally show ?thesis
    using dec sig
    by (simp add: VerifySigPub_def SECP256k1Signer_Pub_def Hash_Bytes_def env_canon_def e e0_def)
qed

lemma toy_sign:
  "SECP256k1Signer_Sign toy_ec sk (Ok h) = Ok (go_copy ZeroSignature (sk # h @ replicate 32 0))"
  by (simp add: SECP256k1Signer_Sign_def toy_ec_def Hash_Bytes_def)

theorem NewEnvelope_delivers_witness:
  "\<exists>e bs e'. NewEnvelope (\<lambda>_. ZeroHash) toy_ec 1500000000 7 MPing 5 = Ok e
    \<and> Envelope_Encode toy_ec e = (bs, None) \<and> Envelope_Decode toy_ec (bs @ []) = Ok (e', [])
    \<and> env_Message e' = MPing"
proof -
  define h where "h = Envelope_Hash (\<lambda>_. ZeroHash) toy_ec
    \<lparr>env_Magic = 7, env_MessageType = MsgType (MPing :: byte Message),
      env_Timestamp = 1500000000, env_Message = MPing, env_Signature = ZeroSignature\<rparr>"
  have h: "h = Ok ZeroHash"
    by (simp add: h_def Envelope_Hash_def Ping_Encode_def wr_bytes_def EncodeTime_def time_Unix_def
        time_Second_def MessageType_Encode_def encodeByteSlice_def writeUvarint_def Blake2B256_def
        go_copy_same_length)
  then have "\<exists>e. NewEnvelope (\<lambda>_. ZeroHash) toy_ec 1500000000 7 (MPing :: byte Message) 5 = Ok e"
    by (simp only: NewEnvelope_def Let_def h_def [symmetric] toy_sign go_bind.simps) blast
  then obtain e where e: "NewEnvelope (\<lambda>_. ZeroHash) toy_ec 1500000000 7 (MPing :: byte Message) 5 = Ok e"
    by blast
  then have "env_Message e = MPing" "env_Timestamp e = 1500000000"
    by (auto simp: NewEnvelope_def Let_def go_bind_eq_Ok)
  then have "\<exists>bs. Envelope_Encode toy_ec e = (bs, None)"
    by (simp add: Envelope_Encode_def Ping_Encode_def wr_bytes_def EncodeTime_def time_Unix_def
        time_Second_def MessageType_Encode_def encodeByteSlice_def writeUvarint_def)
  then obtain bs where bs: "Envelope_Encode toy_ec e = (bs, None)" by blast
  have t: "0 \<le> time_Unix 1500000000" by (simp add: time_Unix_def time_Second_def)
  show ?thesis
    using NewEnvelope_delivers [OF btcec_laws_toy_ec _ t e bs, of "[]"] e bs
    by (auto simp: message_canon_def)
qed

text \<open>
  The signed hash does not cover the message: two envelopes with the same magic, type and
  timestamp have the same hash whatever their messages, so a signature on one is a signature on
  the other.
\<close>

theorem Envelope_Hash_ignores_message:
  assumes "message_fits (env_Message e)" and "message_fits m"
  shows "Envelope_Hash b2 ec (e\<lparr>env_Message := m\<rparr>) = Envelope_Hash b2 ec e"
  by (rule Envelope_Hash_message [OF assms])

theorem Envelope_Hash_ignores_message_witness:
  "Envelope_Hash (\<lambda>_. ZeroHash) toy_ec (sample_env\<lparr>env_Message := MNilUpdate \<lparr>nilUpdate_Name = ''zz''\<rparr>\<rparr>)
    = Envelope_Hash (\<lambda>_. ZeroHash) toy_ec sample_env"
  by (rule Envelope_Hash_ignores_message) (simp_all add: sample_env_def name_fits_def)

end
