(* ===== verification/Blob_Hash.thy ===== *)
theory Blob_Hash
  imports Wire_Message
begin

text \<open>
  Sector hashes, the serial hash of a blob and the seal of an update (\<open>blob/hash.go\<close>,
  \<open>blob/seal.go\<close>).  The reader that \<open>SerialHash\<close> consumes is a state with a read function
  \<open>rd\<close>: from the state and the buffer to the state, the buffer, the count and the error.
\<close>

section \<open>Sector hashes\<close>

type_synonym SectorHashes = "Hash list"

definition ZeroSectorHashes :: SectorHashes where
  "ZeroSectorHashes = replicate MaxSectors ZeroHash"

definition SectorHashes_Encode :: "SectorHashes \<Rightarrow> wr" where
  "SectorHashes_Encode s = wr_bytes (concat s)"

text \<open>\<open>Decode\<close> reads with \<open>r.Read\<close> into one buffer, here from a \<open>bytes.Reader\<close>.\<close>

fun SectorHashes_DecodeLoop :: "nat \<Rightarrow> Hash \<Rightarrow> bytes \<Rightarrow> (SectorHashes \<times> bytes) go" where
  "SectorHashes_DecodeLoop 0 hash r = Ok ([], r)"
| "SectorHashes_DecodeLoop (Suc n) hash r =
     go_bind (bytes_Read hash r) (\<lambda>(hash', r1).
     go_bind (SectorHashes_DecodeLoop n hash' r1) (\<lambda>(hs, r2). Ok (hash' # hs, r2)))"

definition SectorHashes_Decode :: "bytes \<Rightarrow> (SectorHashes \<times> bytes) go" where
  "SectorHashes_Decode r = SectorHashes_DecodeLoop MaxSectors ZeroHash r"

fun DiffWithLoop :: "SectorHashes \<Rightarrow> SectorHashes \<Rightarrow> nat \<Rightarrow> nat" where
  "DiffWithLoop (a # as) (b # bs) i = (if a \<noteq> b then i else DiffWithLoop as bs (Suc i))"
| "DiffWithLoop _ _ i = i"

definition SectorHashes_DiffWith :: "SectorHashes \<Rightarrow> SectorHashes \<Rightarrow> int" where
  "SectorHashes_DiffWith s other = (if s = other then -1 else int (DiffWithLoop s other 0))"

text \<open>The loop stops at the first zero hash or after \<open>MaxSectors\<close> entries.\<close>

fun TipLoop :: "SectorHashes \<Rightarrow> nat \<Rightarrow> nat" where
  "TipLoop [] i = i"
| "TipLoop (h # hs) i = (if h = ZeroHash then i else TipLoop hs (Suc i))"

definition SectorHashes_Tip :: "SectorHashes \<Rightarrow> Hash" where
  "SectorHashes_Tip s = (let i = TipLoop s 0 in if i = 0 then ZeroHash else s ! (i - 1))"

definition SerialHashSector :: "(bytes \<Rightarrow> bytes) \<Rightarrow> Sector \<Rightarrow> Hash \<Rightarrow> Hash" where
  "SerialHashSector b2 sector prevHash = go_copy ZeroHash (b2 (prevHash @ sector))"

fun SerialHashLoop ::
  "(bytes \<Rightarrow> bytes) \<Rightarrow> ('s \<Rightarrow> bytes \<Rightarrow> 's \<times> bytes \<times> nat \<times> err option) \<Rightarrow> 's \<Rightarrow> Sector \<Rightarrow> Hash
     \<Rightarrow> SectorHashes \<Rightarrow> nat \<Rightarrow> nat \<Rightarrow> SectorHashes go \<times> 's" where
  "SerialHashLoop b2 rd br sector prevHash res i 0 = (Ok res, br)"
| "SerialHashLoop b2 rd br sector prevHash res i (Suc n) =
     (case rd br sector of
        (br', sector', _, Some e) \<Rightarrow> (Err e, br')
      | (br', sector', _, None) \<Rightarrow>
          let h = SerialHashSector b2 sector' prevHash in
          if i < length res then SerialHashLoop b2 rd br' sector' h (res[i := h]) (Suc i) n
          else (Panic ''index out of range'', br'))"

definition SerialHash ::
  "(bytes \<Rightarrow> bytes) \<Rightarrow> ('s \<Rightarrow> bytes \<Rightarrow> 's \<times> bytes \<times> nat \<times> err option) \<Rightarrow> 's \<Rightarrow> Hash \<Rightarrow> uint16
     \<Rightarrow> SectorHashes go \<times> 's" where
  "SerialHash b2 rd br prevHash sectorSize =
     SerialHashLoop b2 rd br ZeroSector prevHash ZeroSectorHashes 0 (unat sectorSize)"

section \<open>Seals\<close>

text \<open>Writes to the hasher never fail; an encoding error of a field is a panic.\<close>

definition SealHash ::
  "(bytes \<Rightarrow> bytes) \<Rightarrow> string \<Rightarrow> uint16 \<Rightarrow> uint16 \<Rightarrow> Hash \<Rightarrow> Hash \<Rightarrow> Hash go" where
  "SealHash b2 name epochHeight sectorSize sectorTipHash reservedRoot =
     (let enc = (EncodeField (\<lambda>_ :: unit. wr_bytes []) defaultEncoder) in
      case enc (IString name) of
        (_, Some e) \<Rightarrow> Panic ''encoding failed''
      | (n, None) \<Rightarrow>
          Ok (Blake2B256 b2
            [bytes_of_string ''FNBLOB'', n, fst (enc (IUint16 epochHeight)),
             fst (enc (IUint16 sectorSize)), sectorTipHash, reservedRoot]))"

definition SignSeal ::
  "(bytes \<Rightarrow> bytes) \<Rightarrow> ('pk, 'sk) btcec \<Rightarrow> 'sk \<Rightarrow> string \<Rightarrow> uint16 \<Rightarrow> uint16 \<Rightarrow> Hash \<Rightarrow> Hash
     \<Rightarrow> Signature go" where
  "SignSeal b2 ec signer name epochHeight sectorSize sectorTipHash reservedRoot =
     go_bind (SealHash b2 name epochHeight sectorSize sectorTipHash reservedRoot) (\<lambda>h.
     SECP256k1Signer_Sign ec signer (Hash_Hash h))"

section \<open>Reference: the hash chain of a sector list\<close>

fun chain :: "(bytes \<Rightarrow> bytes) \<Rightarrow> Hash \<Rightarrow> Sector list \<Rightarrow> Hash list" where
  "chain b2 prev [] = []"
| "chain b2 prev (s # ss) = SerialHashSector b2 s prev # chain b2 (SerialHashSector b2 s prev) ss"

definition chain_tip :: "(bytes \<Rightarrow> bytes) \<Rightarrow> Hash \<Rightarrow> Sector list \<Rightarrow> Hash" where
  "chain_tip b2 prev ss = foldl (\<lambda>h s. SerialHashSector b2 s h) prev ss"

lemma length_chain [simp]: "length (chain b2 prev ss) = length ss"
  by (induction ss arbitrary: prev) auto

lemma last_chain: "ss \<noteq> [] \<Longrightarrow> last (chain b2 prev ss) = chain_tip b2 prev ss"
proof (induction ss arbitrary: prev)
  case (Cons s ss)
  then show ?case by (cases ss) (auto simp: chain_tip_def)
qed simp

lemma chain_append: "chain b2 prev (xs @ ys) = chain b2 prev xs @ chain b2 (chain_tip b2 prev xs) ys"
  by (induction xs arbitrary: prev) (auto simp: chain_tip_def)

lemma chain_tip_append: "chain_tip b2 prev (xs @ ys) = chain_tip b2 (chain_tip b2 prev xs) ys"
  by (simp add: chain_tip_def)

lemma SerialHashSector_wf [simp]: "hash_wf (SerialHashSector b2 s prev)"
  by (simp add: SerialHashSector_def hash_wf_def)

lemma SerialHashSector_Blake: "SerialHashSector b2 s prev = Blake2B256 b2 [prev, s]"
  by (simp add: SerialHashSector_def Blake2B256_def)

text \<open>A reader that delivers the given sectors one after the other.\<close>

definition delivers ::
  "('s \<Rightarrow> bytes \<Rightarrow> 's \<times> bytes \<times> nat \<times> err option) \<Rightarrow> (nat \<Rightarrow> 's) \<Rightarrow> Sector list \<Rightarrow> bool" where
  "delivers rd st ss \<longleftrightarrow>
     (\<forall>i < length ss. \<forall>p. length p = SectorBytes \<longrightarrow>
        rd (st i) p = (st (Suc i), ss ! i, SectorBytes, None))"

lemma SerialHashLoop_chain:
  assumes "\<And>i p. i < length ss \<Longrightarrow> length p = SectorBytes \<Longrightarrow>
      rd (st (k + i)) p = (st (Suc (k + i)), ss ! i, SectorBytes, None)"
    and "list_all sector_wf ss" and "length p = SectorBytes" and "k + length ss \<le> length res"
  shows "SerialHashLoop b2 rd (st k) p prev res k (length ss)
    = (Ok (take k res @ chain b2 prev ss @ drop (k + length ss) res), st (k + length ss))"
  using assms
proof (induction ss arbitrary: k p prev res)
  case (Cons s ss)
  define h where "h = SerialHashSector b2 s prev"
  have first: "rd (st k) p = (st (Suc k), s, SectorBytes, None)"
    using Cons.prems(1) [of 0 p] Cons.prems(3) by simp
  have "SerialHashLoop b2 rd (st (Suc k)) s h (res[k := h]) (Suc k) (length ss)
      = (Ok (take (Suc k) (res[k := h]) @ chain b2 h ss @ drop (Suc k + length ss) (res[k := h])),
         st (Suc k + length ss))"
  proof (rule Cons.IH)
    show "rd (st (Suc k + i)) q = (st (Suc (Suc k + i)), ss ! i, SectorBytes, None)"
      if "i < length ss" "length q = SectorBytes" for i q
      using Cons.prems(1) [of "Suc i" q] that by simp
    show "length s = SectorBytes" using Cons.prems(2) by (simp add: sector_wf_def)
  qed (use Cons.prems in simp_all)
  moreover have "take (Suc k) (res[k := h]) = take k res @ [h]"
    using Cons.prems(4) by (simp add: take_Suc_conv_app_nth take_update_swap list_update_append)
  ultimately show ?case
    using Cons.prems(4) first by (simp add: h_def Let_def)
qed simp

lemma TipLoop_prefix:
  "(\<forall>h \<in> set hs. h \<noteq> ZeroHash) \<Longrightarrow> TipLoop (hs @ replicate m ZeroHash) i = i + length hs"
proof (induction hs arbitrary: i)
  case Nil
  then show ?case by (cases m) auto
qed simp

lemma Tip_padded:
  assumes "\<forall>h \<in> set hs. h \<noteq> ZeroHash"
  shows "SectorHashes_Tip (hs @ replicate m ZeroHash) = (if hs = [] then ZeroHash else last hs)"
  using TipLoop_prefix [OF assms, of m 0]
  by (auto simp: SectorHashes_Tip_def Let_def nth_append last_conv_nth)

section \<open>Sector hashes on the wire\<close>

lemma SectorHashes_DecodeLoop_concat:
  "list_all hash_wf hs \<Longrightarrow> length h = 32 \<Longrightarrow>
     SectorHashes_DecodeLoop (length hs) h (concat hs @ r) = Ok (hs, r)"
proof (induction hs arbitrary: h)
  case (Cons x hs)
  have "x \<noteq> []" using Cons.prems(1) by (auto simp: hash_wf_def)
  then have "bytes_Read h (x @ concat hs @ r) = Ok (x, concat hs @ r)"
    using Cons.prems by (intro bytes_Read_append) (auto simp: hash_wf_def)
  then show ?case using Cons by (simp add: hash_wf_def)
qed simp

lemma DiffWithLoop_spec:
  "length xs = length ys \<Longrightarrow> xs \<noteq> ys \<Longrightarrow>
     \<exists>i < length xs. DiffWithLoop xs ys k = k + i \<and> xs ! i \<noteq> ys ! i \<and> take i xs = take i ys"
proof (induction xs ys arbitrary: k rule: list_induct2)
  case (Cons x xs y ys)
  show ?case
  proof (cases "x = y")
    case True
    then obtain i where "i < length xs" "DiffWithLoop xs ys (Suc k) = Suc k + i"
      "xs ! i \<noteq> ys ! i" "take i xs = take i ys"
      using Cons by blast
    then show ?thesis using True by (intro exI [of _ "Suc i"]) auto
  qed (auto intro!: exI [of _ 0])
qed simp

text \<open>
  Sector hashes survive their wire encoding, and the difference of two different arrays is
  the first index at which they disagree.
\<close>

theorem SectorHashes_codec:
  assumes "length s = MaxSectors" and "list_all hash_wf s" and "length t = MaxSectors"
  shows "SectorHashes_Decode (fst (SectorHashes_Encode s) @ r) = Ok (s, r)
    \<and> (SectorHashes_DiffWith s t = -1 \<longleftrightarrow> s = t)
    \<and> (s \<noteq> t \<longrightarrow> (\<exists>i < MaxSectors. SectorHashes_DiffWith s t = int i \<and> s ! i \<noteq> t ! i
        \<and> take i s = take i t))"
  using SectorHashes_DecodeLoop_concat [OF assms(2), of ZeroHash r] DiffWithLoop_spec [of s t 0] assms
  by (auto simp: SectorHashes_Decode_def SectorHashes_Encode_def wr_bytes_def
      SectorHashes_DiffWith_def)

theorem SectorHashes_codec_witness:
  "SectorHashes_Decode (fst (SectorHashes_Encode ZeroSectorHashes) @ [1]) = Ok (ZeroSectorHashes, [1])
   \<and> SectorHashes_DiffWith ZeroSectorHashes ZeroSectorHashes = -1"
  using SectorHashes_codec [of ZeroSectorHashes ZeroSectorHashes "[1]"]
  by (simp add: ZeroSectorHashes_def list_all_iff hash_wf_def)

section \<open>Binding\<close>

text \<open>Two different inputs of the hash with the same digest.\<close>

definition b2_collision :: "(bytes \<Rightarrow> bytes) \<Rightarrow> bool" where
  "b2_collision b2 \<longleftrightarrow> (\<exists>x y. x \<noteq> y \<and> Blake2B256 b2 [x] = Blake2B256 b2 [y])"

lemma Blake2B256_inject:
  "Blake2B256 b2 xs = Blake2B256 b2 ys \<Longrightarrow> concat xs = concat ys \<or> b2_collision b2"
  unfolding b2_collision_def by (metis Blake2B256_def concat.simps append_Nil2)

lemma chain_tip_wf: "hash_wf prev \<Longrightarrow> hash_wf (chain_tip b2 prev ss)"
  by (induction ss rule: rev_induct) (auto simp: chain_tip_def)

lemma chain_tip_binding:
  assumes "length xs = length ys" and "hash_wf p" and "hash_wf q"
    and "chain_tip b2 p xs = chain_tip b2 q ys"
  shows "p = q \<and> xs = ys \<or> b2_collision b2"
  using assms
proof (induction xs arbitrary: ys rule: rev_induct)
  case Nil
  then show ?case by (simp add: chain_tip_def)
next
  case (snoc x xs)
  then obtain zs z where ys: "ys = zs @ [z]" and len: "length xs = length zs"
    by (metis append_butlast_last_id length_append_singleton length_butlast length_0_conv
        diff_Suc_1 nat.distinct(1))
  have "Blake2B256 b2 [chain_tip b2 p xs, x] = Blake2B256 b2 [chain_tip b2 q zs, z]"
    using snoc.prems(4) ys by (simp add: chain_tip_def SerialHashSector_Blake)
  then have "chain_tip b2 p xs @ x = chain_tip b2 q zs @ z \<or> b2_collision b2"
    using Blake2B256_inject by fastforce
  moreover have "length (chain_tip b2 p xs) = length (chain_tip b2 q zs)"
    using chain_tip_wf snoc.prems(2,3) by (metis hash_wf_def)
  ultimately have "chain_tip b2 p xs = chain_tip b2 q zs \<and> x = z \<or> b2_collision b2" by auto
  then show ?case using snoc.IH [OF len snoc.prems(2,3)] ys by auto
qed

lemma EncodeField_string_inject:
  assumes "encodeByteSlice c (bytes_of_string a) = (x, None)"
    and "encodeByteSlice c (bytes_of_string b) = (y, None)" and "x @ r = y @ s"
  shows "a = b \<and> r = s"
proof -
  have "decodeByteSlice c (x @ r) = Ok (bytes_of_string a, r)"
    and "decodeByteSlice c (y @ s) = Ok (bytes_of_string b, s)"
    by (rule decodeByteSlice_encode [OF assms(1)], rule decodeByteSlice_encode [OF assms(2)])
  then show ?thesis using assms(3) by simp
qed

lemma SealHash_Ok:
  assumes "SealHash b2 name eh ss tip root = Ok h"
  obtains n where "encodeByteSlice defaultEncoder (bytes_of_string name) = (n, None)"
    and "h = Blake2B256 b2 [bytes_of_string ''FNBLOB'', n, PutUint16 eh, PutUint16 ss, tip, root]"
  using assms
  by (auto simp: SealHash_def Let_def wr_bytes_def split: prod.splits option.splits)

lemma SealHash_fits: "(\<exists>h. SealHash b2 name eh ss tip root = Ok h) \<longleftrightarrow> name_fits name"
  using snd_encodeByteSlice [of name]
  by (auto simp: SealHash_def Let_def split: prod.splits option.splits)

lemma PutUint16_inject: "PutUint16 a = PutUint16 b \<longleftrightarrow> a = b"
  by (metis Uint16_PutUint16)

lemma SealHash_binding:
  assumes "SealHash b2 n1 e1 s1 t1 r1 = Ok h" and "SealHash b2 n2 e2 s2 t2 r2 = Ok h"
    and "hash_wf t1" and "hash_wf t2"
  shows "n1 = n2 \<and> e1 = e2 \<and> s1 = s2 \<and> t1 = t2 \<and> r1 = r2 \<or> b2_collision b2"
proof -
  obtain x where x: "encodeByteSlice defaultEncoder (bytes_of_string n1) = (x, None)"
    and hx: "h = Blake2B256 b2 [bytes_of_string ''FNBLOB'', x, PutUint16 e1, PutUint16 s1, t1, r1]"
    by (rule SealHash_Ok [OF assms(1)])
  obtain y where y: "encodeByteSlice defaultEncoder (bytes_of_string n2) = (y, None)"
    and hy: "h = Blake2B256 b2 [bytes_of_string ''FNBLOB'', y, PutUint16 e2, PutUint16 s2, t2, r2]"
    by (rule SealHash_Ok [OF assms(2)])
  have "x @ (PutUint16 e1 @ PutUint16 s1 @ t1 @ r1) = y @ (PutUint16 e2 @ PutUint16 s2 @ t2 @ r2)
      \<or> b2_collision b2"
    using Blake2B256_inject [of b2] hx hy by fastforce
  then have "n1 = n2 \<and> PutUint16 e1 @ PutUint16 s1 @ t1 @ r1 = PutUint16 e2 @ PutUint16 s2 @ t2 @ r2
      \<or> b2_collision b2"
    using EncodeField_string_inject [OF x y] by blast
  then show ?thesis
    using assms(3,4) by (auto simp: PutUint16_inject hash_wf_def)
qed

text \<open>
  C16. The serial hash of a reader that delivers sectors is their hash chain from the given
  previous hash, padded with zero hashes; its tip, when no link of the chain is the zero hash, is
  the hash that folding \<open>SerialHashSector\<close> over the sectors gives.
\<close>

theorem SerialHash_chain:
  assumes "delivers rd st ss" and "list_all sector_wf ss"
    and "length ss = unat sectorSize" and "length ss \<le> MaxSectors"
  shows "\<exists>hs. SerialHash b2 rd (st 0) prev sectorSize = (Ok hs, st (length ss))
    \<and> hs = chain b2 prev ss @ replicate (MaxSectors - length ss) ZeroHash
    \<and> (ss \<noteq> [] \<and> ZeroHash \<notin> set (chain b2 prev ss) \<longrightarrow> SectorHashes_Tip hs = chain_tip b2 prev ss)"
proof -
  have "SerialHash b2 rd (st 0) prev sectorSize
      = (Ok (chain b2 prev ss @ replicate (MaxSectors - length ss) ZeroHash), st (length ss))"
    using SerialHashLoop_chain [of ss rd st 0 ZeroSector ZeroSectorHashes b2 prev] assms
    by (simp add: SerialHash_def delivers_def ZeroSectorHashes_def)
  moreover have "SectorHashes_Tip (chain b2 prev ss @ replicate (MaxSectors - length ss) ZeroHash)
      = chain_tip b2 prev ss" if "ss \<noteq> []" "ZeroHash \<notin> set (chain b2 prev ss)"
  proof -
    have "chain b2 prev ss \<noteq> []" using that(1) by (cases ss) auto
    moreover have "\<forall>h \<in> set (chain b2 prev ss). h \<noteq> ZeroHash" using that(2) by metis
    ultimately show ?thesis using Tip_padded last_chain [OF that(1)] by simp
  qed
  ultimately show ?thesis by blast
qed

theorem SerialHash_chain_witness:
  "\<exists>hs. SerialHash (\<lambda>_. replicate 32 1) (\<lambda>s p. (Suc s, ZeroSector, SectorBytes, None)) 0 ZeroHash 1
      = (Ok hs, length [ZeroSector]) \<and> SectorHashes_Tip hs = replicate 32 1"
proof -
  have d: "delivers (\<lambda>s p. (Suc s, ZeroSector, SectorBytes, None)) (\<lambda>i. i) [ZeroSector]"
    by (simp add: delivers_def)
  have t: "chain_tip (\<lambda>_. replicate 32 1) ZeroHash [ZeroSector] = replicate 32 1"
    and nz: "ZeroHash \<notin> set (chain (\<lambda>_. replicate 32 1) ZeroHash [ZeroSector])"
    by (simp_all add: chain_tip_def SerialHashSector_def go_copy_same_length)
      (simp add: ZeroHash_def replicate_eq_replicate)
  show ?thesis
    using SerialHash_chain [OF d, of 1 "\<lambda>_. replicate 32 1" ZeroHash] t nz
    by (simp add: MaxSectors_def)
qed



end
