(* ===== verification/Blob_IO.thy ===== *)
theory Blob_IO
  imports Blob_Hash
begin

text \<open>
  Files and the positioned reads and writes of \<open>blob/io.go\<close>.  A file is its size and its bytes,
  zero beyond the size; offsets are integers (\<open>int64\<close>).  The operating system may refuse a call:
  \<open>sys\<close> gives the error of each kind of call and how many bytes a failing transfer moved.
\<close>

section \<open>Operating system files\<close>

datatype syscall =
    SysRead | SysWrite | SysTempFile | SysSeekBlob | SysSeekClone | SysCopyToClone | SysCopyToBlob
  | SysTruncate | SysCloseClone | SysRemoveClone | SysCloseBlob | SysRemoveBlob
  | SysStat | SysMkdir | SysOpen

record sys =
  sys_err :: "syscall \<Rightarrow> err option"
  sys_moved :: nat

definition sys_fine :: sys where
  "sys_fine = \<lparr>sys_err = (\<lambda>_. None), sys_moved = 0\<rparr>"

record ofile =
  fsize :: nat
  fdata :: "nat \<Rightarrow> byte"

definition file_wf :: "ofile \<Rightarrow> bool" where
  "file_wf f \<longleftrightarrow> (\<forall>i \<ge> fsize f. fdata f i = 0)"

definition file_empty :: ofile where
  "file_empty = \<lparr>fsize = 0, fdata = (\<lambda>_. 0)\<rparr>"

definition file_bytes :: "ofile \<Rightarrow> nat \<Rightarrow> nat \<Rightarrow> bytes" where
  "file_bytes f off n = map (\<lambda>i. fdata f (off + i)) [0..<n]"

definition file_put :: "ofile \<Rightarrow> nat \<Rightarrow> bytes \<Rightarrow> ofile" where
  "file_put f off b =
     (if b = [] then f
      else \<lparr>fsize = max (fsize f) (off + length b),
            fdata = (\<lambda>i. if off \<le> i \<and> i < off + length b then b ! (i - off) else fdata f i)\<rparr>)"

definition file_Truncate :: "ofile \<Rightarrow> nat \<Rightarrow> ofile" where
  "file_Truncate f n = \<lparr>fsize = n, fdata = (\<lambda>i. if i < n then fdata f i else 0)\<rparr>"

text \<open>
  \<open>os.File.ReadAt\<close>: the buffer afterwards, the count and the error; a short read reports
  \<open>io.EOF\<close>.  \<open>os.File.WriteAt\<close>: the file afterwards, the count and the error.
\<close>

definition os_negative_offset :: err where
  "os_negative_offset = ErrNew ''negative offset''"

definition file_ReadAt :: "sys \<Rightarrow> ofile \<Rightarrow> bytes \<Rightarrow> int \<Rightarrow> bytes \<times> nat \<times> err option" where
  "file_ReadAt sys f p off =
     (if off < 0 then (p, 0, Some os_negative_offset)
      else
        let avail = min (length p) (fsize f - nat off) in
        case sys_err sys SysRead of
          Some e \<Rightarrow>
            let n = min avail (sys_moved sys) in
            (go_copy p (file_bytes f (nat off) n), n, Some e)
        | None \<Rightarrow>
            (go_copy p (file_bytes f (nat off) avail), avail,
             if avail < length p then Some io_EOF else None))"

definition file_WriteAt :: "sys \<Rightarrow> ofile \<Rightarrow> bytes \<Rightarrow> int \<Rightarrow> ofile \<times> nat \<times> err option" where
  "file_WriteAt sys f b off =
     (if off < 0 then (f, 0, Some os_negative_offset)
      else case sys_err sys SysWrite of
        Some e \<Rightarrow>
          let n = min (length b) (sys_moved sys) in (file_put f (nat off) (take n b), n, Some e)
      | None \<Rightarrow> (file_put f (nat off) b, length b, None))"

section \<open>Positioned blob reads and writes\<close>

text \<open>An \<open>io.ReaderAt\<close> maps buffer and offset to buffer, count and error.\<close>

type_synonym readerAt = "bytes \<Rightarrow> int \<Rightarrow> bytes \<times> nat \<times> err option"

definition ErrWriteBeyondBlobBounds :: err where
  "ErrWriteBeyondBlobBounds = ErrVar ''write beyond blob bounds''"

definition ReadBlobAt :: "readerAt \<Rightarrow> bytes \<Rightarrow> int \<Rightarrow> bytes \<times> nat \<times> err option" where
  "ReadBlobAt r b off =
     (if off > int blob_Size then (b, 0, Some io_EOF)
      else if int (length b) + off > int blob_Size then
        let (buf, n, err) = r (replicate (nat (int blob_Size - off)) 0) off in
        (go_copy b buf, n, case err of Some e \<Rightarrow> Some e | None \<Rightarrow> Some io_EOF)
      else r b off)"

definition ReadSector :: "readerAt \<Rightarrow> 8 word \<Rightarrow> Sector \<times> err option" where
  "ReadSector r sid =
     (let (sector, _, err) = r ZeroSector (uint sid * int SectorBytes) in (sector, err))"

text \<open>
  An \<open>io.WriterAt\<close> with state \<open>'w\<close>.  The result of \<open>WriteBlobAt\<close> includes the caller's buffer,
  which the out-of-bounds branch overwrites with zeros.
\<close>

type_synonym 'w writerAt = "'w \<Rightarrow> bytes \<Rightarrow> int \<Rightarrow> 'w \<times> nat \<times> err option"

definition WriteBlobAt ::
  "'w writerAt \<Rightarrow> 'w \<Rightarrow> bytes \<Rightarrow> int \<Rightarrow> 'w \<times> bytes \<times> nat \<times> err option" where
  "WriteBlobAt wa w b off =
     (if off > int blob_Size then (w, b, 0, Some ErrWriteBeyondBlobBounds)
      else if int (length b) + off > int blob_Size then
        let buf = replicate (nat (int blob_Size - off)) 0;
            (w', n, err) = wa w (take (nat (int blob_Size - off)) b) off
        in (w', go_copy b buf, n,
            case err of Some e \<Rightarrow> Some e | None \<Rightarrow> Some ErrWriteBeyondBlobBounds)
      else
        let (w', n, err) = wa w b off in (w', b, n, err))"

definition WriteSector :: "'w writerAt \<Rightarrow> 'w \<Rightarrow> uint16 \<Rightarrow> Sector \<Rightarrow> 'w \<times> err option" where
  "WriteSector wa w sid sector =
     (let (w', _, err) = wa w sector (uint sid * int SectorBytes) in (w', err))"

section \<open>Sequential readers and writers\<close>

record Reader =
  reader_offset :: int

definition NewReader :: Reader where
  "NewReader = \<lparr>reader_offset = 0\<rparr>"

definition Reader_Read ::
  "readerAt \<Rightarrow> Reader \<Rightarrow> bytes \<Rightarrow> Reader \<times> bytes \<times> nat \<times> err option" where
  "Reader_Read r b p =
     (if reader_offset b \<ge> int blob_Size then (b, p, 0, Some io_EOF)
      else
        let remaining = int blob_Size - reader_offset b in
        if remaining < int (length p) then
          let (buf, n, err) = r (replicate (nat remaining) 0) (reader_offset b) in
          (b\<lparr>reader_offset := reader_offset b + int n\<rparr>, go_copy p buf, n, err)
        else
          let (p', n, err) = r p (reader_offset b) in
          (b\<lparr>reader_offset := reader_offset b + int n\<rparr>, p', n, err))"

record Writer =
  writer_offset :: int

definition NewWriter :: Writer where
  "NewWriter = \<lparr>writer_offset = 0\<rparr>"

definition Writer_Write ::
  "'w writerAt \<Rightarrow> 'w \<Rightarrow> Writer \<Rightarrow> bytes \<Rightarrow> 'w \<times> Writer \<times> bytes \<times> nat \<times> err option" where
  "Writer_Write wa u w p =
     (if writer_offset w \<ge> int blob_Size then (u, w, p, 0, Some io_EOF)
      else
        let remaining = int blob_Size - writer_offset w in
        if remaining < int (length p) then
          let buf = replicate (nat remaining) 0;
              (u', n, err) = wa u buf (writer_offset w)
          in (u', w\<lparr>writer_offset := writer_offset w + int n\<rparr>, go_copy p buf, n, err)
        else
          let (u', n, err) = wa u p (writer_offset w) in
          (u', w\<lparr>writer_offset := writer_offset w + int n\<rparr>, p, n, err))"

section \<open>Laws of files\<close>

lemma length_file_bytes [simp]: "length (file_bytes f off n) = n"
  by (simp add: file_bytes_def)

lemma nth_file_bytes: "i < n \<Longrightarrow> file_bytes f off n ! i = fdata f (off + i)"
  by (simp add: file_bytes_def)

lemma file_wf_put [simp]: "file_wf f \<Longrightarrow> file_wf (file_put f off b)"
  by (auto simp: file_wf_def file_put_def)

lemma file_wf_Truncate [simp]: "file_wf f \<Longrightarrow> file_wf (file_Truncate f n)"
  by (auto simp: file_wf_def file_Truncate_def)

lemma file_wf_empty [simp]: "file_wf file_empty"
  by (simp add: file_wf_def file_empty_def)

lemma fsize_put: "fsize (file_put f off b) = (if b = [] then fsize f else max (fsize f) (off + length b))"
  by (simp add: file_put_def)

lemma file_bytes_put_same: "file_bytes (file_put f off b) off (length b) = b"
  by (rule nth_equalityI) (auto simp: file_put_def nth_file_bytes)

lemma file_bytes_put_disjoint:
  "off2 + n \<le> off \<or> off + length b \<le> off2 \<Longrightarrow>
     file_bytes (file_put f off b) off2 n = file_bytes f off2 n"
  by (rule nth_equalityI) (auto simp: file_put_def nth_file_bytes)

lemma file_ReadAt_full:
  assumes "sys_err sys SysRead = None" and "0 \<le> off" and "nat off + length p \<le> fsize f"
  shows "file_ReadAt sys f p off = (file_bytes f (nat off) (length p), length p, None)"
  using assms by (simp add: file_ReadAt_def Let_def go_copy_same_length)

lemma file_ReadAt_None:
  assumes "file_ReadAt sys f p off = (p', n, None)"
  shows "n = length p \<and> p' = file_bytes f (nat off) (length p) \<and> 0 \<le> off"
  using assms
  by (auto simp: file_ReadAt_def Let_def go_copy_same_length split: if_splits option.splits)

text \<open>The sectors of a file.\<close>

definition file_sector :: "ofile \<Rightarrow> nat \<Rightarrow> Sector" where
  "file_sector f i = file_bytes f (i * SectorBytes) SectorBytes"

lemma sector_wf_file_sector [simp]: "sector_wf (file_sector f i)"
  by (simp add: sector_wf_def file_sector_def)

lemma file_sector_put:
  assumes "length s = SectorBytes"
  shows "file_sector (file_put f (k * SectorBytes) s) i = (if i = k then s else file_sector f i)"
proof (cases "i = k")
  case True
  then show ?thesis using file_bytes_put_same [of f "k * SectorBytes" s] assms
    by (simp add: file_sector_def)
next
  case False
  then have "i * SectorBytes + SectorBytes \<le> k * SectorBytes \<or>
      k * SectorBytes + length s \<le> i * SectorBytes"
    unfolding assms using mult_le_mono1 [of "Suc i" k SectorBytes] mult_le_mono1 [of "Suc k" i SectorBytes]
    by (cases i k rule: linorder_cases) auto
  then show ?thesis using False by (simp add: file_sector_def file_bytes_put_disjoint)
qed

section \<open>Reading a blob from its start\<close>

definition reader_at :: "nat \<Rightarrow> Reader" where
  "reader_at i = \<lparr>reader_offset = int (i * SectorBytes)\<rparr>"

lemma reader_at_0: "reader_at 0 = NewReader"
  by (simp add: reader_at_def NewReader_def)

lemma Reader_Read_sector:
  assumes "i < MaxSectors" and "length p = SectorBytes"
  shows "Reader_Read r (reader_at i) p =
    (let (p', n, err) = r p (int (i * SectorBytes)) in
     (\<lparr>reader_offset = int (i * SectorBytes) + int n\<rparr>, p', n, err))"
proof -
  have "int (i * SectorBytes) + int SectorBytes \<le> int blob_Size"
    using assms(1) by (simp add: blob_Size_def MaxSectors_def SectorBytes_def)
  moreover have "0 < int SectorBytes" by simp
  ultimately have "\<not> int blob_Size \<le> int (i * SectorBytes)"
    and "\<not> int blob_Size - int (i * SectorBytes) < int SectorBytes" by linarith+
  then show ?thesis
    using assms(2)
    by (simp add: Reader_Read_def reader_at_def Let_def case_prod_unfold del: of_nat_mult)
qed

lemma Reader_Read_end:
  "MaxSectors \<le> i \<Longrightarrow> Reader_Read r (reader_at i) p = (reader_at i, p, 0, Some io_EOF)"
  by (simp add: Reader_Read_def reader_at_def blob_Size_def MaxSectors_def SectorBytes_def)

lemma Reader_delivers:
  assumes "sys_err sys SysRead = None" and "n \<le> MaxSectors" and "n * SectorBytes \<le> fsize f"
  shows "delivers (Reader_Read (file_ReadAt sys f)) reader_at (map (file_sector f) [0..<n])"
  unfolding delivers_def
proof (intro allI impI)
  fix i and p :: bytes
  assume i: "i < length (map (file_sector f) [0..<n])" and p: "length p = SectorBytes"
  have "Suc i * SectorBytes \<le> n * SectorBytes" using i by (intro mult_le_mono1) simp
  then have "nat (int (i * SectorBytes)) + length p \<le> fsize f"
    using p assms(3) by (simp del: of_nat_mult)
  then show "Reader_Read (file_ReadAt sys f) (reader_at i) p
      = (reader_at (Suc i), map (file_sector f) [0..<n] ! i, SectorBytes, None)"
    using i p assms(1,2)
    by (simp add: Reader_Read_sector file_ReadAt_full file_sector_def Let_def del: of_nat_mult)
      (simp add: reader_at_def)
qed

lemma SerialHashLoop_Reader_no_panic:
  assumes "length p = SectorBytes" and "length res = MaxSectors"
  shows "fst (SerialHashLoop b2 (Reader_Read (file_ReadAt sys f)) (reader_at i) p prev res i n) \<noteq> Panic m"
  using assms
proof (induction n arbitrary: p prev res i)
  case (Suc n)
  show ?case
  proof (cases "i < MaxSectors")
    case False
    then show ?thesis by (simp add: Reader_Read_end)
  next
    case True
    obtain p' k err where rd: "file_ReadAt sys f p (int (i * SectorBytes)) = (p', k, err)"
      by (cases "file_ReadAt sys f p (int (i * SectorBytes))") auto
    show ?thesis
    proof (cases err)
      case None
      then have "k = SectorBytes" "length p' = SectorBytes"
        using file_ReadAt_None [of sys f p "int (i * SectorBytes)" p' k] rd Suc.prems by auto
      then have "Reader_Read (file_ReadAt sys f) (reader_at i) p = (reader_at (Suc i), p', k, None)"
        using rd None Suc.prems True
        by (simp add: Reader_Read_sector del: of_nat_mult) (simp add: reader_at_def)
      then show ?thesis using Suc True \<open>length p' = SectorBytes\<close> by (simp add: Let_def)
    next
      case (Some e)
      then show ?thesis using rd Suc.prems True by (simp add: Reader_Read_sector del: of_nat_mult)
    qed
  qed
qed simp

text \<open>
  C15. Hashing a blob through \<open>blob.Reader\<close> gives the hash chain of its leading sectors, for every
  sector count a blob can have; and for every sector count at all, every file and every failing
  read, it returns or reports an error but never indexes past the array of sector hashes.
\<close>

theorem SerialHash_of_blob:
  "\<not> is_panic (fst (SerialHash b2 (Reader_Read (file_ReadAt sys f)) NewReader prev n))
   \<and> (sys_err sys SysRead = None \<and> fsize f = blob_Size \<and> unat n \<le> MaxSectors \<longrightarrow>
        fst (SerialHash b2 (Reader_Read (file_ReadAt sys f)) NewReader prev n)
          = Ok (chain b2 prev (map (file_sector f) [0..<unat n])
                @ replicate (MaxSectors - unat n) ZeroHash))"
proof -
  have "fst (SerialHash b2 (Reader_Read (file_ReadAt sys f)) NewReader prev n) \<noteq> Panic m" for m
    unfolding SerialHash_def reader_at_0 [symmetric]
    by (rule SerialHashLoop_Reader_no_panic) (simp_all add: ZeroSectorHashes_def)
  then have safe: "\<not> is_panic (fst (SerialHash b2 (Reader_Read (file_ReadAt sys f)) NewReader prev n))"
    by (simp add: is_panic_def split: go.splits)
  show ?thesis
  proof (intro conjI impI safe)
    assume a: "sys_err sys SysRead = None \<and> fsize f = blob_Size \<and> unat n \<le> MaxSectors"
    have d: "delivers (Reader_Read (file_ReadAt sys f)) reader_at (map (file_sector f) [0..<unat n])"
      using a by (intro Reader_delivers) (auto simp: blob_Size_def)
    then have "SerialHash b2 (Reader_Read (file_ReadAt sys f)) (reader_at 0) prev n
        = (Ok (chain b2 prev (map (file_sector f) [0..<unat n])
            @ replicate (MaxSectors - unat n) ZeroHash), reader_at (unat n))"
      using SerialHashLoop_chain [of "map (file_sector f) [0..<unat n]" _ reader_at 0 ZeroSector
          ZeroSectorHashes b2 prev] a
      by (simp add: SerialHash_def delivers_def list_all_iff ZeroSectorHashes_def)
    then show "fst (SerialHash b2 (Reader_Read (file_ReadAt sys f)) NewReader prev n)
        = Ok (chain b2 prev (map (file_sector f) [0..<unat n])
            @ replicate (MaxSectors - unat n) ZeroHash)"
      by (simp add: reader_at_0)
  qed
qed

definition blank_blob :: ofile where
  "blank_blob = file_Truncate file_empty blob_Size"

lemma blank_blob_facts [simp]: "fsize blank_blob = blob_Size" "fdata blank_blob i = 0" "file_wf blank_blob"
  by (simp_all add: blank_blob_def file_Truncate_def file_empty_def file_wf_def)

lemma file_sector_blank: "file_sector blank_blob i = ZeroSector"
  by (simp add: file_sector_def file_bytes_def ZeroSector_def map_replicate_trivial
      flip: map_replicate_const)

theorem SerialHash_of_blob_witness:
  "fst (SerialHash (\<lambda>x. take 32 x) (Reader_Read (file_ReadAt sys_fine blank_blob)) NewReader ZeroHash 1)
     = Ok (ZeroHash # replicate 4095 ZeroHash)"
  using SerialHash_of_blob [of "\<lambda>x. take 32 x" sys_fine blank_blob ZeroHash 1]
  by (simp add: sys_fine_def MaxSectors_def file_sector_blank SerialHashSector_def
      go_copy_same_length)

text \<open>
  A positioned write to a blob stores exactly the bytes that fit below the blob size, leaves
  every other byte and the size alone, and reports \<open>ErrWriteBeyondBlobBounds\<close> exactly when bytes
  were cut off; in that case it also overwrites the caller's buffer with zeros.
\<close>

theorem WriteBlobAt_stores_prefix:
  assumes "sys_err sys SysWrite = None" and "fsize f = blob_Size" and "0 \<le> off"
    and "WriteBlobAt (file_WriteAt sys) f b off = (f', b', n, err)"
  shows "fsize f' = blob_Size \<and> n = min (length b) (blob_Size - nat off)
    \<and> (\<forall>i. fdata f' i = (if nat off \<le> i \<and> i < nat off + n then b ! (i - nat off) else fdata f i))
    \<and> (err = None \<longleftrightarrow> off \<le> int blob_Size \<and> nat off + length b \<le> blob_Size)
    \<and> (err \<noteq> None \<longrightarrow> err = Some ErrWriteBeyondBlobBounds
        \<and> b' = (if off \<le> int blob_Size then replicate n 0 @ drop n b else b))"
proof -
  define k where "k = nat off"
  have off: "off = int k" using assms(3) by (simp add: k_def)
  have cut: "nat (int blob_Size - int k) = blob_Size - k" by simp
  show ?thesis
  proof (cases "blob_Size < k + length b")
    case True
    then show ?thesis
      using assms
      by (cases "blob_Size < k")
        (auto simp: off WriteBlobAt_def file_WriteAt_def Let_def fsize_put cut go_copy_def file_put_def)
  next
    case False
    then show ?thesis
      using assms by (auto simp: off WriteBlobAt_def file_WriteAt_def Let_def fsize_put file_put_def)
  qed
qed

theorem WriteBlobAt_stores_prefix_witness:
  "fst (snd (snd (WriteBlobAt (file_WriteAt sys_fine) blank_blob [7, 8, 9] (int blob_Size - 1)))) = 1
   \<and> fst (snd (WriteBlobAt (file_WriteAt sys_fine) blank_blob [7, 8, 9] (int blob_Size - 1))) = [0, 8, 9]"
proof -
  obtain f' b' n err where w: "WriteBlobAt (file_WriteAt sys_fine) blank_blob [7, 8, 9]
      (int blob_Size - 1) = (f', b', n, err)"
    by (cases "WriteBlobAt (file_WriteAt sys_fine) blank_blob [7, 8, 9] (int blob_Size - 1)") auto
  have "nat (int blob_Size - 1) = blob_Size - 1" and "1 < blob_Size"
    by (simp_all add: blob_Size_def MaxSectors_def SectorBytes_def)
  then show ?thesis
    using WriteBlobAt_stores_prefix [OF _ _ _ w] w by (auto simp: sys_fine_def)
qed

end
