(* ===== verification/Blob_Tx.thy ===== *)
theory Blob_Tx
  imports Blob_IO
begin

text \<open>
  Blobs and their transactions (\<open>blob/blob.go\<close>, \<open>blob/transaction.go\<close>).  The file system part
  that a blob touches is \<open>blobFS\<close>: the blob's own file and the temporary files of its
  transactions by number, each with its content, whether its handle is open and whether its path
  is still linked.  Every operation returns its result with the transaction and the file system,
  also when it fails or panics.  The mutexes make each operation one step.
\<close>

section \<open>State\<close>

record tempFile =
  tmp_file :: ofile
  tmp_open :: bool
  tmp_linked :: bool

record blobFS =
  fs_blob :: ofile
  fs_blobOpen :: bool
  fs_blobLinked :: bool
  fs_temps :: "nat \<Rightarrow> tempFile option"
  fs_next :: nat

record txImpl =
  tx_name :: string
  tx_f :: nat
  tx_sectorSize :: uint16
  tx_initialized :: bool
  tx_closed :: bool
  tx_removed :: bool

definition ErrTransactionClosed :: err where
  "ErrTransactionClosed = ErrVar ''transaction already closed''"

definition ErrTransactionRemoved :: err where
  "ErrTransactionRemoved = ErrVar ''transaction removed''"

definition os_ErrClosed :: err where
  "os_ErrClosed = ErrVar ''file already closed''"

definition os_ErrNotExist :: err where
  "os_ErrNotExist = ErrVar ''file does not exist''"

text \<open>A call on a handle fails when the system refuses it or the handle is closed.\<close>

definition handle_err :: "sys \<Rightarrow> syscall \<Rightarrow> bool \<Rightarrow> err option" where
  "handle_err sys c isOpen =
     (case sys_err sys c of Some e \<Rightarrow> Some e | None \<Rightarrow> if isOpen then None else Some os_ErrClosed)"

definition unlink_err :: "sys \<Rightarrow> syscall \<Rightarrow> bool \<Rightarrow> err option" where
  "unlink_err sys c linked =
     (case sys_err sys c of Some e \<Rightarrow> Some e | None \<Rightarrow> if linked then None else Some os_ErrNotExist)"

definition tmp_of :: "blobFS \<Rightarrow> nat \<Rightarrow> tempFile" where
  "tmp_of fs i = (case fs_temps fs i of
     Some t \<Rightarrow> t | None \<Rightarrow> \<lparr>tmp_file = file_empty, tmp_open = False, tmp_linked = False\<rparr>)"

definition tmp_set :: "blobFS \<Rightarrow> nat \<Rightarrow> tempFile \<Rightarrow> blobFS" where
  "tmp_set fs i t = fs\<lparr>fs_temps := (fs_temps fs)(i := Some t)\<rparr>"

definition tmp_new :: "blobFS \<Rightarrow> nat \<times> blobFS" where
  "tmp_new fs = (fs_next fs,
     (tmp_set fs (fs_next fs) \<lparr>tmp_file = file_empty, tmp_open = True, tmp_linked = True\<rparr>)
       \<lparr>fs_next := Suc (fs_next fs)\<rparr>)"

text \<open>\<open>io.Copy\<close> of the first \<open>n\<close> bytes of \<open>g\<close> over the start of \<open>f\<close>.\<close>

definition file_overlay :: "ofile \<Rightarrow> ofile \<Rightarrow> nat \<Rightarrow> ofile" where
  "file_overlay f g n =
     \<lparr>fsize = max (fsize f) n, fdata = (\<lambda>i. if i < n then fdata g i else fdata f i)\<rparr>"

section \<open>The blob's side\<close>

definition blobImpl_ReadSector :: "sys \<Rightarrow> blobFS \<Rightarrow> byte \<Rightarrow> Sector \<times> err option" where
  "blobImpl_ReadSector sys fs sid =
     ReadSector (\<lambda>p off. if fs_blobOpen fs then file_ReadAt sys (fs_blob fs) p off
                         else (p, 0, Some os_ErrClosed)) sid"

definition blobImpl_ReadAt :: "sys \<Rightarrow> blobFS \<Rightarrow> readerAt" where
  "blobImpl_ReadAt sys fs p off =
     ReadBlobAt (\<lambda>p off. if fs_blobOpen fs then file_ReadAt sys (fs_blob fs) p off
                         else (p, 0, Some os_ErrClosed)) p off"

definition blobImpl_Transaction :: "string \<Rightarrow> txImpl" where
  "blobImpl_Transaction name = \<lparr>tx_name = name, tx_f = 0, tx_sectorSize = 0,
     tx_initialized = False, tx_closed = False, tx_removed = False\<rparr>"

definition blobImpl_Close :: "sys \<Rightarrow> blobFS \<Rightarrow> unit go \<times> blobFS" where
  "blobImpl_Close sys fs =
     (case handle_err sys SysCloseBlob (fs_blobOpen fs) of
        Some e \<Rightarrow> (Err e, fs)
      | None \<Rightarrow> (Ok (), fs\<lparr>fs_blobOpen := False\<rparr>))"

definition blobImpl_txCloner :: "sys \<Rightarrow> blobFS \<Rightarrow> nat go \<times> blobFS" where
  "blobImpl_txCloner sys fs =
     (case sys_err sys SysTempFile of
        Some e \<Rightarrow> (Err (ErrWrap e ''error cloning blob''), fs)
      | None \<Rightarrow>
          let (clone, fs1) = tmp_new fs in
          case handle_err sys SysSeekBlob (fs_blobOpen fs1) of
            Some e \<Rightarrow> (Err (ErrWrap e ''error cloning blob''), fs1)
          | None \<Rightarrow>
              (case sys_err sys SysCopyToClone of
                 Some e \<Rightarrow>
                   (Err (ErrWrap e ''error cloning blob''),
                    tmp_set fs1 clone ((tmp_of fs1 clone)\<lparr>tmp_file :=
                      file_overlay file_empty (fs_blob fs1) (min (sys_moved sys) (fsize (fs_blob fs1)))\<rparr>))
               | None \<Rightarrow>
                   (Ok clone,
                    tmp_set fs1 clone ((tmp_of fs1 clone)\<lparr>tmp_file :=
                      file_overlay file_empty (fs_blob fs1) (fsize (fs_blob fs1))\<rparr>))))"

definition blobImpl_txCommitter :: "sys \<Rightarrow> blobFS \<Rightarrow> nat \<Rightarrow> unit go \<times> blobFS" where
  "blobImpl_txCommitter sys fs clone =
     (case handle_err sys SysSeekClone (tmp_open (tmp_of fs clone)) of
        Some e \<Rightarrow> (Err (ErrWrap e ''error committing blob''), fs)
      | None \<Rightarrow>
     (case handle_err sys SysSeekBlob (fs_blobOpen fs) of
        Some e \<Rightarrow> (Err (ErrWrap e ''error committing blob''), fs)
      | None \<Rightarrow>
          let g = tmp_file (tmp_of fs clone) in
          case sys_err sys SysCopyToBlob of
            Some e \<Rightarrow>
              (Err (ErrWrap e ''error committing blob''),
               fs\<lparr>fs_blob := file_overlay (fs_blob fs) g (min (sys_moved sys) (fsize g))\<rparr>)
          | None \<Rightarrow> (Ok (), fs\<lparr>fs_blob := file_overlay (fs_blob fs) g (fsize g)\<rparr>)))"

definition blobImpl_txRemover :: "sys \<Rightarrow> blobFS \<Rightarrow> unit go \<times> blobFS" where
  "blobImpl_txRemover sys fs =
     (case unlink_err sys SysRemoveBlob (fs_blobLinked fs) of
        Some e \<Rightarrow> (Err e, fs)
      | None \<Rightarrow> (Ok (), fs\<lparr>fs_blobLinked := False\<rparr>))"

section \<open>The transaction\<close>

definition txImpl_lazyInitialize :: "sys \<Rightarrow> txImpl \<Rightarrow> blobFS \<Rightarrow> unit go \<times> txImpl \<times> blobFS" where
  "txImpl_lazyInitialize sys t fs =
     (if tx_initialized t then (Ok (), t, fs)
      else
        case blobImpl_txCloner sys fs of
          (Ok clone, fs1) \<Rightarrow> (Ok (), t\<lparr>tx_f := clone, tx_initialized := True\<rparr>, fs1)
        | (Err e, fs1) \<Rightarrow> (Err (ErrWrap e ''error initializing transaction''), t, fs1)
        | (Panic m, fs1) \<Rightarrow> (Panic m, t, fs1))"

text \<open>The guards every method but \<open>Seek\<close>, \<open>Truncate\<close>, \<open>Commit\<close>, \<open>Rollback\<close>, \<open>Remove\<close> starts with.\<close>

definition txImpl_enter :: "sys \<Rightarrow> txImpl \<Rightarrow> blobFS \<Rightarrow> unit go \<times> txImpl \<times> blobFS" where
  "txImpl_enter sys t fs =
     (if tx_closed t then (Err ErrTransactionClosed, t, fs)
      else if tx_removed t then (Err ErrTransactionRemoved, t, fs)
      else
        let (r, t1, fs1) = txImpl_lazyInitialize sys t fs in
        (go_wrap r ''error initializing transaction'', t1, fs1))"

definition tmp_ReadAt :: "sys \<Rightarrow> blobFS \<Rightarrow> nat \<Rightarrow> readerAt" where
  "tmp_ReadAt sys fs i p off =
     (if tmp_open (tmp_of fs i) then file_ReadAt sys (tmp_file (tmp_of fs i)) p off
      else (p, 0, Some os_ErrClosed))"

definition tmp_WriteAt :: "sys \<Rightarrow> nat \<Rightarrow> blobFS writerAt" where
  "tmp_WriteAt sys i fs b off =
     (if tmp_open (tmp_of fs i) then
        let (f, n, err) = file_WriteAt sys (tmp_file (tmp_of fs i)) b off in
        (tmp_set fs i ((tmp_of fs i)\<lparr>tmp_file := f\<rparr>), n, err)
      else (fs, 0, Some os_ErrClosed))"

definition txImpl_Seek :: "txImpl \<Rightarrow> int \<Rightarrow> int \<Rightarrow> int go \<times> txImpl" where
  "txImpl_Seek t off whence =
     (if off mod int SectorBytes \<noteq> 0 then (Err (ErrNew ''seek not a multiple of sector len''), t)
      else if off < uint (tx_sectorSize t) * int SectorBytes
        then (Err (ErrNew ''seek before already written sector''), t)
      else if whence = 0 then
        if off > int blob_Size then (Err (ErrNew ''seek beyond blob bounds''), t)
        else (Ok off, t\<lparr>tx_sectorSize := word_of_int (off div int SectorBytes)\<rparr>)
      else if whence = 1 \<or> whence = 2 then (Ok off, t)
      else (Panic ''invalid whence'', t))"

definition txImpl_ReadSector ::
  "sys \<Rightarrow> txImpl \<Rightarrow> blobFS \<Rightarrow> byte \<Rightarrow> (Sector \<times> err option) go \<times> txImpl \<times> blobFS" where
  "txImpl_ReadSector sys t fs sid =
     (case txImpl_enter sys t fs of
        (Ok _, t1, fs1) \<Rightarrow> (Ok (ReadSector (tmp_ReadAt sys fs1 (tx_f t1)) sid), t1, fs1)
      | (Err e, t1, fs1) \<Rightarrow> (Ok (ZeroSector, Some e), t1, fs1)
      | (Panic m, t1, fs1) \<Rightarrow> (Panic m, t1, fs1))"

definition txImpl_ReadAt ::
  "sys \<Rightarrow> txImpl \<Rightarrow> blobFS \<Rightarrow> bytes \<Rightarrow> int \<Rightarrow> (bytes \<times> nat \<times> err option) go \<times> txImpl \<times> blobFS" where
  "txImpl_ReadAt sys t fs p off =
     (case txImpl_enter sys t fs of
        (Ok _, t1, fs1) \<Rightarrow> (Ok (ReadBlobAt (tmp_ReadAt sys fs1 (tx_f t1)) p off), t1, fs1)
      | (Err e, t1, fs1) \<Rightarrow> (Ok (p, 0, Some e), t1, fs1)
      | (Panic m, t1, fs1) \<Rightarrow> (Panic m, t1, fs1))"

definition txImpl_WriteSector ::
  "sys \<Rightarrow> txImpl \<Rightarrow> blobFS \<Rightarrow> Sector \<Rightarrow> unit go \<times> txImpl \<times> blobFS" where
  "txImpl_WriteSector sys t fs sector =
     (case txImpl_enter sys t fs of
        (Ok _, t1, fs1) \<Rightarrow>
          (case WriteSector (tmp_WriteAt sys (tx_f t1)) fs1 (tx_sectorSize t1) sector of
             (fs2, Some e) \<Rightarrow> (Err (ErrWrap e ''error writing sector''), t1, fs2)
           | (fs2, None) \<Rightarrow> (Ok (), t1\<lparr>tx_sectorSize := tx_sectorSize t1 + 1\<rparr>, fs2))
      | (Err e, t1, fs1) \<Rightarrow> (Err e, t1, fs1)
      | (Panic m, t1, fs1) \<Rightarrow> (Panic m, t1, fs1))"

definition txImpl_WriteAt ::
  "sys \<Rightarrow> txImpl \<Rightarrow> blobFS \<Rightarrow> bytes \<Rightarrow> int \<Rightarrow> (bytes \<times> nat \<times> err option) go \<times> txImpl \<times> blobFS" where
  "txImpl_WriteAt sys t fs p off =
     (case txImpl_enter sys t fs of
        (Ok _, t1, fs1) \<Rightarrow>
          (case WriteBlobAt (tmp_WriteAt sys (tx_f t1)) fs1 p off of
             (fs2, p', n, err) \<Rightarrow> (Ok (p', n, err), t1, fs2))
      | (Err e, t1, fs1) \<Rightarrow> (Ok (p, 0, Some e), t1, fs1)
      | (Panic m, t1, fs1) \<Rightarrow> (Panic m, t1, fs1))"

text \<open>\<open>Truncate\<close> does not look at \<open>closed\<close>, and does not reset \<open>sectorSize\<close>.\<close>

definition txImpl_Truncate :: "sys \<Rightarrow> txImpl \<Rightarrow> blobFS \<Rightarrow> unit go \<times> txImpl \<times> blobFS" where
  "txImpl_Truncate sys t fs =
     (if tx_removed t then (Err ErrTransactionRemoved, t, fs)
      else
        let old = tmp_of fs (tx_f t);
            (rm, fs1) =
              (if tx_initialized t then
                 case unlink_err sys SysRemoveClone (tmp_linked old) of
                   Some e \<Rightarrow> (Some e, fs)
                 | None \<Rightarrow> (None, tmp_set fs (tx_f t) (old\<lparr>tmp_linked := False\<rparr>))
               else (None, fs))
        in case rm of
             Some e \<Rightarrow> (Err e, t, fs1)
           | None \<Rightarrow>
               (case sys_err sys SysTempFile of
                  Some e \<Rightarrow> (Err (ErrWrap e ''error creating temporary file''), t, fs1)
                | None \<Rightarrow>
                    let (clone, fs2) = tmp_new fs1 in
                    case sys_err sys SysTruncate of
                      Some e \<Rightarrow> (Err (ErrWrap e ''error truncating file''), t, fs2)
                    | None \<Rightarrow>
                        (Ok (), t\<lparr>tx_f := clone, tx_initialized := True\<rparr>,
                         tmp_set fs2 clone ((tmp_of fs2 clone)\<lparr>tmp_file :=
                           file_Truncate (tmp_file (tmp_of fs2 clone)) blob_Size\<rparr>))))"

text \<open>Closing and unlinking the clone; an error of either is a panic.\<close>

definition tmp_discard :: "sys \<Rightarrow> blobFS \<Rightarrow> nat \<Rightarrow> unit go \<times> blobFS" where
  "tmp_discard sys fs i =
     (case handle_err sys SysCloseClone (tmp_open (tmp_of fs i)) of
        Some e \<Rightarrow> (Panic ''close failed'', fs)
      | None \<Rightarrow>
          let fs1 = tmp_set fs i ((tmp_of fs i)\<lparr>tmp_open := False\<rparr>) in
          case unlink_err sys SysRemoveClone (tmp_linked (tmp_of fs1 i)) of
            Some e \<Rightarrow> (Panic ''remove failed'', fs1)
          | None \<Rightarrow> (Ok (), tmp_set fs1 i ((tmp_of fs1 i)\<lparr>tmp_linked := False\<rparr>)))"

definition txImpl_Commit :: "sys \<Rightarrow> txImpl \<Rightarrow> blobFS \<Rightarrow> unit go \<times> txImpl \<times> blobFS" where
  "txImpl_Commit sys t fs =
     (if tx_closed t then (Err ErrTransactionClosed, t, fs)
      else if tx_removed t then
        (case blobImpl_txRemover sys fs of
           (Ok _, fs1) \<Rightarrow> (Ok (), t\<lparr>tx_closed := True\<rparr>, fs1)
         | (_, fs1) \<Rightarrow> (Panic ''commit failed'', t, fs1))
      else if tx_initialized t then
        (case blobImpl_txCommitter sys fs (tx_f t) of
           (Ok _, fs1) \<Rightarrow>
             (case tmp_discard sys fs1 (tx_f t) of
                (Ok _, fs2) \<Rightarrow> (Ok (), t\<lparr>tx_closed := True\<rparr>, fs2)
              | (_, fs2) \<Rightarrow> (Panic ''commit failed'', t, fs2))
         | (_, fs1) \<Rightarrow> (Panic ''commit failed'', t, fs1))
      else (Ok (), t\<lparr>tx_closed := True\<rparr>, fs))"

definition txImpl_Rollback :: "sys \<Rightarrow> txImpl \<Rightarrow> blobFS \<Rightarrow> unit go \<times> txImpl \<times> blobFS" where
  "txImpl_Rollback sys t fs =
     (if tx_closed t then (Err ErrTransactionClosed, t, fs)
      else if \<not> tx_initialized t \<or> tx_removed t then (Ok (), t\<lparr>tx_closed := True\<rparr>, fs)
      else
        case tmp_discard sys fs (tx_f t) of
          (Ok _, fs1) \<Rightarrow> (Ok (), t\<lparr>tx_closed := True\<rparr>, fs1)
        | (_, fs1) \<Rightarrow> (Panic ''rollback failed'', t, fs1))"

definition txImpl_Remove :: "sys \<Rightarrow> txImpl \<Rightarrow> blobFS \<Rightarrow> unit go \<times> txImpl \<times> blobFS" where
  "txImpl_Remove sys t fs =
     (if tx_closed t then (Err ErrTransactionClosed, t, fs)
      else
        let t1 = t\<lparr>tx_removed := True\<rparr> in
        if \<not> tx_initialized t then (Ok (), t1, fs)
        else
          case tmp_discard sys fs (tx_f t) of
            (Ok _, fs1) \<Rightarrow> (Ok (), t1, fs1)
          | (_, fs1) \<Rightarrow> (Panic ''remove failed'', t1, fs1))"

section \<open>Runs of a transaction\<close>

datatype txop =
    OpSeek int int
  | OpReadSector byte
  | OpReadAt bytes int
  | OpWriteSector Sector
  | OpWriteAt bytes int
  | OpTruncate

primrec tx_exec :: "sys \<Rightarrow> txop \<Rightarrow> txImpl \<times> blobFS \<Rightarrow> txImpl \<times> blobFS" where
  "tx_exec sys (OpSeek off whence) s = (snd (txImpl_Seek (fst s) off whence), snd s)"
| "tx_exec sys (OpReadSector sid) s = snd (txImpl_ReadSector sys (fst s) (snd s) sid)"
| "tx_exec sys (OpReadAt p off) s = snd (txImpl_ReadAt sys (fst s) (snd s) p off)"
| "tx_exec sys (OpWriteSector sec) s = snd (txImpl_WriteSector sys (fst s) (snd s) sec)"
| "tx_exec sys (OpWriteAt p off) s = snd (txImpl_WriteAt sys (fst s) (snd s) p off)"
| "tx_exec sys OpTruncate s = snd (txImpl_Truncate sys (fst s) (snd s))"

definition tx_run :: "(sys \<times> txop) list \<Rightarrow> txImpl \<times> blobFS \<Rightarrow> txImpl \<times> blobFS" where
  "tx_run ops s = fold (\<lambda>(sys, op). tx_exec sys op) ops s"

text \<open>The blob's own file as seen by its readers.\<close>

definition blob_part :: "blobFS \<Rightarrow> ofile \<times> bool \<times> bool" where
  "blob_part fs = (fs_blob fs, fs_blobOpen fs, fs_blobLinked fs)"

lemma tmp_simps [simp]:
  "tmp_of (tmp_set fs i t) j = (if j = i then t else tmp_of fs j)"
  "fs_temps (tmp_set fs i t) = (fs_temps fs)(i := Some t)"
  "fs_next (tmp_set fs i t) = fs_next fs"
  "fs_blob (tmp_set fs i t) = fs_blob fs"
  "fs_blobOpen (tmp_set fs i t) = fs_blobOpen fs"
  "fs_blobLinked (tmp_set fs i t) = fs_blobLinked fs"
  "blob_part (tmp_set fs i t) = blob_part fs"
  by (simp_all add: tmp_of_def tmp_set_def blob_part_def)

lemma tmp_of_upd [simp]: "tmp_of (fs\<lparr>fs_next := n\<rparr>) i = tmp_of fs i"
  "tmp_of (fs\<lparr>fs_blob := f\<rparr>) i = tmp_of fs i"
  by (simp_all add: tmp_of_def)

lemma blob_part_next [simp]: "blob_part (fs\<lparr>fs_next := n\<rparr>) = blob_part fs"
  by (simp add: blob_part_def)

lemma blob_part_new [simp]: "blob_part (snd (tmp_new fs)) = blob_part fs"
  by (simp add: tmp_new_def)

lemma blob_part_Cloner [simp]: "blob_part (snd (blobImpl_txCloner sys fs)) = blob_part fs"
  by (simp add: blobImpl_txCloner_def Let_def tmp_new_def split: option.splits)

lemma blob_part_enter [simp]: "blob_part (snd (snd (txImpl_enter sys t fs))) = blob_part fs"
proof -
  have "blob_part (snd (snd (txImpl_lazyInitialize sys t fs))) = blob_part fs"
    using blob_part_Cloner [of sys fs]
    by (cases "blobImpl_txCloner sys fs"; cases "fst (blobImpl_txCloner sys fs)")
      (auto simp: txImpl_lazyInitialize_def)
  then show ?thesis by (simp add: txImpl_enter_def Let_def case_prod_unfold)
qed

lemma blob_part_WriteAt [simp]: "blob_part (fst (tmp_WriteAt sys i fs b off)) = blob_part fs"
  by (simp add: tmp_WriteAt_def Let_def case_prod_unfold)

lemma tx_exec_blob_part: "blob_part (snd (tx_exec sys op (t, fs))) = blob_part fs"
proof -
  obtain r t1 fs1 where e: "txImpl_enter sys t fs = (r, t1, fs1)"
    by (cases "txImpl_enter sys t fs") auto
  have "blob_part fs1 = blob_part fs" using blob_part_enter [of sys t fs] e by simp
  then show ?thesis
    using e
    by (cases op; cases r)
      (auto simp: txImpl_ReadSector_def txImpl_ReadAt_def txImpl_WriteSector_def txImpl_WriteAt_def
        txImpl_Truncate_def WriteSector_def WriteBlobAt_def Let_def case_prod_unfold tmp_new_def
        split: option.splits)
qed

lemma tx_run_blob_part: "blob_part (snd (tx_run ops s)) = blob_part (snd s)"
  unfolding tx_run_def
proof (induction ops arbitrary: s)
  case (Cons a ops)
  then show ?case
    using tx_exec_blob_part [of "fst a" "snd a" "fst s" "snd s"] by (simp add: case_prod_unfold)
qed simp

section \<open>The specification: a private working copy\<close>

record aTx =
  at_work :: ofile
  at_pos :: uint16

primrec aTx_exec :: "txop \<Rightarrow> aTx \<Rightarrow> aTx" where
  "aTx_exec (OpSeek off whence) a =
     (if off mod int SectorBytes = 0 \<and> uint (at_pos a) * int SectorBytes \<le> off
         \<and> off \<le> int blob_Size \<and> whence = 0
      then a\<lparr>at_pos := word_of_int (off div int SectorBytes)\<rparr> else a)"
| "aTx_exec (OpReadSector sid) a = a"
| "aTx_exec (OpReadAt p off) a = a"
| "aTx_exec (OpWriteSector sec) a =
     a\<lparr>at_work := file_put (at_work a) (unat (at_pos a) * SectorBytes) sec, at_pos := at_pos a + 1\<rparr>"
| "aTx_exec (OpWriteAt p off) a =
     a\<lparr>at_work := fst (WriteBlobAt (file_WriteAt sys_fine) (at_work a) p off)\<rparr>"
| "aTx_exec OpTruncate a = a\<lparr>at_work := blank_blob\<rparr>"

definition tx_view :: "txImpl \<Rightarrow> blobFS \<Rightarrow> ofile" where
  "tx_view t fs = (if tx_initialized t then tmp_file (tmp_of fs (tx_f t)) else fs_blob fs)"

definition tx_abs :: "txImpl \<times> blobFS \<Rightarrow> aTx" where
  "tx_abs s = \<lparr>at_work = tx_view (fst s) (snd s), at_pos = tx_sectorSize (fst s)\<rparr>"

text \<open>
  A live transaction that started when \<open>n0\<close> temporary files had been made: its clone is open and
  linked, and of the files made since no other is linked.
\<close>

definition tx_live :: "nat \<Rightarrow> txImpl \<times> blobFS \<Rightarrow> bool" where
  "tx_live n0 s \<longleftrightarrow>
     (let t = fst s; fs = snd s in
      \<not> tx_closed t \<and> \<not> tx_removed t \<and> fs_blobOpen fs \<and> file_wf (fs_blob fs) \<and> n0 \<le> fs_next fs \<and>
      (\<forall>i \<ge> fs_next fs. fs_temps fs i = None) \<and>
      (tx_initialized t \<longrightarrow>
         n0 \<le> tx_f t \<and> fs_temps fs (tx_f t) \<noteq> None \<and> tmp_open (tmp_of fs (tx_f t)) \<and>
         tmp_linked (tmp_of fs (tx_f t))) \<and>
      (\<forall>i \<ge> n0. (tx_initialized t \<longrightarrow> i \<noteq> tx_f t) \<longrightarrow> \<not> tmp_linked (tmp_of fs i)))"

lemma tx_live_new:
  assumes "fs_blobOpen fs" and "file_wf (fs_blob fs)" and "\<forall>i \<ge> fs_next fs. fs_temps fs i = None"
  shows "tx_live (fs_next fs) (blobImpl_Transaction name, fs)"
  using assms by (simp add: tx_live_def blobImpl_Transaction_def Let_def tmp_of_def)

lemma sys_fine_simps [simp]:
  "sys_err sys_fine c = None" "handle_err sys_fine c True = None" "unlink_err sys_fine c True = None"
  by (simp_all add: sys_fine_def handle_err_def unlink_err_def)

lemma overlay_empty: "file_wf f \<Longrightarrow> file_overlay file_empty f (fsize f) = f"
  by (cases f) (auto simp: file_overlay_def file_empty_def file_wf_def fun_eq_iff)

lemma overlay_larger: "file_wf g \<Longrightarrow> file_wf f \<Longrightarrow> fsize f \<le> fsize g \<Longrightarrow> file_overlay f g (fsize g) = g"
  by (cases g) (auto simp: file_overlay_def file_wf_def fun_eq_iff)

text \<open>Entering a method of a live transaction makes the clone and shows the same bytes.\<close>

lemma enter_live:
  assumes "tx_live n0 (t, fs)"
  obtains t1 fs1 where "txImpl_enter sys_fine t fs = (Ok (), t1, fs1)"
    and "tx_live n0 (t1, fs1)" and "tx_initialized t1" and "tx_abs (t1, fs1) = tx_abs (t, fs)"
    and "blob_part fs1 = blob_part fs"
proof (cases "tx_initialized t")
  case True
  then show ?thesis
    using assms by (intro that [of t fs]) (auto simp: txImpl_enter_def txImpl_lazyInitialize_def tx_live_def Let_def)
next
  case False
  define fs1 where "fs1 = snd (blobImpl_txCloner sys_fine fs)"
  have c: "blobImpl_txCloner sys_fine fs = (Ok (fs_next fs), fs1)"
    and t1: "tmp_of fs1 (fs_next fs) = \<lparr>tmp_file = fs_blob fs, tmp_open = True, tmp_linked = True\<rparr>"
    and other: "\<And>i. i \<noteq> fs_next fs \<Longrightarrow> tmp_of fs1 i = tmp_of fs i"
      "\<And>i. i \<noteq> fs_next fs \<Longrightarrow> fs_temps fs1 i = fs_temps fs i"
    and some: "fs_temps fs1 (fs_next fs) \<noteq> None" and next1: "fs_next fs1 = Suc (fs_next fs)"
    using assms
    by (auto simp: fs1_def blobImpl_txCloner_def tmp_new_def Let_def tx_live_def overlay_empty)
  have part: "blob_part fs1 = blob_part fs" by (simp add: fs1_def)
  show ?thesis
  proof (rule that [of "t\<lparr>tx_f := fs_next fs, tx_initialized := True\<rparr>" fs1])
    show "txImpl_enter sys_fine t fs = (Ok (), t\<lparr>tx_f := fs_next fs, tx_initialized := True\<rparr>, fs1)"
      using assms False c by (simp add: txImpl_enter_def txImpl_lazyInitialize_def tx_live_def Let_def)
    show "tx_live n0 (t\<lparr>tx_f := fs_next fs, tx_initialized := True\<rparr>, fs1)"
      using assms False t1 other some next1 part
      by (auto simp: tx_live_def Let_def blob_part_def)
    show "tx_abs (t\<lparr>tx_f := fs_next fs, tx_initialized := True\<rparr>, fs1) = tx_abs (t, fs)"
      using False t1 by (simp add: tx_abs_def tx_view_def)
  qed (simp_all add: part)
qed

text \<open>Writing to the clone of a live transaction.\<close>

definition tx_put :: "txImpl \<Rightarrow> blobFS \<Rightarrow> ofile \<Rightarrow> blobFS" where
  "tx_put t fs f = tmp_set fs (tx_f t) ((tmp_of fs (tx_f t))\<lparr>tmp_file := f\<rparr>)"

lemma tx_put_live:
  assumes "tx_live n0 (t, fs)" and "tx_initialized t"
  shows "tx_live n0 (t, tx_put t fs f)" and "tx_live n0 (t\<lparr>tx_sectorSize := k\<rparr>, tx_put t fs f)"
    and "tx_abs (t, tx_put t fs f) = (tx_abs (t, fs))\<lparr>at_work := f\<rparr>"
    and "tx_abs (t\<lparr>tx_sectorSize := k\<rparr>, tx_put t fs f) = \<lparr>at_work = f, at_pos = k\<rparr>"
  using assms by (auto simp: tx_live_def Let_def tx_abs_def tx_view_def tx_put_def)

lemma tx_put_self:
  assumes "tx_live n0 (t, fs)" and "tx_initialized t"
  shows "tx_put t fs (tmp_file (tmp_of fs (tx_f t))) = fs"
  using assms by (auto simp: tx_put_def tmp_set_def tmp_of_def tx_live_def Let_def fun_upd_idem)

lemma tmp_WriteAt_live:
  assumes "tx_live n0 (t, fs)" and "tx_initialized t"
  shows "tmp_WriteAt sys_fine (tx_f t) fs b off =
    (let (f, n, err) = file_WriteAt sys_fine (tx_view t fs) b off in (tx_put t fs f, n, err))"
  using assms by (simp add: tmp_WriteAt_def tx_live_def tx_view_def tx_put_def Let_def)

lemma WriteBlobAt_live:
  assumes "tx_live n0 (t, fs)" and "tx_initialized t"
  shows "WriteBlobAt (tmp_WriteAt sys_fine (tx_f t)) fs p off =
    (let (f, p', n, err) = WriteBlobAt (file_WriteAt sys_fine) (tx_view t fs) p off in
     (tx_put t fs f, p', n, err))"
  using assms tx_put_self [OF assms]
  by (simp add: WriteBlobAt_def tmp_WriteAt_live [OF assms] Let_def case_prod_unfold tx_view_def)

lemma tmp_ReadAt_live:
  assumes "tx_live n0 (t, fs)" and "tx_initialized t"
  shows "tmp_ReadAt sys_fine fs (tx_f t) = file_ReadAt sys_fine (tx_view t fs)"
  using assms by (simp add: tmp_ReadAt_def tx_live_def tx_view_def Let_def fun_eq_iff)

lemma Truncate_live:
  assumes "tx_live n0 (t, fs)"
  obtains t1 fs1 where "txImpl_Truncate sys_fine t fs = (Ok (), t1, fs1)" and "tx_live n0 (t1, fs1)"
    and "tx_abs (t1, fs1) = (tx_abs (t, fs))\<lparr>at_work := blank_blob\<rparr>"
proof -
  define fs0 where "fs0 = (if tx_initialized t
      then tmp_set fs (tx_f t) ((tmp_of fs (tx_f t))\<lparr>tmp_linked := False\<rparr>) else fs)"
  define c where "c = fs_next fs"
  define fs1 where "fs1 = (tmp_set fs0 c \<lparr>tmp_file = blank_blob, tmp_open = True, tmp_linked = True\<rparr>)
      \<lparr>fs_next := Suc c\<rparr>"
  have "txImpl_Truncate sys_fine t fs = (Ok (), t\<lparr>tx_f := c, tx_initialized := True\<rparr>, fs1)"
    using assms
    by (simp add: txImpl_Truncate_def Let_def tx_live_def fs0_def fs1_def c_def tmp_new_def
        blank_blob_def)
  moreover have "tx_live n0 (t\<lparr>tx_f := c, tx_initialized := True\<rparr>, fs1)"
    using assms by (auto simp: tx_live_def Let_def fs1_def fs0_def c_def)
  moreover have "tx_abs (t\<lparr>tx_f := c, tx_initialized := True\<rparr>, fs1) = (tx_abs (t, fs))\<lparr>at_work := blank_blob\<rparr>"
    by (simp add: tx_abs_def tx_view_def fs1_def)
  ultimately show ?thesis by (rule that)
qed

lemma tx_exec_refines:
  assumes "tx_live n0 s"
  shows "tx_live n0 (tx_exec sys_fine op s) \<and> tx_abs (tx_exec sys_fine op s) = aTx_exec op (tx_abs s)"
proof -
  obtain t fs where s: "s = (t, fs)" by (cases s)
  obtain t1 fs1 where e: "txImpl_enter sys_fine t fs = (Ok (), t1, fs1)"
    and live: "tx_live n0 (t1, fs1)" and ini: "tx_initialized t1"
    and abs: "tx_abs (t1, fs1) = tx_abs (t, fs)"
    using enter_live assms s by metis
  have same: "tx_view t1 fs1 = tx_view t fs" "tx_sectorSize t1 = tx_sectorSize t"
    using abs by (simp_all add: tx_abs_def)
  show ?thesis
  proof (cases op)
    case (OpSeek off whence)
    then show ?thesis
      using assms s by (auto simp: txImpl_Seek_def tx_live_def Let_def tx_abs_def tx_view_def)
  next
    case (OpWriteSector sec)
    have "\<not> uint (tx_sectorSize t) * int SectorBytes < 0" by (simp add: not_less)
    moreover have "nat (uint (tx_sectorSize t) * int SectorBytes) = unat (tx_sectorSize t) * SectorBytes"
      by (simp add: nat_mult_distrib flip: unat_eq_nat_uint)
    ultimately show ?thesis
      using e s OpWriteSector tx_put_live [OF live ini] same
      by (simp add: txImpl_WriteSector_def WriteSector_def tmp_WriteAt_live [OF live ini]
          file_WriteAt_def Let_def tx_abs_def)
  next
    case (OpWriteAt p off)
    then show ?thesis
      using e s tx_put_live [OF live ini] same
      by (simp add: txImpl_WriteAt_def WriteBlobAt_live [OF live ini] Let_def case_prod_unfold tx_abs_def)
  next
    case OpTruncate
    obtain t2 fs2 where "txImpl_Truncate sys_fine t fs = (Ok (), t2, fs2)" and "tx_live n0 (t2, fs2)"
      and "tx_abs (t2, fs2) = (tx_abs (t, fs))\<lparr>at_work := blank_blob\<rparr>"
      using Truncate_live assms s by metis
    then show ?thesis using OpTruncate s by simp
  qed (use e live abs s in \<open>simp_all add: txImpl_ReadSector_def txImpl_ReadAt_def\<close>)
qed

definition aTx_wf :: "aTx \<Rightarrow> bool" where
  "aTx_wf a \<longleftrightarrow> file_wf (at_work a) \<and> blob_Size \<le> fsize (at_work a)"

lemma aTx_exec_wf: "aTx_wf a \<Longrightarrow> aTx_wf (aTx_exec op a)"
  by (cases op)
    (auto simp: aTx_wf_def fsize_put WriteBlobAt_def file_WriteAt_def Let_def)

definition fine_ops :: "txop list \<Rightarrow> (sys \<times> txop) list" where
  "fine_ops ops = map (Pair sys_fine) ops"

lemma tx_run_refines:
  assumes "tx_live n0 s"
  shows "tx_live n0 (tx_run (fine_ops ops) s) \<and> tx_abs (tx_run (fine_ops ops) s) = fold aTx_exec ops (tx_abs s)"
  using assms unfolding tx_run_def fine_ops_def
  by (induction ops arbitrary: s) (simp_all add: tx_exec_refines)

lemma aTx_run_wf: "aTx_wf a \<Longrightarrow> aTx_wf (fold aTx_exec ops a)"
  by (induction ops arbitrary: a) (simp_all add: aTx_exec_wf)

lemma tmp_discard_fine:
  "tmp_open (tmp_of fs i) \<Longrightarrow> tmp_linked (tmp_of fs i) \<Longrightarrow>
     tmp_discard sys_fine fs i =
       (Ok (), tmp_set (tmp_set fs i ((tmp_of fs i)\<lparr>tmp_open := False\<rparr>)) i
          ((tmp_of fs i)\<lparr>tmp_open := False, tmp_linked := False\<rparr>))"
  by (simp add: tmp_discard_def Let_def)

lemma blob_part_discard [simp]: "blob_part (snd (tmp_discard sys fs i)) = blob_part fs"
  by (simp add: tmp_discard_def Let_def split: option.splits)

lemma Rollback_live:
  assumes "tx_live n0 (t, fs)"
  obtains fs1 where "txImpl_Rollback sys_fine t fs = (Ok (), t\<lparr>tx_closed := True\<rparr>, fs1)"
    and "blob_part fs1 = blob_part fs" and "\<forall>i \<ge> n0. \<not> tmp_linked (tmp_of fs1 i)"
proof (cases "tx_initialized t")
  case True
  then show ?thesis
    using assms
    by (intro that [of "snd (tmp_discard sys_fine fs (tx_f t))"])
      (auto simp: txImpl_Rollback_def tx_live_def Let_def tmp_discard_fine)
next
  case False
  then show ?thesis
    using assms by (intro that [of fs]) (auto simp: txImpl_Rollback_def tx_live_def Let_def)
qed

lemma Commit_live:
  assumes "tx_live n0 (t, fs)" and "aTx_wf (tx_abs (t, fs))" and "fsize (fs_blob fs) \<le> blob_Size"
  obtains fs1 where "txImpl_Commit sys_fine t fs = (Ok (), t\<lparr>tx_closed := True\<rparr>, fs1)"
    and "blob_part fs1 = (tx_view t fs, fs_blobOpen fs, fs_blobLinked fs)"
    and "\<forall>i \<ge> n0. \<not> tmp_linked (tmp_of fs1 i)"
proof (cases "tx_initialized t")
  case True
  have "file_overlay (fs_blob fs) (tx_view t fs) (fsize (tx_view t fs)) = tx_view t fs"
    using assms by (intro overlay_larger) (auto simp: aTx_wf_def tx_abs_def tx_live_def Let_def)
  then show ?thesis
    using True assms
    by (intro that)
      (auto simp: txImpl_Commit_def blobImpl_txCommitter_def tx_live_def Let_def tmp_discard_fine
        tx_view_def blob_part_def split: if_splits)
next
  case False
  then show ?thesis
    using assms by (intro that) (auto simp: txImpl_Commit_def tx_live_def Let_def tx_view_def blob_part_def)
qed

lemma blob_part_Remove_Rollback [simp]:
  "blob_part (snd (snd (txImpl_Remove sys t fs))) = blob_part fs"
  "blob_part (snd (snd (txImpl_Rollback sys t fs))) = blob_part fs"
proof -
  obtain r fs1 where d: "tmp_discard sys fs (tx_f t) = (r, fs1)"
    by (cases "tmp_discard sys fs (tx_f t)")
  then have "blob_part fs1 = blob_part fs" using blob_part_discard [of sys fs "tx_f t"] by simp
  then show "blob_part (snd (snd (txImpl_Remove sys t fs))) = blob_part fs"
    and "blob_part (snd (snd (txImpl_Rollback sys t fs))) = blob_part fs"
    using d by (cases r; simp add: txImpl_Remove_def txImpl_Rollback_def Let_def)+
qed

text \<open>A batch of sector writes, as the updater makes them.\<close>

lemma aTx_write_sectors:
  assumes "list_all sector_wf ss" and "unat (at_pos a) + length ss < 65536"
  shows "at_pos (fold aTx_exec (map OpWriteSector ss) a) = at_pos a + of_nat (length ss)
    \<and> (\<forall>i. file_sector (at_work (fold aTx_exec (map OpWriteSector ss) a)) i =
        (if unat (at_pos a) \<le> i \<and> i < unat (at_pos a) + length ss then ss ! (i - unat (at_pos a))
         else file_sector (at_work a) i))"
  using assms
proof (induction ss arbitrary: a)
  case (Cons s ss)
  let ?a = "aTx_exec (OpWriteSector s) a"
  have pos: "unat (at_pos ?a) = Suc (unat (at_pos a))"
    using Cons.prems(2) by (simp add: unat_word_ariths unat_plus_if')
  have sec: "file_sector (at_work ?a) i = (if i = unat (at_pos a) then s else file_sector (at_work a) i)" for i
    using Cons.prems(1) by (simp add: file_sector_put sector_wf_def)
  have "at_pos (fold aTx_exec (map OpWriteSector ss) ?a) = at_pos ?a + of_nat (length ss)
    \<and> (\<forall>i. file_sector (at_work (fold aTx_exec (map OpWriteSector ss) ?a)) i =
        (if unat (at_pos ?a) \<le> i \<and> i < unat (at_pos ?a) + length ss then ss ! (i - unat (at_pos ?a))
         else file_sector (at_work ?a) i))"
    by (rule Cons.IH) (use Cons.prems pos in simp_all)
  then show ?case
    unfolding pos sec by (auto simp: nth_Cons' not_le Suc_le_eq)
qed auto

section \<open>Properties\<close>

text \<open>
  C11. Isolation: whatever a transaction does before it commits, and whichever system calls fail
  on the way, the blob's own file, its content included, is untouched; rolling back and removing
  do not touch it either.
\<close>

theorem tx_isolation:
  "(case tx_run ops (t, fs) of (t', fs') \<Rightarrow>
      blob_part fs' = blob_part fs
      \<and> blob_part (snd (snd (txImpl_Rollback sys t' fs'))) = blob_part fs
      \<and> blob_part (snd (snd (txImpl_Remove sys t' fs'))) = blob_part fs)"
  using tx_run_blob_part [of ops "(t, fs)"] by (cases "tx_run ops (t, fs)") simp

text \<open>
  C10. Refinement: a transaction behaves as a private working copy with a write position.  After
  any operations its reads are reads of the copy, a commit succeeds and makes the blob's content
  the copy, a rollback succeeds and keeps the blob's content; both leave no temporary file behind.
\<close>

theorem tx_refines_working_copy:
  assumes "fs_blobOpen fs" and "file_wf (fs_blob fs)" and "fsize (fs_blob fs) = blob_Size"
    and "\<forall>i \<ge> fs_next fs. fs_temps fs i = None"
    and "tx_run (fine_ops ops) (blobImpl_Transaction name, fs) = (t', fs')"
    and "a = fold aTx_exec ops \<lparr>at_work = fs_blob fs, at_pos = 0\<rparr>"
  shows "fst (txImpl_ReadSector sys_fine t' fs' sid) = Ok (ReadSector (file_ReadAt sys_fine (at_work a)) sid)
    \<and> fst (txImpl_ReadAt sys_fine t' fs' p off) = Ok (ReadBlobAt (file_ReadAt sys_fine (at_work a)) p off)
    \<and> (\<exists>fs1. txImpl_Commit sys_fine t' fs' = (Ok (), t'\<lparr>tx_closed := True\<rparr>, fs1)
        \<and> fs_blob fs1 = at_work a \<and> (\<forall>i \<ge> fs_next fs. \<not> tmp_linked (tmp_of fs1 i)))
    \<and> (\<exists>fs1. txImpl_Rollback sys_fine t' fs' = (Ok (), t'\<lparr>tx_closed := True\<rparr>, fs1)
        \<and> fs_blob fs1 = fs_blob fs \<and> (\<forall>i \<ge> fs_next fs. \<not> tmp_linked (tmp_of fs1 i)))"
proof -
  let ?s = "(blobImpl_Transaction name, fs)"
  have "tx_live (fs_next fs) ?s" using assms(1,2,4) by (rule tx_live_new)
  moreover have a0: "tx_abs ?s = \<lparr>at_work = fs_blob fs, at_pos = 0\<rparr>"
    by (simp add: tx_abs_def tx_view_def blobImpl_Transaction_def)
  ultimately have live: "tx_live (fs_next fs) (t', fs')" and abs: "tx_abs (t', fs') = a"
    using tx_run_refines assms(5,6) by metis+
  have wf: "aTx_wf (tx_abs (t', fs'))"
    unfolding abs assms(6) by (rule aTx_run_wf) (simp add: aTx_wf_def assms(2,3))
  have "blob_part fs' = blob_part fs" using tx_run_blob_part [of "fine_ops ops" ?s] assms(5) by simp
  then have blob: "fs_blob fs' = fs_blob fs" by (simp add: blob_part_def)
  have view: "tx_view t' fs' = at_work a" using abs by (auto simp: tx_abs_def)
  obtain t1 fs1 where "txImpl_enter sys_fine t' fs' = (Ok (), t1, fs1)"
    and live1: "tx_live (fs_next fs) (t1, fs1)" "tx_initialized t1"
    and "tx_abs (t1, fs1) = a"
    using enter_live [OF live] abs by metis
  then have "fst (txImpl_ReadSector sys_fine t' fs' sid) = Ok (ReadSector (file_ReadAt sys_fine (at_work a)) sid)"
    and "fst (txImpl_ReadAt sys_fine t' fs' p off) = Ok (ReadBlobAt (file_ReadAt sys_fine (at_work a)) p off)"
    by (auto simp: txImpl_ReadSector_def txImpl_ReadAt_def tmp_ReadAt_live [OF live1] tx_abs_def)
  moreover obtain fs2 where "txImpl_Commit sys_fine t' fs' = (Ok (), t'\<lparr>tx_closed := True\<rparr>, fs2)"
    and "blob_part fs2 = (tx_view t' fs', fs_blobOpen fs', fs_blobLinked fs')"
    and "\<forall>i \<ge> fs_next fs. \<not> tmp_linked (tmp_of fs2 i)"
    using Commit_live [OF live wf] assms(3) blob by auto
  moreover obtain fs3 where "txImpl_Rollback sys_fine t' fs' = (Ok (), t'\<lparr>tx_closed := True\<rparr>, fs3)"
    and "blob_part fs3 = blob_part fs'" and "\<forall>i \<ge> fs_next fs. \<not> tmp_linked (tmp_of fs3 i)"
    using Rollback_live [OF live] by metis
  ultimately show ?thesis using view blob by (auto simp: blob_part_def)
qed

definition sample_fs :: blobFS where
  "sample_fs = \<lparr>fs_blob = blank_blob, fs_blobOpen = True, fs_blobLinked = True,
     fs_temps = (\<lambda>_. None), fs_next = 0\<rparr>"

theorem tx_refines_working_copy_witness:
  "\<exists>t' fs' fs1. tx_run (fine_ops [OpTruncate]) (blobImpl_Transaction ''n'', sample_fs) = (t', fs')
    \<and> txImpl_Commit sys_fine t' fs' = (Ok (), t'\<lparr>tx_closed := True\<rparr>, fs1) \<and> fs_blob fs1 = blank_blob"
proof -
  obtain t' fs' where r: "tx_run (fine_ops [OpTruncate]) (blobImpl_Transaction ''n'', sample_fs) = (t', fs')"
    by (cases "tx_run (fine_ops [OpTruncate]) (blobImpl_Transaction ''n'', sample_fs)")
  show ?thesis
    using tx_refines_working_copy [OF _ _ _ _ r refl, of 0 "[]" 0] r by (auto simp: sample_fs_def)
qed

text \<open>
  C19. Once a commit or a rollback has returned, every later read, write, commit, rollback and
  remove is refused with \<open>ErrTransactionClosed\<close> and changes nothing.
\<close>

theorem tx_closed_for_good:
  assumes "txImpl_Commit sys t fs = (Ok (), t', fs') \<or> txImpl_Rollback sys t fs = (Ok (), t', fs')"
  shows "txImpl_ReadSector sys2 t' fs2 sid = (Ok (ZeroSector, Some ErrTransactionClosed), t', fs2)
    \<and> txImpl_ReadAt sys2 t' fs2 p off = (Ok (p, 0, Some ErrTransactionClosed), t', fs2)
    \<and> txImpl_WriteSector sys2 t' fs2 sec = (Err ErrTransactionClosed, t', fs2)
    \<and> txImpl_WriteAt sys2 t' fs2 p off = (Ok (p, 0, Some ErrTransactionClosed), t', fs2)
    \<and> txImpl_Commit sys2 t' fs2 = (Err ErrTransactionClosed, t', fs2)
    \<and> txImpl_Rollback sys2 t' fs2 = (Err ErrTransactionClosed, t', fs2)
    \<and> txImpl_Remove sys2 t' fs2 = (Err ErrTransactionClosed, t', fs2)"
proof -
  have "tx_closed t'"
    using assms
    by (auto simp: txImpl_Commit_def txImpl_Rollback_def split: if_splits prod.splits go.splits)
  then show ?thesis
    by (simp add: txImpl_ReadSector_def txImpl_ReadAt_def txImpl_WriteSector_def txImpl_WriteAt_def
        txImpl_enter_def txImpl_Commit_def txImpl_Rollback_def txImpl_Remove_def)
qed

theorem tx_closed_for_good_witness:
  "txImpl_WriteSector sys_fine (blobImpl_Transaction ''n''\<lparr>tx_closed := True\<rparr>) sample_fs ZeroSector
    = (Err ErrTransactionClosed, blobImpl_Transaction ''n''\<lparr>tx_closed := True\<rparr>, sample_fs)"
proof -
  have "txImpl_Rollback sys_fine (blobImpl_Transaction ''n'') sample_fs
      = (Ok (), blobImpl_Transaction ''n''\<lparr>tx_closed := True\<rparr>, sample_fs)"
    by (simp add: txImpl_Rollback_def blobImpl_Transaction_def)
  then show ?thesis using tx_closed_for_good by blast
qed

text \<open>
  Sector writes are not bounded by the blob size: a transaction that seeks to the end of the
  blob and writes one more sector commits a blob that is one sector too long.
\<close>

theorem tx_outgrows_blob:
  "(let (t, fs) = tx_run (fine_ops [OpSeek (int blob_Size) 0, OpWriteSector ZeroSector])
                    (blobImpl_Transaction ''n'', sample_fs);
        (r, _, fs') = txImpl_Commit sys_fine t fs
    in r = Ok () \<and> fsize (fs_blob fs') = blob_Size + SectorBytes)"
proof -
  let ?ops = "[OpSeek (int blob_Size) 0, OpWriteSector ZeroSector]"
  let ?s = "(blobImpl_Transaction ''n'', sample_fs)"
  obtain t fs where r: "tx_run (fine_ops ?ops) ?s = (t, fs)" by (cases "tx_run (fine_ops ?ops) ?s")
  have live0: "tx_live 0 ?s" using tx_live_new [of sample_fs] by (simp add: sample_fs_def)
  have live: "tx_live 0 (t, fs)" and abs: "tx_abs (t, fs) = fold aTx_exec ?ops (tx_abs ?s)"
    using tx_run_refines [OF live0, of ?ops] r by simp_all
  have a0: "tx_abs ?s = \<lparr>at_work = blank_blob, at_pos = 0\<rparr>"
    by (simp add: tx_abs_def tx_view_def blobImpl_Transaction_def sample_fs_def)
  have work: "at_work (tx_abs (t, fs)) = file_put blank_blob (MaxSectors * SectorBytes) ZeroSector"
    by (simp add: abs a0 blob_Size_def MaxSectors_def SectorBytes_def)
  have wf: "aTx_wf (tx_abs (t, fs))"
    unfolding abs a0 by (rule aTx_run_wf) (simp add: aTx_wf_def)
  have "blob_part fs = blob_part sample_fs" using tx_run_blob_part [of "fine_ops ?ops" ?s] r by simp
  then have "fsize (fs_blob fs) \<le> blob_Size" by (simp add: blob_part_def sample_fs_def)
  then obtain fs1 where c: "txImpl_Commit sys_fine t fs = (Ok (), t\<lparr>tx_closed := True\<rparr>, fs1)"
    and p: "blob_part fs1 = (tx_view t fs, fs_blobOpen fs, fs_blobLinked fs)"
    by (rule Commit_live [OF live wf])
  have "tx_view t fs = file_put blank_blob (MaxSectors * SectorBytes) ZeroSector"
    using work by (simp add: tx_abs_def)
  then show ?thesis
    using r c p by (simp add: blob_part_def fsize_put blob_Size_def ZeroSector_def SectorBytes_def MaxSectors_def)
qed

end
