(* ===== verification/Hns_Names.thy ===== *)
theory Hns_Names
  imports Crypto
begin

text \<open>
  Handshake names: their hash and the rules a name must follow
  (\<open>handshake/primitives/rules.go\<close>).  A Go string is its bytes.
\<close>

section \<open>Name rules\<close>

definition HashName :: "(bytes \<Rightarrow> bytes) \<Rightarrow> string \<Rightarrow> bytes" where
  "HashName b2 name = b2 (bytes_of_string name)"

definition MaxNameLen :: nat where
  "MaxNameLen = 63"

definition validCharset :: "nat list" where
  "validCharset = [
     0, 0, 0, 0, 0, 0, 0, 0, 0, 0, 0, 0, 0, 0, 0, 0,
     0, 0, 0, 0, 0, 0, 0, 0, 0, 0, 0, 0, 0, 0, 0, 0,
     0, 0, 0, 0, 0, 0, 0, 0, 0, 0, 0, 0, 0, 4, 0, 0,
     1, 1, 1, 1, 1, 1, 1, 1, 1, 1, 0, 0, 0, 0, 0, 0,
     0, 2, 2, 2, 2, 2, 2, 2, 2, 2, 2, 2, 2, 2, 2, 2,
     2, 2, 2, 2, 2, 2, 2, 2, 2, 2, 2, 0, 0, 0, 0, 4,
     0, 3, 3, 3, 3, 3, 3, 3, 3, 3, 3, 3, 3, 3, 3, 3,
     3, 3, 3, 3, 3, 3, 3, 3, 3, 3, 3, 0, 0, 0, 0, 0]"

definition blacklist :: "string list" where
  "blacklist = [''example'', ''invalid'', ''local'', ''localhost'', ''test'']"

fun ValidateNameLoop :: "nat \<Rightarrow> nat \<Rightarrow> string \<Rightarrow> unit go" where
  "ValidateNameLoop len i [] = Ok ()"
| "ValidateNameLoop len i (c # cs) =
     (let ch = (of_char c :: nat) in
      if ch > length validCharset then Err (ErrNew ''invalid character'')
      else if \<not> ch < length validCharset then Panic ''index out of range''
      else
        let charType = validCharset ! ch in
        if charType = 0 then Err (ErrNew ''invalid character'')
        else if charType = 1 then ValidateNameLoop len (Suc i) cs
        else if charType = 2 then Err (ErrNew ''name cannot contain capital letters'')
        else if charType = 3 then ValidateNameLoop len (Suc i) cs
        else if charType = 4 \<and> i = 0 then Err (ErrNew ''name cannot start with a hyphen'')
        else if charType = 4 \<and> int i = int len - 1 then Err (ErrNew ''name cannot end with a hyphen'')
        else ValidateNameLoop len (Suc i) cs)"

definition ValidateName :: "string \<Rightarrow> unit go" where
  "ValidateName name =
     (if length name = 0 then Err (ErrNew ''name must have nonzero length'')
      else if length name > MaxNameLen then Err (ErrNew ''name over maximum length'')
      else
        go_bind (ValidateNameLoop (length name) 0 name) (\<lambda>_.
        if name \<in> set blacklist then Err (ErrNew ''name is blacklisted'') else Ok ()))"

section \<open>The accepted names\<close>

definition name_alnum :: "char \<Rightarrow> bool" where
  "name_alnum c \<longleftrightarrow> (let n = (of_char c :: nat) in 48 \<le> n \<and> n \<le> 57 \<or> 97 \<le> n \<and> n \<le> 122)"

definition name_hyphen :: "char \<Rightarrow> bool" where
  "name_hyphen c \<longleftrightarrow> (of_char c :: nat) = 45 \<or> (of_char c :: nat) = 95"

definition name_valid :: "string \<Rightarrow> bool" where
  "name_valid name \<longleftrightarrow>
     name \<noteq> [] \<and> length name \<le> 63 \<and> (\<forall>c \<in> set name. name_alnum c \<or> name_hyphen c) \<and>
     \<not> name_hyphen (hd name) \<and> \<not> name_hyphen (last name) \<and> name \<notin> set blacklist"

lemma length_validCharset [simp]: "length validCharset = 128"
  by (simp add: validCharset_def)

lemma charset_table:
  "\<forall>n \<in> set [0..<128]. (validCharset ! n = 1 \<or> validCharset ! n = 3 \<longleftrightarrow>
      48 \<le> n \<and> n \<le> 57 \<or> 97 \<le> n \<and> n \<le> 122) \<and> (validCharset ! n = 4 \<longleftrightarrow> n = 45 \<or> n = 95) \<and>
      validCharset ! n \<le> 4"
  by code_simp

lemma charset_at:
  assumes "n < 128"
  shows "validCharset ! n = 1 \<or> validCharset ! n = 3 \<longleftrightarrow> 48 \<le> n \<and> n \<le> 57 \<or> 97 \<le> n \<and> n \<le> 122"
    and "validCharset ! n = 4 \<longleftrightarrow> n = 45 \<or> n = 95"
    and "validCharset ! n \<in> {0, 1, 2, 3, 4}"
proof -
  have "n \<in> set [0..<128]" using assms by simp
  note t = bspec [OF charset_table this]
  show "validCharset ! n = 1 \<or> validCharset ! n = 3 \<longleftrightarrow> 48 \<le> n \<and> n \<le> 57 \<or> 97 \<le> n \<and> n \<le> 122"
    and "validCharset ! n = 4 \<longleftrightarrow> n = 45 \<or> n = 95"
    using t by blast+
  show "validCharset ! n \<in> {0, 1, 2, 3, 4}" using t by auto
qed

lemma ValidateNameLoop_Ok:
  "ValidateNameLoop len i cs = Ok () \<longleftrightarrow>
     (\<forall>j < length cs. name_alnum (cs ! j) \<or> name_hyphen (cs ! j) \<and> i + j \<noteq> 0 \<and> Suc (i + j) \<noteq> len)"
proof (induction cs arbitrary: i)
  case (Cons c cs)
  define n where "n = (of_char c :: nat)"
  have alnum: "name_alnum c \<longleftrightarrow> 48 \<le> n \<and> n \<le> 57 \<or> 97 \<le> n \<and> n \<le> 122"
    and hyphen: "name_hyphen c \<longleftrightarrow> n = 45 \<or> n = 95"
    by (simp_all add: name_alnum_def name_hyphen_def n_def Let_def)
  have "ValidateNameLoop len i (c # cs) = Ok () \<longleftrightarrow>
      (name_alnum c \<or> name_hyphen c \<and> i \<noteq> 0 \<and> Suc i \<noteq> len) \<and> ValidateNameLoop len (Suc i) cs = Ok ()"
  proof (cases "n < 128")
    case True
    define v where "v = validCharset ! n"
    have a: "name_alnum c \<longleftrightarrow> v = 1 \<or> v = 3" and h: "name_hyphen c \<longleftrightarrow> v = 4"
      using charset_at(1,2) [OF True] alnum hyphen by (simp_all only: v_def)
    have "v \<in> {0, 1, 2, 3, 4}" using charset_at(3) [OF True] by (simp only: v_def)
    then have "v = 0 \<or> v = 1 \<or> v = 2 \<or> v = 3 \<or> v = 4" by simp
    then show ?thesis
      using True
      by (elim disjE) (auto simp: n_def [symmetric] v_def [symmetric] Let_def a h)
  next
    case False
    then show ?thesis using alnum hyphen by (auto simp: n_def [symmetric] Let_def)
  qed
  then show ?case using Cons by (auto simp: less_Suc_eq_0_disj)
qed simp

text \<open>
  C23. \<open>ValidateName\<close> accepts exactly the names of 1 to 63 digits, lower-case letters, hyphens and
  underscores that neither start nor end with a hyphen or underscore and are not blacklisted.
\<close>

theorem ValidateName_accepts: "ValidateName name = Ok () \<longleftrightarrow> name_valid name"
proof (cases "name = []")
  case False
  then obtain c cs where name: "name = c # cs" by (cases name) auto
  have "(\<forall>j < length name. name_alnum (name ! j) \<or> name_hyphen (name ! j) \<and> j \<noteq> 0 \<and> Suc j \<noteq> length name)
      \<longleftrightarrow> (\<forall>c \<in> set name. name_alnum c \<or> name_hyphen c) \<and> \<not> name_hyphen (hd name) \<and> \<not> name_hyphen (last name)"
    (is "?L \<longleftrightarrow> ?R")
  proof
    have ex: "\<not> (name_alnum c \<and> name_hyphen c)" for c by (auto simp: name_alnum_def name_hyphen_def)
    assume L: ?L
    have "\<not> name_hyphen (name ! 0)" and "\<not> name_hyphen (name ! (length name - 1))"
      using L ex False by (metis length_greater_0_conv, metis Suc_diff_1 diff_less length_greater_0_conv zero_less_one)
    then show ?R using L False by (auto simp: in_set_conv_nth hd_conv_nth last_conv_nth)
  next
    assume R: ?R
    show ?L
    proof (intro allI impI)
      fix j assume j: "j < length name"
      have "name_hyphen (name ! j) \<Longrightarrow> j \<noteq> 0 \<and> Suc j \<noteq> length name"
        using R False by (metis hd_conv_nth last_conv_nth diff_Suc_1)
      then show "name_alnum (name ! j) \<or> name_hyphen (name ! j) \<and> j \<noteq> 0 \<and> Suc j \<noteq> length name"
        using R j nth_mem by blast
    qed
  qed
  then show ?thesis
    using False
    by (auto simp: ValidateName_def name_valid_def MaxNameLen_def go_bind_eq_Ok ValidateNameLoop_Ok)
qed (simp add: ValidateName_def name_valid_def)

text \<open>
  The bound check compares with \<open>>\<close> instead of \<open>>=\<close>: a name that contains the byte 128 after
  valid characters makes \<open>ValidateName\<close> index past the table and panic.
\<close>

theorem ValidateName_panics:
  assumes "name_alnum c"
  shows "is_panic (ValidateName [c, char_of (128 :: nat)])"
proof -
  define n where "n = (of_char c :: nat)"
  have lt: "n < 128" and alnum: "48 \<le> n \<and> n \<le> 57 \<or> 97 \<le> n \<and> n \<le> 122"
    using assms by (auto simp: name_alnum_def n_def Let_def)
  have "validCharset ! n = 1 \<or> validCharset ! n = 3" using charset_at(1) [OF lt] alnum by blast
  then show ?thesis
    using lt by (auto simp: ValidateName_def MaxNameLen_def n_def [symmetric] Let_def)
qed

theorem ValidateName_panics_witness: "is_panic (ValidateName [CHR ''a'', char_of (128 :: nat)])"
  by (rule ValidateName_panics) (simp add: name_alnum_def)

end
