(* ===== verification/Blob_Store.thy ===== *)
theory Blob_Store
  imports Blob_Tx Hns_Names
begin

text \<open>
  Where blobs live and how handles are shared: \<open>blob/pathify.go\<close>, \<open>blob/pool.go\<close>,
  \<open>blob/store.go\<close>.  \<open>path.Join\<close> is joining with slashes, which is all it does to the
  hexadecimal segments and a clean base path.  The pool is polymorphic in the blobs it holds; its
  getter and the blobs' \<open>Close\<close> act on a world \<open>'w\<close>.
\<close>

section \<open>Paths\<close>

fun strings_Join :: "string \<Rightarrow> string list \<Rightarrow> string" where
  "strings_Join sep [] = []"
| "strings_Join sep [x] = x"
| "strings_Join sep (x # y # xs) = x @ sep @ strings_Join sep (y # xs)"

definition path_Join :: "string list \<Rightarrow> string" where
  "path_Join xs = strings_Join ''/'' (filter (\<lambda>x. x \<noteq> []) xs)"

fun PathifyLoop :: "nat \<Rightarrow> bytes \<Rightarrow> string list \<Rightarrow> string list go" where
  "PathifyLoop 0 r segments = Ok segments"
| "PathifyLoop (Suc n) r segments =
     (case bytes_Read [0, 0] r of
        Ok (buf, r') \<Rightarrow> PathifyLoop n r' (segments @ [hex_EncodeToString buf])
      | _ \<Rightarrow> Panic ''read failed'')"

definition PathifyName :: "(bytes \<Rightarrow> bytes) \<Rightarrow> string \<Rightarrow> string go" where
  "PathifyName b2 n =
     go_bind (PathifyLoop 16 (HashName b2 n) []) (\<lambda>segments.
     if length segments \<noteq> 16 then Panic ''invalid number of path segments - should never happen''
     else Ok (path_Join [path_Join (take 15 segments), segments ! 15 @ ''_blob'']))"

section \<open>The pool of open blobs\<close>

record 'b poolEntry =
  pe_blob :: 'b
  pe_refs :: int

record 'b Pool =
  pool_blobs :: "string \<Rightarrow> 'b poolEntry option"

definition NewPool :: "'b Pool" where
  "NewPool = \<lparr>pool_blobs = (\<lambda>_. None)\<rparr>"

definition Pool_Get ::
  "(string \<Rightarrow> 'w \<Rightarrow> 'b go \<times> 'w) \<Rightarrow> 'b Pool \<Rightarrow> 'w \<Rightarrow> string \<Rightarrow> 'b go \<times> 'b Pool \<times> 'w" where
  "Pool_Get getter p w name =
     (case pool_blobs p name of
        Some entry \<Rightarrow>
          (Ok (pe_blob entry),
           p\<lparr>pool_blobs := (pool_blobs p)(name := Some (entry\<lparr>pe_refs := pe_refs entry + 1\<rparr>))\<rparr>, w)
      | None \<Rightarrow>
          (case getter name w of
             (Ok blob, w') \<Rightarrow>
               (Ok blob,
                p\<lparr>pool_blobs := (pool_blobs p)(name := Some \<lparr>pe_blob = blob, pe_refs = 1\<rparr>)\<rparr>, w')
           | (Err e, w') \<Rightarrow> (Err e, p, w')
           | (Panic m, w') \<Rightarrow> (Panic m, p, w')))"

definition Pool_Put ::
  "('b \<Rightarrow> string) \<Rightarrow> ('b \<Rightarrow> 'w \<Rightarrow> unit go \<times> 'w) \<Rightarrow> 'b Pool \<Rightarrow> 'w \<Rightarrow> 'b \<Rightarrow> unit go \<times> 'b Pool \<times> 'w" where
  "Pool_Put nameOf close p w blob =
     (let name = nameOf blob in
      case pool_blobs p name of
        None \<Rightarrow> (Panic ''putting back unknown blob'', p, w)
      | Some entry \<Rightarrow>
          let refs = pe_refs entry - 1 in
          if refs > 0 then
            (Ok (), p\<lparr>pool_blobs := (pool_blobs p)(name := Some (entry\<lparr>pe_refs := refs\<rparr>))\<rparr>, w)
          else
            let p1 = p\<lparr>pool_blobs := (pool_blobs p)(name := None)\<rparr>;
                (r, w') = close (pe_blob entry) w
            in (r, p1, w'))"

section \<open>The store\<close>

text \<open>
  The file system below the blobs directory: regular files with their content, directories, and
  the handles that are open, each with the name and the path it was opened for.
\<close>

record blobHandle =
  bh_id :: nat
  bh_name :: string
  bh_path :: string

record storeFS =
  st_files :: "string \<Rightarrow> ofile option"
  st_dirs :: "string set"
  st_open :: "nat set"
  st_next :: nat

definition fileExists :: "sys \<Rightarrow> storeFS \<Rightarrow> string \<Rightarrow> bool go" where
  "fileExists sys w f =
     (case sys_err sys SysStat of
        Some e \<Rightarrow> Err e
      | None \<Rightarrow>
          if f \<in> st_dirs w then Err (ErrNew ''is a directory'') else Ok (st_files w f \<noteq> None))"

text \<open>The open handle; \<open>O_CREATE\<close> makes an empty file when there is none.\<close>

definition os_OpenFile :: "sys \<Rightarrow> storeFS \<Rightarrow> string \<Rightarrow> bool \<Rightarrow> nat go \<times> storeFS" where
  "os_OpenFile sys w f create =
     (case sys_err sys SysOpen of
        Some e \<Rightarrow> (Err e, w)
      | None \<Rightarrow>
          if st_files w f = None \<and> \<not> create then (Err os_ErrNotExist, w)
          else
            (Ok (st_next w),
             w\<lparr>st_files := (if st_files w f = None then (st_files w)(f := Some file_empty) else st_files w),
               st_open := insert (st_next w) (st_open w), st_next := Suc (st_next w)\<rparr>))"

definition NewInStorePath ::
  "(bytes \<Rightarrow> bytes) \<Rightarrow> sys \<Rightarrow> string \<Rightarrow> string \<Rightarrow> storeFS \<Rightarrow> blobHandle go \<times> storeFS" where
  "NewInStorePath b2 sys blobsPath name w =
     (case PathifyName b2 name of
        Panic m \<Rightarrow> (Panic m, w)
      | Err e \<Rightarrow> (Err e, w)
      | Ok sub \<Rightarrow>
          let blobFile = path_Join [blobsPath, sub] in
          case fileExists sys w blobFile of
            Panic m \<Rightarrow> (Panic m, w)
          | Err e \<Rightarrow> (Err e, w)
          | Ok exists \<Rightarrow>
              (case (if exists then None else sys_err sys SysMkdir) of
                 Some e \<Rightarrow> (Err e, w)
               | None \<Rightarrow>
                case os_OpenFile sys w blobFile (\<not> exists) of
                  (Panic m, w1) \<Rightarrow> (Panic m, w1)
                | (Err e, w1) \<Rightarrow> (Err e, w1)
                | (Ok f, w1) \<Rightarrow>
                    (case sys_err sys SysTruncate of
                       Some e \<Rightarrow> (Err e, w1)
                     | None \<Rightarrow>
                         (Ok \<lparr>bh_id = f, bh_name = name, bh_path = blobFile\<rparr>,
                          w1\<lparr>st_files := (st_files w1)(blobFile :=
                               Some (file_Truncate (the (st_files w1 blobFile)) blob_Size))\<rparr>))))"

definition storeImpl_Open ::
  "(bytes \<Rightarrow> bytes) \<Rightarrow> sys \<Rightarrow> string \<Rightarrow> blobHandle Pool \<Rightarrow> storeFS \<Rightarrow> string
     \<Rightarrow> blobHandle go \<times> blobHandle Pool \<times> storeFS" where
  "storeImpl_Open b2 sys blobsPath p w name = Pool_Get (NewInStorePath b2 sys blobsPath) p w name"

definition storeImpl_Exists ::
  "(bytes \<Rightarrow> bytes) \<Rightarrow> sys \<Rightarrow> string \<Rightarrow> storeFS \<Rightarrow> string \<Rightarrow> bool go" where
  "storeImpl_Exists b2 sys blobsPath w name =
     go_bind (PathifyName b2 name) (\<lambda>sub. fileExists sys w (path_Join [blobsPath, sub]))"

definition blobHandle_Close :: "sys \<Rightarrow> blobHandle \<Rightarrow> storeFS \<Rightarrow> unit go \<times> storeFS" where
  "blobHandle_Close sys b w =
     (case handle_err sys SysCloseBlob (bh_id b \<in> st_open w) of
        Some e \<Rightarrow> (Err e, w)
      | None \<Rightarrow> (Ok (), w\<lparr>st_open := st_open w - {bh_id b}\<rparr>))"

definition wrappedBlob_Close ::
  "sys \<Rightarrow> blobHandle Pool \<Rightarrow> storeFS \<Rightarrow> blobHandle \<Rightarrow> unit go \<times> blobHandle Pool \<times> storeFS" where
  "wrappedBlob_Close sys p w b = Pool_Put bh_name (blobHandle_Close sys) p w b"

section \<open>Paths are collision free\<close>

fun chunk2 :: "bytes \<Rightarrow> bytes list" where
  "chunk2 (a # b # r) = [a, b] # chunk2 r"
| "chunk2 r = []"

lemma concat_chunk2: "even (length r) \<Longrightarrow> concat (chunk2 r) = r"
  by (induction r rule: chunk2.induct) auto

lemma length_chunk2: "length (chunk2 r) = length r div 2"
  by (induction r rule: chunk2.induct) auto

lemma chunk2_widths: "b \<in> set (chunk2 r) \<Longrightarrow> length b = 2"
  by (induction r rule: chunk2.induct) auto

lemma PathifyLoop_chunks:
  "length r = 2 * n \<Longrightarrow> PathifyLoop n r segs = Ok (segs @ map hex_EncodeToString (chunk2 r))"
proof (induction n arbitrary: r segs)
  case (Suc n)
  then obtain a b r' where r: "r = a # b # r'" "length r' = 2 * n"
    by (cases r; cases "tl r") auto
  then have "bytes_Read [0, 0] r = Ok ([a, b], r')" by (simp add: bytes_Read_def go_copy_def)
  then show ?case using Suc.IH [OF r(2)] r(1) by simp
qed simp

lemma strings_Join_inject:
  assumes "length xs = length ys" and "\<forall>x \<in> set xs \<union> set ys. length x = k"
    and "strings_Join sep xs @ u = strings_Join sep ys @ v"
  shows "xs = ys \<and> u = v"
  using assms
proof (induction xs ys rule: list_induct2)
  case (Cons x xs y ys)
  show ?case
  proof (cases xs)
    case Nil
    then show ?thesis using Cons by simp
  next
    case (Cons x' xs')
    then obtain y' ys' where ys: "ys = y' # ys'" using Cons.hyps by (cases ys) auto
    have "x @ sep @ strings_Join sep xs @ u = y @ sep @ strings_Join sep ys @ v"
      using Cons.prems(2) Cons ys by simp
    then have "x = y \<and> strings_Join sep xs @ u = strings_Join sep ys @ v"
      using Cons.prems(1) by simp
    then show ?thesis using Cons.IH Cons.prems(1) by simp
  qed
qed simp

lemma filter_id_width: "0 < k \<Longrightarrow> \<forall>x \<in> set xs. length x = k \<Longrightarrow> filter (\<lambda>x. x \<noteq> []) xs = xs"
  by (auto simp: filter_id_conv)

definition path_segs :: "bytes \<Rightarrow> string list" where
  "path_segs h = map hex_EncodeToString (chunk2 h)"

lemma path_segs_facts:
  assumes "length h = 32"
  shows "length (path_segs h) = 16" and "\<forall>x \<in> set (path_segs h). length x = 4"
  using assms by (auto simp: path_segs_def length_chunk2 dest: chunk2_widths)

lemma path_segs_inject:
  assumes "length g = 32" and "length h = 32" and "path_segs g = path_segs h"
  shows "g = h"
proof -
  have "inj hex_EncodeToString" by (rule injI) (simp only: hex_EncodeToString_inject)
  then have "chunk2 g = chunk2 h" using assms(3) by (simp only: path_segs_def inj_map_eq_map)
  moreover have "concat (chunk2 g) = g" "concat (chunk2 h) = h"
    by (rule concat_chunk2, simp add: assms(1,2))+
  ultimately show ?thesis by metis
qed

lemma PathifyName_segs:
  assumes "length (b2 (bytes_of_string n)) = 32"
  shows "PathifyName b2 n = Ok (strings_Join ''/'' (take 15 (path_segs (b2 (bytes_of_string n))))
    @ ''/'' @ path_segs (b2 (bytes_of_string n)) ! 15 @ ''_blob'')"
proof -
  define segs where "segs = path_segs (b2 (bytes_of_string n))"
  have len: "length segs = 16" and w: "\<forall>x \<in> set segs. length x = 4"
    unfolding segs_def by (rule path_segs_facts [OF assms])+
  have loop: "PathifyLoop 16 (HashName b2 n) [] = Ok segs"
    using PathifyLoop_chunks [of "HashName b2 n" 16 "[]"] assms
    by (simp add: HashName_def segs_def path_segs_def)
  have "\<forall>x \<in> set (take 15 segs). length x = 4" using w by (meson in_set_takeD)
  then have "path_Join (take 15 segs) = strings_Join ''/'' (take 15 segs)"
    using filter_id_width [of 4 "take 15 segs"] by (simp add: path_Join_def)
  moreover have "strings_Join ''/'' (take 15 segs) \<noteq> []"
  proof -
    obtain x y zs where "segs = x # y # zs" using len by (cases segs; cases "tl segs") auto
    then show ?thesis using w by (cases zs) auto
  qed
  ultimately show ?thesis
    by (simp add: PathifyName_def loop len path_Join_def segs_def [symmetric])
qed



section \<open>Reference counting\<close>

text \<open>
  Runs of users of one store under any system failures; \<open>H name\<close> counts the blobs a user has
  opened and not closed.  A user closes what it got: the handle the pool holds for the name.
\<close>

inductive pool_run ::
  "(bytes \<Rightarrow> bytes) \<Rightarrow> string \<Rightarrow> blobHandle Pool \<Rightarrow> storeFS \<Rightarrow> (string \<Rightarrow> nat) \<Rightarrow> bool"
  for b2 :: "bytes \<Rightarrow> bytes" and path :: string where
  pool_new: "pool_run b2 path NewPool w (\<lambda>_. 0)"
| pool_open: "pool_run b2 path p w H \<Longrightarrow> storeImpl_Open b2 sys path p w name = (r, p', w') \<Longrightarrow>
    pool_run b2 path p' w' (case r of Ok _ \<Rightarrow> H(name := Suc (H name)) | _ \<Rightarrow> H)"
| pool_close: "pool_run b2 path p w H \<Longrightarrow> pool_blobs p name = Some e \<Longrightarrow> 0 < H name \<Longrightarrow>
    wrappedBlob_Close sys p w (pe_blob e) = (r, p', w') \<Longrightarrow>
    pool_run b2 path p' w' (H(name := H name - 1))"

definition entry_ok :: "storeFS \<Rightarrow> (string \<Rightarrow> nat) \<Rightarrow> string \<Rightarrow> blobHandle poolEntry \<Rightarrow> bool" where
  "entry_ok w H name e \<longleftrightarrow> 0 < H name \<and> pe_refs e = int (H name) \<and> bh_name (pe_blob e) = name \<and>
     bh_id (pe_blob e) \<in> st_open w \<and> bh_id (pe_blob e) < st_next w"

definition pool_inv :: "blobHandle Pool \<Rightarrow> storeFS \<Rightarrow> (string \<Rightarrow> nat) \<Rightarrow> bool" where
  "pool_inv p w H \<longleftrightarrow>
     (\<forall>name. pool_blobs p name = None \<longrightarrow> H name = 0) \<and>
     (\<forall>name e. pool_blobs p name = Some e \<longrightarrow> entry_ok w H name e) \<and>
     (\<forall>m n e f. pool_blobs p m = Some e \<longrightarrow> pool_blobs p n = Some f \<longrightarrow>
        bh_id (pe_blob e) = bh_id (pe_blob f) \<longrightarrow> m = n)"

lemma os_OpenFile_world:
  assumes "os_OpenFile sys w f create = (r, w')"
  shows "st_open w \<subseteq> st_open w' \<and> st_next w \<le> st_next w'"
    and "r = Ok i \<Longrightarrow> i = st_next w \<and> st_next w' = Suc (st_next w) \<and> i \<in> st_open w'"
  using assms by (auto simp: os_OpenFile_def split: option.splits if_splits)

lemma NewInStorePath_cases:
  assumes "NewInStorePath b2 sys path name w = (r, w')"
  obtains "w' = w" and "\<And>b. r \<noteq> Ok b"
  | f create i where "os_OpenFile sys w f create = (i, w')" and "\<And>b. r \<noteq> Ok b"
  | f create i w1 where "os_OpenFile sys w f create = (Ok i, w1)"
    and "r = Ok \<lparr>bh_id = i, bh_name = name, bh_path = f\<rparr>"
    and "w' = w1\<lparr>st_files := (st_files w1)(f := Some (file_Truncate (the (st_files w1 f)) blob_Size))\<rparr>"
proof (cases "PathifyName b2 name")
  case (Ok sub)
  define f where "f = path_Join [path, sub]"
  show ?thesis
  proof (cases "fileExists sys w f")
    case ex: (Ok e)
    show ?thesis
    proof (cases "if e then None else sys_err sys SysMkdir")
      case (Some x)
      then show ?thesis
        using assms Ok ex by (intro that(1)) (auto simp: NewInStorePath_def f_def [symmetric] Let_def)
    next
      case None
      obtain i w1 where op: "os_OpenFile sys w f (\<not> e) = (i, w1)"
        by (cases "os_OpenFile sys w f (\<not> e)")
      have eq: "NewInStorePath b2 sys path name w =
        (case i of Panic m \<Rightarrow> (Panic m, w1) | Err e \<Rightarrow> (Err e, w1)
         | Ok f' \<Rightarrow> (case sys_err sys SysTruncate of Some e \<Rightarrow> (Err e, w1)
             | None \<Rightarrow> (Ok \<lparr>bh_id = f', bh_name = name, bh_path = f\<rparr>,
                 w1\<lparr>st_files := (st_files w1)(f := Some (file_Truncate (the (st_files w1 f)) blob_Size))\<rparr>)))"
        using Ok ex op None by (simp only: NewInStorePath_def f_def [symmetric] Let_def go.case option.case
            prod.case)
      show ?thesis
        using assms eq op
        by (cases i; cases "sys_err sys SysTruncate") (auto intro: that(2) that(3))
    qed
  qed (use assms Ok in \<open>auto intro!: that(1) simp: NewInStorePath_def f_def [symmetric] Let_def\<close>)
qed (use assms in \<open>auto intro!: that(1) simp: NewInStorePath_def\<close>)

lemma NewInStorePath_world:
  assumes "NewInStorePath b2 sys path name w = (r, w')"
  shows "st_open w \<subseteq> st_open w' \<and> st_next w \<le> st_next w' \<and>
    (\<forall>b. r = Ok b \<longrightarrow> bh_name b = name \<and> bh_id b = st_next w \<and> st_next w' = Suc (st_next w)
      \<and> bh_id b \<in> st_open w')"
proof (rule NewInStorePath_cases [OF assms])
  fix f create i
  assume "os_OpenFile sys w f create = (i, w')" and "\<And>b. r \<noteq> Ok b"
  then show ?thesis using os_OpenFile_world(1) by blast
next
  fix f create i w1
  assume "os_OpenFile sys w f create = (Ok i, w1)"
    and "r = Ok \<lparr>bh_id = i, bh_name = name, bh_path = f\<rparr>"
    and "w' = w1\<lparr>st_files := (st_files w1)(f := Some (file_Truncate (the (st_files w1 f)) blob_Size))\<rparr>"
  then show ?thesis using os_OpenFile_world [of sys w f create "Ok i" w1] by auto
qed simp

lemma entry_ok_mono:
  "entry_ok w H name e \<Longrightarrow> st_open w \<subseteq> st_open w' \<Longrightarrow> st_next w \<le> st_next w' \<Longrightarrow> entry_ok w' H name e"
  by (auto simp: entry_ok_def)

lemma pool_inv_mono:
  "pool_inv p w H \<Longrightarrow> st_open w \<subseteq> st_open w' \<Longrightarrow> st_next w \<le> st_next w' \<Longrightarrow> pool_inv p w' H"
  unfolding pool_inv_def using entry_ok_mono by blast

lemma pool_inv_open:
  assumes inv: "pool_inv p w H" and step: "storeImpl_Open b2 sys path p w name = (r, p', w')"
  shows "pool_inv p' w' (case r of Ok _ \<Rightarrow> H(name := Suc (H name)) | _ \<Rightarrow> H)"
proof (cases "pool_blobs p name")
  case (Some e)
  then have "r = Ok (pe_blob e)" and "w' = w"
    and "p' = p\<lparr>pool_blobs := (pool_blobs p)(name := Some (e\<lparr>pe_refs := pe_refs e + 1\<rparr>))\<rparr>"
    using step by (simp_all add: storeImpl_Open_def Pool_Get_def)
  then show ?thesis using inv Some by (auto simp: pool_inv_def entry_ok_def)
next
  case None
  obtain r1 w1 where g: "NewInStorePath b2 sys path name w = (r1, w1)"
    by (cases "NewInStorePath b2 sys path name w")
  note world = NewInStorePath_world [OF g]
  have mono: "pool_inv p w1 H" using pool_inv_mono [OF inv] world by blast
  show ?thesis
  proof (cases r1)
    case (Ok b)
    then have "r = Ok b" and "w' = w1"
      and "p' = p\<lparr>pool_blobs := (pool_blobs p)(name := Some \<lparr>pe_blob = b, pe_refs = 1\<rparr>)\<rparr>"
      using step None g by (simp_all add: storeImpl_Open_def Pool_Get_def)
    moreover have "H name = 0" using inv None by (simp add: pool_inv_def)
    moreover have "\<forall>n e. pool_blobs p n = Some e \<longrightarrow> bh_id (pe_blob e) \<noteq> st_next w"
      using inv unfolding pool_inv_def entry_ok_def by (metis less_irrefl)
    ultimately show ?thesis using mono world Ok by (auto simp: pool_inv_def entry_ok_def) blast
  qed (use step None g mono in \<open>auto simp: storeImpl_Open_def Pool_Get_def\<close>)
qed

lemma pool_inv_close:
  assumes inv: "pool_inv p w H" and e: "pool_blobs p name = Some e"
    and step: "wrappedBlob_Close sys p w (pe_blob e) = (r, p', w')"
  shows "pool_inv p' w' (H(name := H name - 1)) \<and> \<not> is_panic r"
proof -
  have ok: "entry_ok w H name e" using inv e by (simp add: pool_inv_def)
  then have nm: "bh_name (pe_blob e) = name" and refs: "pe_refs e = int (H name)" and pos: "0 < H name"
    by (simp_all add: entry_ok_def)
  show ?thesis
  proof (cases "pe_refs e - 1 > 0")
    case True
    then have "r = Ok ()" "w' = w"
      "p' = p\<lparr>pool_blobs := (pool_blobs p)(name := Some (e\<lparr>pe_refs := pe_refs e - 1\<rparr>))\<rparr>"
      using step e nm by (simp_all add: wrappedBlob_Close_def Pool_Put_def)
    then show ?thesis using inv e True refs by (auto simp: pool_inv_def entry_ok_def)
  next
    case False
    then have one: "H name = 1" using refs pos by simp
    obtain r1 w1 where c: "blobHandle_Close sys (pe_blob e) w = (r1, w1)"
      by (cases "blobHandle_Close sys (pe_blob e) w")
    have eqs: "r = r1" "w' = w1" "p' = p\<lparr>pool_blobs := (pool_blobs p)(name := None)\<rparr>"
      using step e nm False c by (simp_all add: wrappedBlob_Close_def Pool_Put_def)
    have "\<not> is_panic r1" and w1: "st_next w1 = st_next w" "st_open w - {bh_id (pe_blob e)} \<subseteq> st_open w1"
      using c by (auto simp: blobHandle_Close_def split: option.splits)
    moreover have "bh_id (pe_blob f) \<noteq> bh_id (pe_blob e)" if "pool_blobs p n = Some f" "n \<noteq> name" for n f
      using inv e that unfolding pool_inv_def by blast
    ultimately show ?thesis
      using inv one unfolding eqs by (auto simp: pool_inv_def entry_ok_def subset_iff)
  qed
qed

lemma pool_run_inv: "pool_run b2 path p w H \<Longrightarrow> pool_inv p w H"
proof (induction rule: pool_run.induct)
  case (pool_new w)
  then show ?case by (simp add: pool_inv_def NewPool_def)
next
  case (pool_open p w H sys name r p' w')
  then show ?case using pool_inv_open by blast
next
  case (pool_close p w H name e sys r p' w')
  then show ?case using pool_inv_close by blast
qed


definition empty_store :: storeFS where
  "empty_store = \<lparr>st_files = (\<lambda>_. None), st_dirs = {}, st_open = {}, st_next = 0\<rparr>"


end
