(* ===== verification/Store_Db.thy ===== *)
theory Store_Db
  imports Blob_Store "HOL-Library.List_Lexorder" "HOL-Library.Sublist"
begin

text \<open>
  The database underneath package \<open>store\<close> (\<open>store/store.go\<close>, \<open>store/prefix.go\<close> and the value
  encodings of \<open>store/naming.go\<close> and \<open>store/peers.go\<close>).

  \<open>goleveldb\<close> is the record \<open>leveldb\<close> of the calls the package makes on a database or a
  transaction state \<open>'d\<close>; \<open>leveldb_laws\<close> says what its documentation promises of them in terms of
  the key-value content \<open>v d\<close>.  Calls may fail; a failed write changes nothing.

  A stored value is raw bytes or a JSON document.  \<open>encoding/json\<close> is modelled at the level of
  documents, the list of member names and values the structs of the package are written to: a
  document keeps what the text keeps (strings with invalid UTF-8 replaced, numbers, booleans and
  instants), and the text syntax itself is left out.
\<close>

section \<open>Documents and values\<close>

datatype jval = JStr string | JNum int | JBool bool | JTime time

type_synonym doc = "(string \<times> jval) list"

datatype dbval = VBytes bytes | VJson doc

text \<open>
  The width of the UTF-8 sequence at the head, 0 when it is not one; \<open>json.Marshal\<close> replaces each
  byte that does not start a sequence by the replacement character.
\<close>

definition utf8_cont :: "nat \<Rightarrow> bool" where
  "utf8_cont n \<longleftrightarrow> 128 \<le> n \<and> n \<le> 191"

definition utf8_width :: "nat list \<Rightarrow> nat" where
  "utf8_width bs =
     (let b0 = hd bs; c = (\<lambda>i. i < length bs \<and> utf8_cont (bs ! i)) in
      if b0 < 128 then 1
      else if 194 \<le> b0 \<and> b0 \<le> 223 then (if c 1 then 2 else 0)
      else if 224 \<le> b0 \<and> b0 \<le> 239 then
        (if c 1 \<and> c 2 \<and> (b0 = 224 \<longrightarrow> 160 \<le> bs ! 1) \<and> (b0 = 237 \<longrightarrow> bs ! 1 \<le> 159) then 3 else 0)
      else if 240 \<le> b0 \<and> b0 \<le> 244 then
        (if c 1 \<and> c 2 \<and> c 3 \<and> (b0 = 240 \<longrightarrow> 144 \<le> bs ! 1) \<and> (b0 = 244 \<longrightarrow> bs ! 1 \<le> 143) then 4 else 0)
      else 0)"

function utf8_clean :: "nat list \<Rightarrow> nat list" where
  "utf8_clean [] = []"
| "utf8_clean (b # bs) =
     (let w = utf8_width (b # bs) in
      if w = 0 then [239, 191, 189] @ utf8_clean bs
      else take w (b # bs) @ utf8_clean (drop (w - 1) bs))"
  by pat_completeness auto
termination by (relation "measure length") auto

definition json_string :: "string \<Rightarrow> string" where
  "json_string s = map char_of (utf8_clean (map of_char s))"

text \<open>\<open>Time.MarshalJSON\<close> refuses instants outside of the years 0 to 9999.\<close>

definition time_json_ok :: "time \<Rightarrow> bool" where
  "time_json_ok t \<longleftrightarrow> - 62167219200 * time_Second \<le> t \<and> t < 253402300800 * time_Second"

fun jval_clean :: "jval \<Rightarrow> jval" where
  "jval_clean (JStr s) = JStr (json_string s)"
| "jval_clean v = v"

fun jval_ok :: "jval \<Rightarrow> bool" where
  "jval_ok (JTime t) = time_json_ok t"
| "jval_ok v = True"

definition json_Marshal :: "doc \<Rightarrow> dbval go" where
  "json_Marshal d =
     (if list_all (jval_ok \<circ> snd) d then Ok (VJson (map (map_prod id jval_clean) d))
      else Err (ErrNew ''Time.MarshalJSON: year outside of range [0,9999]''))"

text \<open>
  Decoding a member into a struct field: an absent member leaves the zero value, the last of
  several wins, and a member of another kind or out of range is a type error.
\<close>

abbreviation json_TypeError :: err where
  "json_TypeError \<equiv> ErrNew ''json: cannot unmarshal value into Go struct field''"

definition json_str :: "doc \<Rightarrow> string \<Rightarrow> string go" where
  "json_str d k =
     (case map_of (rev d) k of
        None \<Rightarrow> Ok [] | Some (JStr s) \<Rightarrow> Ok s | Some _ \<Rightarrow> Err json_TypeError)"

definition json_uint16 :: "doc \<Rightarrow> string \<Rightarrow> uint16 go" where
  "json_uint16 d k =
     (case map_of (rev d) k of
        None \<Rightarrow> Ok 0
      | Some (JNum n) \<Rightarrow> if 0 \<le> n \<and> n < 2 ^ 16 then Ok (of_int n) else Err json_TypeError
      | Some _ \<Rightarrow> Err json_TypeError)"

definition json_int :: "doc \<Rightarrow> string \<Rightarrow> int go" where
  "json_int d k =
     (case map_of (rev d) k of
        None \<Rightarrow> Ok 0
      | Some (JNum n) \<Rightarrow> if - (2 ^ 63) \<le> n \<and> n < 2 ^ 63 then Ok n else Err json_TypeError
      | Some _ \<Rightarrow> Err json_TypeError)"

definition json_bool :: "doc \<Rightarrow> string \<Rightarrow> bool go" where
  "json_bool d k =
     (case map_of (rev d) k of
        None \<Rightarrow> Ok False | Some (JBool b) \<Rightarrow> Ok b | Some _ \<Rightarrow> Err json_TypeError)"

definition json_time :: "doc \<Rightarrow> string \<Rightarrow> time go" where
  "json_time d k =
     (case map_of (rev d) k of
        None \<Rightarrow> Ok time_zero | Some (JTime t) \<Rightarrow> Ok t | Some _ \<Rightarrow> Err json_TypeError)"

definition mustMarshalJSON :: "doc \<Rightarrow> dbval go" where
  "mustMarshalJSON d = (case json_Marshal d of Err e \<Rightarrow> Panic ''json: error'' | r \<Rightarrow> r)"

definition mustUnmarshalJSON :: "(doc \<Rightarrow> 'a go) \<Rightarrow> dbval \<Rightarrow> 'a go" where
  "mustUnmarshalJSON unmarshal data =
     (case data of
        VBytes _ \<Rightarrow> Panic ''json: syntax error''
      | VJson d \<Rightarrow> (case unmarshal d of Err e \<Rightarrow> Panic ''json: error'' | r \<Rightarrow> r))"

section \<open>Integers and instants as bytes\<close>

text \<open>A value read as bytes; a document is never stored under a key that is read this way.\<close>

fun val_bytes :: "dbval \<Rightarrow> bytes go" where
  "val_bytes (VBytes b) = Ok b"
| "val_bytes (VJson _) = Panic ''json document''"

definition mustEncodeInt :: "int \<Rightarrow> bytes" where
  "mustEncodeInt i = PutUint64 (of_int i)"

definition mustDecodeInt :: "bytes \<Rightarrow> int go" where
  "mustDecodeInt b =
     (if b = [] then Ok 0
      else if length b < 8 then Panic ''index out of range''
      else let out = Uint64 b in
        if unat out > 2 ^ 31 - 1 then Panic ''overflow'' else Ok (uint out))"

definition encodeTime :: "time \<Rightarrow> bytes" where
  "encodeTime t = PutUint64 (of_int (time_Unix t))"

text \<open>A nil slice is \<open>None\<close>.\<close>

definition mustDecodeTime :: "bytes option \<Rightarrow> time go" where
  "mustDecodeTime buf =
     (case buf of
        None \<Rightarrow> Ok time_zero
      | Some b \<Rightarrow>
          if length b < 8 then Panic ''index out of range''
          else let out = Uint64 b in
            if unat out > 2 ^ 63 - 1 then Panic ''overflow'' else Ok (time_FromUnix (uint out)))"

section \<open>The database\<close>

abbreviation leveldb_ErrNotFound :: err where
  "leveldb_ErrNotFound \<equiv> ErrVar ''leveldb.ErrNotFound''"

text \<open>
  An iterator is the entries it yields before it stops and the error it then reports.  It reads a
  snapshot: writes made while iterating do not change it.
\<close>

type_synonym db_iter = "(bytes \<times> dbval) list \<times> err option"

record 'd leveldb =
  ldb_Get :: "'d \<Rightarrow> bytes \<Rightarrow> err + dbval"
  ldb_Has :: "'d \<Rightarrow> bytes \<Rightarrow> err + bool"
  ldb_Put :: "'d \<Rightarrow> bytes \<Rightarrow> dbval \<Rightarrow> 'd \<times> err option"
  ldb_Delete :: "'d \<Rightarrow> bytes \<Rightarrow> 'd \<times> err option"
  ldb_PrefixIterator :: "'d \<Rightarrow> bytes \<Rightarrow> db_iter"
  ldb_RangeIterator :: "'d \<Rightarrow> bytes \<Rightarrow> bytes \<Rightarrow> db_iter"
  ldb_OpenTransaction :: "'d \<Rightarrow> err + 'd"
  ldb_Commit :: "'d \<Rightarrow> 'd \<Rightarrow> 'd \<times> err option"

definition iter_law :: "(bytes \<Rightarrow> dbval option) \<Rightarrow> (bytes \<Rightarrow> bool) \<Rightarrow> db_iter \<Rightarrow> bool" where
  "iter_law m P it \<longleftrightarrow>
     sorted_wrt (<) (map fst (fst it)) \<and>
     (\<forall>k x. (k, x) \<in> set (fst it) \<longrightarrow> P k \<and> m k = Some x) \<and>
     (snd it = None \<longrightarrow> (\<forall>k x. P k \<and> m k = Some x \<longrightarrow> (k, x) \<in> set (fst it)))"

definition leveldb_laws :: "'d leveldb \<Rightarrow> ('d \<Rightarrow> bytes \<Rightarrow> dbval option) \<Rightarrow> bool" where
  "leveldb_laws L v \<longleftrightarrow>
     (\<forall>d k x. ldb_Get L d k = Inr x \<longrightarrow> v d k = Some x) \<and>
     (\<forall>d k e. ldb_Get L d k = Inl e \<longrightarrow> errors_Is e leveldb_ErrNotFound \<longrightarrow> v d k = None) \<and>
     (\<forall>d k b. ldb_Has L d k = Inr b \<longrightarrow> b = (v d k \<noteq> None)) \<and>
     (\<forall>d k x d' e. ldb_Put L d k x = (d', e) \<longrightarrow> v d' = (if e = None then (v d)(k \<mapsto> x) else v d)) \<and>
     (\<forall>d k d' e. ldb_Delete L d k = (d', e) \<longrightarrow> v d' = (if e = None then (v d)(k := None) else v d)) \<and>
     (\<forall>d p. iter_law (v d) (prefix p) (ldb_PrefixIterator L d p)) \<and>
     (\<forall>d s l. iter_law (v d) (\<lambda>k. s \<le> k \<and> k < l) (ldb_RangeIterator L d s l)) \<and>
     (\<forall>d t. ldb_OpenTransaction L d = Inr t \<longrightarrow> v t = v d) \<and>
     (\<forall>d t d' e. ldb_Commit L d t = (d', e) \<longrightarrow> v d' = (if e = None then v t else v d))"

text \<open>A database none of whose calls fails.\<close>

definition leveldb_fine :: "'d leveldb \<Rightarrow> ('d \<Rightarrow> bytes \<Rightarrow> dbval option) \<Rightarrow> bool" where
  "leveldb_fine L v \<longleftrightarrow>
     leveldb_laws L v \<and>
     (\<forall>d k. ldb_Get L d k = (case v d k of None \<Rightarrow> Inl leveldb_ErrNotFound | Some x \<Rightarrow> Inr x)) \<and>
     (\<forall>d k. ldb_Has L d k = Inr (v d k \<noteq> None)) \<and>
     (\<forall>d k x. snd (ldb_Put L d k x) = None) \<and>
     (\<forall>d k. snd (ldb_Delete L d k) = None) \<and>
     (\<forall>d p. snd (ldb_PrefixIterator L d p) = None) \<and>
     (\<forall>d s l. snd (ldb_RangeIterator L d s l) = None) \<and>
     (\<forall>d. \<exists>t. ldb_OpenTransaction L d = Inr t) \<and>
     (\<forall>d t. snd (ldb_Commit L d t) = None)"

section \<open>Transactions and keys\<close>

text \<open>
  A callback maps the transaction state to the new one and its outcome.  The error \<open>err\<close> that the
  deferred function of \<open>WithTx\<close> looks at is the one of \<open>OpenTransaction\<close>, nil at that point: the
  callback's error goes to the caller and the transaction is committed all the same, and the
  error of the commit is lost.  A panic discards.
\<close>

definition WithTx :: "'d leveldb \<Rightarrow> 'd \<Rightarrow> ('d \<Rightarrow> 'd \<times> 'a go) \<Rightarrow> 'd \<times> 'a go" where
  "WithTx L db cb =
     (case ldb_OpenTransaction L db of
        Inl e \<Rightarrow> (db, Err (ErrWrap e ''error opening transaction''))
      | Inr tx \<Rightarrow>
          (case cb tx of
             (tx', Panic p) \<Rightarrow> (db, Panic p)
           | (tx', r) \<Rightarrow> (fst (ldb_Commit L db tx'), r)))"

text \<open>A write followed by the rest of the callback, its error wrapped and returned.\<close>

definition tx_do :: "'d \<times> err option \<Rightarrow> string \<Rightarrow> ('d \<Rightarrow> 'd \<times> 'a go) \<Rightarrow> 'd \<times> 'a go" where
  "tx_do r msg k = (case r of (tx, Some e) \<Rightarrow> (tx, Err (ErrWrap e msg)) | (tx, None) \<Rightarrow> k tx)"

definition tx_wrap :: "'d \<times> 'a go \<Rightarrow> string \<Rightarrow> 'd \<times> 'a go" where
  "tx_wrap r msg = (fst r, go_wrap (snd r) msg)"

text \<open>
  A read: the value, nothing when the key is absent, or another error.  \<open>get_bytes\<close> is the common
  \<open>if errors.Is(err, leveldb.ErrNotFound)\<close> around a \<open>Get\<close> whose bytes are used.
\<close>

definition get_bytes :: "'d leveldb \<Rightarrow> 'd \<Rightarrow> bytes \<Rightarrow> string \<Rightarrow> bytes option go" where
  "get_bytes L d k msg =
     (case ldb_Get L d k of
        Inl e \<Rightarrow>
          if errors_Is e leveldb_ErrNotFound then Ok None else Err (ErrWrap e msg)
      | Inr x \<Rightarrow> go_bind (val_bytes x) (\<lambda>b. Ok (Some b)))"

definition Prefixer :: "string \<Rightarrow> string list \<Rightarrow> bytes" where
  "Prefixer p parts = bytes_of_string (strings_Join ''/'' (p # parts))"

text \<open>The loop of the truncations: every key of an iterator is deleted.\<close>

fun DeleteLoop :: "'d leveldb \<Rightarrow> string \<Rightarrow> (bytes \<times> dbval) list \<Rightarrow> 'd \<Rightarrow> 'd \<times> unit go" where
  "DeleteLoop L msg [] tx = (tx, Ok ())"
| "DeleteLoop L msg ((k, x) # kvs) tx =
     tx_do (ldb_Delete L tx k) msg (\<lambda>tx'. DeleteLoop L msg kvs tx')"

section \<open>Lemmas\<close>

lemma leveldb_lawsD:
  assumes "leveldb_laws L v"
  shows "ldb_Get L d k = Inr x \<Longrightarrow> v d k = Some x"
    and "ldb_Get L d k = Inl e \<Longrightarrow> errors_Is e leveldb_ErrNotFound \<Longrightarrow> v d k = None"
    and "ldb_Has L d k = Inr b \<Longrightarrow> b \<longleftrightarrow> v d k \<noteq> None"
    and "ldb_Put L d k x = (d', oe) \<Longrightarrow> v d' = (if oe = None then (v d)(k \<mapsto> x) else v d)"
    and "ldb_Delete L d k = (d', oe) \<Longrightarrow> v d' = (if oe = None then (v d)(k := None) else v d)"
    and "iter_law (v d) (prefix p) (ldb_PrefixIterator L d p)"
    and "iter_law (v d) (\<lambda>k. s \<le> k \<and> k < l) (ldb_RangeIterator L d s l)"
    and "ldb_OpenTransaction L d = Inr t \<Longrightarrow> v t = v d"
    and "ldb_Commit L d t = (d', oe) \<Longrightarrow> v d' = (if oe = None then v t else v d)"
proof -
  note laws = assms [unfolded leveldb_laws_def]
  show "v d k = Some x" if "ldb_Get L d k = Inr x"
    using that laws [THEN conjunct1] by blast
  show "v d k = None" if "ldb_Get L d k = Inl e" "errors_Is e leveldb_ErrNotFound"
    using that laws [THEN conjunct2, THEN conjunct1] by blast
  show "b \<longleftrightarrow> v d k \<noteq> None" if "ldb_Has L d k = Inr b"
    using that laws [THEN conjunct2, THEN conjunct2, THEN conjunct1] by blast
  show "v d' = (if oe = None then (v d)(k \<mapsto> x) else v d)" if "ldb_Put L d k x = (d', oe)"
    using that laws [THEN conjunct2, THEN conjunct2, THEN conjunct2, THEN conjunct1] by blast
  show "v d' = (if oe = None then (v d)(k := None) else v d)" if "ldb_Delete L d k = (d', oe)"
    using that laws [THEN conjunct2, THEN conjunct2, THEN conjunct2, THEN conjunct2, THEN conjunct1] by blast
  show "iter_law (v d) (prefix p) (ldb_PrefixIterator L d p)"
    using laws [THEN conjunct2, THEN conjunct2, THEN conjunct2, THEN conjunct2, THEN conjunct2, THEN conjunct1] by blast
  show "iter_law (v d) (\<lambda>k. s \<le> k \<and> k < l) (ldb_RangeIterator L d s l)"
    using laws [THEN conjunct2, THEN conjunct2, THEN conjunct2, THEN conjunct2, THEN conjunct2, THEN conjunct2, THEN conjunct1] by blast
  show "v t = v d" if "ldb_OpenTransaction L d = Inr t"
    using that laws [THEN conjunct2, THEN conjunct2, THEN conjunct2, THEN conjunct2, THEN conjunct2, THEN conjunct2, THEN conjunct2, THEN conjunct1] by blast
  show "v d' = (if oe = None then v t else v d)" if "ldb_Commit L d t = (d', oe)"
    using that laws [THEN conjunct2, THEN conjunct2, THEN conjunct2, THEN conjunct2, THEN conjunct2, THEN conjunct2, THEN conjunct2, THEN conjunct2] by blast
qed

lemma leveldb_fineD:
  assumes "leveldb_fine L v"
  shows "leveldb_laws L v"
    and "ldb_Get L d k = (case v d k of None \<Rightarrow> Inl leveldb_ErrNotFound | Some x \<Rightarrow> Inr x)"
    and "ldb_Has L d k = Inr (v d k \<noteq> None)"
    and "snd (ldb_Put L d k x) = None"
    and "snd (ldb_Delete L d k) = None"
    and "snd (ldb_PrefixIterator L d p) = None"
    and "snd (ldb_RangeIterator L d s l) = None"
    and "\<exists>t. ldb_OpenTransaction L d = Inr t"
    and "snd (ldb_Commit L d t) = None"
proof -
  note laws = assms [unfolded leveldb_fine_def]
  show "leveldb_laws L v"
    using laws [THEN conjunct1] by blast
  show "ldb_Get L d k = (case v d k of None \<Rightarrow> Inl leveldb_ErrNotFound | Some x \<Rightarrow> Inr x)"
    using laws [THEN conjunct2, THEN conjunct1] by blast
  show "ldb_Has L d k = Inr (v d k \<noteq> None)"
    using laws [THEN conjunct2, THEN conjunct2, THEN conjunct1] by blast
  show "snd (ldb_Put L d k x) = None"
    using laws [THEN conjunct2, THEN conjunct2, THEN conjunct2, THEN conjunct1] by blast
  show "snd (ldb_Delete L d k) = None"
    using laws [THEN conjunct2, THEN conjunct2, THEN conjunct2, THEN conjunct2, THEN conjunct1] by blast
  show "snd (ldb_PrefixIterator L d p) = None"
    using laws [THEN conjunct2, THEN conjunct2, THEN conjunct2, THEN conjunct2, THEN conjunct2, THEN conjunct1] by blast
  show "snd (ldb_RangeIterator L d s l) = None"
    using laws [THEN conjunct2, THEN conjunct2, THEN conjunct2, THEN conjunct2, THEN conjunct2, THEN conjunct2, THEN conjunct1] by blast
  show "\<exists>t. ldb_OpenTransaction L d = Inr t"
    using laws [THEN conjunct2, THEN conjunct2, THEN conjunct2, THEN conjunct2, THEN conjunct2, THEN conjunct2, THEN conjunct2, THEN conjunct1] by blast
  show "snd (ldb_Commit L d t) = None"
    using laws [THEN conjunct2, THEN conjunct2, THEN conjunct2, THEN conjunct2, THEN conjunct2, THEN conjunct2, THEN conjunct2, THEN conjunct2] by blast
qed

subsection \<open>Values\<close>

lemma uint_of_int_64: "0 \<le> i \<Longrightarrow> i < 2 ^ 64 \<Longrightarrow> uint (of_int i :: uint64) = i"
  by (simp add: uint_word_of_int)

lemma int_le_pow:
  assumes "int n = i" "i < 2 ^ k"
  shows "\<not> 2 ^ k - 1 < n"
proof -
  have "int n < int (2 ^ k)" using assms by simp
  then have "n < 2 ^ k" by (simp only: of_nat_less_iff)
  then show ?thesis by linarith
qed

lemma mustDecodeInt_Encode [simp]:
  assumes "0 \<le> i" "i < 2 ^ 31"
  shows "mustDecodeInt (mustEncodeInt i) = Ok i"
proof -
  have u: "uint (of_int i :: uint64) = i" using assms by (simp add: uint_of_int_64)
  then have "int (unat (of_int i :: uint64)) = i" by simp
  then have "\<not> unat (of_int i :: uint64) > 2 ^ 31 - 1" using int_le_pow assms(2) by blast
  moreover have "PutUint64 (of_int i) \<noteq> []" by (metis length_PutUint(3) list.size(3) zero_neq_numeral)
  ultimately show ?thesis
    using u by (simp add: mustDecodeInt_def mustEncodeInt_def Let_def)
qed

lemma mustDecodeTime_encode [simp]:
  assumes "0 \<le> t" "time_Unix t < 2 ^ 63"
  shows "mustDecodeTime (Some (encodeTime t)) = Ok (time_FromUnix (time_Unix t))"
proof -
  have 0: "0 \<le> time_Unix t" using assms by (simp add: time_Unix_def time_Second_def)
  then have u: "uint (of_int (time_Unix t) :: uint64) = time_Unix t"
    using assms by (simp add: uint_of_int_64)
  then have "int (unat (of_int (time_Unix t) :: uint64)) = time_Unix t" by simp
  then have "\<not> unat (of_int (time_Unix t) :: uint64) > 2 ^ 63 - 1" using int_le_pow assms(2) by blast
  with u show ?thesis by (simp add: mustDecodeTime_def encodeTime_def Let_def)
qed

lemma utf8_clean_ascii: "\<forall>b \<in> set bs. b < 128 \<Longrightarrow> utf8_clean bs = bs"
  by (induction bs) (auto simp: utf8_width_def Let_def)

lemma json_string_ascii: "\<forall>c \<in> set s. (of_char c :: nat) < 128 \<Longrightarrow> json_string s = s"
  by (simp add: json_string_def utf8_clean_ascii map_idI)

lemma json_string_hex [simp]: "json_string (hex_EncodeToString bs) = hex_EncodeToString bs"
proof (rule json_string_ascii)
  have "\<forall>i \<in> set [0..<16]. (of_char (hextable ! i) :: nat) < 128"
    by (simp add: hextable_def upt_rec)
  then have tab: "\<forall>i < 16. (of_char (hextable ! i) :: nat) < 128" by simp
  have "unat b div 16 < 16" for b :: byte
    using unsigned_less [of b, where ?'a = nat] by simp
  with tab show "\<forall>c \<in> set (hex_EncodeToString bs). (of_char c :: nat) < 128"
    by (auto simp: hex_EncodeToString_def)
qed

lemma json_string_valid [simp]: "name_valid s \<Longrightarrow> json_string s = s"
  by (rule json_string_ascii) (auto simp: name_valid_def name_alnum_def name_hyphen_def Let_def)

subsection \<open>Transactions\<close>

lemma tx_do_cases:
  "tx_do (tx, e) msg k = (case e of Some e \<Rightarrow> (tx, Err (ErrWrap e msg)) | None \<Rightarrow> k tx)"
  by (simp add: tx_do_def)

lemma WithTx_view:
  assumes laws: "leveldb_laws L v" and W: "WithTx L db cb = (db', r)"
  obtains "v db' = v db"
  | tx tx' where "ldb_OpenTransaction L db = Inr tx" "v tx = v db" "cb tx = (tx', r)" "v db' = v tx'"
      "\<not> is_panic r"
proof (cases "ldb_OpenTransaction L db")
  case (Inl e)
  with W that show ?thesis by (auto simp: WithTx_def)
next
  case (Inr tx)
  obtain tx' r' where cb: "cb tx = (tx', r')" by fastforce
  obtain d e where c: "ldb_Commit L db tx' = (d, e)" by fastforce
  have d: "v d = (if e = None then v tx' else v db)" using leveldb_lawsD(9) [OF laws c] .
  show ?thesis
    using W Inr cb c d that leveldb_lawsD(8) [OF laws Inr]
    by (cases r') (auto simp: WithTx_def split: if_splits)
qed

lemma WithTx_fine:
  assumes fine: "leveldb_fine L v"
  shows "\<exists>tx. v tx = v db \<and> (\<not> is_panic (snd (cb tx)) \<longrightarrow>
    v (fst (WithTx L db cb)) = v (fst (cb tx)) \<and> snd (WithTx L db cb) = snd (cb tx))"
proof -
  obtain tx where o: "ldb_OpenTransaction L db = Inr tx" using leveldb_fineD(8) [OF fine] by blast
  have laws: "leveldb_laws L v" by (rule leveldb_fineD(1) [OF fine])
  obtain tx' r where cb: "cb tx = (tx', r)" by fastforce
  obtain d e where c: "ldb_Commit L db tx' = (d, e)" by fastforce
  have "e = None" using leveldb_fineD(9) [OF fine, of db tx'] c by simp
  then have "v d = v tx'" using leveldb_lawsD(9) [OF laws c] by simp
  then show ?thesis
    using leveldb_lawsD(8) [OF laws o] o cb c by (cases r) (auto simp: WithTx_def intro!: exI [of _ tx])
qed

lemma DeleteLoop_view:
  assumes laws: "leveldb_laws L v" and "DeleteLoop L msg kvs tx = (tx', Ok ())"
  shows "v tx' = v tx |` (- fst ` set kvs)"
  using assms(2)
proof (induction kvs arbitrary: tx)
  case Nil
  then show ?case by simp
next
  case (Cons kv kvs)
  obtain k x where kv: "kv = (k, x)" by fastforce
  obtain d e where del: "ldb_Delete L tx k = (d, e)" by fastforce
  from Cons.prems kv del have e: "e = None" and rest: "DeleteLoop L msg kvs d = (tx', Ok ())"
    by (auto simp: tx_do_cases split: option.splits)
  have "v d = (v tx)(k := None)" using leveldb_lawsD(5) [OF laws del] e by simp
  then show ?case using Cons.IH [OF rest] kv by (auto simp: restrict_map_def fun_eq_iff)
qed

lemma DeleteLoop_sub:
  assumes laws: "leveldb_laws L v" and "DeleteLoop L msg kvs tx = (tx', r)"
  shows "v tx' \<subseteq>\<^sub>m v tx \<and> \<not> is_panic r"
  using assms(2)
proof (induction kvs arbitrary: tx)
  case (Cons kv kvs)
  obtain k x where kv: "kv = (k, x)" by fastforce
  obtain d e where del: "ldb_Delete L tx k = (d, e)" by fastforce
  have d: "v d \<subseteq>\<^sub>m v tx" using leveldb_lawsD(5) [OF laws del] by (auto simp: map_le_def)
  have "tx_do (d, e) msg (DeleteLoop L msg kvs) = (tx', r)" using Cons.prems kv del by simp
  then show ?case using d Cons.IH [of d]
    by (cases e) (auto simp: tx_do_cases intro: map_le_trans)
qed auto

lemma prefix_Prefixer: "prefix (Prefixer p []) (Prefixer p parts)"
  by (cases parts) (auto simp: Prefixer_def bytes_of_string_append)

lemma Prefixer_inject [simp]: "Prefixer p [a] = Prefixer p [b] \<longleftrightarrow> a = b"
  by (simp add: Prefixer_def)

section \<open>A database in memory\<close>

text \<open>An instance of the laws: the list of all writes, iterated in key order.\<close>

definition mem_entries :: "(bytes \<times> dbval option) list \<Rightarrow> (bytes \<Rightarrow> bool) \<Rightarrow> (bytes \<times> dbval) list" where
  "mem_entries d P =
     concat (map (\<lambda>k. case map_of d k of Some (Some x) \<Rightarrow> [(k, x)] | _ \<Rightarrow> [])
       (filter P (sort (remdups (map fst d)))))"

definition mem_view :: "(bytes \<times> dbval option) list \<Rightarrow> bytes \<Rightarrow> dbval option" where
  "mem_view d k = (case map_of d k of Some x \<Rightarrow> x | None \<Rightarrow> None)"

definition mem_ldb :: "(bytes \<times> dbval option) list leveldb" where
  "mem_ldb = \<lparr>
     ldb_Get = (\<lambda>d k. case mem_view d k of None \<Rightarrow> Inl leveldb_ErrNotFound | Some x \<Rightarrow> Inr x),
     ldb_Has = (\<lambda>d k. Inr (mem_view d k \<noteq> None)),
     ldb_Put = (\<lambda>d k x. ((k, Some x) # d, None)),
     ldb_Delete = (\<lambda>d k. ((k, None) # d, None)),
     ldb_PrefixIterator = (\<lambda>d p. (mem_entries d (prefix p), None)),
     ldb_RangeIterator = (\<lambda>d s l. (mem_entries d (\<lambda>k. s \<le> k \<and> k < l), None)),
     ldb_OpenTransaction = Inr,
     ldb_Commit = (\<lambda>d t. (t, None))\<rparr>"

lemma sorted_wrt_mem_entries:
  "sorted_wrt (<) ks \<Longrightarrow>
   sorted_wrt (<) (map fst (concat (map (\<lambda>k. case f k of Some (Some x) \<Rightarrow> [(k, x)] | _ \<Rightarrow> []) ks)))"
  by (induction ks) (auto split: option.splits)

lemma mem_entries_law: "iter_law (mem_view d) P (mem_entries d P, None)"
proof -
  have "sorted_wrt (<) (filter P (sort (remdups (map fst d))))"
    by (intro sorted_wrt_filter) (simp add: strict_sorted_iff)
  then have "sorted_wrt (<) (map fst (mem_entries d P))"
    unfolding mem_entries_def by (rule sorted_wrt_mem_entries)
  moreover have "(k, x) \<in> set (mem_entries d P) \<longleftrightarrow> P k \<and> mem_view d k = Some x" for k x
    by (auto simp: mem_entries_def mem_view_def dest: map_of_SomeD split: option.splits)
      (metis fst_conv image_eqI map_of_SomeD option.distinct(1) option.inject)+
  ultimately show ?thesis by (simp add: iter_law_def)
qed

lemma leveldb_fine_mem: "leveldb_fine mem_ldb mem_view"
  unfolding leveldb_fine_def leveldb_laws_def
  by (auto simp: mem_ldb_def mem_entries_law mem_view_def fun_eq_iff split: option.splits)

section \<open>Stored documents\<close>

definition doc_clean :: "doc \<Rightarrow> doc" where
  "doc_clean d = map (map_prod id jval_clean) d"

lemma doc_clean_simps [simp]:
  "doc_clean [] = []" "doc_clean ((k, x) # d) = (k, jval_clean x) # doc_clean d"
  by (simp_all add: doc_clean_def)

lemma mustMarshalJSON_Ok:
  "mustMarshalJSON d = (if list_all (jval_ok \<circ> snd) d then Ok (VJson (doc_clean d)) else Panic ''json: error'')"
  by (simp add: mustMarshalJSON_def json_Marshal_def doc_clean_def)

lemma uint16_range [simp]: "0 \<le> uint (w :: uint16)" "uint w < 65536"
  using unsigned_less [of w, where ?'a = int] by simp_all

text \<open>Evaluation of the member lookups on a literal document.\<close>

lemmas json_eval = json_str_def json_uint16_def json_int_def json_bool_def json_time_def

end
