(* ===== verification/Store_Names.thy ===== *)
theory Store_Names
  imports Store_Db
begin

text \<open>
  Imported names, the ban list and equivocation proofs in the database: \<open>store/naming.go\<close>,
  \<open>store/moderation.go\<close>, \<open>store/equivocation_proof.go\<close>.  A function of the source that takes a
  transaction maps its state to the new one and the outcome.
\<close>

section \<open>Names\<close>

definition lastNameImportHeightKey :: bytes where
  "lastNameImportHeightKey = bytes_of_string ''last-name-import-height''"

definition initialImportCompleteKey :: bytes where
  "initialImportCompleteKey = bytes_of_string ''initial-import-complete''"

definition namesPrefix :: "string list \<Rightarrow> bytes" where
  "namesPrefix = Prefixer ''names''"

definition nameDataPrefix :: "string list \<Rightarrow> bytes" where
  "nameDataPrefix = Prefixer (string_of_bytes (namesPrefix [''name'']))"

definition GetLastNameImportHeight :: "'d leveldb \<Rightarrow> 'd \<Rightarrow> int go" where
  "GetLastNameImportHeight L db =
     go_bind (get_bytes L db lastNameImportHeightKey ''error getting last name import height'')
       (\<lambda>res. case res of None \<Rightarrow> Ok 0 | Some b \<Rightarrow> mustDecodeInt b)"

definition SetLastNameImportHeightTx :: "'d leveldb \<Rightarrow> int \<Rightarrow> 'd \<Rightarrow> 'd \<times> unit go" where
  "SetLastNameImportHeightTx L height tx =
     tx_do (ldb_Put L tx lastNameImportHeightKey (VBytes (mustEncodeInt height)))
       ''error setting last name import height'' (\<lambda>tx. (tx, Ok ()))"

definition GetInitialImportComplete :: "'d leveldb \<Rightarrow> 'd \<Rightarrow> bool go" where
  "GetInitialImportComplete L db =
     go_wrap (go_of (ldb_Has L db initialImportCompleteKey)) ''error getting initial import complete''"

definition SetInitialImportCompleteTx :: "'d leveldb \<Rightarrow> 'd \<Rightarrow> 'd \<times> unit go" where
  "SetInitialImportCompleteTx L tx =
     tx_do (ldb_Put L tx initialImportCompleteKey (VBytes [1]))
       ''error setting initial import complete'' (\<lambda>tx. (tx, Ok ()))"

record 'pk NameInfo =
  ni_Name :: string
  ni_PublicKey :: 'pk
  ni_ImportHeight :: int

definition NameInfo_MarshalJSON :: "('pk, 'sk) btcec \<Rightarrow> 'pk NameInfo \<Rightarrow> doc" where
  "NameInfo_MarshalJSON ec n =
     [(''name'', JStr (ni_Name n)),
      (''public_key'', JStr (hex_EncodeToString (ec_SerializeCompressed ec (ni_PublicKey n)))),
      (''import_height'', JNum (ni_ImportHeight n))]"

definition mustDecodePublicKey :: "('pk, 'sk) btcec \<Rightarrow> string \<Rightarrow> 'pk go" where
  "mustDecodePublicKey ec s =
     (case hex_DecodeString s of
        Ok data \<Rightarrow>
          (case ec_ParsePubKey ec data of Inl e \<Rightarrow> Panic ''invalid public key'' | Inr pub \<Rightarrow> Ok pub)
      | _ \<Rightarrow> Panic ''invalid hexadecimal'')"

definition NameInfo_UnmarshalJSON :: "('pk, 'sk) btcec \<Rightarrow> doc \<Rightarrow> 'pk NameInfo go" where
  "NameInfo_UnmarshalJSON ec data =
     go_bind (json_str data ''name'') (\<lambda>name.
     go_bind (json_str data ''public_key'') (\<lambda>key.
     go_bind (json_int data ''import_height'') (\<lambda>height.
     go_bind (mustDecodePublicKey ec key) (\<lambda>pub.
     Ok \<lparr>ni_Name = name, ni_PublicKey = pub, ni_ImportHeight = height\<rparr>))))"

definition GetNameInfo :: "'d leveldb \<Rightarrow> ('pk, 'sk) btcec \<Rightarrow> 'd \<Rightarrow> string \<Rightarrow> 'pk NameInfo go" where
  "GetNameInfo L ec db name =
     go_bind (go_wrap (go_of (ldb_Get L db (nameDataPrefix [name]))) ''error getting name info'')
       (mustUnmarshalJSON (NameInfo_UnmarshalJSON ec))"

text \<open>A stream is its iterator; \<open>Next\<close> yields \<open>None\<close> at the end.\<close>

fun NameInfoStream_Next ::
  "('pk, 'sk) btcec \<Rightarrow> (bytes \<times> dbval) list \<Rightarrow> 'pk NameInfo option go \<times> (bytes \<times> dbval) list" where
  "NameInfoStream_Next ec [] = (Ok None, [])"
| "NameInfoStream_Next ec ((k, x) # it) =
     (go_bind (mustUnmarshalJSON (NameInfo_UnmarshalJSON ec) x) (\<lambda>info. Ok (Some info)), it)"

text \<open>
  The range of a stream that resumes after \<open>start\<close>: from the key of \<open>start\<close> with its last byte
  incremented (a byte wraps) to the key of the byte 255.
\<close>

definition bump_last :: "bytes \<Rightarrow> bytes" where
  "bump_last k = butlast k @ [last k + 1]"

definition StreamNameInfo :: "'d leveldb \<Rightarrow> 'd \<Rightarrow> string \<Rightarrow> db_iter" where
  "StreamNameInfo L db start =
     (if start = [] then ldb_PrefixIterator L db (nameDataPrefix [])
      else ldb_RangeIterator L db (bump_last (nameDataPrefix [start]))
             (nameDataPrefix [string_of_bytes [255]]))"

text \<open>Writing a document: \<open>mustMarshalJSON\<close> panics before the write.\<close>

definition tx_put_json :: "'d leveldb \<Rightarrow> bytes \<Rightarrow> doc \<Rightarrow> string \<Rightarrow> 'd \<Rightarrow> ('d \<Rightarrow> 'd \<times> unit go) \<Rightarrow> 'd \<times> unit go" where
  "tx_put_json L k d msg tx cont =
     (case mustMarshalJSON d of
        Ok x \<Rightarrow> tx_do (ldb_Put L tx k x) msg cont
      | Err e \<Rightarrow> (tx, Err e)
      | Panic p \<Rightarrow> (tx, Panic p))"

definition SetNameInfoTx ::
  "'d leveldb \<Rightarrow> ('pk, 'sk) btcec \<Rightarrow> string \<Rightarrow> 'pk \<Rightarrow> int \<Rightarrow> 'd \<Rightarrow> 'd \<times> unit go" where
  "SetNameInfoTx L ec name key height tx =
     tx_put_json L (nameDataPrefix [name])
       (NameInfo_MarshalJSON ec \<lparr>ni_Name = name, ni_PublicKey = key, ni_ImportHeight = height\<rparr>)
       ''error inserting name info'' tx (\<lambda>tx. (tx, Ok ()))"

definition TruncateNameStore :: "'d leveldb \<Rightarrow> 'd \<Rightarrow> 'd \<times> unit go" where
  "TruncateNameStore L db =
     tx_wrap
       (WithTx L db (\<lambda>tx.
          DeleteLoop L ''error deleting name store key'' (fst (ldb_PrefixIterator L tx (namesPrefix []))) tx))
       ''error truncating name store''"

section \<open>The ban list\<close>

definition lastBanListImportAtKey :: bytes where
  "lastBanListImportAtKey = bytes_of_string ''last-ban-list-import-at''"

definition bansPrefix :: "string list \<Rightarrow> bytes" where
  "bansPrefix = Prefixer ''bans''"

definition banPrefix :: "string list \<Rightarrow> bytes" where
  "banPrefix = Prefixer (string_of_bytes (bansPrefix [''ban'']))"

definition GetLastBanListImportAt :: "'d leveldb \<Rightarrow> 'd \<Rightarrow> time go" where
  "GetLastBanListImportAt L db =
     go_bind (get_bytes L db lastBanListImportAtKey ''error getting last ban list import time'')
       (\<lambda>res. case res of None \<Rightarrow> Ok (time_FromUnix 0) | Some b \<Rightarrow> mustDecodeTime (Some b))"

definition SetLastBanListImportAt :: "'d leveldb \<Rightarrow> time \<Rightarrow> 'd \<Rightarrow> 'd \<times> unit go" where
  "SetLastBanListImportAt L t tx =
     tx_do (ldb_Put L tx lastBanListImportAtKey (VBytes (encodeTime t)))
       ''error setting last ban list import time'' (\<lambda>tx. (tx, Ok ()))"

definition NameIsBanned :: "'d leveldb \<Rightarrow> 'd \<Rightarrow> string \<Rightarrow> bool go" where
  "NameIsBanned L db name =
     go_wrap (go_of (ldb_Has L db (banPrefix [name]))) ''error getting name ban state''"

definition TruncateBannedNames :: "'d leveldb \<Rightarrow> 'd \<Rightarrow> 'd \<times> unit go" where
  "TruncateBannedNames L tx =
     DeleteLoop L ''error deleting ban store key'' (fst (ldb_PrefixIterator L tx (bansPrefix []))) tx"

definition BanName :: "'d leveldb \<Rightarrow> string \<Rightarrow> 'd \<Rightarrow> 'd \<times> unit go" where
  "BanName L name tx =
     tx_do (ldb_Put L tx (banPrefix [name]) (VBytes [1])) ''error inserting banned name'' (\<lambda>tx. (tx, Ok ()))"

section \<open>Equivocation proofs\<close>

definition equivocationProofsPrefix :: "string list \<Rightarrow> bytes" where
  "equivocationProofsPrefix = Prefixer ''equivocationproofs''"

definition GetEquivocationProof :: "'d leveldb \<Rightarrow> 'd \<Rightarrow> string \<Rightarrow> bytes go" where
  "GetEquivocationProof L db name =
     go_bind
       (go_wrap (go_of (ldb_Get L db (equivocationProofsPrefix [name]))) ''error getting equivocation proof'')
       val_bytes"

text \<open>The error of the encoder is not looked at: what it wrote so far is stored.\<close>

definition SetEquivocationProofTx ::
  "'d leveldb \<Rightarrow> ('pk, 'sk) btcec \<Rightarrow> string \<Rightarrow> EquivocationProof \<Rightarrow> 'd \<Rightarrow> 'd \<times> unit go" where
  "SetEquivocationProofTx L ec name proof tx =
     tx_do (ldb_Put L tx (equivocationProofsPrefix [name]) (VBytes (fst (EquivocationProof_Encode ec proof))))
       ''error setting equivocation proof'' (\<lambda>tx. (tx, Ok ()))"

section \<open>Lemmas\<close>

lemma NameInfo_JSON_roundtrip:
  assumes "btcec_laws ec" "- (2 ^ 63) \<le> ni_ImportHeight n" "ni_ImportHeight n < 2 ^ 63"
  shows "NameInfo_UnmarshalJSON ec (doc_clean (NameInfo_MarshalJSON ec n)) =
    Ok (n\<lparr>ni_Name := json_string (ni_Name n)\<rparr>)"
  using assms
  by (simp add: NameInfo_UnmarshalJSON_def NameInfo_MarshalJSON_def json_eval go_simps
      mustDecodePublicKey_def btcec_laws_def)

lemma jval_ok_NameInfo [simp]: "list_all (jval_ok \<circ> snd) (NameInfo_MarshalJSON ec n)"
  by (simp add: NameInfo_MarshalJSON_def)

end
