(* ===== verification/Store_Headers.thy ===== *)
theory Store_Headers
  imports Store_Names
begin

text \<open>
  Blob headers, sector hashes and header bans in the database: \<open>store/headers.go\<close>.
\<close>

section \<open>Headers\<close>

record Header =
  hd_Name :: string
  hd_EpochHeight :: uint16
  hd_SectorSize :: uint16
  hd_SectorTipHash :: Hash
  hd_Signature :: Signature
  hd_ReservedRoot :: Hash
  hd_EpochStartAt :: time

definition Header_MarshalJSON :: "Header \<Rightarrow> doc" where
  "Header_MarshalJSON h =
     [(''name'', JStr (hd_Name h)),
      (''epoch_height'', JNum (uint (hd_EpochHeight h))),
      (''sector_size'', JNum (uint (hd_SectorSize h))),
      (''sector_tip_hash'', JStr (Hash_String (hd_SectorTipHash h))),
      (''signature'', JStr (Signature_String (hd_Signature h))),
      (''reserved_root'', JStr (Hash_String (hd_ReservedRoot h))),
      (''epoch_start_at'', JTime (hd_EpochStartAt h))]"

definition Header_UnmarshalJSON :: "doc \<Rightarrow> Header go" where
  "Header_UnmarshalJSON b =
     go_bind (json_str b ''name'') (\<lambda>name.
     go_bind (json_uint16 b ''epoch_height'') (\<lambda>epoch.
     go_bind (json_uint16 b ''sector_size'') (\<lambda>size.
     go_bind (json_str b ''sector_tip_hash'') (\<lambda>tipS.
     go_bind (json_str b ''signature'') (\<lambda>sigS.
     go_bind (json_str b ''reserved_root'') (\<lambda>rootS.
     go_bind (json_time b ''epoch_start_at'') (\<lambda>startAt.
     go_bind (hex_DecodeString tipS) (\<lambda>mrB.
     go_bind (NewHashFromBytes mrB) (\<lambda>mr.
     go_bind (hex_DecodeString sigS) (\<lambda>sigB.
     go_bind (NewSignatureFromBytes sigB) (\<lambda>sig.
     go_bind (hex_DecodeString rootS) (\<lambda>rrB.
     go_bind (NewHashFromBytes rrB) (\<lambda>rr.
     Ok \<lparr>hd_Name = name, hd_EpochHeight = epoch, hd_SectorSize = size, hd_SectorTipHash = mr,
         hd_Signature = sig, hd_ReservedRoot = rr, hd_EpochStartAt = startAt\<rparr>)))))))))))))"

definition headersPrefix :: "string list \<Rightarrow> bytes" where
  "headersPrefix = Prefixer ''headers''"

definition headerCountKey :: bytes where
  "headerCountKey = Prefixer (string_of_bytes (headersPrefix [''count''])) []"

definition headerSectorHashesPrefix :: "string list \<Rightarrow> bytes" where
  "headerSectorHashesPrefix = Prefixer (string_of_bytes (headersPrefix [''sector-hashes'']))"

definition headerBanPrefix :: "string list \<Rightarrow> bytes" where
  "headerBanPrefix = Prefixer (string_of_bytes (headersPrefix [''banned'']))"

definition headerDataPrefix :: "string list \<Rightarrow> bytes" where
  "headerDataPrefix = Prefixer (string_of_bytes (headersPrefix [''header'']))"

definition GetHeaderCount :: "'d leveldb \<Rightarrow> 'd \<Rightarrow> int go" where
  "GetHeaderCount L db =
     go_bind (get_bytes L db headerCountKey ''error getting header count'')
       (\<lambda>res. case res of None \<Rightarrow> Ok 0 | Some b \<Rightarrow> mustDecodeInt b)"

text \<open>The mutex makes the read and the write one step; the absent counter reads as nil.\<close>

definition IncrementHeaderCount :: "'d leveldb \<Rightarrow> 'd \<Rightarrow> 'd \<times> unit go" where
  "IncrementHeaderCount L tx =
     (case go_bind (get_bytes L tx headerCountKey ''error getting header count'')
             (\<lambda>count. mustDecodeInt (case count of None \<Rightarrow> [] | Some b \<Rightarrow> b)) of
        Err e \<Rightarrow> (tx, Err e)
      | Panic p \<Rightarrow> (tx, Panic p)
      | Ok n \<Rightarrow>
          tx_do (ldb_Put L tx headerCountKey (VBytes (mustEncodeInt (n + 1))))
            ''error putting header count'' (\<lambda>tx. (tx, Ok ())))"

definition GetHeader :: "'d leveldb \<Rightarrow> 'd \<Rightarrow> string \<Rightarrow> Header go" where
  "GetHeader L db name =
     go_bind (go_wrap (go_of (ldb_Get L db (headerDataPrefix [name]))) ''error getting header data'')
       (mustUnmarshalJSON Header_UnmarshalJSON)"

definition GetSectorHashes :: "'d leveldb \<Rightarrow> 'd \<Rightarrow> string \<Rightarrow> SectorHashes go" where
  "GetSectorHashes L db name =
     go_bind (go_wrap (go_of (ldb_Get L db (headerSectorHashesPrefix [name]))) ''error getting sector hashes'')
       (\<lambda>x. go_bind (val_bytes x) (\<lambda>baseB.
          case SectorHashes_Decode baseB of
            Ok (base, _) \<Rightarrow> Ok base | Err e \<Rightarrow> Panic ''sector hashes'' | Panic p \<Rightarrow> Panic p))"

text \<open>
  The bounds check lets the index equal to the length through, and the error it returns past it
  wraps the nil \<open>err\<close>: no error and the zero hash.
\<close>

definition GetSectorHash :: "'d leveldb \<Rightarrow> 'd \<Rightarrow> string \<Rightarrow> uint16 \<Rightarrow> Hash go" where
  "GetSectorHash L db name index =
     go_bind (GetSectorHashes L db name) (\<lambda>hashes.
       if unat index > length hashes then
         (case errors_Wrap None ''error getting index'' of None \<Rightarrow> Ok ZeroHash | Some e \<Rightarrow> Err e)
       else if unat index < length hashes then Ok (hashes ! unat index)
       else Panic ''index out of range'')"

definition GetHeaderBan :: "'d leveldb \<Rightarrow> 'd \<Rightarrow> string \<Rightarrow> time go" where
  "GetHeaderBan L db name =
     go_bind (go_wrap (go_of (ldb_Has L db (headerBanPrefix [name]))) ''error checking header ban'')
       (\<lambda>exists.
          if \<not> exists then Ok time_zero
          else
            go_bind (go_wrap (go_of (ldb_Get L db (headerBanPrefix [name]))) ''error getting header ban'')
              (\<lambda>x. go_bind (val_bytes x) (\<lambda>b. go_bind (mustDecodeInt b) (\<lambda>ts. Ok (time_FromUnix ts)))))"

definition SetHeaderBan :: "'d leveldb \<Rightarrow> time \<Rightarrow> string \<Rightarrow> time \<Rightarrow> 'd \<Rightarrow> 'd \<times> unit go" where
  "SetHeaderBan L now name at tx =
     (let at' = (if time_IsZero at then now else at) in
      tx_do (ldb_Put L tx (headerBanPrefix [name]) (VBytes (mustEncodeInt (time_Unix at'))))
        ''error writing header tree'' (\<lambda>tx. (tx, Ok ())))"

definition SetHeaderTx :: "'d leveldb \<Rightarrow> Header \<Rightarrow> SectorHashes \<Rightarrow> 'd \<Rightarrow> 'd \<times> unit go" where
  "SetHeaderTx L header sectorHashes tx =
     (case SectorHashes_Encode sectorHashes of
        (buf, Some e) \<Rightarrow> (tx, Err (ErrWrap e ''error encoding sector hashes''))
      | (buf, None) \<Rightarrow>
          (case ldb_Has L tx (headerDataPrefix [hd_Name header]) of
             Inl e \<Rightarrow> (tx, Err (ErrWrap e ''error checking header existence''))
           | Inr exists \<Rightarrow>
               tx_do (ldb_Put L tx (headerSectorHashesPrefix [hd_Name header]) (VBytes buf))
                 ''error writing sector hashes'' (\<lambda>tx.
               tx_put_json L (headerDataPrefix [hd_Name header]) (Header_MarshalJSON header)
                 ''error writing header tree'' tx (\<lambda>tx.
               if \<not> exists then tx_wrap (IncrementHeaderCount L tx) ''error incrementing header count''
               else (tx, Ok ())))))"

section \<open>Blob information\<close>

record 'pk BlobInfo =
  bi_Name :: string
  bi_PublicKey :: 'pk
  bi_ImportHeight :: int
  bi_EpochHeight :: uint16
  bi_SectorSize :: uint16
  bi_SectorTipHash :: Hash
  bi_Signature :: Signature
  bi_ReservedRoot :: Hash
  bi_ReceivedAt :: time
  bi_BannedAt :: time

definition BlobInfo_MarshalJSON :: "('pk, 'sk) btcec \<Rightarrow> 'pk BlobInfo \<Rightarrow> doc" where
  "BlobInfo_MarshalJSON ec b =
     [(''name'', JStr (bi_Name b)),
      (''public_key'', JStr (hex_EncodeToString (ec_SerializeCompressed ec (bi_PublicKey b)))),
      (''import_height'', JNum (bi_ImportHeight b)),
      (''epoch_height'', JNum (uint (bi_EpochHeight b))),
      (''sector_size'', JNum (uint (bi_SectorSize b))),
      (''sector_tip_hash'', JStr (hex_EncodeToString (bi_SectorTipHash b))),
      (''signature'', JStr (hex_EncodeToString (bi_Signature b))),
      (''reserved_root'', JStr (hex_EncodeToString (bi_ReservedRoot b))),
      (''received_at'', JTime (bi_ReceivedAt b)),
      (''banned_at'', JTime (bi_BannedAt b))]"

fun BlobInfoStream_Next ::
  "'d leveldb \<Rightarrow> ('pk, 'sk) btcec \<Rightarrow> 'd \<Rightarrow> (bytes \<times> dbval) list
     \<Rightarrow> 'pk BlobInfo option go \<times> (bytes \<times> dbval) list" where
  "BlobInfoStream_Next L ec db [] = (Ok None, [])"
| "BlobInfoStream_Next L ec db ((k, x) # it) =
     (go_bind (mustUnmarshalJSON Header_UnmarshalJSON x) (\<lambda>header.
      go_bind (go_wrap (GetNameInfo L ec db (hd_Name header)) ''error getting name info'') (\<lambda>nameInfo.
      go_bind (go_wrap (GetHeaderBan L db (hd_Name header)) ''error getting header ban info'') (\<lambda>bannedAt.
      Ok (Some
        \<lparr>bi_Name = hd_Name header, bi_PublicKey = ni_PublicKey nameInfo,
         bi_ImportHeight = ni_ImportHeight nameInfo, bi_EpochHeight = hd_EpochHeight header,
         bi_SectorSize = hd_SectorSize header, bi_SectorTipHash = hd_SectorTipHash header,
         bi_Signature = hd_Signature header, bi_ReservedRoot = hd_ReservedRoot header,
         bi_ReceivedAt = hd_EpochStartAt header, bi_BannedAt = bannedAt\<rparr>)))), it)"

definition StreamBlobInfo :: "'d leveldb \<Rightarrow> 'd \<Rightarrow> string \<Rightarrow> db_iter" where
  "StreamBlobInfo L db start =
     (if start = [] then ldb_PrefixIterator L db (headerDataPrefix [])
      else ldb_RangeIterator L db (bump_last (headerDataPrefix [start]))
             (headerDataPrefix [string_of_bytes [255]]))"

section \<open>Truncation\<close>

definition TruncateHeaderName :: "'d leveldb \<Rightarrow> 'd \<Rightarrow> string \<Rightarrow> 'd \<times> unit go" where
  "TruncateHeaderName L db name =
     tx_wrap
       (WithTx L db (\<lambda>tx.
          tx_do (ldb_Delete L tx (headerDataPrefix [name])) ''error deleting header store key''
            (\<lambda>tx. (tx, Ok ()))))
       ''error truncating header store''"

definition TruncateHeaderStore :: "'d leveldb \<Rightarrow> 'd \<Rightarrow> 'd \<times> unit go" where
  "TruncateHeaderStore L db =
     tx_wrap
       (WithTx L db (\<lambda>tx.
          DeleteLoop L ''error deleting header store key'' (fst (ldb_PrefixIterator L tx (headersPrefix []))) tx))
       ''error truncating header store''"

section \<open>Lemmas\<close>

definition header_wf :: "Header \<Rightarrow> bool" where
  "header_wf h \<longleftrightarrow>
     hash_wf (hd_SectorTipHash h) \<and> sig_wf (hd_Signature h) \<and> hash_wf (hd_ReservedRoot h)
     \<and> time_json_ok (hd_EpochStartAt h)"

lemma Header_JSON_roundtrip:
  assumes "header_wf h"
  shows "Header_UnmarshalJSON (doc_clean (Header_MarshalJSON h)) = Ok (h\<lparr>hd_Name := json_string (hd_Name h)\<rparr>)"
  using assms
  by (simp add: Header_UnmarshalJSON_def Header_MarshalJSON_def json_eval go_simps header_wf_def
      NewHashFromBytes_Ok NewSignatureFromBytes_Ok Hash_String_def Signature_String_def)

lemma jval_ok_Header: "header_wf h \<Longrightarrow> list_all (jval_ok \<circ> snd) (Header_MarshalJSON h)"
  by (simp add: Header_MarshalJSON_def header_wf_def)

end
