(* ===== verification/Store_Peers.thy ===== *)
theory Store_Peers
  imports Store_Headers
begin

text \<open>
  Known peers, their bans and the whitelist in the database: \<open>store/peers.go\<close>.  The clock is the
  argument \<open>now\<close>.
\<close>

section \<open>Peers\<close>

record storePeer =
  sp_ID :: Hash
  sp_IP :: string
  sp_LastSeen :: time
  sp_Verify :: bool
  sp_InboundBannedUntil :: time
  sp_OutboundBannedUntil :: time
  sp_Whitelisted :: bool

definition storePeer_MarshalJSON :: "storePeer \<Rightarrow> doc" where
  "storePeer_MarshalJSON p =
     [(''peer_id'', JStr (Hash_String (sp_ID p))), (''ip'', JStr (sp_IP p)),
      (''last_seen'', JTime (sp_LastSeen p)), (''verify'', JBool (sp_Verify p))]"

text \<open>The receiver is a fresh \<open>Peer\<close>: the fields that are not in the document stay zero.\<close>

definition storePeer_UnmarshalJSON :: "doc \<Rightarrow> storePeer go" where
  "storePeer_UnmarshalJSON b =
     go_bind (json_str b ''peer_id'') (\<lambda>idS.
     go_bind (json_str b ''ip'') (\<lambda>ip.
     go_bind (json_time b ''last_seen'') (\<lambda>lastSeen.
     go_bind (json_bool b ''verify'') (\<lambda>verify.
     go_bind (hex_DecodeString idS) (\<lambda>idB.
     go_bind (NewHashFromBytes idB) (\<lambda>hash.
     Ok \<lparr>sp_ID = hash, sp_IP = ip, sp_LastSeen = lastSeen, sp_Verify = verify,
         sp_InboundBannedUntil = time_zero, sp_OutboundBannedUntil = time_zero,
         sp_Whitelisted = False\<rparr>))))))"

definition storePeer_IsBanned :: "time \<Rightarrow> storePeer \<Rightarrow> bool" where
  "storePeer_IsBanned now p \<longleftrightarrow>
     \<not> sp_Whitelisted p \<and> (sp_InboundBannedUntil p > now \<or> sp_OutboundBannedUntil p > now)"

definition peersPrefix :: "string list \<Rightarrow> bytes" where
  "peersPrefix = Prefixer ''peers''"

definition peerDataPrefix :: "string list \<Rightarrow> bytes" where
  "peerDataPrefix = Prefixer (string_of_bytes (peersPrefix [''peer'']))"

definition peerInBanPrefix :: "string list \<Rightarrow> bytes" where
  "peerInBanPrefix = Prefixer (string_of_bytes (peersPrefix [''inbound-ban'']))"

definition peerOutBanPrefix :: "string list \<Rightarrow> bytes" where
  "peerOutBanPrefix = Prefixer (string_of_bytes (peersPrefix [''outbound-ban'']))"

definition whitelistPrefix :: "string list \<Rightarrow> bytes" where
  "whitelistPrefix = Prefixer (string_of_bytes (peersPrefix [''whitelist'']))"

definition SetPeerTx :: "'d leveldb \<Rightarrow> time \<Rightarrow> Hash \<Rightarrow> string \<Rightarrow> bool \<Rightarrow> 'd \<Rightarrow> 'd \<times> unit go" where
  "SetPeerTx L now pid ip verify tx =
     tx_put_json L (peerDataPrefix [Hash_String pid])
       (storePeer_MarshalJSON
         \<lparr>sp_ID = pid, sp_IP = ip, sp_LastSeen = now, sp_Verify = verify,
          sp_InboundBannedUntil = time_zero, sp_OutboundBannedUntil = time_zero, sp_Whitelisted = False\<rparr>)
       ''error writing peer'' tx (\<lambda>tx. (tx, Ok ()))"

definition SetPeer :: "'d leveldb \<Rightarrow> time \<Rightarrow> 'd \<Rightarrow> Hash \<Rightarrow> string \<Rightarrow> bool \<Rightarrow> 'd \<times> unit go" where
  "SetPeer L now db pid ip verify = WithTx L db (SetPeerTx L now pid ip verify)"

text \<open>
  One entry of a stream with its ban state.  Each of the two ban keys is read as nil when it is
  absent.
\<close>

definition PeerStream_entry :: "'d leveldb \<Rightarrow> 'd \<Rightarrow> dbval \<Rightarrow> storePeer go" where
  "PeerStream_entry L db x =
     go_bind (mustUnmarshalJSON storePeer_UnmarshalJSON x) (\<lambda>peer.
     go_bind (get_bytes L db (peerInBanPrefix [sp_IP peer])
                ''error getting inbound ban state during stream'') (\<lambda>inRes.
     go_bind (get_bytes L db (peerOutBanPrefix [sp_IP peer])
                ''error getting outbound ban state during stream'') (\<lambda>outRes.
     go_bind (go_wrap (go_of (ldb_Has L db (whitelistPrefix [sp_IP peer])))
                ''error getting whitelist state during stream'') (\<lambda>whitelisted.
     go_bind (mustDecodeTime inRes) (\<lambda>inUntil.
     go_bind (mustDecodeTime outRes) (\<lambda>outUntil.
     Ok (peer\<lparr>sp_InboundBannedUntil := inUntil, sp_OutboundBannedUntil := outUntil,
              sp_Whitelisted := whitelisted\<rparr>)))))))"

text \<open>\<open>Next\<close> skips banned peers by calling itself, unless the stream includes them.\<close>

fun PeerStream_Next ::
  "'d leveldb \<Rightarrow> time \<Rightarrow> bool \<Rightarrow> 'd \<Rightarrow> (bytes \<times> dbval) list
     \<Rightarrow> storePeer option go \<times> (bytes \<times> dbval) list" where
  "PeerStream_Next L now includeBanned db [] = (Ok None, [])"
| "PeerStream_Next L now includeBanned db ((k, x) # it) =
     (case PeerStream_entry L db x of
        Err e \<Rightarrow> (Err e, it)
      | Panic p \<Rightarrow> (Panic p, it)
      | Ok peer \<Rightarrow>
          if \<not> includeBanned \<and> storePeer_IsBanned now peer then PeerStream_Next L now includeBanned db it
          else (Ok (Some peer), it))"

definition StreamPeers :: "'d leveldb \<Rightarrow> 'd \<Rightarrow> db_iter" where
  "StreamPeers L db = ldb_PrefixIterator L db (peerDataPrefix [])"

section \<open>Bans and the whitelist\<close>

definition BanOutboundPeerTx :: "'d leveldb \<Rightarrow> time \<Rightarrow> string \<Rightarrow> duration \<Rightarrow> 'd \<Rightarrow> 'd \<times> unit go" where
  "BanOutboundPeerTx L now ip duration tx =
     tx_do (ldb_Put L tx (peerOutBanPrefix [ip]) (VBytes (encodeTime (now + duration))))
       ''error putting outbound ban'' (\<lambda>tx. (tx, Ok ()))"

definition BanOutboundPeer :: "'d leveldb \<Rightarrow> time \<Rightarrow> 'd \<Rightarrow> string \<Rightarrow> duration \<Rightarrow> 'd \<times> unit go" where
  "BanOutboundPeer L now db ip duration = WithTx L db (BanOutboundPeerTx L now ip duration)"

definition BanInboundPeerTx :: "'d leveldb \<Rightarrow> time \<Rightarrow> string \<Rightarrow> duration \<Rightarrow> 'd \<Rightarrow> 'd \<times> unit go" where
  "BanInboundPeerTx L now ip duration tx =
     tx_do (ldb_Put L tx (peerInBanPrefix [ip]) (VBytes (encodeTime (now + duration))))
       ''erorr putting inbound ban'' (\<lambda>tx. (tx, Ok ()))"

definition BanInboundPeer :: "'d leveldb \<Rightarrow> time \<Rightarrow> 'd \<Rightarrow> string \<Rightarrow> duration \<Rightarrow> 'd \<times> unit go" where
  "BanInboundPeer L now db ip duration = WithTx L db (BanInboundPeerTx L now ip duration)"

definition UnbanOutboundPeerTx :: "'d leveldb \<Rightarrow> string \<Rightarrow> 'd \<Rightarrow> 'd \<times> unit go" where
  "UnbanOutboundPeerTx L ip tx =
     (case ldb_Has L tx (peerOutBanPrefix [ip]) of
        Inl e \<Rightarrow> (tx, Err (ErrWrap e ''error checking for inbound ban existence''))
      | Inr has \<Rightarrow>
          if \<not> has then (tx, Ok ())
          else tx_do (ldb_Delete L tx (peerOutBanPrefix [ip])) ''error deleting outbound ban'' (\<lambda>tx. (tx, Ok ())))"

definition UnbanInboundPeerTx :: "'d leveldb \<Rightarrow> string \<Rightarrow> 'd \<Rightarrow> 'd \<times> unit go" where
  "UnbanInboundPeerTx L ip tx =
     (case ldb_Has L tx (peerInBanPrefix [ip]) of
        Inl e \<Rightarrow> (tx, Err (ErrWrap e ''error checking for inbound ban existence''))
      | Inr has \<Rightarrow>
          if \<not> has then (tx, Ok ())
          else tx_do (ldb_Delete L tx (peerInBanPrefix [ip])) ''error deleting outbound ban'' (\<lambda>tx. (tx, Ok ())))"

definition WhitelistPeerTx :: "'d leveldb \<Rightarrow> string \<Rightarrow> 'd \<Rightarrow> 'd \<times> unit go" where
  "WhitelistPeerTx L ip tx =
     tx_do (ldb_Put L tx (whitelistPrefix [ip]) (VBytes [1])) ''error whitelisting peer'' (\<lambda>tx. (tx, Ok ()))"

definition UnwhitelistPeerTx :: "'d leveldb \<Rightarrow> string \<Rightarrow> 'd \<Rightarrow> 'd \<times> unit go" where
  "UnwhitelistPeerTx L ip tx =
     (case ldb_Has L tx (whitelistPrefix [ip]) of
        Inl e \<Rightarrow> (tx, Err (ErrWrap e ''error checking whitelist state''))
      | Inr whitelisted \<Rightarrow>
          if \<not> whitelisted then (tx, Ok ())
          else tx_do (ldb_Delete L tx (whitelistPrefix [ip])) ''error unwhitelisting peer'' (\<lambda>tx. (tx, Ok ())))"

text \<open>Whether connections from and to the address are banned.\<close>

definition IsBanned :: "'d leveldb \<Rightarrow> time \<Rightarrow> 'd \<Rightarrow> string \<Rightarrow> (bool \<times> bool) go" where
  "IsBanned L now db ip =
     go_bind (go_wrap (go_of (ldb_Has L db (whitelistPrefix [ip]))) ''error getting whitelist state'')
       (\<lambda>whitelisted.
          if whitelisted then Ok (False, False)
          else
            go_bind (get_bytes L db (peerInBanPrefix [ip]) ''error getting inbound ban state'') (\<lambda>inRes.
            go_bind (get_bytes L db (peerOutBanPrefix [ip]) ''error getting outbound ban state'') (\<lambda>outRes.
            go_bind (mustDecodeTime inRes) (\<lambda>inUntil.
            go_bind (mustDecodeTime outRes) (\<lambda>outUntil.
            Ok (inUntil > now, outUntil > now))))))"

definition TruncatePeerStore :: "'d leveldb \<Rightarrow> 'd \<Rightarrow> 'd \<times> unit go" where
  "TruncatePeerStore L db =
     tx_wrap
       (WithTx L db (\<lambda>tx.
          DeleteLoop L ''error deleting peer store key'' (fst (ldb_PrefixIterator L tx (peersPrefix []))) tx))
       ''error truncating peer store''"

section \<open>Lemmas\<close>

lemma storePeer_JSON_roundtrip:
  assumes "hash_wf (sp_ID p)"
  shows "storePeer_UnmarshalJSON (doc_clean (storePeer_MarshalJSON p)) =
    Ok \<lparr>sp_ID = sp_ID p, sp_IP = json_string (sp_IP p), sp_LastSeen = sp_LastSeen p,
        sp_Verify = sp_Verify p, sp_InboundBannedUntil = time_zero,
        sp_OutboundBannedUntil = time_zero, sp_Whitelisted = False\<rparr>"
  using assms
  by (simp add: storePeer_UnmarshalJSON_def storePeer_MarshalJSON_def json_eval go_simps
      NewHashFromBytes_Ok Hash_String_def)

lemma jval_ok_storePeer: "time_json_ok (sp_LastSeen p) \<Longrightarrow> list_all (jval_ok \<circ> snd) (storePeer_MarshalJSON p)"
  by (simp add: storePeer_MarshalJSON_def)

end
