(* ===== verification/Store_Schema.thy ===== *)
theory Store_Schema
  imports Store_Peers
begin

text \<open>
  What the database of package \<open>store\<close> looks like: which kind of value each key prefix holds, that
  every write of the package keeps to it whatever fails, and so that no read panics.  Then the
  contracts of headers, bans and streams.
\<close>

section \<open>The schema\<close>

datatype vkind = KInt | KCount | KFlag | KTime | KName | KHeader | KHashes | KPeer | KProof

definition schema :: "(bytes \<times> vkind) list" where
  "schema =
     [(lastNameImportHeightKey, KInt), (initialImportCompleteKey, KFlag), (nameDataPrefix [], KName),
      (lastBanListImportAtKey, KTime), (banPrefix [], KFlag), (equivocationProofsPrefix [], KProof),
      (headerCountKey, KCount), (headerSectorHashesPrefix [], KHashes), (headerBanPrefix [], KInt),
      (headerDataPrefix [], KHeader), (peerDataPrefix [], KPeer), (peerInBanPrefix [], KTime),
      (peerOutBanPrefix [], KTime), (whitelistPrefix [], KFlag)]"

fun val_ok :: "('pk, 'sk) btcec \<Rightarrow> nat \<Rightarrow> vkind \<Rightarrow> dbval \<Rightarrow> bool" where
  "val_ok ec n KInt x = (\<exists>i. 0 \<le> i \<and> i < 2 ^ 31 \<and> x = VBytes (mustEncodeInt i))"
| "val_ok ec n KCount x = (\<exists>i. 0 \<le> i \<and> i \<le> int n \<and> x = VBytes (mustEncodeInt i))"
| "val_ok ec n KFlag x = (x = VBytes [1])"
| "val_ok ec n KTime x = (\<exists>t. 0 \<le> t \<and> time_Unix t < 2 ^ 63 \<and> x = VBytes (encodeTime t))"
| "val_ok ec n KName x =
     (\<exists>i. - (2 ^ 63) \<le> ni_ImportHeight i \<and> ni_ImportHeight i < 2 ^ 63
        \<and> x = VJson (doc_clean (NameInfo_MarshalJSON ec i)))"
| "val_ok ec n KHeader x = (\<exists>h. header_wf h \<and> x = VJson (doc_clean (Header_MarshalJSON h)))"
| "val_ok ec n KHashes x =
     (\<exists>hs. length hs = MaxSectors \<and> list_all hash_wf hs \<and> x = VBytes (concat hs))"
| "val_ok ec n KPeer x = (\<exists>p. hash_wf (sp_ID p) \<and> x = VJson (doc_clean (storePeer_MarshalJSON p)))"
| "val_ok ec n KProof x = (\<exists>b. x = VBytes b)"

text \<open>The counter of headers is bounded by the number \<open>n\<close> of writes.\<close>

definition typed :: "('pk, 'sk) btcec \<Rightarrow> nat \<Rightarrow> (bytes \<Rightarrow> dbval option) \<Rightarrow> bool" where
  "typed ec n m \<longleftrightarrow>
     (\<forall>p kd k x. (p, kd) \<in> set schema \<longrightarrow> prefix p k \<longrightarrow> m k = Some x \<longrightarrow> val_ok ec n kd x)"

lemmas key_defs = lastNameImportHeightKey_def initialImportCompleteKey_def namesPrefix_def
  nameDataPrefix_def lastBanListImportAtKey_def bansPrefix_def banPrefix_def
  equivocationProofsPrefix_def headersPrefix_def headerCountKey_def headerSectorHashesPrefix_def
  headerBanPrefix_def headerDataPrefix_def peersPrefix_def peerDataPrefix_def peerInBanPrefix_def
  peerOutBanPrefix_def whitelistPrefix_def

lemma prefix_bytes_of_string [simp]: "prefix (bytes_of_string s) (bytes_of_string t) \<longleftrightarrow> prefix s t"
proof
  assume "prefix (bytes_of_string s) (bytes_of_string t)"
  then obtain r where "bytes_of_string t = bytes_of_string s @ r" by (auto simp: prefix_def)
  then have "string_of_bytes (bytes_of_string t) = string_of_bytes (bytes_of_string s @ r)" by simp
  then have "t = s @ string_of_bytes r"
    using string_of_bytes_of_string [of s] string_of_bytes_of_string [of t]
    by (simp only: string_of_bytes_def map_append)
  then show "prefix s t" by simp
next
  assume "prefix s t"
  then show "prefix (bytes_of_string s) (bytes_of_string t)" by (auto simp: prefix_def bytes_of_string_append)
qed

lemma schema_incomparable:
  assumes "(p, a) \<in> set schema" "(q, b) \<in> set schema" "prefix p q"
  shows "p = q \<and> a = b"
proof -
  have "list_all (\<lambda>(p, a). list_all (\<lambda>(q, b). prefix p q \<longrightarrow> p = q \<and> a = b) schema) schema"
    by (simp add: schema_def key_defs Prefixer_def)
  with assms show ?thesis by (auto simp: list_all_iff)
qed

lemma typed_put:
  assumes "typed ec n m" "(p, kd) \<in> set schema" "prefix p k" "val_ok ec n kd x"
  shows "typed ec n (m(k \<mapsto> x))"
  unfolding typed_def
proof (intro allI impI)
  fix q b k' x'
  assume q: "(q, b) \<in> set schema" "prefix q k'" and x': "(m(k \<mapsto> x)) k' = Some x'"
  show "val_ok ec n b x'"
  proof (cases "k' = k")
    case True
    then have "prefix p q \<or> prefix q p" using assms(3) q(2) prefix_same_cases by blast
    then have "b = kd" using schema_incomparable assms(2) q(1) by blast
    then show ?thesis using True x' assms(4) by simp
  next
    case False
    then show ?thesis using assms(1) q x' unfolding typed_def by simp
  qed
qed

lemma typed_sub: "typed ec n m \<Longrightarrow> m' \<subseteq>\<^sub>m m \<Longrightarrow> typed ec n m'"
  unfolding typed_def map_le_def by (metis domI)

lemma val_ok_mono: "val_ok ec n kd x \<Longrightarrow> n \<le> n' \<Longrightarrow> val_ok ec n' kd x"
  by (cases kd) auto

lemma typed_mono: "typed ec n m \<Longrightarrow> n \<le> n' \<Longrightarrow> typed ec n' m"
  unfolding typed_def using val_ok_mono by blast

lemma typed_get:
  assumes "typed ec n m" "(p, kd) \<in> set schema" "prefix p k" "m k = Some x"
  shows "val_ok ec n kd x"
  using assms unfolding typed_def by blast

section \<open>Runs\<close>

text \<open>
  A transaction callback of the program is a sequence of the package's writes, left at the first
  one that does not succeed.  \<open>op_ok\<close> is what the callers provide: well-formed headers and hashes,
  heights and ban times that a 31-bit integer holds, instants after 1970.
\<close>

datatype 'pk store_op =
    OpName string 'pk int | OpImportHeight int | OpImportComplete | OpBanListAt time
  | OpBanName string | OpTruncateBans | OpProof string EquivocationProof
  | OpHeader Header SectorHashes | OpHeaderBan string time | OpPeer Hash string bool
  | OpBanOut string duration | OpBanIn string duration | OpUnbanOut string | OpUnbanIn string
  | OpWhitelist string | OpUnwhitelist string

fun op_cb :: "'d leveldb \<Rightarrow> ('pk, 'sk) btcec \<Rightarrow> time \<Rightarrow> 'pk store_op \<Rightarrow> 'd \<Rightarrow> 'd \<times> unit go" where
  "op_cb L ec now (OpName s pk h) = SetNameInfoTx L ec s pk h"
| "op_cb L ec now (OpImportHeight h) = SetLastNameImportHeightTx L h"
| "op_cb L ec now OpImportComplete = SetInitialImportCompleteTx L"
| "op_cb L ec now (OpBanListAt t) = SetLastBanListImportAt L t"
| "op_cb L ec now (OpBanName s) = BanName L s"
| "op_cb L ec now OpTruncateBans = TruncateBannedNames L"
| "op_cb L ec now (OpProof s p) = SetEquivocationProofTx L ec s p"
| "op_cb L ec now (OpHeader h hs) = SetHeaderTx L h hs"
| "op_cb L ec now (OpHeaderBan s t) = SetHeaderBan L now s t"
| "op_cb L ec now (OpPeer i ip b) = SetPeerTx L now i ip b"
| "op_cb L ec now (OpBanOut ip d) = BanOutboundPeerTx L now ip d"
| "op_cb L ec now (OpBanIn ip d) = BanInboundPeerTx L now ip d"
| "op_cb L ec now (OpUnbanOut ip) = UnbanOutboundPeerTx L ip"
| "op_cb L ec now (OpUnbanIn ip) = UnbanInboundPeerTx L ip"
| "op_cb L ec now (OpWhitelist ip) = WhitelistPeerTx L ip"
| "op_cb L ec now (OpUnwhitelist ip) = UnwhitelistPeerTx L ip"

definition i31 :: "int \<Rightarrow> bool" where
  "i31 i \<longleftrightarrow> 0 \<le> i \<and> i < 2 ^ 31"

definition after1970 :: "time \<Rightarrow> bool" where
  "after1970 t \<longleftrightarrow> 0 \<le> t \<and> time_Unix t < 2 ^ 63"

fun op_ok :: "time \<Rightarrow> 'pk store_op \<Rightarrow> bool" where
  "op_ok now (OpName s pk h) = (- (2 ^ 63) \<le> h \<and> h < 2 ^ 63)"
| "op_ok now (OpImportHeight h) = i31 h"
| "op_ok now (OpBanListAt t) = after1970 t"
| "op_ok now (OpHeader h hs) = (header_wf h \<and> length hs = MaxSectors \<and> list_all hash_wf hs)"
| "op_ok now (OpHeaderBan s t) = i31 (time_Unix (if time_IsZero t then now else t))"
| "op_ok now (OpPeer i ip b) = (hash_wf i \<and> time_json_ok now)"
| "op_ok now (OpBanOut ip d) = after1970 (now + d)"
| "op_ok now (OpBanIn ip d) = after1970 (now + d)"
| "op_ok now _ = True"

fun ops_cb :: "'d leveldb \<Rightarrow> ('pk, 'sk) btcec \<Rightarrow> time \<Rightarrow> 'pk store_op list \<Rightarrow> 'd \<Rightarrow> 'd \<times> unit go" where
  "ops_cb L ec now [] tx = (tx, Ok ())"
| "ops_cb L ec now (op # ops) tx =
     (case op_cb L ec now op tx of (tx', Ok _) \<Rightarrow> ops_cb L ec now ops tx' | r \<Rightarrow> r)"

inductive store_run ::
  "'d leveldb \<Rightarrow> ('d \<Rightarrow> bytes \<Rightarrow> dbval option) \<Rightarrow> ('pk, 'sk) btcec \<Rightarrow> nat \<Rightarrow> 'd \<Rightarrow> bool"
  for L v ec where
  fresh: "v db = (\<lambda>_. None) \<Longrightarrow> store_run L v ec 0 db"
| commit: "\<lbrakk>store_run L v ec n db; list_all (op_ok now) ops; WithTx L db (ops_cb L ec now ops) = (db', r)\<rbrakk>
    \<Longrightarrow> store_run L v ec (n + length ops) db'"
| names: "\<lbrakk>store_run L v ec n db; TruncateNameStore L db = (db', r)\<rbrakk> \<Longrightarrow> store_run L v ec n db'"
| headers: "\<lbrakk>store_run L v ec n db; TruncateHeaderStore L db = (db', r)\<rbrakk> \<Longrightarrow> store_run L v ec n db'"
| header: "\<lbrakk>store_run L v ec n db; TruncateHeaderName L db s = (db', r)\<rbrakk> \<Longrightarrow> store_run L v ec n db'"
| peers: "\<lbrakk>store_run L v ec n db; TruncatePeerStore L db = (db', r)\<rbrakk> \<Longrightarrow> store_run L v ec n db'"

section \<open>Writes keep the schema\<close>

named_theorems schema_intros \<open>writes that keep the schema\<close>

text \<open>The schema entry of every key the package writes.\<close>

lemma schema_keys [simp]:
  "(lastNameImportHeightKey, KInt) \<in> set schema" "(initialImportCompleteKey, KFlag) \<in> set schema"
  "(nameDataPrefix [], KName) \<in> set schema" "(lastBanListImportAtKey, KTime) \<in> set schema"
  "(banPrefix [], KFlag) \<in> set schema" "(equivocationProofsPrefix [], KProof) \<in> set schema"
  "(headerCountKey, KCount) \<in> set schema" "(headerSectorHashesPrefix [], KHashes) \<in> set schema"
  "(headerBanPrefix [], KInt) \<in> set schema" "(headerDataPrefix [], KHeader) \<in> set schema"
  "(peerDataPrefix [], KPeer) \<in> set schema" "(peerInBanPrefix [], KTime) \<in> set schema"
  "(peerOutBanPrefix [], KTime) \<in> set schema" "(whitelistPrefix [], KFlag) \<in> set schema"
  by (simp_all add: schema_def)

lemma prefix_keys [simp]:
  "prefix (nameDataPrefix []) (nameDataPrefix xs)" "prefix (banPrefix []) (banPrefix xs)"
  "prefix (equivocationProofsPrefix []) (equivocationProofsPrefix xs)"
  "prefix (headerSectorHashesPrefix []) (headerSectorHashesPrefix xs)"
  "prefix (headerBanPrefix []) (headerBanPrefix xs)" "prefix (headerDataPrefix []) (headerDataPrefix xs)"
  "prefix (peerDataPrefix []) (peerDataPrefix xs)" "prefix (peerInBanPrefix []) (peerInBanPrefix xs)"
  "prefix (peerOutBanPrefix []) (peerOutBanPrefix xs)" "prefix (whitelistPrefix []) (whitelistPrefix xs)"
  by (simp_all add: nameDataPrefix_def banPrefix_def equivocationProofsPrefix_def
      headerSectorHashesPrefix_def headerBanPrefix_def headerDataPrefix_def peerDataPrefix_def
      peerInBanPrefix_def peerOutBanPrefix_def whitelistPrefix_def prefix_Prefixer)

text \<open>
  A callback step keeps the schema from \<open>n\<close> to \<open>n'\<close> writes, whether or not it succeeds, and does
  not panic.
\<close>

definition keeps ::
  "('d \<Rightarrow> bytes \<Rightarrow> dbval option) \<Rightarrow> ('pk, 'sk) btcec \<Rightarrow> nat \<Rightarrow> nat \<Rightarrow> ('d \<Rightarrow> 'd \<times> 'a go) \<Rightarrow> bool" where
  "keeps v ec n n' f \<longleftrightarrow>
     (\<forall>tx. typed ec n (v tx) \<longrightarrow> typed ec n' (v (fst (f tx))) \<and> \<not> is_panic (snd (f tx)))"

lemma keeps_return [schema_intros]: "keeps v ec n n (\<lambda>tx. (tx, Ok x))"
  by (simp add: keeps_def)

lemma keeps_put:
  assumes laws: "leveldb_laws L v" and k: "(p, kd) \<in> set schema" "prefix p k" and x: "val_ok ec n kd x"
    and cont: "keeps v ec n n' cont" and le: "n \<le> n'"
  shows "keeps v ec n n' (\<lambda>tx. tx_do (ldb_Put L tx k x) msg cont)"
  unfolding keeps_def
proof (intro allI impI)
  fix tx assume t: "typed ec n (v tx)"
  obtain d e where put: "ldb_Put L tx k x = (d, e)" by fastforce
  have "typed ec n (v d)"
    using leveldb_lawsD(4) [OF laws put] t typed_put [OF t k x] by (simp split: if_splits)
  then show "typed ec n' (v (fst (tx_do (ldb_Put L tx k x) msg cont)))
      \<and> \<not> is_panic (snd (tx_do (ldb_Put L tx k x) msg cont))"
    using cont le by (cases e) (auto simp: put tx_do_cases keeps_def intro: typed_mono)
qed

lemma keeps_delete:
  assumes laws: "leveldb_laws L v" and cont: "keeps v ec n n cont"
  shows "keeps v ec n n (\<lambda>tx. tx_do (ldb_Delete L tx k) msg cont)"
  unfolding keeps_def
proof (intro allI impI)
  fix tx assume t: "typed ec n (v tx)"
  obtain d e where del: "ldb_Delete L tx k = (d, e)" by fastforce
  have "v d \<subseteq>\<^sub>m v tx" using leveldb_lawsD(5) [OF laws del] by (auto simp: map_le_def)
  then have "typed ec n (v d)" by (rule typed_sub [OF t])
  then show "typed ec n (v (fst (tx_do (ldb_Delete L tx k) msg cont)))
      \<and> \<not> is_panic (snd (tx_do (ldb_Delete L tx k) msg cont))"
    using cont by (cases e) (auto simp: del tx_do_cases keeps_def)
qed

lemma keeps_put_json:
  assumes "leveldb_laws L v" "(p, kd) \<in> set schema" "prefix p k" "list_all (jval_ok \<circ> snd) d"
    "val_ok ec n kd (VJson (doc_clean d))" "keeps v ec n n' cont" "n \<le> n'"
  shows "keeps v ec n n' (\<lambda>tx. tx_put_json L k d msg tx cont)"
  using assms by (simp add: tx_put_json_def mustMarshalJSON_Ok keeps_put)

lemma keeps_has_delete:
  assumes "leveldb_laws L v"
  shows "keeps v ec n n (\<lambda>tx. case ldb_Has L tx k of
      Inl e \<Rightarrow> (tx, Err (ErrWrap e m1))
    | Inr has \<Rightarrow> if \<not> has then (tx, Ok ()) else tx_do (ldb_Delete L tx k) m2 (\<lambda>tx. (tx, Ok ())))"
  using keeps_delete [OF assms keeps_return, of ec n k m2 "()"]
  by (auto simp: keeps_def split: sum.splits)

lemma keeps_DeleteLoop:
  assumes "leveldb_laws L v"
  shows "keeps v ec n n (\<lambda>tx. DeleteLoop L msg (f tx) tx)"
  unfolding keeps_def by (metis DeleteLoop_sub [OF assms] prod.collapse typed_sub)

lemma keeps_IncrementHeaderCount:
  assumes laws: "leveldb_laws L v" and n: "n < 2 ^ 31"
  shows "keeps v ec n (Suc n) (IncrementHeaderCount L)"
  unfolding keeps_def
proof (intro allI impI)
  fix tx assume t: "typed ec n (v tx)"
  show "typed ec (Suc n) (v (fst (IncrementHeaderCount L tx))) \<and> \<not> is_panic (snd (IncrementHeaderCount L tx))"
  proof (cases "go_bind (get_bytes L tx headerCountKey ''error getting header count'')
             (\<lambda>count. mustDecodeInt (case count of None \<Rightarrow> [] | Some b \<Rightarrow> b))")
    case (Ok c)
    then have "0 \<le> c \<and> c \<le> int n"
      using typed_get [OF t, of headerCountKey KCount headerCountKey] leveldb_lawsD(1) [OF laws] n
      by (auto simp: get_bytes_def go_simps mustDecodeInt_def [of "[]"] split: sum.splits if_splits)
    then have "val_ok ec (Suc n) KCount (VBytes (mustEncodeInt (c + 1)))"
      by (auto intro!: exI [of _ "c + 1"])
    then have "keeps v ec (Suc n) (Suc n) (\<lambda>tx. tx_do (ldb_Put L tx headerCountKey (VBytes (mustEncodeInt (c + 1))))
        ''error putting header count'' (\<lambda>tx. (tx, Ok ())))"
      by (intro keeps_put [OF laws, of headerCountKey KCount] keeps_return) auto
    then show ?thesis
      using Ok typed_mono [OF t, of "Suc n"] by (simp add: IncrementHeaderCount_def keeps_def)
  next
    case (Err e)
    then show ?thesis using typed_mono [OF t, of "Suc n"] by (simp add: IncrementHeaderCount_def)
  next
    case (Panic p)
    then have False
      using typed_get [OF t, of headerCountKey KCount headerCountKey] leveldb_lawsD(1) [OF laws] n
      by (auto simp: get_bytes_def go_simps mustDecodeInt_def [of "[]"] split: sum.splits if_splits)
    then show ?thesis ..
  qed
qed

lemma keeps_mono: "keeps v ec n n' f \<Longrightarrow> n' \<le> n'' \<Longrightarrow> keeps v ec n n'' f"
  unfolding keeps_def using typed_mono by blast

lemma is_panic_wrap [simp]: "is_panic (go_wrap m msg) \<longleftrightarrow> is_panic m"
  by (cases m) auto

lemma is_panic_of [simp]: "\<not> is_panic (go_of r)"
  by (cases r) auto

lemma is_panic_bind: "is_panic (go_bind m f) \<longleftrightarrow> is_panic m \<or> (\<exists>x. m = Ok x \<and> is_panic (f x))"
  by (cases m) auto

lemma not_panic_bind: "\<not> is_panic m \<Longrightarrow> (\<And>x. m = Ok x \<Longrightarrow> \<not> is_panic (f x)) \<Longrightarrow> \<not> is_panic (go_bind m f)"
  by (cases m) auto

lemma fst_tx_wrap [simp]: "fst (tx_wrap r msg) = fst r"
  by (simp add: tx_wrap_def)

lemma keeps_wrap: "keeps v ec n n' f \<Longrightarrow> keeps v ec n n' (\<lambda>tx. tx_wrap (f tx) msg)"
  by (simp add: keeps_def tx_wrap_def)

lemma keeps_SetHeaderTx:
  assumes laws: "leveldb_laws L v" and n: "n < 2 ^ 31"
    and h: "header_wf h" "length hs = MaxSectors" "list_all hash_wf hs"
  shows "keeps v ec n (Suc n) (SetHeaderTx L h hs)"
proof -
  define inc where "inc ex = (\<lambda>tx. if \<not> ex then tx_wrap (IncrementHeaderCount L tx) ''error incrementing header count''
      else (tx, Ok ()))" for ex
  have inc: "keeps v ec n (Suc n) (inc ex)" for ex
    using keeps_wrap [OF keeps_IncrementHeaderCount [OF laws n]] keeps_mono [OF keeps_return, of n "Suc n"]
    by (cases ex) (auto simp: inc_def)
  have put: "keeps v ec n (Suc n) (\<lambda>tx.
      tx_do (ldb_Put L tx (headerSectorHashesPrefix [hd_Name h]) (VBytes (concat hs)))
        ''error writing sector hashes'' (\<lambda>tx.
      tx_put_json L (headerDataPrefix [hd_Name h]) (Header_MarshalJSON h) ''error writing header tree'' tx (inc ex)))"
    for ex
    by (intro keeps_put [OF laws, where p = "headerSectorHashesPrefix []" and kd = KHashes]
        keeps_put_json [OF laws, where p = "headerDataPrefix []" and kd = KHeader] inc)
      (use h jval_ok_Header in auto)
  show ?thesis
    unfolding keeps_def
  proof (intro allI impI)
    fix tx assume t: "typed ec n (v tx)"
    show "typed ec (Suc n) (v (fst (SetHeaderTx L h hs tx))) \<and> \<not> is_panic (snd (SetHeaderTx L h hs tx))"
    proof (cases "ldb_Has L tx (headerDataPrefix [hd_Name h])")
      case (Inl e)
      then show ?thesis
        using typed_mono [OF t, of "Suc n"] by (simp add: SetHeaderTx_def SectorHashes_Encode_def wr_bytes_def)
    next
      case (Inr ex)
      then show ?thesis
        using put [of ex] t by (simp add: SetHeaderTx_def SectorHashes_Encode_def wr_bytes_def keeps_def inc_def)
    qed
  qed
qed

lemmas keeps_put_return = keeps_put [OF _ _ _ _ keeps_return order_refl]

lemma keeps_SetNameInfoTx:
  assumes "leveldb_laws L v" "- (2 ^ 63) \<le> h" "h < 2 ^ 63"
  shows "keeps v ec n n (SetNameInfoTx L ec s pk h)"
  unfolding SetNameInfoTx_def [abs_def]
  by (intro keeps_put_json [OF assms(1), where p = "nameDataPrefix []" and kd = KName] keeps_return)
    (use assms(2,3) in \<open>auto intro!: exI [of _ "\<lparr>ni_Name = s, ni_PublicKey = pk, ni_ImportHeight = h\<rparr>"]\<close>)

lemma keeps_SetPeerTx:
  assumes "leveldb_laws L v" "hash_wf i" "time_json_ok now"
  shows "keeps v ec n n (SetPeerTx L now i ip b)"
  unfolding SetPeerTx_def [abs_def]
  by (intro keeps_put_json [OF assms(1), where p = "peerDataPrefix []" and kd = KPeer] keeps_return)
    (use assms(2,3) jval_ok_storePeer in \<open>auto intro!: exI\<close>)

lemma keeps_import:
  assumes "leveldb_laws L v"
  shows "i31 h \<Longrightarrow> keeps v ec n n (SetLastNameImportHeightTx L h)"
    and "keeps v ec n n (SetInitialImportCompleteTx L)"
    and "after1970 t \<Longrightarrow> keeps v ec n n (SetLastBanListImportAt L t)"
  unfolding SetLastNameImportHeightTx_def [abs_def] SetInitialImportCompleteTx_def [abs_def]
    SetLastBanListImportAt_def [abs_def]
  by (intro keeps_put_return [OF assms, where kd = KInt and p = lastNameImportHeightKey];
      auto simp: i31_def)
    (intro keeps_put_return [OF assms, where kd = KFlag and p = initialImportCompleteKey]
      keeps_put_return [OF assms, where kd = KTime and p = lastBanListImportAtKey];
      auto simp: after1970_def)+

lemma keeps_bans:
  assumes "leveldb_laws L v"
  shows "keeps v ec n n (BanName L s)"
    and "keeps v ec n n (WhitelistPeerTx L ip)"
    and "after1970 (now + d) \<Longrightarrow> keeps v ec n n (BanOutboundPeerTx L now ip d)"
    and "after1970 (now + d) \<Longrightarrow> keeps v ec n n (BanInboundPeerTx L now ip d)"
    and "i31 (time_Unix (if time_IsZero t then now else t)) \<Longrightarrow> keeps v ec n n (SetHeaderBan L now s t)"
    and "keeps v ec n n (SetEquivocationProofTx L ec' s p)"
  unfolding BanName_def [abs_def] WhitelistPeerTx_def [abs_def] BanOutboundPeerTx_def [abs_def]
    BanInboundPeerTx_def [abs_def] SetHeaderBan_def [abs_def] SetEquivocationProofTx_def [abs_def] Let_def
  subgoal by (intro keeps_put_return [OF assms, where kd = KFlag and p = "banPrefix []"]) auto
  subgoal by (intro keeps_put_return [OF assms, where kd = KFlag and p = "whitelistPrefix []"]) auto
  subgoal by (intro keeps_put_return [OF assms, where kd = KTime and p = "peerOutBanPrefix []"])
      (auto simp: after1970_def)
  subgoal by (intro keeps_put_return [OF assms, where kd = KTime and p = "peerInBanPrefix []"])
      (auto simp: after1970_def)
  subgoal by (intro keeps_put_return [OF assms, where kd = KInt and p = "headerBanPrefix []"])
      (auto simp: i31_def)
  subgoal by (intro keeps_put_return [OF assms, where kd = KProof and p = "equivocationProofsPrefix []"]) auto
  done

lemma keeps_removals:
  assumes "leveldb_laws L v"
  shows "keeps v ec n n (TruncateBannedNames L)"
    and "keeps v ec n n (UnbanOutboundPeerTx L ip)"
    and "keeps v ec n n (UnbanInboundPeerTx L ip)"
    and "keeps v ec n n (UnwhitelistPeerTx L ip)"
  unfolding TruncateBannedNames_def [abs_def] UnbanOutboundPeerTx_def [abs_def]
    UnbanInboundPeerTx_def [abs_def] UnwhitelistPeerTx_def [abs_def]
  by (rule keeps_DeleteLoop [OF assms] keeps_has_delete [OF assms])+

lemma keeps_op:
  assumes laws: "leveldb_laws L v" and n: "n < 2 ^ 31" and ok: "op_ok now op"
  shows "keeps v ec n (Suc n) (op_cb L ec now op)"
proof (cases "\<exists>h hs. op = OpHeader h hs")
  case True
  then show ?thesis using keeps_SetHeaderTx [OF laws n] ok by auto
next
  case False
  have "keeps v ec n n (op_cb L ec now op)"
    using False ok
    by (cases op) (simp_all add: keeps_SetNameInfoTx keeps_SetPeerTx keeps_import keeps_bans keeps_removals laws)
  then show ?thesis by (rule keeps_mono) simp
qed

lemma keeps_ops:
  assumes laws: "leveldb_laws L v"
  shows "list_all (op_ok now) ops \<Longrightarrow> n + length ops \<le> 2 ^ 31 \<Longrightarrow>
    keeps v ec n (n + length ops) (ops_cb L ec now ops)"
proof (induction ops arbitrary: n)
  case Nil
  then show ?case by (simp add: keeps_def)
next
  case (Cons op ops)
  have op: "keeps v ec n (Suc n) (op_cb L ec now op)"
    by (rule keeps_op [OF laws]) (use Cons.prems in auto)
  have rest: "keeps v ec (Suc n) (Suc n + length ops) (ops_cb L ec now ops)"
    using Cons.IH [of "Suc n"] Cons.prems by simp
  show ?case
    unfolding keeps_def
  proof (intro allI impI)
    fix tx assume t: "typed ec n (v tx)"
    obtain tx' r where step: "op_cb L ec now op tx = (tx', r)" by fastforce
    have t': "typed ec (Suc n) (v tx') \<and> \<not> is_panic r" using op t step by (metis fst_conv keeps_def snd_conv)
    then have "typed ec (n + length (op # ops)) (v tx')" using typed_mono [of ec "Suc n"] by simp
    then show "typed ec (n + length (op # ops)) (v (fst (ops_cb L ec now (op # ops) tx)))
        \<and> \<not> is_panic (snd (ops_cb L ec now (op # ops) tx))"
      using step t' rest by (cases r) (auto simp: keeps_def)
  qed
qed

lemma keeps_WithTx:
  assumes laws: "leveldb_laws L v" and cb: "keeps v ec n n' cb" and "n \<le> n'" "typed ec n (v db)"
  shows "typed ec n' (v (fst (WithTx L db cb)))"
proof -
  obtain db' r where W: "WithTx L db cb = (db', r)" by fastforce
  show ?thesis
    using WithTx_view [OF laws W]
  proof cases
    case 1
    then show ?thesis using typed_mono [OF assms(4,3)] W by simp
  next
    case (2 tx tx')
    then show ?thesis using cb assms(4) W unfolding keeps_def by (metis fst_conv)
  qed
qed

text \<open>Every database the package produces keeps to the schema.\<close>

lemma store_run_typed:
  assumes "store_run L v ec n db" "leveldb_laws L v" "n \<le> 2 ^ 31"
  shows "typed ec n (v db)"
  using assms(1,3)
proof induction
  case (fresh db)
  then show ?case by (simp add: typed_def)
next
  case (commit n db now ops db' r)
  then have "typed ec n (v db)" by simp
  then have "typed ec (n + length ops) (v (fst (WithTx L db (ops_cb L ec now ops))))"
    by (intro keeps_WithTx [OF assms(2) keeps_ops [OF assms(2)]]) (use commit in auto)
  then show ?case using commit by simp
next
  case (names n db db' r)
  then have "db' = fst (TruncateNameStore L db)" by simp
  then show ?case
    using keeps_WithTx [OF assms(2) keeps_DeleteLoop [OF assms(2)] order_refl] names
    by (simp add: TruncateNameStore_def)
next
  case (headers n db db' r)
  then have "db' = fst (TruncateHeaderStore L db)" by simp
  then show ?case
    using keeps_WithTx [OF assms(2) keeps_DeleteLoop [OF assms(2)] order_refl] headers
    by (simp add: TruncateHeaderStore_def)
next
  case (header n db s db' r)
  then have "db' = fst (TruncateHeaderName L db s)" by simp
  then show ?case
    using keeps_WithTx [OF assms(2) keeps_delete [OF assms(2) keeps_return] order_refl] header
    by (simp add: TruncateHeaderName_def)
next
  case (peers n db db' r)
  then have "db' = fst (TruncatePeerStore L db)" by simp
  then show ?case
    using keeps_WithTx [OF assms(2) keeps_DeleteLoop [OF assms(2)] order_refl] peers
    by (simp add: TruncatePeerStore_def)
qed

section \<open>Reads of a well-typed database\<close>

lemma typed_Get:
  assumes "leveldb_laws L v" "typed ec n (v db)" "ldb_Get L db k = Inr x" "(p, kd) \<in> set schema" "prefix p k"
  shows "val_ok ec n kd x"
  using typed_get [OF assms(2,4,5)] leveldb_lawsD(1) [OF assms(1,3)] by blast

lemma get_bytes_typed:
  assumes "leveldb_laws L v" "typed ec n (v db)" "(p, kd) \<in> set schema" "prefix p k"
    and "\<And>x. val_ok ec n kd x \<Longrightarrow> \<exists>b. x = VBytes b \<and> \<not> is_panic (f (Some b))" and "\<not> is_panic (f None)"
  shows "\<not> is_panic (go_bind (get_bytes L db k msg) f)"
proof (cases "ldb_Get L db k")
  case (Inl e)
  then show ?thesis using assms(6) by (simp add: get_bytes_def)
next
  case (Inr x)
  then show ?thesis
    using assms(5) [OF typed_Get [OF assms(1,2) Inr assms(3,4)]] by (auto simp: get_bytes_def go_simps)
qed

lemma get_typed:
  assumes "leveldb_laws L v" "typed ec n (v db)" "(p, kd) \<in> set schema" "prefix p k"
    and "\<And>x. val_ok ec n kd x \<Longrightarrow> \<not> is_panic (f x)"
  shows "\<not> is_panic (go_bind (go_wrap (go_of (ldb_Get L db k)) msg) f)"
  using assms(5) typed_Get [OF assms(1,2) _ assms(3,4)] by (intro not_panic_bind) (auto simp: go_simps)

lemma unmarshal_typed:
  assumes "n < 2 ^ 31"
  shows "btcec_laws ec \<Longrightarrow> val_ok ec n KName x \<Longrightarrow> \<not> is_panic (mustUnmarshalJSON (NameInfo_UnmarshalJSON ec) x)"
    and "val_ok ec n KHeader x \<Longrightarrow> \<not> is_panic (mustUnmarshalJSON Header_UnmarshalJSON x)"
    and "val_ok ec n KPeer x \<Longrightarrow> \<not> is_panic (mustUnmarshalJSON storePeer_UnmarshalJSON x)"
  by (auto simp: mustUnmarshalJSON_def NameInfo_JSON_roundtrip Header_JSON_roundtrip storePeer_JSON_roundtrip)

lemma decode_typed:
  assumes "n < 2 ^ 31"
  shows "val_ok ec n KInt x \<Longrightarrow> \<exists>b. x = VBytes b \<and> \<not> is_panic (mustDecodeInt b)"
    and "val_ok ec n KCount x \<Longrightarrow> \<exists>b. x = VBytes b \<and> \<not> is_panic (mustDecodeInt b)"
    and "val_ok ec n KTime x \<Longrightarrow> \<exists>b. x = VBytes b \<and> \<not> is_panic (mustDecodeTime (Some b))"
  using assms by auto

lemma mustDecodeTime_None [simp]: "mustDecodeTime None = Ok time_zero"
  by (simp add: mustDecodeTime_def)

lemma between_prefix: "p @ a \<le> k \<Longrightarrow> k < p @ b \<Longrightarrow> prefix p (k :: bytes)"
proof (induction p arbitrary: k)
  case (Cons x p)
  then show ?case by (cases k) auto
qed simp

lemma bump_last_Prefixer:
  assumes "start \<noteq> []"
  shows "\<exists>r. bump_last (Prefixer p [start]) = Prefixer p [] @ r"
proof -
  have "Prefixer p [start] = Prefixer p [] @ bytes_of_string (''/'' @ start)"
    by (simp add: Prefixer_def bytes_of_string_append)
  moreover have "bytes_of_string (''/'' @ start) \<noteq> []" by (simp add: bytes_of_string_def)
  ultimately have "bump_last (Prefixer p [start]) = Prefixer p [] @ (butlast (bytes_of_string (''/'' @ start)) @ [last (bytes_of_string (''/'' @ start)) + 1])"
    by (simp add: bump_last_def butlast_append)
  then show ?thesis by blast
qed

text \<open>Everything a stream yields lies under its prefix.\<close>

lemma stream_prefix:
  assumes laws: "leveldb_laws L v"
    and "it = (if start = [] then ldb_PrefixIterator L db (Prefixer p [])
      else ldb_RangeIterator L db (bump_last (Prefixer p [start])) (Prefixer p [s]))"
    and "(k, x) \<in> set (fst it)"
  shows "prefix (Prefixer p []) k \<and> v db k = Some x"
proof (cases "start = []")
  case True
  then show ?thesis
    using assms(2,3) leveldb_lawsD(6) [OF laws, of db "Prefixer p []"] by (auto simp: iter_law_def)
next
  case False
  obtain r where r: "bump_last (Prefixer p [start]) = Prefixer p [] @ r" using bump_last_Prefixer [OF False] by blast
  obtain q where q: "Prefixer p [s] = Prefixer p [] @ q" using prefix_Prefixer by (auto simp: prefix_def)
  show ?thesis
    using assms(2,3) False r q between_prefix [of "Prefixer p []" r k q]
      leveldb_lawsD(7) [OF laws, of db "Prefixer p [] @ r" "Prefixer p [] @ q"]
    by (auto simp: iter_law_def)
qed

lemma names_read:
  assumes laws: "leveldb_laws L v" and ec: "btcec_laws ec" and t: "typed ec n (v db)" and n: "n < 2 ^ 31"
  shows "\<not> is_panic (GetNameInfo L ec db name)"
    and "\<not> is_panic (GetLastNameImportHeight L db)"
    and "\<not> is_panic (GetLastBanListImportAt L db)"
    and "\<not> is_panic (GetEquivocationProof L db name)"
  unfolding GetNameInfo_def GetLastNameImportHeight_def GetLastBanListImportAt_def GetEquivocationProof_def
  subgoal by (rule get_typed [OF laws t, of "nameDataPrefix []" KName]) (use unmarshal_typed(1) [OF n ec] in simp_all)
  subgoal by (rule get_bytes_typed [OF laws t, of lastNameImportHeightKey KInt])
      (use decode_typed(1) [OF n] in simp_all)
  subgoal by (rule get_bytes_typed [OF laws t, of lastBanListImportAtKey KTime])
      (use decode_typed(3) [OF n] in simp_all)
  subgoal by (rule get_typed [OF laws t, of "equivocationProofsPrefix []" KProof]) auto
  done

lemma SectorHashes_Decode_concat:
  assumes "length hs = MaxSectors" "list_all hash_wf hs"
  shows "SectorHashes_Decode (concat hs) = Ok (hs, [])"
  using SectorHashes_DecodeLoop_concat [of hs ZeroHash "[]"] assms
  by (simp add: SectorHashes_Decode_def)

lemma headers_read:
  assumes laws: "leveldb_laws L v" and t: "typed ec n (v db)" and n: "n < 2 ^ 31"
  shows "\<not> is_panic (GetHeaderCount L db)"
    and "\<not> is_panic (GetHeader L db name)"
    and "\<not> is_panic (GetSectorHashes L db name)"
    and "\<not> is_panic (GetHeaderBan L db name)"
  unfolding GetHeaderCount_def GetHeader_def GetSectorHashes_def GetHeaderBan_def
  subgoal by (rule get_bytes_typed [OF laws t, of headerCountKey KCount])
      (use decode_typed(2) [OF n] in simp_all)
  subgoal by (rule get_typed [OF laws t, of "headerDataPrefix []" KHeader])
      (use unmarshal_typed(2) [OF n] in simp_all)
  subgoal by (rule get_typed [OF laws t, of "headerSectorHashesPrefix []" KHashes])
      (auto simp: SectorHashes_Decode_concat)
  subgoal
  proof (rule not_panic_bind)
    fix ex
    have "\<not> is_panic (go_bind (go_wrap (go_of (ldb_Get L db (headerBanPrefix [name]))) ''error getting header ban'')
        (\<lambda>x. go_bind (val_bytes x) (\<lambda>b. go_bind (mustDecodeInt b) (\<lambda>ts. Ok (time_FromUnix ts)))))"
      by (rule get_typed [OF laws t, of "headerBanPrefix []" KInt]) auto
    then show "\<not> is_panic (if \<not> ex then Ok time_zero
        else go_bind (go_wrap (go_of (ldb_Get L db (headerBanPrefix [name]))) ''error getting header ban'')
          (\<lambda>x. go_bind (val_bytes x) (\<lambda>b. go_bind (mustDecodeInt b) (\<lambda>ts. Ok (time_FromUnix ts)))))"
      by simp
  qed simp
  done

lemma get_bytes_time:
  assumes "leveldb_laws L v" "typed ec n (v db)" "(p, KTime) \<in> set schema" "prefix p k"
  shows "\<not> is_panic (get_bytes L db k msg)"
    and "get_bytes L db k msg = Ok r \<Longrightarrow> \<not> is_panic (mustDecodeTime r)"
  using typed_Get [OF assms(1,2) _ assms(3,4)]
  by (fastforce simp: get_bytes_def go_simps split: sum.splits if_splits)+

lemma bans_read:
  assumes laws: "leveldb_laws L v" and t: "typed ec n (v db)"
    and f: "\<And>a b. \<not> is_panic (mustDecodeTime a) \<Longrightarrow> \<not> is_panic (mustDecodeTime b) \<Longrightarrow> \<not> is_panic (f a b)"
  shows "\<not> is_panic (go_bind (get_bytes L db (peerInBanPrefix [i]) m1) (\<lambda>inRes.
      go_bind (get_bytes L db (peerOutBanPrefix [i]) m2) (\<lambda>outRes. f inRes outRes)))"
  using get_bytes_time [OF laws t, of "peerInBanPrefix []" "peerInBanPrefix [i]" m1]
    get_bytes_time [OF laws t, of "peerOutBanPrefix []" "peerOutBanPrefix [i]" m2] f
  by (intro not_panic_bind) simp_all

lemma peers_read:
  assumes laws: "leveldb_laws L v" and t: "typed ec n (v db)" and n: "n < 2 ^ 31"
  shows "\<not> is_panic (IsBanned L now db ip)"
    and "\<forall>(k, x) \<in> set it. val_ok ec n KPeer x \<Longrightarrow> \<not> is_panic (fst (PeerStream_Next L now inc db it))"
proof -
  show "\<not> is_panic (IsBanned L now db ip)"
    using get_bytes_time [OF laws t, of "peerInBanPrefix []" "peerInBanPrefix [ip]"]
      get_bytes_time [OF laws t, of "peerOutBanPrefix []" "peerOutBanPrefix [ip]"]
    by (auto simp: IsBanned_def is_panic_bind split: if_splits)
  show "\<not> is_panic (fst (PeerStream_Next L now inc db it))" if "\<forall>(k, x) \<in> set it. val_ok ec n KPeer x"
    using that
  proof (induction it)
    case (Cons kx it)
    obtain k x where kx: "kx = (k, x)" by fastforce
    have "\<not> is_panic (mustUnmarshalJSON storePeer_UnmarshalJSON x)"
      using unmarshal_typed(3) [OF n] Cons.prems kx by simp
    then have "\<not> is_panic (PeerStream_entry L db x)"
      unfolding PeerStream_entry_def
      by (intro not_panic_bind [of "mustUnmarshalJSON _ _"] bans_read [OF laws t]) (auto simp: is_panic_bind)
    then show ?case
      using Cons kx by (cases "PeerStream_entry L db x") auto
  qed simp
qed

section \<open>Properties\<close>



text \<open>
  C27. A failed callback is committed: when the callback of \<open>WithTx\<close> returns an error, the caller gets
  that error and the database nevertheless contains every write the callback made before it.
\<close>

theorem WithTx_commits_failed_writes:
  assumes "leveldb_fine L v" "\<And>tx. v tx = v db \<Longrightarrow> \<exists>tx'. cb tx = (tx', Err e) \<and> v tx' = m"
  shows "v (fst (WithTx L db cb)) = m \<and> snd (WithTx L db cb) = Err e"
proof -
  obtain tx where tx: "v tx = v db" "\<not> is_panic (snd (cb tx)) \<Longrightarrow>
      v (fst (WithTx L db cb)) = v (fst (cb tx)) \<and> snd (WithTx L db cb) = snd (cb tx)"
    using WithTx_fine [OF assms(1), of db cb] by blast
  then show ?thesis using assms(2) [OF tx(1)] by auto
qed

theorem WithTx_commits_failed_writes_witness:
  "mem_view (fst (WithTx mem_ldb [] (\<lambda>tx. (fst (BanName mem_ldb ''a'' tx), (Err io_EOF :: unit go))))) (banPrefix [''a'']) =
     Some (VBytes [1])
   \<and> snd (WithTx mem_ldb [] (\<lambda>tx. (fst (BanName mem_ldb ''a'' tx), (Err io_EOF :: unit go)))) = Err io_EOF"
proof -
  have "mem_view (fst (BanName mem_ldb ''a'' tx)) = (mem_view tx)(banPrefix [''a''] \<mapsto> VBytes [1])" for tx
    by (auto simp: BanName_def mem_ldb_def tx_do_def mem_view_def)
  then show ?thesis
    using WithTx_commits_failed_writes [OF leveldb_fine_mem, where db = "[]"
        and cb = "\<lambda>tx. (fst (BanName mem_ldb ''a'' tx), Err io_EOF :: unit go)" and e = io_EOF
        and m = "(mem_view [])(banPrefix [''a''] \<mapsto> VBytes [1])"] by simp
qed

lemma Prefixer_single: "Prefixer p [a] = bytes_of_string (p @ ''/'') @ bytes_of_string a"
  by (simp add: Prefixer_def bytes_of_string_def)

lemma unat_255: "unat (255 :: byte) = 255"
  by simp

lemma bump_last_greater:
  fixes k :: bytes
  assumes "k \<noteq> []" "last k \<noteq> 255"
  shows "k @ r < bump_last k"
proof -
  have "unat (last k) \<noteq> 255" using assms(2) by (simp add: word_unat_eq_iff)
  moreover have "unat (last k) < 256" using unsigned_less [of "last k", where ?'a = nat] by simp
  ultimately have "unat (last k + 1) = unat (last k) + 1" by (simp add: unat_word_ariths)
  then have "last k < last k + 1" by (simp add: word_less_nat_alt)
  then have "b @ last k # r < b @ [last k + 1]" for b by (induction b) auto
  moreover have "k @ r = butlast k @ last k # r"
    using append_butlast_last_id [OF assms(1)] by (metis append_Cons append_Nil append_assoc)
  ultimately show ?thesis by (metis bump_last_def)
qed

text \<open>
  C28. Resuming a stream after a name skips that name and every name that extends it, although they
  sort after it: the range starts at the next string of the same length.
\<close>

theorem StreamNameInfo_skips_extensions:
  assumes "leveldb_laws L v" "start \<noteq> []" "last start \<noteq> char_of (255 :: nat)"
  shows "nameDataPrefix [start @ rest] \<notin> fst ` set (fst (StreamNameInfo L db start))"
proof -
  define k where "k = nameDataPrefix [start]"
  define p where "p = string_of_bytes (namesPrefix [''name'']) @ ''/''"
  have k: "k = bytes_of_string p @ bytes_of_string start"
    by (simp add: k_def p_def nameDataPrefix_def Prefixer_single)
  have ext: "nameDataPrefix [start @ rest] = k @ bytes_of_string rest"
    by (simp add: k p_def nameDataPrefix_def Prefixer_single bytes_of_string_append)
  have ne: "bytes_of_string start \<noteq> []" using assms(2) by (simp add: bytes_of_string_def)
  have "last k = of_nat (of_char (last start))"
    unfolding k using assms(2) ne by (simp add: last_map bytes_of_string_def)
  then have l: "unat (last k) = of_char (last start)" by (simp only: unat_of_char)
  have "last k \<noteq> 255"
  proof
    assume "last k = 255"
    then have "of_char (last start) = (255 :: nat)" using l by (simp only: unat_255)
    then show False using assms(3) char_of_char [of "last start"] by metis
  qed
  moreover have "k \<noteq> []" using ne k by simp
  ultimately have less: "k @ bytes_of_string rest < bump_last k" by (intro bump_last_greater)
  have law: "iter_law (v db) (\<lambda>x. bump_last k \<le> x \<and> x < nameDataPrefix [string_of_bytes [255]])
      (StreamNameInfo L db start)"
    using leveldb_lawsD(7) [OF assms(1)] assms(2) by (simp add: StreamNameInfo_def k_def)
  show ?thesis
  proof
    assume "nameDataPrefix [start @ rest] \<in> fst ` set (fst (StreamNameInfo L db start))"
    then obtain x where "(k @ bytes_of_string rest, x) \<in> set (fst (StreamNameInfo L db start))"
      using ext by auto
    then have "bump_last k \<le> k @ bytes_of_string rest" using law unfolding iter_law_def by blast
    then show False using less by (simp add: not_le [symmetric])
  qed
qed

theorem StreamNameInfo_skips_extensions_witness:
  "nameDataPrefix [''ab''] \<notin> fst ` set (fst (StreamNameInfo mem_ldb
     (fst (SetNameInfoTx mem_ldb toy_ec ''ab'' (7 :: byte) 1 [])) ''a''))
   \<and> mem_view (fst (SetNameInfoTx mem_ldb toy_ec ''ab'' (7 :: byte) 1 [])) (nameDataPrefix [''ab'']) \<noteq> None"
proof
  have "of_char (CHR ''a'') \<noteq> (of_char (char_of (255 :: nat) :: char) :: nat)" by simp
  then have "CHR ''a'' \<noteq> char_of (255 :: nat)" by metis
  then show "nameDataPrefix [''ab''] \<notin> fst ` set (fst (StreamNameInfo mem_ldb
     (fst (SetNameInfoTx mem_ldb toy_ec ''ab'' (7 :: byte) 1 [])) ''a''))"
    using StreamNameInfo_skips_extensions [OF leveldb_fineD(1) [OF leveldb_fine_mem], where start = "''a''" and rest = "''b''"]
    by simp
  show "mem_view (fst (SetNameInfoTx mem_ldb toy_ec ''ab'' (7 :: byte) 1 [])) (nameDataPrefix [''ab'']) \<noteq> None"
    by (simp add: SetNameInfoTx_def tx_put_json_def mustMarshalJSON_Ok tx_do_def mem_ldb_def mem_view_def)
qed

section \<open>Headers and bans as a client sees them\<close>

lemma fine_put:
  assumes "leveldb_fine L v"
  obtains tx' where "ldb_Put L tx k x = (tx', None)" "v tx' = (v tx)(k \<mapsto> x)"
  using leveldb_fineD(4) [OF assms, of tx k x] leveldb_lawsD(4) [OF leveldb_fineD(1) [OF assms], of tx k x]
  by (metis prod.collapse)

lemma fine_delete:
  assumes "leveldb_fine L v"
  obtains tx' where "ldb_Delete L tx k = (tx', None)" "v tx' = (v tx)(k := None)"
  using leveldb_fineD(5) [OF assms, of tx k] leveldb_lawsD(5) [OF leveldb_fineD(1) [OF assms], of tx k]
  by (metis prod.collapse)

text \<open>The header counter as the getters read it.\<close>

definition count_of :: "(bytes \<Rightarrow> dbval option) \<Rightarrow> int go" where
  "count_of m =
     (case m headerCountKey of None \<Rightarrow> Ok 0 | Some x \<Rightarrow> go_bind (val_bytes x) mustDecodeInt)"

lemma GetHeaderCount_fine: "leveldb_fine L v \<Longrightarrow> GetHeaderCount L db = count_of (v db)"
  by (cases "v db headerCountKey" rule: option.exhaust [case_names None Some]; (cases "the (v db headerCountKey)")?)
    (auto simp: GetHeaderCount_def get_bytes_def count_of_def leveldb_fineD(2))

lemma IncrementHeaderCount_fine:
  assumes "leveldb_fine L v" "count_of (v tx) = Ok c"
  shows "snd (IncrementHeaderCount L tx) = Ok ()
    \<and> v (fst (IncrementHeaderCount L tx)) = (v tx)(headerCountKey \<mapsto> VBytes (mustEncodeInt (c + 1)))"
proof -
  have "go_bind (get_bytes L tx headerCountKey ''error getting header count'')
      (\<lambda>count. mustDecodeInt (case count of None \<Rightarrow> [] | Some b \<Rightarrow> b)) = Ok c"
    using assms by (auto simp: get_bytes_def count_of_def leveldb_fineD(2) go_simps mustDecodeInt_def [of "[]"]
        split: option.splits)
  moreover obtain tx' where "ldb_Put L tx headerCountKey (VBytes (mustEncodeInt (c + 1))) = (tx', None)"
      "v tx' = (v tx)(headerCountKey \<mapsto> VBytes (mustEncodeInt (c + 1)))"
    using fine_put [OF assms(1)] by blast
  ultimately show ?thesis by (simp add: IncrementHeaderCount_def tx_do_def)
qed

definition header_put :: "Header \<Rightarrow> SectorHashes \<Rightarrow> (bytes \<Rightarrow> dbval option) \<Rightarrow> bytes \<Rightarrow> dbval option" where
  "header_put h hs m =
     m(headerSectorHashesPrefix [hd_Name h] \<mapsto> VBytes (concat hs),
       headerDataPrefix [hd_Name h] \<mapsto> VJson (doc_clean (Header_MarshalJSON h)))"

lemma SetHeaderTx_fine:
  assumes fine: "leveldb_fine L v" and h: "header_wf h" and c: "count_of (header_put h hs (v tx)) = Ok c"
  shows "snd (SetHeaderTx L h hs tx) = Ok () \<and>
    v (fst (SetHeaderTx L h hs tx)) =
      (if v tx (headerDataPrefix [hd_Name h]) \<noteq> None then header_put h hs (v tx)
       else (header_put h hs (v tx))(headerCountKey \<mapsto> VBytes (mustEncodeInt (c + 1))))"
proof -
  obtain t1 where t1: "ldb_Put L tx (headerSectorHashesPrefix [hd_Name h]) (VBytes (concat hs)) = (t1, None)"
      "v t1 = (v tx)(headerSectorHashesPrefix [hd_Name h] \<mapsto> VBytes (concat hs))"
    using fine_put [OF fine] by blast
  obtain t2 where t2: "ldb_Put L t1 (headerDataPrefix [hd_Name h]) (VJson (doc_clean (Header_MarshalJSON h))) = (t2, None)"
      "v t2 = (v t1)(headerDataPrefix [hd_Name h] \<mapsto> VJson (doc_clean (Header_MarshalJSON h)))"
    using fine_put [OF fine] by blast
  have v2: "v t2 = header_put h hs (v tx)" using t1 t2 by (simp add: header_put_def)
  then have "snd (IncrementHeaderCount L t2) = Ok ()
      \<and> v (fst (IncrementHeaderCount L t2)) = (header_put h hs (v tx))(headerCountKey \<mapsto> VBytes (mustEncodeInt (c + 1)))"
    using IncrementHeaderCount_fine [OF fine, of t2 c] c by simp
  then show ?thesis
    using t1 t2 v2 jval_ok_Header [OF h]
    by (simp add: SetHeaderTx_def SectorHashes_Encode_def wr_bytes_def leveldb_fineD(3) [OF fine]
        tx_do_def tx_put_json_def mustMarshalJSON_Ok tx_wrap_def)
qed

lemma key_neq [simp]:
  "headerDataPrefix [a] \<noteq> headerCountKey" "headerSectorHashesPrefix [a] \<noteq> headerCountKey"
  "headerCountKey \<noteq> headerDataPrefix [a]" "headerCountKey \<noteq> headerSectorHashesPrefix [a]"
  "headerDataPrefix [a] \<noteq> headerSectorHashesPrefix [b]" "headerSectorHashesPrefix [a] \<noteq> headerDataPrefix [b]"
  "whitelistPrefix [a] \<noteq> peerInBanPrefix [b]" "peerOutBanPrefix [a] \<noteq> peerInBanPrefix [b]"
  by (simp_all add: key_defs Prefixer_def)

lemma data_key_inject [simp]:
  "headerDataPrefix [a] = headerDataPrefix [b] \<longleftrightarrow> a = b"
  "headerSectorHashesPrefix [a] = headerSectorHashesPrefix [b] \<longleftrightarrow> a = b"
  by (simp_all add: headerDataPrefix_def headerSectorHashesPrefix_def)

lemma count_of_header_put [simp]: "count_of (header_put h hs m) = count_of m"
  by (simp add: count_of_def header_put_def)

text \<open>
  C25. What is stored is what is read: after a transaction with \<open>SetHeaderTx\<close> the header and its
  sector hashes read back as they were given, those of other names as before, and the header
  count has grown by one exactly if the name had no header.
\<close>

theorem SetHeaderTx_GetHeader:
  assumes fine: "leveldb_fine L v" and h: "header_wf h" "json_string (hd_Name h) = hd_Name h"
    and hs: "length hs = MaxSectors" "list_all hash_wf hs"
    and c: "GetHeaderCount L db = Ok c" "0 \<le> c" "c < 2 ^ 31 - 1"
  shows "case WithTx L db (SetHeaderTx L h hs) of (db', r) \<Rightarrow>
    r = Ok () \<and> GetHeader L db' (hd_Name h) = Ok h \<and> GetSectorHashes L db' (hd_Name h) = Ok hs
    \<and> (\<forall>name. name \<noteq> hd_Name h \<longrightarrow>
         GetHeader L db' name = GetHeader L db name \<and> GetSectorHashes L db' name = GetSectorHashes L db name)
    \<and> GetHeaderCount L db' = Ok (if v db (headerDataPrefix [hd_Name h]) = None then c + 1 else c)"
proof -
  define put where "put = (if v db (headerDataPrefix [hd_Name h]) \<noteq> None then header_put h hs (v db)
       else (header_put h hs (v db))(headerCountKey \<mapsto> VBytes (mustEncodeInt (c + 1))))"
  have cv: "count_of (v db) = Ok c" using c(1) GetHeaderCount_fine [OF fine] by simp
  obtain tx where tx: "v tx = v db" and W: "\<not> is_panic (snd (SetHeaderTx L h hs tx)) \<Longrightarrow>
      v (fst (WithTx L db (SetHeaderTx L h hs))) = v (fst (SetHeaderTx L h hs tx))
      \<and> snd (WithTx L db (SetHeaderTx L h hs)) = snd (SetHeaderTx L h hs tx)"
    using WithTx_fine [OF fine, of db "SetHeaderTx L h hs"] by blast
  obtain db' r where db': "WithTx L db (SetHeaderTx L h hs) = (db', r)" by fastforce
  have set: "snd (SetHeaderTx L h hs tx) = Ok () \<and> v (fst (SetHeaderTx L h hs tx)) = put"
    using SetHeaderTx_fine [OF fine h(1), of hs tx c] cv tx by (simp add: put_def)
  then have v': "v db' = put" and r: "r = Ok ()" using W db' by simp_all
  have "GetHeader L db' (hd_Name h) = Ok h"
    using h by (simp add: GetHeader_def leveldb_fineD(2) [OF fine] v' put_def header_put_def go_simps
        mustUnmarshalJSON_def Header_JSON_roundtrip)
  moreover have "GetSectorHashes L db' (hd_Name h) = Ok hs"
    using hs by (simp add: GetSectorHashes_def leveldb_fineD(2) [OF fine] v' put_def header_put_def go_simps
        SectorHashes_Decode_concat)
  moreover have "GetHeader L db' name = GetHeader L db name \<and> GetSectorHashes L db' name = GetSectorHashes L db name"
    if "name \<noteq> hd_Name h" for name
    using that by (simp add: GetHeader_def GetSectorHashes_def leveldb_fineD(2) [OF fine] v' put_def header_put_def)
  moreover have "GetHeaderCount L db' = Ok (if v db (headerDataPrefix [hd_Name h]) = None then c + 1 else c)"
    using cv c by (simp add: GetHeaderCount_fine [OF fine] v' put_def) (simp add: count_of_def header_put_def)
  ultimately show ?thesis using db' r by simp
qed

definition sample_header :: Header where
  "sample_header = \<lparr>hd_Name = ''foo'', hd_EpochHeight = 3, hd_SectorSize = 1, hd_SectorTipHash = ZeroHash,
     hd_Signature = ZeroSignature, hd_ReservedRoot = ZeroHash, hd_EpochStartAt = 0\<rparr>"

theorem SetHeaderTx_GetHeader_witness:
  "GetHeader mem_ldb (fst (WithTx mem_ldb [] (SetHeaderTx mem_ldb sample_header ZeroSectorHashes))) ''foo'' =
     Ok sample_header"
proof -
  have "header_wf sample_header"
    by (simp add: header_wf_def sample_header_def hash_wf_def sig_wf_def ZeroSignature_def time_json_ok_def time_Second_def)
  moreover have "json_string ''foo'' = ''foo''" by (rule json_string_ascii) simp
  moreover have "length ZeroSectorHashes = MaxSectors" "list_all hash_wf ZeroSectorHashes"
    by (simp_all add: ZeroSectorHashes_def hash_wf_def list_all_iff)
  moreover have "GetHeaderCount mem_ldb [] = Ok 0"
    by (simp add: GetHeaderCount_fine [OF leveldb_fine_mem] count_of_def mem_view_def)
  moreover have "hd_Name sample_header = ''foo''" by (simp add: sample_header_def)
  ultimately show ?thesis
    using SetHeaderTx_GetHeader [OF leveldb_fine_mem, of sample_header ZeroSectorHashes "[]" 0]
    by (simp split: prod.splits)
qed

text \<open>Deleting everything under a prefix, in a database that works.\<close>

lemma DeleteLoop_fine:
  assumes "leveldb_fine L v"
  shows "\<exists>tx'. DeleteLoop L msg kvs tx = (tx', Ok ())"
proof (induction kvs arbitrary: tx)
  case (Cons kv kvs)
  obtain tx' where "ldb_Delete L tx (fst kv) = (tx', None)" by (rule fine_delete [OF assms])
  with Cons [of tx'] show ?case by (cases kv) (simp add: tx_do_def)
qed simp

lemma delete_prefix_fine:
  assumes fine: "leveldb_fine L v"
  obtains tx' where "DeleteLoop L msg (fst (ldb_PrefixIterator L tx p)) tx = (tx', Ok ())"
    "v tx' = v tx |` {k. \<not> prefix p k}"
proof -
  define it where "it = ldb_PrefixIterator L tx p"
  obtain tx' where tx': "DeleteLoop L msg (fst it) tx = (tx', Ok ())" using DeleteLoop_fine [OF fine] by blast
  have "iter_law (v tx) (prefix p) it" "snd it = None"
    unfolding it_def by (rule leveldb_lawsD(6) [OF leveldb_fineD(1) [OF fine]], rule leveldb_fineD(6) [OF fine])
  then have in_it: "(k, x) \<in> set (fst it) \<longleftrightarrow> prefix p k \<and> v tx k = Some x" for k x
    unfolding iter_law_def by blast
  have "v tx' = v tx |` (- fst ` set (fst it))"
    by (rule DeleteLoop_view [OF leveldb_fineD(1) [OF fine] tx'])
  also have "\<dots> = v tx |` {k. \<not> prefix p k}"
  proof
    fix k
    have "k \<in> fst ` set (fst it) \<longleftrightarrow> prefix p k" if "v tx k = Some x" for x
      using in_it [of k x] in_it [of k] that by (metis (no_types, lifting) fst_conv image_iff prod.collapse)
    then show "(v tx |` (- fst ` set (fst it))) k = (v tx |` {k. \<not> prefix p k}) k"
      by (cases "v tx k") (simp_all add: restrict_map_def)
  qed
  finally show thesis using that tx' unfolding it_def by blast
qed

text \<open>A transaction of one write or one delete on a database that works.\<close>

lemma WithTx_put_fine:
  assumes fine: "leveldb_fine L v"
    and cb: "cb = (\<lambda>tx. tx_do (ldb_Put L tx k x) msg (\<lambda>tx. (tx, Ok ())))"
  shows "v (fst (WithTx L db cb)) = (v db)(k \<mapsto> x) \<and> snd (WithTx L db cb) = Ok ()"
proof -
  obtain tx where tx: "v tx = v db" and W: "\<not> is_panic (snd (cb tx)) \<Longrightarrow>
      v (fst (WithTx L db cb)) = v (fst (cb tx)) \<and> snd (WithTx L db cb) = snd (cb tx)"
    using WithTx_fine [OF fine, of db cb] by blast
  obtain tx' where "ldb_Put L tx k x = (tx', None)" "v tx' = (v tx)(k \<mapsto> x)" by (rule fine_put [OF fine])
  then have "cb tx = (tx', Ok ())" "v tx' = (v db)(k \<mapsto> x)" using tx by (simp_all add: cb tx_do_def)
  then show ?thesis using W by simp
qed

lemma WithTx_remove_fine:
  assumes fine: "leveldb_fine L v"
    and cb: "cb = (\<lambda>tx. case ldb_Has L tx k of
      Inl e \<Rightarrow> (tx, Err (ErrWrap e m1))
    | Inr has \<Rightarrow> if \<not> has then (tx, Ok ()) else tx_do (ldb_Delete L tx k) m2 (\<lambda>tx. (tx, Ok ())))"
  shows "v (fst (WithTx L db cb)) = (v db)(k := None) \<and> snd (WithTx L db cb) = Ok ()"
proof -
  obtain tx where tx: "v tx = v db" and W: "\<not> is_panic (snd (cb tx)) \<Longrightarrow>
      v (fst (WithTx L db cb)) = v (fst (cb tx)) \<and> snd (WithTx L db cb) = snd (cb tx)"
    using WithTx_fine [OF fine, of db cb] by blast
  obtain tx' where tx': "ldb_Delete L tx k = (tx', None)" "v tx' = (v tx)(k := None)"
    by (rule fine_delete [OF fine])
  have "snd (cb tx) = Ok () \<and> v (fst (cb tx)) = (v db)(k := None)"
    using tx tx' by (cases "v tx k = None") (auto simp: cb tx_do_def leveldb_fineD(3) [OF fine])
  then show ?thesis using W by simp
qed

lemma get_bytes_fine:
  assumes "leveldb_fine L v" "v d k = None \<or> v d k = Some (VBytes b)"
  shows "get_bytes L d k msg = Ok (if v d k = None then None else Some b)"
  using assms(2) by (auto simp: get_bytes_def leveldb_fineD(2) [OF assms(1)])

lemma IsBanned_fine:
  assumes fine: "leveldb_fine L v"
    and "v db (peerInBanPrefix [ip]) = map_option VBytes i"
    and "v db (peerOutBanPrefix [ip]) = map_option VBytes u"
    and "mustDecodeTime i = Ok ti" "mustDecodeTime u = Ok tu"
  shows "IsBanned L t db ip =
    Ok (if v db (whitelistPrefix [ip]) \<noteq> None then (False, False) else (t < ti, t < tu))"
proof -
  have "get_bytes L db (peerInBanPrefix [ip]) m = Ok i" for m
    using get_bytes_fine [OF fine, of db "peerInBanPrefix [ip]" "the i"] assms(2) by (cases i) auto
  moreover have "get_bytes L db (peerOutBanPrefix [ip]) m = Ok u" for m
    using get_bytes_fine [OF fine, of db "peerOutBanPrefix [ip]" "the u"] assms(3) by (cases u) auto
  ultimately show ?thesis
    using assms(4,5) by (simp add: IsBanned_def leveldb_fineD(3) [OF fine])
qed

lemma PeerStream_Next_banned:
  "fst (PeerStream_Next L t False db it) = Ok (Some p) \<Longrightarrow> \<not> storePeer_IsBanned t p"
  by (induction it) (auto split: go.splits if_splits)



end
