(* ===== verification/P2P_Handshake.thy ===== *)
theory P2P_Handshake
  imports Wire_Envelope
begin

text \<open>
  Envelope validation and the connection handshake: \<open>p2p/envelope_io.go\<close>,
  \<open>p2p/incoming_handshake.go\<close>, \<open>p2p/outgoing_handshake.go\<close>.

  The connection is given by what its calls return: \<open>recv i\<close> is the outcome of the \<open>i\<close>-th
  \<open>ReceiveCtx\<close> and \<open>sends i\<close> of the \<open>i\<close>-th \<open>SendCtx\<close> of the handshake, timeouts included; \<open>clk i\<close> is
  the clock at the \<open>i\<close>-th reading.  A handshake returns its outcome and the envelopes it sent.
\<close>

section \<open>Envelopes on a connection\<close>

definition ValidMessageDeadline :: duration where
  "ValidMessageDeadline = 2 * time_Hour"

definition ErrInvalidEnvelopeMagic :: err where
  "ErrInvalidEnvelopeMagic = ErrVar ''envelope has invalid magic''"

definition ErrInvalidEnvelopeTimestamp :: err where
  "ErrInvalidEnvelopeTimestamp = ErrVar ''envelope has stale timestamp''"

definition ErrInvalidEnvelopeSignature :: err where
  "ErrInvalidEnvelopeSignature = ErrVar ''envelope has invalid signature''"

definition ValidateEnvelope ::
  "(bytes \<Rightarrow> bytes) \<Rightarrow> ('pk, 'sk) btcec \<Rightarrow> time \<Rightarrow> uint32 \<Rightarrow> Hash \<Rightarrow> 'pk Envelope \<Rightarrow> unit go" where
  "ValidateEnvelope b2 ec now expMagic expPeerID envelope =
     (let lowTime = now - ValidMessageDeadline; highTime = now + ValidMessageDeadline in
      if env_Magic envelope \<noteq> expMagic then Err ErrInvalidEnvelopeMagic
      else if env_Timestamp envelope < lowTime \<or> env_Timestamp envelope > highTime
        then Err ErrInvalidEnvelopeTimestamp
      else
        go_bind (VerifySigHashedPub b2 ec expPeerID (env_Signature envelope) (Envelope_Hash b2 ec envelope))
          (\<lambda>ok. if \<not> ok then Err ErrInvalidEnvelopeSignature else Ok ()))"

definition WriteEnvelope ::
  "(bytes \<Rightarrow> bytes) \<Rightarrow> ('pk, 'sk) btcec \<Rightarrow> time \<Rightarrow> err option \<Rightarrow> 'sk \<Rightarrow> uint32 \<Rightarrow> 'pk Message
     \<Rightarrow> unit go \<times> 'pk Envelope list" where
  "WriteEnvelope b2 ec now sent signer magic message =
     (case NewEnvelope b2 ec now magic message signer of
        Err e \<Rightarrow> (Err e, [])
      | Panic p \<Rightarrow> (Panic p, [])
      | Ok envelope \<Rightarrow> (case sent of None \<Rightarrow> Ok () | Some e \<Rightarrow> Err e, [envelope]))"

section \<open>Handshakes\<close>

definition ErrUnexpectedMessage :: err where
  "ErrUnexpectedMessage = ErrVar ''unexpected handshake message''"

definition ErrIncompatibleProtocol :: err where
  "ErrIncompatibleProtocol = ErrVar ''incompatible protocol version''"

definition ErrInvalidNonce :: err where
  "ErrInvalidNonce = ErrVar ''invalid nonce on hello message''"

record 'sk HandshakeConfig =
  hsc_Magic :: uint32
  hsc_ProtocolVersion :: uint32
  hsc_Signer :: 'sk

text \<open>Receiving an envelope of the expected type; the type switch fixes the message's type.\<close>

definition recv_Hello :: "err + 'pk Envelope \<Rightarrow> string \<Rightarrow> ('pk Envelope \<times> 'pk Hello) go" where
  "recv_Hello r msg =
     go_bind (go_wrap (go_of r) msg) (\<lambda>e.
       if env_MessageType e \<noteq> MessageTypeHello then Err ErrUnexpectedMessage
       else case env_Message e of MHello h \<Rightarrow> Ok (e, h) | _ \<Rightarrow> Panic ''interface conversion'')"

definition HandleOutgoingHandshake ::
  "(bytes \<Rightarrow> bytes) \<Rightarrow> ('pk, 'sk) btcec \<Rightarrow> (nat \<Rightarrow> time) \<Rightarrow> bytes \<Rightarrow> string \<Rightarrow> 'sk HandshakeConfig
     \<Rightarrow> (nat \<Rightarrow> err + 'pk Envelope) \<Rightarrow> (nat \<Rightarrow> err option) \<Rightarrow> Hash go \<times> 'pk Envelope list" where
  "HandleOutgoingHandshake b2 ec clk localNonce userAgent cfg recv sends =
     (let ourHelloMsg = MHello \<lparr>hello_ProtocolVersion = hsc_ProtocolVersion cfg,
            hello_LocalNonce = localNonce, hello_RemoteNonce = replicate 32 0,
            hello_PublicKey = SECP256k1Signer_Pub ec (hsc_Signer cfg), hello_UserAgent = userAgent\<rparr>
      in case WriteEnvelope b2 ec (clk 0) (sends 0) (hsc_Signer cfg) (hsc_Magic cfg) ourHelloMsg of
           (Err e, es) \<Rightarrow> (Err (ErrWrap e ''failed to send hello message''), es)
         | (Panic p, es) \<Rightarrow> (Panic p, es)
         | (Ok _, es) \<Rightarrow>
             (case
                go_bind (recv_Hello (recv 0) ''failed to receive peer hello message'') (\<lambda>(theirHelloEnv, theirHelloMsg).
                let theirPeerID = HashPub b2 ec (hello_PublicKey theirHelloMsg) in
                go_bind (go_wrap (ValidateEnvelope b2 ec (clk 1) (hsc_Magic cfg) theirPeerID theirHelloEnv)
                           ''peer responded with invalid hello message'') (\<lambda>_.
                if hello_ProtocolVersion theirHelloMsg > hsc_ProtocolVersion cfg then Err ErrIncompatibleProtocol
                else if hello_RemoteNonce theirHelloMsg \<noteq> localNonce then Err ErrInvalidNonce
                else Ok (theirPeerID, hello_LocalNonce theirHelloMsg))) of
                Err e \<Rightarrow> (Err e, es)
              | Panic p \<Rightarrow> (Panic p, es)
              | Ok (theirPeerID, remoteNonce) \<Rightarrow>
                  (case WriteEnvelope b2 ec (clk 2) (sends 1) (hsc_Signer cfg) (hsc_Magic cfg)
                          (MHelloAck \<lparr>helloAck_Nonce = remoteNonce\<rparr>) of
                     (Err e, es') \<Rightarrow> (Err (ErrWrap e ''failed to send hello ack message''), es @ es')
                   | (Panic p, es') \<Rightarrow> (Panic p, es @ es')
                   | (Ok _, es') \<Rightarrow> (Ok theirPeerID, es @ es'))))"

definition HandleIncomingHandshake ::
  "(bytes \<Rightarrow> bytes) \<Rightarrow> ('pk, 'sk) btcec \<Rightarrow> (nat \<Rightarrow> time) \<Rightarrow> bytes \<Rightarrow> 'sk HandshakeConfig
     \<Rightarrow> (nat \<Rightarrow> err + 'pk Envelope) \<Rightarrow> (nat \<Rightarrow> err option) \<Rightarrow> Hash go \<times> 'pk Envelope list" where
  "HandleIncomingHandshake b2 ec clk localNonce cfg recv sends =
     (case
        go_bind (recv_Hello (recv 0) ''failed to receive hello message'') (\<lambda>(theirHelloEnv, theirHelloMsg).
        let theirPeerID = HashPub b2 ec (hello_PublicKey theirHelloMsg) in
        go_bind (go_wrap (ValidateEnvelope b2 ec (clk 0) (hsc_Magic cfg) theirPeerID theirHelloEnv)
                   ''peer initiated with invalid hello message'') (\<lambda>_.
        if hello_ProtocolVersion theirHelloMsg > hsc_ProtocolVersion cfg then Err ErrIncompatibleProtocol
        else Ok (theirPeerID, hello_LocalNonce theirHelloMsg))) of
        Err e \<Rightarrow> (Err e, [])
      | Panic p \<Rightarrow> (Panic p, [])
      | Ok (theirPeerID, remoteNonce) \<Rightarrow>
          let ourHelloMsg = MHello \<lparr>hello_ProtocolVersion = hsc_ProtocolVersion cfg,
                hello_LocalNonce = localNonce, hello_RemoteNonce = remoteNonce,
                hello_PublicKey = SECP256k1Signer_Pub ec (hsc_Signer cfg), hello_UserAgent = []\<rparr>
          in case WriteEnvelope b2 ec (clk 1) (sends 0) (hsc_Signer cfg) (hsc_Magic cfg) ourHelloMsg of
               (Err e, es) \<Rightarrow> (Err (ErrWrap e ''failed to respond with hello message''), es)
             | (Panic p, es) \<Rightarrow> (Panic p, es)
             | (Ok _, es) \<Rightarrow>
                 (go_bind (go_wrap (go_of (recv 1)) ''failed to receive hello ack message'') (\<lambda>theirHelloAckEnv.
                  if env_MessageType theirHelloAckEnv \<noteq> MessageTypeHelloAck then Err ErrUnexpectedMessage
                  else
                    go_bind (go_wrap (ValidateEnvelope b2 ec (clk 2) (hsc_Magic cfg) theirPeerID theirHelloAckEnv)
                               ''peer responded with invalid hello ack message'') (\<lambda>_.
                    case env_Message theirHelloAckEnv of
                      MHelloAck theirHelloAck \<Rightarrow>
                        if helloAck_Nonce theirHelloAck \<noteq> localNonce then Err ErrInvalidNonce else Ok theirPeerID
                    | _ \<Rightarrow> Panic ''interface conversion'')), es))"

section \<open>Lemmas\<close>

lemma ValidateEnvelope_Ok:
  "ValidateEnvelope b2 ec now magic pid e = Ok () \<longleftrightarrow>
     env_Magic e = magic \<and> \<bar>env_Timestamp e - now\<bar> \<le> ValidMessageDeadline
     \<and> VerifySigHashedPub b2 ec pid (env_Signature e) (Envelope_Hash b2 ec e) = Ok True"
  by (auto simp: ValidateEnvelope_def Let_def go_simps)

text \<open>An envelope made by \<open>NewEnvelope\<close>, as it arrives after encoding and decoding.\<close>

lemma NewEnvelope_arrives:
  assumes laws: "btcec_laws ec" and m: "message_fits m" "message_wf ec m" and t: "0 \<le> time_Unix t"
    and new: "NewEnvelope b2 ec t magic m sk = Ok e"
    and now: "\<bar>canon_time t - now\<bar> \<le> ValidMessageDeadline"
  shows "ValidateEnvelope b2 ec now magic (HashPub b2 ec (SECP256k1Signer_Pub ec sk)) (env_canon e) = Ok ()
    \<and> env_MessageType (env_canon e) = MsgType m \<and> env_Message (env_canon e) = message_canon m"
proof -
  define e0 where "e0 = \<lparr>env_Magic = magic, env_MessageType = MsgType m, env_Timestamp = t,
      env_Message = m, env_Signature = ZeroSignature\<rparr>"
  obtain s where s: "SECP256k1Signer_Sign ec sk (Envelope_Hash b2 ec e0) = Ok s"
    and e: "e = e0\<lparr>env_Signature := s\<rparr>"
    using new by (auto simp: NewEnvelope_def Let_def go_bind_eq_Ok e0_def)
  have "Envelope_Hash b2 ec (env_canon e) = Envelope_Hash b2 ec e"
    using m(1) t by (intro Envelope_Hash_canon) (simp_all add: e e0_def)
  then have "Envelope_Hash b2 ec (env_canon e) = Envelope_Hash b2 ec e0"
    by (simp add: e Envelope_Hash_Signature)
  moreover obtain h where h: "Envelope_Hash b2 ec e0 = Ok h" "hash_wf h"
    using s by (auto simp: SECP256k1Signer_Sign_def go_bind_eq_Ok Envelope_Hash_def split: prod.splits option.splits)
  moreover have "ec_RecoverCompact ec s h = Inr (ec_PubKey ec sk)"
    using Sign_Ok [OF laws _ h(2)] s h(1) by simp
  ultimately show ?thesis
    using now by (simp add: ValidateEnvelope_Ok e e0_def env_canon_def VerifySigHashedPub_def
        SECP256k1Signer_Pub_def Hash_Bytes_def)
qed

definition sign_total :: "('pk, 'sk) btcec \<Rightarrow> bool" where
  "sign_total ec \<longleftrightarrow> (\<forall>sk h. length h = 32 \<longrightarrow> (\<exists>s. ec_SignCompact ec sk h = Inr s))"

lemma Envelope_Hash_total:
  assumes "message_fits (env_Message e)" "0 \<le> time_Unix (env_Timestamp e)"
  shows "\<exists>h. Envelope_Hash b2 ec e = Ok h \<and> hash_wf h"
proof -
  obtain x where "Message_Encode ec (env_Message e) = (x, None)"
    using assms(1) Message_Encode_total [of ec] by (metis prod.collapse)
  then show ?thesis
    using assms(2)
    by (auto simp: Envelope_Hash_def EncodeTime_def wr_bytes_def encodeByteSlice_def defaultEncoder_def
        DefaultMaxByteFieldLen_def writeUvarint_def MessageType_Encode_def Let_def)
qed

lemma NewEnvelope_total:
  assumes "sign_total ec" "message_fits m" "0 \<le> time_Unix t"
  shows "\<exists>e. NewEnvelope b2 ec t magic m sk = Ok e"
proof -
  obtain h where h: "Envelope_Hash b2 ec \<lparr>env_Magic = magic, env_MessageType = MsgType m, env_Timestamp = t,
      env_Message = m, env_Signature = ZeroSignature\<rparr> = Ok h" "length h = 32"
    using Envelope_Hash_total [of "\<lparr>env_Magic = magic, env_MessageType = MsgType m, env_Timestamp = t,
      env_Message = m, env_Signature = ZeroSignature\<rparr>" b2 ec] assms(2,3) by (auto simp: hash_wf_def)
  then obtain s where "ec_SignCompact ec sk h = Inr s" using assms(1) by (auto simp: sign_total_def)
  then show ?thesis by (simp add: NewEnvelope_def SECP256k1Signer_Sign_def Hash_Bytes_def h)
qed

lemma message_canon_hello [simp]:
  "message_canon (MHello h) = MHello h" "message_canon (MHelloAck a) = MHelloAck a"
  by (simp_all add: message_canon_def)

section \<open>Properties\<close>

text \<open>
  C29. Two nodes that follow the protocol complete the handshake and each learns the other's
  identity: with the same magic and version, signers that sign, and clocks that agree to within the
  message deadline, both sides return the hash of the other's public key.  The envelopes are
  those of the other side as they arrive after encoding and decoding.
\<close>

theorem handshake_completes:
  assumes laws: "btcec_laws ec" "sign_total ec"
    and cfg: "hsc_Magic cI = hsc_Magic cR" "hsc_ProtocolVersion cI = hsc_ProtocolVersion cR"
    and nonces: "length nI = 32" "length nR = 32" and ua: "name_fits ua"
    and clocks: "\<And>i. 0 \<le> time_Unix (clkI i)" "\<And>i. 0 \<le> time_Unix (clkR i)"
      "\<And>i j. \<bar>canon_time (clkI i) - clkR j\<bar> \<le> ValidMessageDeadline"
      "\<And>i j. \<bar>canon_time (clkR i) - clkI j\<bar> \<le> ValidMessageDeadline"
  shows "\<exists>e1 e2 e3.
    HandleOutgoingHandshake b2 ec clkI nI ua cI (\<lambda>_. Inr (env_canon e2)) (\<lambda>_. None) =
      (Ok (HashPub b2 ec (SECP256k1Signer_Pub ec (hsc_Signer cR))), [e1, e3]) \<and>
    HandleIncomingHandshake b2 ec clkR nR cR (\<lambda>i. Inr (env_canon (if i = 0 then e1 else e3))) (\<lambda>_. None) =
      (Ok (HashPub b2 ec (SECP256k1Signer_Pub ec (hsc_Signer cI))), [e2])"
proof -
  define hI where "hI = \<lparr>hello_ProtocolVersion = hsc_ProtocolVersion cI, hello_LocalNonce = nI,
    hello_RemoteNonce = replicate 32 0, hello_PublicKey = SECP256k1Signer_Pub ec (hsc_Signer cI), hello_UserAgent = ua\<rparr>"
  define hR where "hR = \<lparr>hello_ProtocolVersion = hsc_ProtocolVersion cR, hello_LocalNonce = nR,
    hello_RemoteNonce = nI, hello_PublicKey = SECP256k1Signer_Pub ec (hsc_Signer cR), hello_UserAgent = []\<rparr>"
  define a where "a = \<lparr>helloAck_Nonce = nR\<rparr>"
  have fits: "message_fits (MHello hI)" "message_fits (MHello hR)" "message_fits (MHelloAck a)"
    using ua by (simp_all add: hI_def hR_def name_fits_def)
  have pub: "pub_wf ec k" for k using btcec_laws_pub_wf [OF laws(1)] by simp
  have wf: "message_wf ec (MHello hI)" "message_wf ec (MHello hR)" "message_wf ec (MHelloAck a)"
    using nonces pub by (simp_all add: hI_def hR_def a_def)
  obtain e1 where e1: "NewEnvelope b2 ec (clkI 0) (hsc_Magic cI) (MHello hI) (hsc_Signer cI) = Ok e1"
    using NewEnvelope_total [OF laws(2) fits(1) clocks(1)] by blast
  obtain e2 where e2: "NewEnvelope b2 ec (clkR 1) (hsc_Magic cR) (MHello hR) (hsc_Signer cR) = Ok e2"
    using NewEnvelope_total [OF laws(2) fits(2) clocks(2)] by blast
  obtain e3 where e3: "NewEnvelope b2 ec (clkI 2) (hsc_Magic cI) (MHelloAck a) (hsc_Signer cI) = Ok e3"
    using NewEnvelope_total [OF laws(2) fits(3) clocks(1)] by blast
  note r1 = NewEnvelope_arrives [OF laws(1) fits(1) wf(1) clocks(1) e1 clocks(3)]
  note r2 = NewEnvelope_arrives [OF laws(1) fits(2) wf(2) clocks(2) e2 clocks(4)]
  note r3 = NewEnvelope_arrives [OF laws(1) fits(3) wf(3) clocks(1) e3 clocks(3)]
  have "HandleOutgoingHandshake b2 ec clkI nI ua cI (\<lambda>_. Inr (env_canon e2)) (\<lambda>_. None) =
      (Ok (HashPub b2 ec (SECP256k1Signer_Pub ec (hsc_Signer cR))), [e1, e3])"
    using e1 e3 r2 cfg unfolding hI_def hR_def a_def
    by (simp add: HandleOutgoingHandshake_def WriteEnvelope_def recv_Hello_def Let_def)
  moreover have "HandleIncomingHandshake b2 ec clkR nR cR (\<lambda>i. Inr (env_canon (if i = 0 then e1 else e3))) (\<lambda>_. None) =
      (Ok (HashPub b2 ec (SECP256k1Signer_Pub ec (hsc_Signer cI))), [e2])"
    using e2 r1 r3 cfg unfolding hI_def hR_def a_def
    by (simp add: HandleIncomingHandshake_def WriteEnvelope_def recv_Hello_def Let_def MessageType_defs)
  ultimately show ?thesis by blast
qed

lemma sign_total_toy: "sign_total toy_ec"
  by (simp add: sign_total_def toy_ec_def)

theorem handshake_completes_witness:
  "\<exists>e1 e2 e3.
    HandleOutgoingHandshake (\<lambda>_. ZeroHash) toy_ec (\<lambda>_. 0) (replicate 32 1) ''fnd''
      \<lparr>hsc_Magic = 7, hsc_ProtocolVersion = 1, hsc_Signer = 5\<rparr> (\<lambda>_. Inr (env_canon e2)) (\<lambda>_. None) =
      (Ok (HashPub (\<lambda>_. ZeroHash) toy_ec 6), [e1, e3]) \<and>
    HandleIncomingHandshake (\<lambda>_. ZeroHash) toy_ec (\<lambda>_. 0) (replicate 32 2)
      \<lparr>hsc_Magic = 7, hsc_ProtocolVersion = 1, hsc_Signer = 6\<rparr>
      (\<lambda>i. Inr (env_canon (if i = 0 then e1 else e3))) (\<lambda>_. None) =
      (Ok (HashPub (\<lambda>_. ZeroHash) toy_ec 5), [e2])"
proof -
  have clk: "0 \<le> time_Unix 0" "\<bar>canon_time 0 - 0\<bar> \<le> ValidMessageDeadline"
    by (simp_all add: time_Unix_def canon_time_def time_FromUnix_def ValidMessageDeadline_def
        time_Hour_def time_Second_def)
  show ?thesis
    using handshake_completes [OF btcec_laws_toy_ec sign_total_toy, of
        "\<lparr>hsc_Magic = 7, hsc_ProtocolVersion = 1, hsc_Signer = 5\<rparr>"
        "\<lparr>hsc_Magic = 7, hsc_ProtocolVersion = 1, hsc_Signer = 6\<rparr>" "replicate 32 1" "replicate 32 2"
        "''fnd''" "\<lambda>_. 0" "\<lambda>_. 0" "\<lambda>_. ZeroHash"] clk
    by (simp add: name_fits_def SECP256k1Signer_Pub_def toy_ec_def)
qed

text \<open>
  C30. The nonce of the handshake does not protect against replay: whoever has a current \<open>Hello\<close> and a
  current \<open>HelloAck\<close> envelope of a node can complete the incoming handshake in its name, for every
  nonce the responder draws, by changing the nonce inside the recorded envelope; the
  signature stays as it was recorded.
\<close>

theorem handshake_forgeable:
  assumes sign: "sign_total ec"
    and hello: "ValidateEnvelope b2 ec (clk 0) (hsc_Magic cfg) victim eh = Ok ()"
      "env_MessageType eh = MessageTypeHello" "env_Message eh = MHello h"
      "HashPub b2 ec (hello_PublicKey h) = victim" "hello_ProtocolVersion h \<le> hsc_ProtocolVersion cfg"
    and ack: "ValidateEnvelope b2 ec (clk 2) (hsc_Magic cfg) victim ea = Ok ()"
      "env_MessageType ea = MessageTypeHelloAck" "env_Message ea = MHelloAck a"
    and clk: "0 \<le> time_Unix (clk 1)"
  shows "\<exists>reply. HandleIncomingHandshake b2 ec clk nonce cfg
      (\<lambda>i. Inr (if i = 0 then eh else ea\<lparr>env_Message := MHelloAck \<lparr>helloAck_Nonce = nonce\<rparr>\<rparr>)) (\<lambda>_. None) =
    (Ok victim, [reply])"
proof -
  define m where "m = MHello \<lparr>hello_ProtocolVersion = hsc_ProtocolVersion cfg, hello_LocalNonce = nonce,
    hello_RemoteNonce = hello_LocalNonce h, hello_PublicKey = SECP256k1Signer_Pub ec (hsc_Signer cfg),
    hello_UserAgent = []\<rparr>"
  define ea' where "ea' = ea\<lparr>env_Message := MHelloAck \<lparr>helloAck_Nonce = nonce\<rparr>\<rparr>"
  have "Envelope_Hash b2 ec ea' = Envelope_Hash b2 ec ea"
    unfolding ea'_def using ack(3) by (intro Envelope_Hash_message) simp_all
  then have ack': "ValidateEnvelope b2 ec (clk 2) (hsc_Magic cfg) victim ea' = Ok ()"
    using ack(1) by (simp add: ValidateEnvelope_Ok ea'_def)
  have "message_fits m" by (simp add: m_def name_fits_def)
  then obtain reply where "NewEnvelope b2 ec (clk 1) (hsc_Magic cfg) m (hsc_Signer cfg) = Ok reply"
    using NewEnvelope_total [OF sign _ clk] by blast
  then have "HandleIncomingHandshake b2 ec clk nonce cfg (\<lambda>i. Inr (if i = 0 then eh else ea')) (\<lambda>_. None) =
      (Ok victim, [reply])"
    using hello ack(2) ack' unfolding m_def
    by (simp add: HandleIncomingHandshake_def WriteEnvelope_def recv_Hello_def Let_def ea'_def not_less)
  then show ?thesis unfolding ea'_def by blast
qed

theorem handshake_forgeable_witness:
  "\<exists>eh ea reply. HandleIncomingHandshake (\<lambda>_. ZeroHash) toy_ec (\<lambda>_. 0) (replicate 32 9)
      \<lparr>hsc_Magic = 7, hsc_ProtocolVersion = 1, hsc_Signer = 6\<rparr>
      (\<lambda>i. Inr (if i = 0 then eh else ea\<lparr>env_Message := MHelloAck \<lparr>helloAck_Nonce = replicate 32 9\<rparr>\<rparr>)) (\<lambda>_. None) =
    (Ok (HashPub (\<lambda>_. ZeroHash) toy_ec 5), [reply])"
proof -
  let ?b = "\<lambda>_ :: bytes. ZeroHash"
  define h where "h = \<lparr>hello_ProtocolVersion = 1, hello_LocalNonce = replicate 32 0,
    hello_RemoteNonce = replicate 32 0, hello_PublicKey = 5 :: byte, hello_UserAgent = []\<rparr>"
  define a where "a = \<lparr>helloAck_Nonce = replicate 32 3 :: bytes\<rparr>"
  have 0: "0 \<le> time_Unix 0" "\<bar>canon_time 0 - 0\<bar> \<le> ValidMessageDeadline"
    by (simp_all add: time_Unix_def canon_time_def time_FromUnix_def ValidMessageDeadline_def
        time_Hour_def time_Second_def)
  have pub: "SECP256k1Signer_Pub toy_ec 5 = 5" by (simp add: SECP256k1Signer_Pub_def toy_ec_def)
  have fits: "message_fits (MHello h)" "message_fits (MHelloAck a :: byte Message)"
    by (simp_all add: h_def name_fits_def)
  have wf: "message_wf toy_ec (MHello h)" "message_wf toy_ec (MHelloAck a)"
    using btcec_laws_pub_wf [OF btcec_laws_toy_ec] by (simp_all add: h_def a_def)
  obtain eh where eh: "NewEnvelope ?b toy_ec 0 7 (MHello h) 5 = Ok eh"
    using NewEnvelope_total [OF sign_total_toy fits(1) 0(1)] by blast
  obtain ea where ea: "NewEnvelope ?b toy_ec 0 7 (MHelloAck a) 5 = Ok ea"
    using NewEnvelope_total [OF sign_total_toy fits(2) 0(1)] by blast
  show ?thesis
    using handshake_forgeable [OF sign_total_toy, where clk = "\<lambda>_. 0" and ?b2.0 = ?b and eh = "env_canon eh"
        and ea = "env_canon ea" and h = h and a = a and nonce = "replicate 32 9"
        and cfg = "\<lparr>hsc_Magic = 7, hsc_ProtocolVersion = 1, hsc_Signer = 6\<rparr>"
        and victim = "HashPub ?b toy_ec 5"] 0
      NewEnvelope_arrives [OF btcec_laws_toy_ec fits(1) wf(1) 0(1) eh 0(2)]
      NewEnvelope_arrives [OF btcec_laws_toy_ec fits(2) wf(2) 0(1) ea 0(2)] pub
    by (force simp: h_def)
qed

end
