(* ===== verification/P2P_Peer.thy ===== *)
theory P2P_Peer
  imports Wire_Envelope
begin

text \<open>
  A connected peer, \<open>p2p/peer.go\<close>, with \<open>counting_reader.go\<close> and \<open>counting_writer.go\<close>.

  A \<open>PeerImpl\<close> is its shared fields and channels together with the program counters of the
  goroutines that use them: the send loop, the receive loop and the outstanding calls of \<open>Close\<close>.
  A turn function runs a goroutine up to its next blocking operation and is \<open>None\<close> where that
  operation has to wait.  What \<open>select\<close> picks and what the connection does are arguments, so that the
  step relation ranges over every schedule and every behaviour of the network.
\<close>

section \<open>State\<close>

datatype PeerDirection = Inbound | Outbound

primrec PeerDirection_String :: "PeerDirection \<Rightarrow> string" where
  "PeerDirection_String Inbound = ''Inbound''"
| "PeerDirection_String Outbound = ''Outbound''"

definition ErrPeerSendBufferFull :: err where "ErrPeerSendBufferFull = ErrVar ''peer send buffer full''"
definition ErrPeerRecvBufferFull :: err where "ErrPeerRecvBufferFull = ErrVar ''peer receive buffer full''"
definition ErrPeerClosed :: err where "ErrPeerClosed = ErrVar ''peer closed''"
definition ErrPeerHangup :: err where "ErrPeerHangup = ErrVar ''remote hung up''"
definition ErrNetClosing :: err where "ErrNetClosing = ErrVar ''use of closed network connection''"

definition MaxPeerPacketSize :: nat where "MaxPeerPacketSize = 5 * 1024 * 1024"

text \<open>Both channels of requests are made with 128 places.\<close>

definition reqChCap :: nat where "reqChCap = 128"

datatype close_pc = CLock | CRecv | CSend | CDone

text \<open>A request carries the channel its answer goes to, here a number.\<close>

datatype 'pk send_pc = SLoop | SEncode nat "'pk Envelope" | SDefer | SClose close_pc

datatype recv_pc = RLoop | RDecode nat | RDefer | RClose close_pc

datatype 'pk answer = AErr "err option" | AEnvelope "'pk Envelope"

record 'pk PeerImpl =
  pi_direction :: PeerDirection
  pi_connClosed :: bool
  pi_connIn :: bytes
  pi_connOut :: bytes
  pi_connW :: uint64
  pi_connR :: uint64
  pi_sendCh :: "(nat \<times> 'pk Envelope) list"
  pi_recvCh :: "nat list"
  pi_sendDoneCh :: nat
  pi_recvDoneCh :: nat
  pi_closeCh :: bool
  pi_closeMu :: bool
  pi_closeReason :: "err option"
  pi_answers :: "(nat \<times> 'pk answer) list"
  pi_send :: "'pk send_pc"
  pi_recv :: recv_pc
  pi_callers :: "close_pc list"

definition NewPeer :: "PeerDirection \<Rightarrow> 'pk PeerImpl" where
  "NewPeer direction =
     \<lparr>pi_direction = direction, pi_connClosed = False, pi_connIn = [], pi_connOut = [], pi_connW = 0, pi_connR = 0,
      pi_sendCh = [], pi_recvCh = [], pi_sendDoneCh = 0, pi_recvDoneCh = 0, pi_closeCh = False,
      pi_closeMu = False, pi_closeReason = None, pi_answers = [], pi_send = SLoop, pi_recv = RLoop,
      pi_callers = []\<rparr>"

section \<open>Counting readers and writers\<close>

text \<open>The underlying \<open>Read\<close> or \<open>Write\<close> reports how many bytes it moved, also on an error.\<close>

definition CountingWriter_Write :: "'pk PeerImpl \<Rightarrow> bytes \<Rightarrow> 'pk PeerImpl" where
  "CountingWriter_Write p written =
     p\<lparr>pi_connOut := pi_connOut p @ written, pi_connW := pi_connW p + of_nat (length written)\<rparr>"

definition CountingReader_Read :: "'pk PeerImpl \<Rightarrow> nat \<Rightarrow> 'pk PeerImpl" where
  "CountingReader_Read p n = p\<lparr>pi_connIn := drop n (pi_connIn p), pi_connR := pi_connR p + of_nat n\<rparr>"

definition PeerImpl_BandwidthUsage :: "'pk PeerImpl \<Rightarrow> uint64 \<times> uint64" where
  "PeerImpl_BandwidthUsage p = (pi_connW p, pi_connR p)"

section \<open>Closing\<close>

definition PeerImpl_CloseReason :: "'pk PeerImpl \<Rightarrow> err option" where
  "PeerImpl_CloseReason p = pi_closeReason p"

definition PeerImpl_setCloseReason :: "'pk PeerImpl \<Rightarrow> err option \<Rightarrow> err option \<times> 'pk PeerImpl" where
  "PeerImpl_setCloseReason p e =
     (if pi_closeReason p \<noteq> None then (pi_closeReason p, p)
      else
        case e of
          None \<Rightarrow> (None, p)
        | Some e \<Rightarrow>
            let r = Some (if e = io_EOF then ErrPeerHangup else e) in (r, p\<lparr>pi_closeReason := r\<rparr>))"

fun PeerImpl_Close_turn :: "close_pc \<Rightarrow> 'pk PeerImpl \<Rightarrow> (close_pc \<times> 'pk PeerImpl) option" where
  "PeerImpl_Close_turn CLock p =
     (if pi_closeMu p then None
      else if pi_closeCh p then Some (CDone, p)
      else Some (CRecv,
        p\<lparr>pi_closeMu := True,
          pi_closeReason := (if pi_closeReason p = None then Some ErrPeerClosed else pi_closeReason p),
          pi_connClosed := True, pi_closeCh := True\<rparr>))"
| "PeerImpl_Close_turn CRecv p =
     (if pi_recvDoneCh p = 0 then None else Some (CSend, p\<lparr>pi_recvDoneCh := pi_recvDoneCh p - 1\<rparr>))"
| "PeerImpl_Close_turn CSend p =
     (if pi_sendDoneCh p = 0 then None
      else Some (CDone, p\<lparr>pi_sendDoneCh := pi_sendDoneCh p - 1, pi_closeMu := False\<rparr>))"
| "PeerImpl_Close_turn CDone p = None"

section \<open>The loops\<close>

text \<open>
  Sending: \<open>pick\<close> is the choice of \<open>select\<close> when a request is waiting, and \<open>w\<close> the error of the
  connection with the number of bytes that went out before it.
\<close>

definition PeerImpl_write :: "bytes \<times> err option \<Rightarrow> (err \<times> nat) option \<Rightarrow> 'pk PeerImpl \<Rightarrow> bytes \<times> err option" where
  "PeerImpl_write enc w p =
     (if pi_connClosed p then ([], Some ErrNetClosing)
      else case w of Some (e, n) \<Rightarrow> (take n (fst enc), Some e) | None \<Rightarrow> enc)"

fun PeerImpl_send_turn ::
  "('pk, 'sk) btcec \<Rightarrow> bool \<Rightarrow> (err \<times> nat) option \<Rightarrow> 'pk PeerImpl \<Rightarrow> 'pk PeerImpl option" where
  "PeerImpl_send_turn ec pick w p =
     (case pi_send p of
        SLoop \<Rightarrow>
          (case pi_sendCh p of
             (k, e) # rest \<Rightarrow>
               if pick \<or> \<not> pi_closeCh p then Some (p\<lparr>pi_sendCh := rest, pi_send := SEncode k e\<rparr>)
               else Some (p\<lparr>pi_send := SDefer\<rparr>)
           | [] \<Rightarrow> if pi_closeCh p then Some (p\<lparr>pi_send := SDefer\<rparr>) else None)
      | SEncode k envelope \<Rightarrow>
          (case PeerImpl_write (Envelope_Encode ec envelope) w p of
             (out, Some e) \<Rightarrow>
               (case PeerImpl_setCloseReason (CountingWriter_Write p out) (Some e) of
                  (r, p1) \<Rightarrow> Some (p1\<lparr>pi_answers := pi_answers p1 @ [(k, AErr r)], pi_send := SDefer\<rparr>))
           | (out, None) \<Rightarrow>
               let p1 = CountingWriter_Write p out in
               Some (p1\<lparr>pi_answers := pi_answers p1 @ [(k, AErr None)], pi_send := SLoop\<rparr>))
      | SDefer \<Rightarrow>
          if 1 \<le> pi_sendDoneCh p then None
          else Some (p\<lparr>pi_sendDoneCh := pi_sendDoneCh p + 1, pi_send := SClose CLock\<rparr>)
      | SClose c \<Rightarrow>
          (case PeerImpl_Close_turn c p of
             None \<Rightarrow> None | Some (c1, p1) \<Rightarrow> Some (p1\<lparr>pi_send := SClose c1\<rparr>)))"

text \<open>
  Receiving: without a network error the decoder gets what has arrived, at most
  \<open>MaxPeerPacketSize\<close> bytes, and then the end of the stream; with one it fails after \<open>n\<close> bytes.  The
  reservation of the rate limiter asks for one event, which the burst always covers, so the branch
  that sleeps is not entered.
\<close>

fun PeerImpl_recv_turn ::
  "('pk, 'sk) btcec \<Rightarrow> bool \<Rightarrow> (err \<times> nat) option \<Rightarrow> 'pk PeerImpl \<Rightarrow> 'pk PeerImpl option" where
  "PeerImpl_recv_turn ec pick w p =
     (case pi_recv p of
        RLoop \<Rightarrow>
          (case pi_recvCh p of
             k # rest \<Rightarrow>
               if pick \<or> \<not> pi_closeCh p then Some (p\<lparr>pi_recvCh := rest, pi_recv := RDecode k\<rparr>)
               else Some (p\<lparr>pi_recv := RDefer\<rparr>)
           | [] \<Rightarrow> if pi_closeCh p then Some (p\<lparr>pi_recv := RDefer\<rparr>) else None)
      | RDecode k \<Rightarrow>
          (let input = take MaxPeerPacketSize (pi_connIn p);
               res = (case w of
                        Some (e, n) \<Rightarrow> (Err e, min n (length input))
                      | None \<Rightarrow>
                          (case Envelope_Decode ec input of
                             Ok (envelope, rest) \<Rightarrow> (Ok envelope, length input - length rest)
                           | Err e \<Rightarrow> (Err e, length input)
                           | Panic m \<Rightarrow> (Panic m, 0)))
           in case res of
                (Ok envelope, n) \<Rightarrow>
                  let p1 = CountingReader_Read p n in
                  Some (p1\<lparr>pi_answers := pi_answers p1 @ [(k, AEnvelope envelope)], pi_recv := RLoop\<rparr>)
              | (Err e, n) \<Rightarrow>
                  (case PeerImpl_setCloseReason (CountingReader_Read p n) (Some e) of
                     (r, p1) \<Rightarrow> Some (p1\<lparr>pi_answers := pi_answers p1 @ [(k, AErr r)], pi_recv := RDefer\<rparr>))
              | (Panic m, n) \<Rightarrow> None)
      | RDefer \<Rightarrow>
          if 1 \<le> pi_recvDoneCh p then None
          else Some (p\<lparr>pi_recvDoneCh := pi_recvDoneCh p + 1, pi_recv := RClose CLock\<rparr>)
      | RClose c \<Rightarrow>
          (case PeerImpl_Close_turn c p of
             None \<Rightarrow> None | Some (c1, p1) \<Rightarrow> Some (p1\<lparr>pi_recv := RClose c1\<rparr>)))"

section \<open>Calls\<close>

text \<open>
  The attempts of \<open>bufferSendCtx\<close> to place a request: each \<open>select\<close> places it, ends with the context's
  error or runs into its timer.  The result comes with the time spent on timers; it is \<open>None\<close> while
  the listed attempts have not decided.
\<close>

datatype buffer_sel = SelPlaced | SelCtx err | SelTimer

fun bufferSendCtx :: "nat \<Rightarrow> duration \<Rightarrow> buffer_sel list \<Rightarrow> (err option \<times> duration) option" where
  "bufferSendCtx retries waited sels =
     (if 10 < retries then Some (Some ErrPeerSendBufferFull, waited)
      else
        case sels of
          [] \<Rightarrow> None
        | SelPlaced # _ \<Rightarrow> Some (None, waited)
        | SelCtx e # _ \<Rightarrow> Some (Some e, waited)
        | SelTimer # rest \<Rightarrow> bufferSendCtx (retries + 1) (waited + 2 ^ retries * time_Millisecond) rest)"

declare bufferSendCtx.simps [simp del]

text \<open>\<open>PeerImpl_SendCtx_gate\<close> is the check both calls start with.\<close>

definition PeerImpl_SendCtx_gate :: "'pk PeerImpl \<Rightarrow> err option option" where
  "PeerImpl_SendCtx_gate p = (if pi_closeCh p then Some (PeerImpl_CloseReason p) else None)"

definition PeerImpl_SendCtx_place :: "'pk PeerImpl \<Rightarrow> nat \<Rightarrow> 'pk Envelope \<Rightarrow> 'pk PeerImpl option" where
  "PeerImpl_SendCtx_place p k envelope =
     (if length (pi_sendCh p) < reqChCap then Some (p\<lparr>pi_sendCh := pi_sendCh p @ [(k, envelope)]\<rparr>) else None)"

definition PeerImpl_ReceiveCtx_place :: "'pk PeerImpl \<Rightarrow> nat \<Rightarrow> err option \<times> 'pk PeerImpl" where
  "PeerImpl_ReceiveCtx_place p k =
     (if pi_closeCh p then (PeerImpl_CloseReason p, p)
      else if length (pi_recvCh p) < reqChCap then (None, p\<lparr>pi_recvCh := pi_recvCh p @ [k]\<rparr>)
      else (Some ErrPeerRecvBufferFull, p))"

inductive peer_step :: "('pk, 'sk) btcec \<Rightarrow> 'pk PeerImpl \<Rightarrow> 'pk PeerImpl \<Rightarrow> bool"
  for ec :: "('pk, 'sk) btcec" where
  st_send: "PeerImpl_send_turn ec pick w p = Some q \<Longrightarrow> peer_step ec p q"
| st_recv: "PeerImpl_recv_turn ec pick w p = Some q \<Longrightarrow> peer_step ec p q"
| st_close: "pi_callers p = xs @ c # ys \<Longrightarrow> PeerImpl_Close_turn c p = Some (c1, p1) \<Longrightarrow>
     peer_step ec p (p1\<lparr>pi_callers := xs @ c1 # ys\<rparr>)"

text \<open>Reachable states: steps of the goroutines, calls of the users and bytes from the network.\<close>

inductive peer_reach :: "('pk, 'sk) btcec \<Rightarrow> 'pk PeerImpl \<Rightarrow> bool"
  for ec :: "('pk, 'sk) btcec" where
  re_new: "peer_reach ec (NewPeer d)"
| re_step: "peer_reach ec p \<Longrightarrow> peer_step ec p q \<Longrightarrow> peer_reach ec q"
| re_send: "peer_reach ec p \<Longrightarrow> PeerImpl_SendCtx_place p k e = Some q \<Longrightarrow> peer_reach ec q"
| re_recv: "peer_reach ec p \<Longrightarrow> peer_reach ec (snd (PeerImpl_ReceiveCtx_place p k))"
| re_call: "peer_reach ec p \<Longrightarrow> peer_reach ec (p\<lparr>pi_callers := CLock # pi_callers p\<rparr>)"
| re_bytes: "peer_reach ec p \<Longrightarrow> peer_reach ec (p\<lparr>pi_connIn := pi_connIn p @ bs\<rparr>)"

section \<open>The close protocol\<close>

text \<open>
  \<open>close_inv\<close> relates the calls of \<open>Close\<close> in progress, including those of the two goroutines, to
  the mutex and to the tokens of the goroutines that have ended: at most one call is past the lock,
  and it never waits for a token that has been taken already.
\<close>

definition past_lock :: "close_pc \<Rightarrow> bool" where
  "past_lock c \<longleftrightarrow> c = CRecv \<or> c = CSend"

lemma past_lock_simps [simp]: "past_lock CRecv" "past_lock CSend" "\<not> past_lock CLock" "\<not> past_lock CDone"
  by (simp_all add: past_lock_def)

definition close_inv :: "close_pc list \<Rightarrow> bool \<Rightarrow> bool \<Rightarrow> 'pk PeerImpl \<Rightarrow> bool" where
  "close_inv cs sd rd p \<longleftrightarrow>
     (\<not> pi_closeMu p \<longrightarrow> filter past_lock cs = []) \<and>
     (pi_closeMu p \<longrightarrow> pi_closeCh p \<and> \<not> (sd \<and> pi_sendDoneCh p = 0) \<and>
        (filter past_lock cs = [CRecv] \<and> \<not> (rd \<and> pi_recvDoneCh p = 0) \<or> filter past_lock cs = [CSend])) \<and>
     (\<not> sd \<longrightarrow> pi_sendDoneCh p = 0) \<and> (\<not> rd \<longrightarrow> pi_recvDoneCh p = 0) \<and>
     pi_sendDoneCh p \<le> 1 \<and> pi_recvDoneCh p \<le> 1 \<and>
     (sd \<and> pi_sendDoneCh p = 0 \<longrightarrow> pi_closeCh p) \<and> (rd \<and> pi_recvDoneCh p = 0 \<longrightarrow> pi_closeCh p) \<and>
     (pi_closeCh p \<longrightarrow> pi_connClosed p \<and> pi_closeReason p \<noteq> None)"

lemma filter_single:
  assumes "filter P (as @ c # bs) = [x]" and "P c"
  shows "c = x \<and> filter P as = [] \<and> filter P bs = []"
  using assms by (cases "filter P as") simp_all

lemma close_inv_turn:
  assumes inv: "close_inv (as @ c # bs) sd rd p" and turn: "PeerImpl_Close_turn c p = Some (c1, p1)"
  shows "close_inv (as @ c1 # bs) sd rd p1"
proof (cases "past_lock c")
  case True
  then have mu: "pi_closeMu p" using inv by (auto simp: close_inv_def)
  then have fil: "filter past_lock (as @ c # bs) = [CRecv] \<and> \<not> (rd \<and> pi_recvDoneCh p = 0)
      \<or> filter past_lock (as @ c # bs) = [CSend]" using inv unfolding close_inv_def by blast
  then obtain x where "filter past_lock (as @ c # bs) = [x]" by blast
  from filter_single [OF this True] have e: "filter past_lock as = []" "filter past_lock bs = []" by simp_all
  show ?thesis
  proof (cases "c = CRecv")
    case True
    then have "c1 = CSend" "p1 = p\<lparr>pi_recvDoneCh := pi_recvDoneCh p - 1\<rparr>" using turn by (simp_all split: if_splits)
    then show ?thesis using inv mu e True by (simp add: close_inv_def)
  next
    case False
    then have c: "c = CSend" using \<open>past_lock c\<close> by (simp add: past_lock_def)
    then have "c1 = CDone" "p1 = p\<lparr>pi_sendDoneCh := pi_sendDoneCh p - 1, pi_closeMu := False\<rparr>"
      using turn by (simp_all split: if_splits)
    then show ?thesis using inv mu e c by (simp add: close_inv_def)
  qed
next
  case False
  then have c: "c = CLock" "\<not> pi_closeMu p" using turn by (cases c; simp split: if_splits)+
  show ?thesis
  proof (cases "pi_closeCh p")
    case True
    then have "c1 = CDone" "p1 = p" using turn c by simp_all
    then show ?thesis using inv c by (simp add: close_inv_def)
  next
    case False
    define r where "r = (if pi_closeReason p = None then Some ErrPeerClosed else pi_closeReason p)"
    have r: "\<exists>y. r = Some y" by (auto simp: r_def)
    have "c1 = CRecv" "p1 = p\<lparr>pi_closeMu := True, pi_closeReason := r, pi_connClosed := True, pi_closeCh := True\<rparr>"
      using turn c False by (simp_all add: r_def)
    then show ?thesis using inv c False r by (simp add: close_inv_def)
  qed
qed

lemma close_inv_cong:
  assumes "pi_closeMu q = pi_closeMu p" "pi_closeCh q = pi_closeCh p" "pi_sendDoneCh q = pi_sendDoneCh p"
    "pi_recvDoneCh q = pi_recvDoneCh p" "pi_connClosed q = pi_connClosed p"
    "pi_closeReason p \<noteq> None \<Longrightarrow> pi_closeReason q \<noteq> None" "close_inv cs sd rd p"
  shows "close_inv cs sd rd q"
  using assms by (simp add: close_inv_def)

definition send_ended :: "'pk PeerImpl \<Rightarrow> bool" where
  "send_ended p \<longleftrightarrow> (case pi_send p of SClose c \<Rightarrow> True | _ \<Rightarrow> False)"

definition recv_ended :: "'pk PeerImpl \<Rightarrow> bool" where
  "recv_ended p \<longleftrightarrow> (case pi_recv p of RClose c \<Rightarrow> True | _ \<Rightarrow> False)"

definition send_closer :: "'pk PeerImpl \<Rightarrow> close_pc list" where
  "send_closer p = (case pi_send p of SClose c \<Rightarrow> [c] | _ \<Rightarrow> [])"

definition recv_closer :: "'pk PeerImpl \<Rightarrow> close_pc list" where
  "recv_closer p = (case pi_recv p of RClose c \<Rightarrow> [c] | _ \<Rightarrow> [])"

definition closers :: "'pk PeerImpl \<Rightarrow> close_pc list" where
  "closers p = send_closer p @ recv_closer p @ pi_callers p"

definition peer_inv :: "'pk PeerImpl \<Rightarrow> bool" where
  "peer_inv p \<longleftrightarrow> close_inv (closers p) (send_ended p) (recv_ended p) p"

lemmas closer_defs = send_closer_def recv_closer_def send_ended_def recv_ended_def

lemma Close_turn_other:
  assumes "PeerImpl_Close_turn c p = Some (c1, p1)"
  shows "pi_send p1 = pi_send p" "pi_recv p1 = pi_recv p" "pi_callers p1 = pi_callers p"
    "pi_recvCh p1 = pi_recvCh p" "pi_sendCh p1 = pi_sendCh p"
  using assms by (cases c; auto split: if_splits)+

lemma setCloseReason_other:
  assumes "PeerImpl_setCloseReason p e = (r, p1)"
  shows "pi_send p1 = pi_send p" "pi_recv p1 = pi_recv p" "pi_callers p1 = pi_callers p"
    "pi_closeMu p1 = pi_closeMu p" "pi_closeCh p1 = pi_closeCh p" "pi_sendDoneCh p1 = pi_sendDoneCh p"
    "pi_recvDoneCh p1 = pi_recvDoneCh p" "pi_connClosed p1 = pi_connClosed p" "pi_recvCh p1 = pi_recvCh p"
    "pi_closeReason p \<noteq> None \<longrightarrow> pi_closeReason p1 = pi_closeReason p"
  using assms by (auto simp: PeerImpl_setCloseReason_def Let_def split: if_splits option.splits)

lemma Counting_other [simp]:
  "pi_send (CountingWriter_Write p b) = pi_send p" "pi_recv (CountingWriter_Write p b) = pi_recv p"
  "pi_callers (CountingWriter_Write p b) = pi_callers p" "pi_closeMu (CountingWriter_Write p b) = pi_closeMu p"
  "pi_closeCh (CountingWriter_Write p b) = pi_closeCh p" "pi_sendDoneCh (CountingWriter_Write p b) = pi_sendDoneCh p"
  "pi_recvDoneCh (CountingWriter_Write p b) = pi_recvDoneCh p" "pi_connClosed (CountingWriter_Write p b) = pi_connClosed p"
  "pi_recvCh (CountingWriter_Write p b) = pi_recvCh p" "pi_closeReason (CountingWriter_Write p b) = pi_closeReason p"
  "pi_send (CountingReader_Read p n) = pi_send p" "pi_recv (CountingReader_Read p n) = pi_recv p"
  "pi_callers (CountingReader_Read p n) = pi_callers p" "pi_closeMu (CountingReader_Read p n) = pi_closeMu p"
  "pi_closeCh (CountingReader_Read p n) = pi_closeCh p" "pi_sendDoneCh (CountingReader_Read p n) = pi_sendDoneCh p"
  "pi_recvDoneCh (CountingReader_Read p n) = pi_recvDoneCh p" "pi_connClosed (CountingReader_Read p n) = pi_connClosed p"
  "pi_recvCh (CountingReader_Read p n) = pi_recvCh p" "pi_closeReason (CountingReader_Read p n) = pi_closeReason p"
  by (simp_all add: CountingWriter_Write_def CountingReader_Read_def)

text \<open>The fields that the close protocol reads, apart from the program counters.\<close>

definition same_ctl :: "'pk PeerImpl \<Rightarrow> 'pk PeerImpl \<Rightarrow> bool" where
  "same_ctl p q \<longleftrightarrow>
     pi_closeMu q = pi_closeMu p \<and> pi_closeCh q = pi_closeCh p \<and> pi_sendDoneCh q = pi_sendDoneCh p \<and>
     pi_recvDoneCh q = pi_recvDoneCh p \<and> pi_connClosed q = pi_connClosed p \<and>
     (pi_closeReason p \<noteq> None \<longrightarrow> pi_closeReason q = pi_closeReason p)"

lemma peer_inv_same:
  assumes "peer_inv p" "same_ctl p q" "closers q = closers p" "send_ended q = send_ended p" "recv_ended q = recv_ended p"
  shows "peer_inv q"
  unfolding peer_inv_def assms(3-5)
  by (rule close_inv_cong [of _ p]) (use assms(1,2) in \<open>simp_all add: peer_inv_def same_ctl_def\<close>)

lemma send_turn_encode:
  assumes "PeerImpl_send_turn ec pick w p = Some q" "pi_send p = SEncode k e"
  shows "same_ctl p q \<and> pi_recv q = pi_recv p \<and> pi_callers q = pi_callers p \<and> pi_recvCh q = pi_recvCh p \<and>
    (pi_send q = SDefer \<or> \<not> pi_connClosed p \<and> pi_send q = SLoop)"
proof -
  obtain out er where w: "PeerImpl_write (Envelope_Encode ec e) w p = (out, er)" by fastforce
  show ?thesis
  proof (cases er)
    case None
    then have "\<not> pi_connClosed p" using w by (auto simp: PeerImpl_write_def)
    then show ?thesis using assms w None by (auto simp: Let_def same_ctl_def)
  next
    case (Some x)
    obtain r p1 where s: "PeerImpl_setCloseReason (CountingWriter_Write p out) (Some x) = (r, p1)" by fastforce
    have "q = p1\<lparr>pi_answers := pi_answers p1 @ [(k, AErr r)], pi_send := SDefer\<rparr>"
      using assms w Some s by simp
    then show ?thesis using setCloseReason_other [OF s] by (simp add: same_ctl_def)
  qed
qed

lemma recv_turn_decode:
  assumes "PeerImpl_recv_turn ec pick w p = Some q" "pi_recv p = RDecode k"
  shows "same_ctl p q \<and> pi_send q = pi_send p \<and> pi_callers q = pi_callers p \<and> pi_recvCh q = pi_recvCh p \<and>
    (pi_recv q = RDefer \<or> pi_recv q = RLoop)"
proof -
  obtain res n where res: "(let input = take MaxPeerPacketSize (pi_connIn p) in case w of
        Some (e, n) \<Rightarrow> (Err e, min n (length input))
      | None \<Rightarrow> (case Envelope_Decode ec input of
           Ok (envelope, rest) \<Rightarrow> (Ok envelope, length input - length rest)
         | Err e \<Rightarrow> (Err e, length input)
         | Panic m \<Rightarrow> (Panic m, 0))) = (res, n)" by fastforce
  show ?thesis
  proof (cases res)
    case (Ok x)
    then show ?thesis using assms res by (auto simp: Let_def same_ctl_def)
  next
    case (Err x)
    obtain r p1 where s: "PeerImpl_setCloseReason (CountingReader_Read p n) (Some x) = (r, p1)" by fastforce
    have "q = p1\<lparr>pi_answers := pi_answers p1 @ [(k, AErr r)], pi_recv := RDefer\<rparr>"
      using assms res Err s by (simp add: Let_def)
    then show ?thesis using setCloseReason_other [OF s] by (simp add: same_ctl_def)
  next
    case (Panic m)
    then show ?thesis using assms res by (simp add: Let_def)
  qed
qed

lemma peer_inv_send:
  assumes inv: "peer_inv p" and t: "PeerImpl_send_turn ec pick w p = Some q"
  shows "peer_inv q"
proof (cases "pi_send p")
  case SLoop
  then have "same_ctl p q \<and> closers q = closers p \<and> send_ended q = send_ended p \<and> recv_ended q = recv_ended p"
    using t by (auto simp: same_ctl_def closers_def closer_defs split: list.splits if_splits)
  then show ?thesis using peer_inv_same [OF inv] by blast
next
  case (SEncode k e)
  with send_turn_encode [OF t SEncode]
  have "same_ctl p q \<and> closers q = closers p \<and> send_ended q = send_ended p \<and> recv_ended q = recv_ended p"
    by (auto simp: closers_def closer_defs)
  then show ?thesis using peer_inv_same [OF inv] by blast
next
  case SDefer
  then have q: "pi_sendDoneCh p = 0" "q = p\<lparr>pi_sendDoneCh := 1, pi_send := SClose CLock\<rparr>"
    using t by (auto split: if_splits)
  show ?thesis
    unfolding q(2) using inv SDefer q(1) by (simp add: peer_inv_def close_inv_def closers_def closer_defs)
next
  case (SClose c)
  then obtain c1 p1 where c: "PeerImpl_Close_turn c p = Some (c1, p1)" "q = p1\<lparr>pi_send := SClose c1\<rparr>"
    using t by (auto split: option.splits)
  have "close_inv ([] @ c1 # recv_closer p @ pi_callers p) True (recv_ended p) p1"
    by (rule close_inv_turn [OF _ c(1)]) (use inv SClose in \<open>simp add: peer_inv_def closers_def closer_defs\<close>)
  then show ?thesis
    by (simp add: peer_inv_def closers_def closer_defs c(2) Close_turn_other [OF c(1)] close_inv_def)
qed

lemma peer_inv_recv:
  assumes inv: "peer_inv p" and t: "PeerImpl_recv_turn ec pick w p = Some q"
  shows "peer_inv q"
proof (cases "pi_recv p")
  case RLoop
  then have "same_ctl p q \<and> closers q = closers p \<and> send_ended q = send_ended p \<and> recv_ended q = recv_ended p"
    using t by (auto simp: same_ctl_def closers_def closer_defs split: list.splits if_splits)
  then show ?thesis using peer_inv_same [OF inv] by blast
next
  case (RDecode k)
  with recv_turn_decode [OF t RDecode]
  have "same_ctl p q \<and> closers q = closers p \<and> send_ended q = send_ended p \<and> recv_ended q = recv_ended p"
    by (auto simp: closers_def closer_defs)
  then show ?thesis using peer_inv_same [OF inv] by blast
next
  case RDefer
  then have q: "pi_recvDoneCh p = 0" "q = p\<lparr>pi_recvDoneCh := 1, pi_recv := RClose CLock\<rparr>"
    using t by (auto split: if_splits)
  show ?thesis
    unfolding q(2) using inv RDefer q(1) by (simp add: peer_inv_def close_inv_def closers_def closer_defs)
next
  case (RClose c)
  then obtain c1 p1 where c: "PeerImpl_Close_turn c p = Some (c1, p1)" "q = p1\<lparr>pi_recv := RClose c1\<rparr>"
    using t by (auto split: option.splits)
  have "close_inv (send_closer p @ c1 # pi_callers p) (send_ended p) True p1"
    by (rule close_inv_turn [OF _ c(1)]) (use inv RClose in \<open>simp add: peer_inv_def closers_def closer_defs\<close>)
  then show ?thesis
    by (simp add: peer_inv_def closers_def closer_defs c(2) Close_turn_other [OF c(1)] close_inv_def)
qed

lemma peer_inv_close:
  assumes inv: "peer_inv p" and cs: "pi_callers p = xs @ c # ys" and t: "PeerImpl_Close_turn c p = Some (c1, p1)"
  shows "peer_inv (p1\<lparr>pi_callers := xs @ c1 # ys\<rparr>)"
proof -
  have "close_inv ((send_closer p @ recv_closer p @ xs) @ c1 # ys) (send_ended p) (recv_ended p) p1"
    by (rule close_inv_turn [OF _ t]) (use inv in \<open>simp add: peer_inv_def closers_def cs\<close>)
  then show ?thesis
    by (simp add: peer_inv_def closers_def closer_defs Close_turn_other [OF t] close_inv_def)
qed

lemma peer_inv_step: "peer_step ec p q \<Longrightarrow> peer_inv p \<Longrightarrow> peer_inv q"
  by (induction rule: peer_step.induct) (auto intro: peer_inv_send peer_inv_recv peer_inv_close simp del: PeerImpl_send_turn.simps PeerImpl_recv_turn.simps)

lemma peer_reach_inv: "peer_reach ec p \<Longrightarrow> peer_inv p"
proof (induction rule: peer_reach.induct)
  case (re_new d)
  show ?case by (simp add: peer_inv_def close_inv_def closers_def closer_defs NewPeer_def)
next
  case (re_step p q)
  then show ?case using peer_inv_step by blast
next
  case (re_send p k e q)
  then have "q = p\<lparr>pi_sendCh := pi_sendCh p @ [(k, e)]\<rparr>" by (simp add: PeerImpl_SendCtx_place_def split: if_splits)
  then show ?case
    using re_send.IH by (simp add: peer_inv_def close_inv_def closers_def closer_defs)
next
  case (re_recv p k)
  then show ?case
    by (cases "snd (PeerImpl_ReceiveCtx_place p k) = p")
      (simp_all add: PeerImpl_ReceiveCtx_place_def peer_inv_def close_inv_def closers_def closer_defs split: if_splits)
next
  case (re_call p)
  then show ?case by (simp add: peer_inv_def close_inv_def closers_def closer_defs)
next
  case (re_bytes p bs)
  then show ?case by (simp add: peer_inv_def close_inv_def closers_def closer_defs)
qed

text \<open>The work left once the peer is closed.\<close>

primrec close_work :: "close_pc \<Rightarrow> nat" where
  "close_work CLock = 3" | "close_work CRecv = 2" | "close_work CSend = 1" | "close_work CDone = 0"

primrec send_work :: "'pk send_pc \<Rightarrow> nat" where
  "send_work SLoop = 6" | "send_work (SEncode k e) = 5" | "send_work SDefer = 4" | "send_work (SClose c) = close_work c"

primrec recv_work :: "nat \<Rightarrow> recv_pc \<Rightarrow> nat" where
  "recv_work n RLoop = 6 + 2 * n" | "recv_work n (RDecode k) = 7 + 2 * n" | "recv_work n RDefer = 4"
| "recv_work n (RClose c) = close_work c"

definition peer_work :: "'pk PeerImpl \<Rightarrow> nat" where
  "peer_work p = send_work (pi_send p) + recv_work (length (pi_recvCh p)) (pi_recv p)
     + sum_list (map close_work (pi_callers p))"

definition peer_finished :: "'pk PeerImpl \<Rightarrow> bool" where
  "peer_finished p \<longleftrightarrow> pi_send p = SClose CDone \<and> pi_recv p = RClose CDone \<and> set (pi_callers p) \<subseteq> {CDone}"

lemma Close_turn_work:
  "PeerImpl_Close_turn c p = Some (c1, p1) \<Longrightarrow> close_work c1 < close_work c \<and> pi_closeCh p1 = (pi_closeCh p \<or> c = CLock)"
  by (cases c) (auto split: if_splits)

lemma send_work_dec:
  assumes "PeerImpl_send_turn ec pick w p = Some q" "pi_connClosed p" "pi_closeCh p"
  shows "peer_work q < peer_work p \<and> pi_closeCh q"
proof (cases "pi_send p")
  case SLoop
  then show ?thesis using assms by (auto simp: peer_work_def split: list.splits if_splits)
next
  case (SEncode k e)
  then show ?thesis using send_turn_encode [OF assms(1) SEncode] assms(2,3) by (simp add: peer_work_def same_ctl_def)
next
  case SDefer
  then show ?thesis using assms by (auto simp: peer_work_def split: if_splits)
next
  case (SClose c)
  then obtain c1 p1 where c: "PeerImpl_Close_turn c p = Some (c1, p1)" "q = p1\<lparr>pi_send := SClose c1\<rparr>"
    using assms(1) by (auto split: option.splits)
  show ?thesis using Close_turn_work [OF c(1)] assms(3) SClose by (simp add: peer_work_def c(2) Close_turn_other [OF c(1)])
qed

lemma recv_work_dec:
  assumes "PeerImpl_recv_turn ec pick w p = Some q" "pi_closeCh p"
  shows "peer_work q < peer_work p \<and> pi_closeCh q"
proof (cases "pi_recv p")
  case RLoop
  then show ?thesis using assms by (auto simp: peer_work_def split: list.splits if_splits)
next
  case (RDecode k)
  then show ?thesis using recv_turn_decode [OF assms(1) RDecode] assms(2) by (auto simp: peer_work_def same_ctl_def)
next
  case RDefer
  then show ?thesis using assms by (auto simp: peer_work_def split: if_splits)
next
  case (RClose c)
  then obtain c1 p1 where c: "PeerImpl_Close_turn c p = Some (c1, p1)" "q = p1\<lparr>pi_recv := RClose c1\<rparr>"
    using assms(1) by (auto split: option.splits)
  show ?thesis using Close_turn_work [OF c(1)] assms(2) RClose by (simp add: peer_work_def c(2) Close_turn_other [OF c(1)])
qed

lemma step_work_dec:
  assumes "peer_step ec p q" "peer_inv p" "pi_closeCh p"
  shows "peer_work q < peer_work p \<and> pi_closeCh q"
  using assms(1)
proof cases
  case (st_send pick w)
  moreover have "pi_connClosed p" using assms(2,3) by (simp add: peer_inv_def close_inv_def)
  ultimately show ?thesis using send_work_dec assms(3) by blast
next
  case (st_recv pick w)
  then show ?thesis using recv_work_dec assms(3) by blast
next
  case (st_close xs c ys c1 p1)
  then show ?thesis using Close_turn_work [OF st_close(3)] assms(3)
    by (simp add: peer_work_def Close_turn_other [OF st_close(3)])
qed

lemma step_reason:
  assumes "peer_step ec p q" "pi_closeReason p = Some r"
  shows "pi_closeReason q = Some r"
  using assms(1)
proof cases
  case (st_send pick w)
  show ?thesis
  proof (cases "pi_send p")
    case (SEncode k e)
    then show ?thesis using send_turn_encode [OF st_send SEncode] assms(2) by (simp add: same_ctl_def)
  next
    case (SClose c)
    then show ?thesis using st_send assms(2) by (cases c) (auto split: if_splits)
  qed (use st_send assms(2) in \<open>auto split: list.splits if_splits\<close>)
next
  case (st_recv pick w)
  show ?thesis
  proof (cases "pi_recv p")
    case (RDecode k)
    then show ?thesis using recv_turn_decode [OF st_recv RDecode] assms(2) by (simp add: same_ctl_def)
  next
    case (RClose c)
    then show ?thesis using st_recv assms(2) by (cases c) (auto split: if_splits)
  qed (use st_recv assms(2) in \<open>auto split: list.splits if_splits\<close>)
next
  case (st_close xs c ys c1 p1)
  then show ?thesis using assms(2) by (cases c) (auto split: if_splits)
qed

lemma closer_enabled:
  assumes "c \<in> set (closers p)" "PeerImpl_Close_turn c p \<noteq> None"
  shows "\<exists>q. peer_step ec p q"
proof -
  obtain c1 p1 where t: "PeerImpl_Close_turn c p = Some (c1, p1)" using assms(2) by auto
  consider "pi_send p = SClose c" | "pi_recv p = RClose c" | "c \<in> set (pi_callers p)"
    using assms(1) by (auto simp: closers_def closer_defs split: send_pc.splits recv_pc.splits)
  then show ?thesis
  proof cases
    case 1
    then have "PeerImpl_send_turn ec True None p = Some (p1\<lparr>pi_send := SClose c1\<rparr>)" using t by simp
    then show ?thesis using st_send by blast
  next
    case 2
    then have "PeerImpl_recv_turn ec True None p = Some (p1\<lparr>pi_recv := RClose c1\<rparr>)" using t by simp
    then show ?thesis using st_recv by blast
  next
    case 3
    then obtain xs ys where "pi_callers p = xs @ c # ys" by (meson split_list)
    then show ?thesis using st_close [OF _ t] by blast
  qed
qed

lemma send_enabled:
  assumes "peer_inv p" "pi_closeCh p" "\<not> send_ended p"
  shows "\<exists>q. peer_step ec p q"
proof -
  have d: "pi_sendDoneCh p = 0" using assms(1,3) by (simp add: peer_inv_def close_inv_def)
  have "\<exists>q. PeerImpl_send_turn ec False None p = Some q"
    using assms(2,3) d
    by (cases "pi_send p") (auto simp: send_ended_def Let_def split: list.splits option.splits prod.splits)
  then show ?thesis using st_send by blast
qed

lemma recv_enabled:
  assumes "peer_inv p" "pi_closeCh p" "\<not> recv_ended p"
  shows "\<exists>q. peer_step ec p q"
proof -
  have d: "pi_recvDoneCh p = 0" using assms(1,3) by (simp add: peer_inv_def close_inv_def)
  have "\<exists>q. PeerImpl_recv_turn ec False (Some (io_EOF, 0)) p = Some q"
    using assms(2,3) d
    by (cases "pi_recv p") (auto simp: recv_ended_def Let_def split: list.splits prod.splits)
  then show ?thesis using st_recv by blast
qed

lemma stuck_finished:
  assumes inv: "peer_inv p" and cl: "pi_closeCh p" and stuck: "\<And>q. \<not> peer_step ec p q"
  shows "peer_finished p"
proof -
  have sd: "send_ended p" "recv_ended p" using send_enabled [OF inv cl] recv_enabled [OF inv cl] stuck by blast+
  have no: "PeerImpl_Close_turn c p = None" if "c \<in> set (closers p)" for c
    using closer_enabled [OF that] stuck by blast
  have "\<not> pi_closeMu p"
  proof
    assume mu: "pi_closeMu p"
    then have h: "filter past_lock (closers p) = [CRecv] \<and> pi_recvDoneCh p \<noteq> 0 \<or>
        filter past_lock (closers p) = [CSend]" and s: "pi_sendDoneCh p \<noteq> 0"
      using inv sd by (auto simp: peer_inv_def close_inv_def)
    from h show False
    proof
      assume a: "filter past_lock (closers p) = [CRecv] \<and> pi_recvDoneCh p \<noteq> 0"
      then have "CRecv \<in> set (filter past_lock (closers p))" by simp
      then have "CRecv \<in> set (closers p)" unfolding set_filter by simp
      then show False using no [of CRecv] a by simp
    next
      assume "filter past_lock (closers p) = [CSend]"
      then have "CSend \<in> set (filter past_lock (closers p))" by simp
      then show False using no [of CSend] s by simp
    qed
  qed
  moreover from this have "filter past_lock (closers p) = []" using inv by (simp add: peer_inv_def close_inv_def)
  ultimately have "c = CDone" if "c \<in> set (closers p)" for c
    using no [OF that] that cl by (cases c) (auto simp: filter_empty_conv past_lock_def)
  then show ?thesis
    using sd by (auto simp: peer_finished_def closers_def closer_defs split: send_pc.splits recv_pc.splits)
qed

section \<open>Properties\<close>

text \<open>
  C31. Closing a peer ends it.  Once \<open>Close\<close> has closed the peer in any reachable state, its
  goroutines and all calls of \<open>Close\<close> take only a bounded number of further steps, whatever the
  schedule and the network do, and when no step is left both loops have returned and every call of
  \<open>Close\<close> has: the two goroutines and their own calls of \<open>Close\<close> never deadlock.  The close reason is
  set by then and does not change.
\<close>

theorem Close_terminates:
  assumes "peer_reach ec p" and "pi_closeCh p"
  shows "\<exists>r. PeerImpl_CloseReason p = Some r \<and>
    (\<forall>n q. (peer_step ec ^^ n) p q \<longrightarrow> n \<le> peer_work p \<and> PeerImpl_CloseReason q = Some r \<and>
       ((\<forall>u. \<not> peer_step ec q u) \<longrightarrow> peer_finished q))"
proof -
  have inv: "peer_inv p" by (rule peer_reach_inv [OF assms(1)])
  then obtain r where r: "pi_closeReason p = Some r" using assms(2) by (auto simp: peer_inv_def close_inv_def)
  have run: "peer_inv q \<and> pi_closeCh q \<and> pi_closeReason q = Some r \<and> n + peer_work q \<le> peer_work p"
    if "(peer_step ec ^^ n) p q" for n q
    using that
  proof (induction n arbitrary: q)
    case 0
    then show ?case using inv assms(2) r by simp
  next
    case (Suc n)
    then obtain q0 where q0: "(peer_step ec ^^ n) p q0" "peer_step ec q0 q" by auto
    from Suc.IH [OF q0(1)] show ?case
      using peer_inv_step [OF q0(2)] step_work_dec [OF q0(2)] step_reason [OF q0(2)] by fastforce
  qed
  show ?thesis
  proof (intro exI conjI allI impI)
    show "PeerImpl_CloseReason p = Some r" using r by (simp add: PeerImpl_CloseReason_def)
    fix n q
    assume q: "(peer_step ec ^^ n) p q"
    show "n \<le> peer_work p" "PeerImpl_CloseReason q = Some r" using run [OF q] by (simp_all add: PeerImpl_CloseReason_def)
    show "peer_finished q" if "\<forall>u. \<not> peer_step ec q u" using stuck_finished run [OF q] that by blast
  qed
qed

theorem Close_terminates_witness:
  "\<exists>p :: 8 word PeerImpl. PeerImpl_CloseReason p = Some ErrPeerClosed \<and>
     (\<forall>n q. (peer_step toy_ec ^^ n) p q \<longrightarrow> n \<le> 14)"
proof -
  define p0 :: "8 word PeerImpl" where "p0 = (NewPeer Inbound)\<lparr>pi_callers := [CLock]\<rparr>"
  define p1 where "p1 = p0\<lparr>pi_closeMu := True, pi_closeReason := Some ErrPeerClosed, pi_connClosed := True, pi_closeCh := True,
    pi_callers := [CRecv]\<rparr>"
  have "peer_reach toy_ec p0" using re_call [OF re_new [of toy_ec Inbound]] by (simp add: p0_def NewPeer_def)
  moreover have "peer_step toy_ec p0 p1"
    using st_close [of p0 "[]" CLock "[]" CRecv "p1\<lparr>pi_callers := [CLock]\<rparr>" toy_ec] by (simp add: p0_def p1_def NewPeer_def)
  ultimately have reach: "peer_reach toy_ec p1" by (rule re_step)
  have c: "pi_closeCh p1" "PeerImpl_CloseReason p1 = Some ErrPeerClosed" "peer_work p1 = 14"
    by (simp_all add: p1_def p0_def NewPeer_def PeerImpl_CloseReason_def peer_work_def)
  have "\<forall>n q. (peer_step toy_ec ^^ n) p1 q \<longrightarrow> n \<le> 14"
    using Close_terminates [OF reach c(1)] unfolding c(3) by blast
  then show ?thesis using c(2) by blast
qed

text \<open>
  Placing a message in a peer's send buffer never waits forever: after at most eleven attempts
  \<open>bufferSendCtx\<close> has returned, the timers it waited for add up to less than 2048 milliseconds, and
  if no attempt succeeded it reports the full buffer or the context's error.
\<close>

theorem bufferSendCtx_returns:
  assumes "11 \<le> length sels"
  shows "\<exists>r w. bufferSendCtx 0 0 sels = Some (r, w) \<and> 0 \<le> w \<and> w \<le> 2047 * time_Millisecond \<and>
    (SelPlaced \<notin> set (take 11 sels) \<longrightarrow> r = Some ErrPeerSendBufferFull \<or> (\<exists>e. r = Some e \<and> SelCtx e \<in> set sels))"
proof -
  have gen: "\<exists>r w. bufferSendCtx k (int (2 ^ k - 1) * time_Millisecond) xs = Some (r, w) \<and> 0 \<le> w \<and> w \<le> 2047 * time_Millisecond \<and>
      (SelPlaced \<notin> set (take (11 - k) xs) \<longrightarrow> r = Some ErrPeerSendBufferFull \<or> (\<exists>e. r = Some e \<and> SelCtx e \<in> set xs))"
    if "k \<le> 11" "11 - k \<le> length xs" for k xs
    using that
  proof (induction "11 - k" arbitrary: k xs)
    case 0
    then have "k = 11" by simp
    then show ?case by (simp add: bufferSendCtx.simps time_Millisecond_def)
  next
    case (Suc n)
    then obtain x ys where xs: "xs = x # ys" by (cases xs) auto
    have k: "k \<le> 10" "n = 11 - Suc k" using Suc.hyps(2) by auto
    have pow: "(2::int) ^ k \<le> 2 ^ 10" "(1::int) \<le> 2 ^ k" by (rule power_increasing) (use k(1) in auto)
    have tk: "take (11 - k) xs = x # take (11 - Suc k) ys" using k(1) xs by (simp add: take_Cons' Suc_diff_le)
    have nat: "int (2 ^ k - 1) = 2 ^ k - 1" "int (2 ^ Suc k - 1) = 2 * 2 ^ k - 1" by (simp_all add: of_nat_diff)
    show ?case
    proof (cases x)
      case SelTimer
      have "bufferSendCtx k (int (2 ^ k - 1) * time_Millisecond) xs = bufferSendCtx (Suc k) (int (2 ^ Suc k - 1) * time_Millisecond) ys"
        using k(1) unfolding nat by (subst bufferSendCtx.simps) (simp add: xs SelTimer algebra_simps)
      moreover have "Suc k \<le> 11" "11 - Suc k \<le> length ys" using Suc.prems k(1) xs by auto
      with Suc.hyps(1) [OF k(2)] obtain r w where
        "bufferSendCtx (Suc k) (int (2 ^ Suc k - 1) * time_Millisecond) ys = Some (r, w)" "0 \<le> w" "w \<le> 2047 * time_Millisecond"
        "SelPlaced \<notin> set (take (11 - Suc k) ys) \<longrightarrow> r = Some ErrPeerSendBufferFull \<or> (\<exists>e. r = Some e \<and> SelCtx e \<in> set ys)"
        by blast
      ultimately show ?thesis unfolding tk unfolding xs SelTimer by auto
    qed (use k(1) pow xs tk in \<open>auto simp: bufferSendCtx.simps nat time_Millisecond_def\<close>)
  qed
  show ?thesis using gen [of 0 sels] assms by simp
qed

theorem bufferSendCtx_returns_witness:
  "\<exists>w. bufferSendCtx 0 0 (replicate 11 SelTimer) = Some (Some ErrPeerSendBufferFull, w) \<and> w \<le> 2047 * time_Millisecond"
  using bufferSendCtx_returns [of "replicate 11 SelTimer"] by auto

end
