(* ===== verification/P2P_Muxer.thy ===== *)
theory P2P_Muxer
  imports P2P_Handshake P2P_Peer Util_Cache Util_Sampler
begin

text \<open>
  The peer multiplexer, \<open>p2p/peer_muxer.go\<close>: the table of open peers by identity and address,
  sending, gossip filtering and the dispatch of received envelopes.

  A \<open>Peer\<close> is an object \<open>muxPeer\<close> with its identity \<open>mp_ref\<close>, direction and remote address.  The
  map of peers is an association list, whose order is the unspecified order of Go's iteration.
  What a peer's connection does with an envelope is the argument \<open>net\<close>: the error of \<open>Peer.Send\<close>
  and the number of bytes it counted.  The calls of \<open>Emit\<close> are returned: the events of
  peers opened and closed, and the envelopes handed to the message handlers.
\<close>

section \<open>State\<close>

record muxPeer =
  mp_ref :: nat
  mp_Direction :: PeerDirection
  mp_RemoteIP :: string
  mp_RemoteAddr :: string

datatype mux_event = EvOpen Hash | EvClose Hash

record 'sk PeerMuxer =
  mx_GossipTimeoutMS :: int
  mx_outboundPeersByIP :: "string \<Rightarrow> muxPeer option"
  mx_inboundPeersByIP :: "string \<Rightarrow> muxPeer list"
  mx_peers :: "(Hash \<times> muxPeer) list"
  mx_gossipFilter :: "bool Cache"
  mx_inboundCount :: int
  mx_outboundCount :: int
  mx_magic :: uint32
  mx_signer :: 'sk
  mx_bytesTx :: uint64
  mx_bytesRx :: uint64

definition DefaultPeerMuxerGossipTimeoutMS :: int where
  "DefaultPeerMuxerGossipTimeoutMS = 5 * 60 * 1000"

definition NewPeerMuxer :: "uint32 \<Rightarrow> 'sk \<Rightarrow> 'sk PeerMuxer" where
  "NewPeerMuxer magic signer =
     \<lparr>mx_GossipTimeoutMS = DefaultPeerMuxerGossipTimeoutMS, mx_outboundPeersByIP = (\<lambda>_. None),
      mx_inboundPeersByIP = (\<lambda>_. []), mx_peers = [], mx_gossipFilter = NewCache,
      mx_inboundCount = 0, mx_outboundCount = 0, mx_magic = magic, mx_signer = signer,
      mx_bytesTx = 0, mx_bytesRx = 0\<rparr>"

definition ErrAlreadyConnected :: err where
  "ErrAlreadyConnected = ErrVar ''already connected to this peer''"

section \<open>Lookups\<close>

definition PeerMuxer_BandwidthUsage :: "'sk PeerMuxer \<Rightarrow> uint64 \<times> uint64" where
  "PeerMuxer_BandwidthUsage p = (mx_bytesTx p, mx_bytesRx p)"

definition PeerMuxer_PeerCount :: "'sk PeerMuxer \<Rightarrow> int \<times> int" where
  "PeerMuxer_PeerCount p = (mx_inboundCount p, mx_outboundCount p)"

definition PeerMuxer_HasPeerID :: "'sk PeerMuxer \<Rightarrow> Hash \<Rightarrow> bool" where
  "PeerMuxer_HasPeerID p i \<longleftrightarrow> map_of (mx_peers p) i \<noteq> None"

definition PeerMuxer_HasOutboundPeerIP :: "'sk PeerMuxer \<Rightarrow> string \<Rightarrow> bool" where
  "PeerMuxer_HasOutboundPeerIP p ip \<longleftrightarrow> mx_outboundPeersByIP p ip \<noteq> None"

definition PeerMuxer_Peers :: "'sk PeerMuxer \<Rightarrow> (Hash \<times> muxPeer) list" where
  "PeerMuxer_Peers p = mx_peers p"

definition PeerMuxer_PeersByIP :: "'sk PeerMuxer \<Rightarrow> string \<Rightarrow> muxPeer list" where
  "PeerMuxer_PeersByIP p ip =
     mx_inboundPeersByIP p ip @ (case mx_outboundPeersByIP p ip of None \<Rightarrow> [] | Some x \<Rightarrow> [x])"

definition PeerMuxer_PeerIDs :: "'sk PeerMuxer \<Rightarrow> Hash list" where
  "PeerMuxer_PeerIDs p = map fst (mx_peers p)"

definition PeerMuxer_PeerByID :: "'sk PeerMuxer \<Rightarrow> Hash \<Rightarrow> muxPeer go" where
  "PeerMuxer_PeerByID p i =
     (case map_of (mx_peers p) i of None \<Rightarrow> Err (ErrNew ''peer not found'') | Some x \<Rightarrow> Ok x)"

definition PeerMuxer_PeerByIP :: "'sk PeerMuxer \<Rightarrow> string \<Rightarrow> muxPeer go" where
  "PeerMuxer_PeerByIP p ip =
     (case mx_outboundPeersByIP p ip of None \<Rightarrow> Err (ErrNew ''peer not found'') | Some x \<Rightarrow> Ok x)"

section \<open>Opening and closing\<close>

definition PeerMuxer_handlePeerOpen ::
  "'sk PeerMuxer \<Rightarrow> Hash \<Rightarrow> muxPeer \<Rightarrow> unit go \<times> mux_event list \<times> 'sk PeerMuxer" where
  "PeerMuxer_handlePeerOpen p i peer =
     (if map_of (mx_peers p) i \<noteq> None then (Err ErrAlreadyConnected, [], p)
      else
        let ip = mp_RemoteIP peer;
            p1 = (if mp_Direction peer = Inbound
                  then p\<lparr>mx_inboundCount := mx_inboundCount p + 1,
                         mx_inboundPeersByIP := (mx_inboundPeersByIP p)(ip := mx_inboundPeersByIP p ip @ [peer])\<rparr>
                  else p\<lparr>mx_outboundCount := mx_outboundCount p + 1,
                         mx_outboundPeersByIP := (mx_outboundPeersByIP p)(ip := Some peer)\<rparr>)
        in (Ok (), [EvOpen i], p1\<lparr>mx_peers := AList.update i peer (mx_peers p1)\<rparr>))"

text \<open>A peer object is stored once under its address, and the loop takes that entry out.\<close>

definition PeerMuxer_removeInboundPeerByIP :: "'sk PeerMuxer \<Rightarrow> muxPeer \<Rightarrow> 'sk PeerMuxer" where
  "PeerMuxer_removeInboundPeerByIP p peer =
     p\<lparr>mx_inboundPeersByIP := (mx_inboundPeersByIP p)
         (mp_RemoteIP peer := remove1 peer (mx_inboundPeersByIP p (mp_RemoteIP peer)))\<rparr>"

definition PeerMuxer_handlePeerClose ::
  "'sk PeerMuxer \<Rightarrow> Hash \<Rightarrow> mux_event list \<times> 'sk PeerMuxer" where
  "PeerMuxer_handlePeerClose p i =
     (case map_of (mx_peers p) i of
        None \<Rightarrow> ([], p)
      | Some peer \<Rightarrow>
          let p1 = (if mp_Direction peer = Inbound
                    then PeerMuxer_removeInboundPeerByIP (p\<lparr>mx_inboundCount := mx_inboundCount p - 1\<rparr>) peer
                    else p\<lparr>mx_outboundCount := mx_outboundCount p - 1,
                           mx_outboundPeersByIP := (mx_outboundPeersByIP p)(mp_RemoteIP peer := None)\<rparr>)
          in ([EvClose i], p1\<lparr>mx_peers := AList.delete i (mx_peers p1)\<rparr>))"

definition PeerMuxer_ClosePeer :: "'sk PeerMuxer \<Rightarrow> Hash \<Rightarrow> mux_event list \<times> 'sk PeerMuxer" where
  "PeerMuxer_ClosePeer p i = PeerMuxer_handlePeerClose p i"

section \<open>Messages\<close>

definition PeerMuxer_gossipKey ::
  "(bytes \<Rightarrow> bytes) \<Rightarrow> ('pk, 'sk) btcec \<Rightarrow> Hash \<Rightarrow> 'pk Message \<Rightarrow> string go" where
  "PeerMuxer_gossipKey b2 ec peerID message =
     go_bind (fst (Message_Hash b2 ec HashCacher_new message)) (\<lambda>hash.
     Ok (Hash_String peerID @ '':'' @ Hash_String hash))"

definition PeerMuxer_handlePeerMessage ::
  "(bytes \<Rightarrow> bytes) \<Rightarrow> ('pk, 'sk) btcec \<Rightarrow> time \<Rightarrow> 'sk PeerMuxer \<Rightarrow> Hash \<Rightarrow> 'pk Envelope
     \<Rightarrow> unit go \<times> (Hash \<times> 'pk Envelope) list \<times> 'sk PeerMuxer" where
  "PeerMuxer_handlePeerMessage b2 ec now p i envelope =
     (case PeerMuxer_gossipKey b2 ec i (env_Message envelope) of
        Err e \<Rightarrow> (Err e, [], p)
      | Panic m \<Rightarrow> (Panic m, [], p)
      | Ok key \<Rightarrow>
          (case Cache_Set now (mx_gossipFilter p) key (Some True) (mx_GossipTimeoutMS p) of
             (Ok _, c) \<Rightarrow> (Ok (), [(i, envelope)], p\<lparr>mx_gossipFilter := c\<rparr>)
           | (Err e, c) \<Rightarrow> (Err e, [], p\<lparr>mx_gossipFilter := c\<rparr>)
           | (Panic m, c) \<Rightarrow> (Panic m, [], p\<lparr>mx_gossipFilter := c\<rparr>)))"

text \<open>
  One turn of the goroutine of \<open>AddPeer\<close>: the outcome of \<open>Receive\<close> with the bytes it counted.  A
  failed receive or an invalid envelope closes the peer and ends the loop, which is \<open>False\<close>.
\<close>

definition PeerMuxer_AddPeer_turn ::
  "(bytes \<Rightarrow> bytes) \<Rightarrow> ('pk, 'sk) btcec \<Rightarrow> time \<Rightarrow> 'sk PeerMuxer \<Rightarrow> Hash \<Rightarrow> err + 'pk Envelope \<Rightarrow> uint64
     \<Rightarrow> bool go \<times> (Hash \<times> 'pk Envelope) list \<times> 'sk PeerMuxer" where
  "PeerMuxer_AddPeer_turn b2 ec now p i received rx =
     (case received of
        Inl e \<Rightarrow> (Ok False, [], snd (PeerMuxer_handlePeerClose p i))
      | Inr envelope \<Rightarrow>
          (case ValidateEnvelope b2 ec now (mx_magic p) i envelope of
             Panic m \<Rightarrow> (Panic m, [], p)
           | Err e \<Rightarrow> (Ok False, [], snd (PeerMuxer_handlePeerClose p i))
           | Ok _ \<Rightarrow>
               (case PeerMuxer_handlePeerMessage b2 ec now p i envelope of
                  (Ok _, out, p1) \<Rightarrow> (Ok True, out, p1\<lparr>mx_bytesRx := mx_bytesRx p1 + rx\<rparr>)
                | (Err e, out, p1) \<Rightarrow> (Err e, out, p1)
                | (Panic m, out, p1) \<Rightarrow> (Panic m, out, p1))))"

definition PeerMuxer_AddPeer ::
  "'sk PeerMuxer \<Rightarrow> Hash \<Rightarrow> muxPeer \<Rightarrow> unit go \<times> mux_event list \<times> 'sk PeerMuxer" where
  "PeerMuxer_AddPeer p i peer =
     (case PeerMuxer_handlePeerOpen p i peer of (r, evs, p1) \<Rightarrow> (go_wrap r ''error adding peer'', evs, p1))"

text \<open>Sending: the envelope that went to the connection, if one did.\<close>

definition PeerMuxer_Send ::
  "(bytes \<Rightarrow> bytes) \<Rightarrow> ('pk, 'sk) btcec \<Rightarrow> time \<Rightarrow> (muxPeer \<Rightarrow> 'pk Envelope \<Rightarrow> err option \<times> uint64)
     \<Rightarrow> 'sk PeerMuxer \<Rightarrow> Hash \<Rightarrow> 'pk Message \<Rightarrow> unit go \<times> (Hash \<times> 'pk Envelope) list \<times> 'sk PeerMuxer" where
  "PeerMuxer_Send b2 ec now net p i message =
     (case map_of (mx_peers p) i of
        None \<Rightarrow> (Err (ErrNew ''peer not found''), [], p)
      | Some peer \<Rightarrow>
          (case NewEnvelope b2 ec now (mx_magic p) message (mx_signer p) of
             Panic m \<Rightarrow> (Panic m, [], p)
           | Err e \<Rightarrow> (Err (ErrWrap e ''error creating envelope''), [], p)
           | Ok envelope \<Rightarrow>
               (case net peer envelope of
                  (Some e, _) \<Rightarrow> (Err (ErrWrap e ''error sending message to peer''), [(i, envelope)], p)
                | (None, tx) \<Rightarrow> (Ok (), [(i, envelope)], p\<lparr>mx_bytesTx := mx_bytesTx p + tx\<rparr>))))"

definition PeerMessageHandlerForType ::
  "MessageType \<Rightarrow> (Hash \<Rightarrow> 'pk Envelope \<Rightarrow> 's \<Rightarrow> 's) \<Rightarrow> Hash \<Rightarrow> 'pk Envelope \<Rightarrow> 's \<Rightarrow> 's" where
  "PeerMessageHandlerForType msgType hdlr i envelope s =
     (if env_MessageType envelope \<noteq> msgType then s else hdlr i envelope s)"

text \<open>The peers a message is gossiped to; looking a key up may drop its expired entry.\<close>

fun GossipLoop ::
  "(bytes \<Rightarrow> bytes) \<Rightarrow> ('pk, 'sk) btcec \<Rightarrow> time \<Rightarrow> 'pk Message \<Rightarrow> Hash list \<Rightarrow> bool Cache
     \<Rightarrow> Hash list go \<times> bool Cache" where
  "GossipLoop b2 ec now message [] c = (Ok [], c)"
| "GossipLoop b2 ec now message (i # is) c =
     (case PeerMuxer_gossipKey b2 ec i message of
        Err e \<Rightarrow> (Err e, c)
      | Panic m \<Rightarrow> (Panic m, c)
      | Ok key \<Rightarrow>
          (case Cache_Has now c key of
             (has, _, c1) \<Rightarrow>
               (case GossipLoop b2 ec now message is c1 of
                  (r, c2) \<Rightarrow> (go_bind r (\<lambda>out. Ok (if has then out else i # out)), c2))))"

definition PeerMuxer_GossipPeerIDs ::
  "(bytes \<Rightarrow> bytes) \<Rightarrow> ('pk, 'sk) btcec \<Rightarrow> time \<Rightarrow> 'sk PeerMuxer \<Rightarrow> 'pk Message \<Rightarrow> Hash list go \<times> 'sk PeerMuxer" where
  "PeerMuxer_GossipPeerIDs b2 ec now p message =
     (case GossipLoop b2 ec now message (PeerMuxer_PeerIDs p) (mx_gossipFilter p) of
        (r, c) \<Rightarrow> (r, p\<lparr>mx_gossipFilter := c\<rparr>))"

text \<open>Sending to several peers: the outcome of each and the envelopes sent.\<close>

fun SendLoop ::
  "(bytes \<Rightarrow> bytes) \<Rightarrow> ('pk, 'sk) btcec \<Rightarrow> time \<Rightarrow> (muxPeer \<Rightarrow> 'pk Envelope \<Rightarrow> err option \<times> uint64)
     \<Rightarrow> 'pk Message \<Rightarrow> Hash list \<Rightarrow> 'sk PeerMuxer
     \<Rightarrow> unit go list \<times> (Hash \<times> 'pk Envelope) list \<times> 'sk PeerMuxer" where
  "SendLoop b2 ec now net message [] p = ([], [], p)"
| "SendLoop b2 ec now net message (i # is) p =
     (case PeerMuxer_Send b2 ec now net p i message of
        (r, sent, p1) \<Rightarrow>
          (case SendLoop b2 ec now net message is p1 of (rs, sents, p2) \<Rightarrow> (r # rs, sent @ sents, p2)))"

definition BroadcastAll ::
  "(bytes \<Rightarrow> bytes) \<Rightarrow> ('pk, 'sk) btcec \<Rightarrow> time \<Rightarrow> (muxPeer \<Rightarrow> 'pk Envelope \<Rightarrow> err option \<times> uint64)
     \<Rightarrow> 'sk PeerMuxer \<Rightarrow> 'pk Message
     \<Rightarrow> (Hash list \<times> unit go list) \<times> (Hash \<times> 'pk Envelope) list \<times> 'sk PeerMuxer" where
  "BroadcastAll b2 ec now net mux message =
     (let recips = PeerMuxer_PeerIDs mux in
      case SendLoop b2 ec now net message recips mux of (errs, sent, mux1) \<Rightarrow> ((recips, errs), sent, mux1))"

definition BroadcastRandom ::
  "(bytes \<Rightarrow> bytes) \<Rightarrow> ('pk, 'sk) btcec \<Rightarrow> time \<Rightarrow> (muxPeer \<Rightarrow> 'pk Envelope \<Rightarrow> err option \<times> uint64)
     \<Rightarrow> (nat \<Rightarrow> nat \<Rightarrow> nat) \<Rightarrow> 'sk PeerMuxer \<Rightarrow> int \<Rightarrow> 'pk Message
     \<Rightarrow> (Hash list \<times> unit go list) go \<times> (Hash \<times> 'pk Envelope) list \<times> 'sk PeerMuxer" where
  "BroadcastRandom b2 ec now net rnd mux count message =
     (let peerIDs = PeerMuxer_PeerIDs mux in
      case SampleIndices rnd (length peerIDs) count of
        Err e \<Rightarrow> (Err e, [], mux)
      | Panic m \<Rightarrow> (Panic m, [], mux)
      | Ok indices \<Rightarrow>
          let recips = map (\<lambda>i. peerIDs ! i) indices in
          case SendLoop b2 ec now net message recips mux of (errs, sent, mux1) \<Rightarrow> (Ok (recips, errs), sent, mux1))"

definition GossipAll ::
  "(bytes \<Rightarrow> bytes) \<Rightarrow> ('pk, 'sk) btcec \<Rightarrow> time \<Rightarrow> (muxPeer \<Rightarrow> 'pk Envelope \<Rightarrow> err option \<times> uint64)
     \<Rightarrow> 'sk PeerMuxer \<Rightarrow> 'pk Message
     \<Rightarrow> (Hash list \<times> unit go list) go \<times> (Hash \<times> 'pk Envelope) list \<times> 'sk PeerMuxer" where
  "GossipAll b2 ec now net mux message =
     (case PeerMuxer_GossipPeerIDs b2 ec now mux message of
        (Err e, mux1) \<Rightarrow> (Err e, [], mux1)
      | (Panic m, mux1) \<Rightarrow> (Panic m, [], mux1)
      | (Ok recips, mux1) \<Rightarrow>
          (case SendLoop b2 ec now net message recips mux1 of
             (errs, sent, mux2) \<Rightarrow> (Ok (recips, errs), sent, mux2)))"

text \<open>What is sent is the message.\<close>

lemma PeerMuxer_Send_message:
  "PeerMuxer_Send b2 ec now net mux i m = (x, [(j, e)], mux') \<Longrightarrow> env_Message e = m"
  by (auto simp: PeerMuxer_Send_def NewEnvelope_def go_bind_eq_Ok Let_def split: option.splits go.splits prod.splits)

section \<open>The table of peers\<close>

definition peers_dir :: "PeerDirection \<Rightarrow> 'sk PeerMuxer \<Rightarrow> (Hash \<times> muxPeer) list" where
  "peers_dir d p = filter (\<lambda>(i, x). mp_Direction x = d) (mx_peers p)"

definition mux_inv :: "'sk PeerMuxer \<Rightarrow> bool" where
  "mux_inv p \<longleftrightarrow>
     distinct (map fst (mx_peers p)) \<and> distinct (map snd (mx_peers p)) \<and>
     mx_inboundCount p = int (length (peers_dir Inbound p)) \<and>
     mx_outboundCount p = int (length (peers_dir Outbound p)) \<and>
     (\<forall>ip. distinct (mx_inboundPeersByIP p ip) \<and>
        set (mx_inboundPeersByIP p ip) =
          {x. x \<in> snd ` set (mx_peers p) \<and> mp_Direction x = Inbound \<and> mp_RemoteIP x = ip}) \<and>
     (\<forall>ip x. mx_outboundPeersByIP p ip = Some x \<longrightarrow>
        x \<in> snd ` set (mx_peers p) \<and> mp_Direction x = Outbound \<and> mp_RemoteIP x = ip)"

lemma mux_inv_New: "mux_inv (NewPeerMuxer magic signer)"
  by (simp add: mux_inv_def NewPeerMuxer_def peers_dir_def)

lemma update_fresh: "map_of xs k = None \<Longrightarrow> AList.update k v xs = xs @ [(k, v)]"
  by (induction xs) (auto split: if_splits)

lemma Open_fresh:
  assumes "map_of (mx_peers p) i = None"
  shows "snd (snd (PeerMuxer_handlePeerOpen p i x)) =
    p\<lparr>mx_inboundCount := mx_inboundCount p + (if mp_Direction x = Inbound then 1 else 0),
      mx_outboundCount := mx_outboundCount p + (if mp_Direction x = Inbound then 0 else 1),
      mx_inboundPeersByIP := (if mp_Direction x = Inbound
        then (mx_inboundPeersByIP p)(mp_RemoteIP x := mx_inboundPeersByIP p (mp_RemoteIP x) @ [x])
        else mx_inboundPeersByIP p),
      mx_outboundPeersByIP := (if mp_Direction x = Inbound then mx_outboundPeersByIP p
        else (mx_outboundPeersByIP p)(mp_RemoteIP x := Some x)),
      mx_peers := mx_peers p @ [(i, x)]\<rparr>"
  using assms by (simp add: PeerMuxer_handlePeerOpen_def Let_def update_fresh)

lemma mux_inv_Open:
  assumes inv: "mux_inv p" and x: "x \<notin> snd ` set (mx_peers p)"
  shows "mux_inv (snd (snd (PeerMuxer_handlePeerOpen p i x)))"
proof (cases "map_of (mx_peers p) i")
  case None
  have k: "i \<notin> fst ` set (mx_peers p)" using None by (simp add: map_of_eq_None_iff)
  have d: "mp_Direction x = Inbound \<or> mp_Direction x = Outbound" by (cases "mp_Direction x") auto
  have notin: "x \<notin> set (mx_inboundPeersByIP p ip)" for ip using inv x by (simp add: mux_inv_def)
  show ?thesis
    unfolding Open_fresh [OF None]
    using inv k d x notin unfolding mux_inv_def peers_dir_def
    by (auto simp: image_iff)
next
  case (Some y)
  then show ?thesis using inv by (simp add: PeerMuxer_handlePeerOpen_def)
qed

lemma delete_split:
  assumes "distinct (map fst xs)" "map_of xs k = Some v"
  obtains a b where "xs = a @ (k, v) # b" "AList.delete k xs = a @ b"
proof -
  obtain a b where ab: "xs = a @ (k, v) # b" using map_of_SomeD [OF assms(2)] by (meson split_list)
  have "AList.delete k a = a" "AList.delete k b = b"
    using assms(1) ab by (auto simp: image_iff intro!: delete_idem)
  then have "AList.delete k xs = a @ b" using ab by (simp add: AList.delete_eq)
  with ab show ?thesis using that by blast
qed

lemma Close_open:
  assumes "map_of (mx_peers p) i = Some x"
  shows "snd (PeerMuxer_handlePeerClose p i) =
    p\<lparr>mx_inboundCount := mx_inboundCount p - (if mp_Direction x = Inbound then 1 else 0),
      mx_outboundCount := mx_outboundCount p - (if mp_Direction x = Inbound then 0 else 1),
      mx_inboundPeersByIP := (if mp_Direction x = Inbound
        then (mx_inboundPeersByIP p)(mp_RemoteIP x := remove1 x (mx_inboundPeersByIP p (mp_RemoteIP x)))
        else mx_inboundPeersByIP p),
      mx_outboundPeersByIP := (if mp_Direction x = Inbound then mx_outboundPeersByIP p
        else (mx_outboundPeersByIP p)(mp_RemoteIP x := None)),
      mx_peers := AList.delete i (mx_peers p)\<rparr>"
  using assms by (simp add: PeerMuxer_handlePeerClose_def PeerMuxer_removeInboundPeerByIP_def Let_def)

lemma mux_inv_Close:
  assumes inv: "mux_inv p"
  shows "mux_inv (snd (PeerMuxer_handlePeerClose p i))"
proof (cases "map_of (mx_peers p) i")
  case None
  then show ?thesis using inv by (simp add: PeerMuxer_handlePeerClose_def)
next
  case (Some x)
  obtain a b where ab: "mx_peers p = a @ (i, x) # b" "AList.delete i (mx_peers p) = a @ b"
    using delete_split [OF _ Some] inv by (auto simp: mux_inv_def)
  have dist: "distinct (map fst (a @ b))" "distinct (map snd (a @ b))"
    using inv by (auto simp: mux_inv_def ab(1))
  have x: "x \<notin> snd ` set (a @ b)" using inv by (auto simp: mux_inv_def ab(1))
  have vals: "snd ` set (mx_peers p) = insert x (snd ` set (a @ b))" by (auto simp: ab(1))
  have counts: "length (peers_dir Inbound p) = length (filter (\<lambda>(i, x). mp_Direction x = Inbound) (a @ b))
      + (if mp_Direction x = Inbound then 1 else 0)"
    "length (peers_dir Outbound p) = length (filter (\<lambda>(i, x). mp_Direction x = Outbound) (a @ b))
      + (if mp_Direction x = Inbound then 0 else 1)"
    by (cases "mp_Direction x"; simp add: peers_dir_def ab(1))+
  have inbound: "distinct (mx_inboundPeersByIP p ip)"
    "set (mx_inboundPeersByIP p ip) =
       {y. y \<in> insert x (snd ` set (a @ b)) \<and> mp_Direction y = Inbound \<and> mp_RemoteIP y = ip}" for ip
    using inv vals by (simp_all add: mux_inv_def)
  have outbound: "y \<in> insert x (snd ` set (a @ b)) \<and> mp_Direction y = Outbound \<and> mp_RemoteIP y = ip"
    if "mx_outboundPeersByIP p ip = Some y" for ip y
    using inv vals that by (simp add: mux_inv_def)
  have inb': "distinct (remove1 x (mx_inboundPeersByIP p ip)) \<and> set (remove1 x (mx_inboundPeersByIP p ip)) =
      {y. y \<in> snd ` set (a @ b) \<and> mp_Direction y = Inbound \<and> mp_RemoteIP y = ip}" for ip
    using inbound [of ip] x by (auto simp: set_remove1_eq)
  have same: "remove1 x (mx_inboundPeersByIP p ip) = mx_inboundPeersByIP p ip"
    if "mp_Direction x \<noteq> Inbound \<or> ip \<noteq> mp_RemoteIP x" for ip
    using that inbound(2) [of ip] by (auto intro!: remove1_idem)
  define q where "q = snd (PeerMuxer_handlePeerClose p i)"
  have q: "mx_peers q = a @ b"
    "mx_inboundCount q = mx_inboundCount p - (if mp_Direction x = Inbound then 1 else 0)"
    "mx_outboundCount q = mx_outboundCount p - (if mp_Direction x = Inbound then 0 else 1)"
    "mx_inboundPeersByIP q ip = remove1 x (mx_inboundPeersByIP p ip)"
    "mx_outboundPeersByIP q ip =
      (if mp_Direction x \<noteq> Inbound \<and> ip = mp_RemoteIP x then None else mx_outboundPeersByIP p ip)" for ip
    unfolding q_def Close_open [OF Some] by (simp_all add: ab(2) same)
  have out': "y \<in> snd ` set (a @ b) \<and> mp_Direction y = Outbound \<and> mp_RemoteIP y = ip"
    if "mx_outboundPeersByIP q ip = Some y" for ip y
    using that outbound [of ip y] by (auto simp: q(5) split: if_splits)
  have "mx_inboundCount p = int (length (peers_dir Inbound p))" "mx_outboundCount p = int (length (peers_dir Outbound p))"
    using inv by (simp_all add: mux_inv_def)
  then have cnt: "mx_inboundCount q = int (length (peers_dir Inbound q))" "mx_outboundCount q = int (length (peers_dir Outbound q))"
    using counts by (simp_all add: q(1-3) peers_dir_def)
  show ?thesis
    unfolding q_def [symmetric] mux_inv_def q(1) q(4)
    using dist cnt inb' out' by blast
qed

lemma close_removes: "map_of (mx_peers (snd (PeerMuxer_handlePeerClose p i))) j =
    (if j = i then None else map_of (mx_peers p) j)"
proof (cases "map_of (mx_peers p) i")
  case None
  then show ?thesis by (auto simp: PeerMuxer_handlePeerClose_def)
next
  case (Some x)
  then show ?thesis unfolding Close_open [OF Some] by (simp add: delete_conv')
qed

lemma mux_inv_fields [simp]:
  "mux_inv (p\<lparr>mx_gossipFilter := c\<rparr>) = mux_inv p" "mux_inv (p\<lparr>mx_bytesTx := n\<rparr>) = mux_inv p"
  "mux_inv (p\<lparr>mx_bytesRx := n\<rparr>) = mux_inv p"
  by (simp_all add: mux_inv_def peers_dir_def)

lemma Send_table:
  "mux_inv (snd (snd (PeerMuxer_Send b2 ec now net p i m))) = mux_inv p"
  "mx_peers (snd (snd (PeerMuxer_Send b2 ec now net p i m))) = mx_peers p"
  by (auto simp: PeerMuxer_Send_def split: option.splits go.splits prod.splits)

lemma SendLoop_step: "snd (snd (SendLoop b2 ec now net m (i # is) p)) =
    snd (snd (SendLoop b2 ec now net m is (snd (snd (PeerMuxer_Send b2 ec now net p i m)))))"
  by (simp add: case_prod_beta)

lemma SendLoop_inv: "mux_inv (snd (snd (SendLoop b2 ec now net m is p))) = mux_inv p"
  by (induction "is" arbitrary: p) (simp, simp only: SendLoop_step Send_table)

lemma SendLoop_peers: "mx_peers (snd (snd (SendLoop b2 ec now net m is p))) = mx_peers p"
  by (induction "is" arbitrary: p) (simp, simp only: SendLoop_step Send_table)

lemma Message_table:
  "mux_inv p \<Longrightarrow> mux_inv (snd (snd (PeerMuxer_AddPeer_turn b2 ec now p i r rx)))"
  by (auto simp: PeerMuxer_AddPeer_turn_def PeerMuxer_handlePeerMessage_def mux_inv_Close
      split: sum.splits go.splits prod.splits)

text \<open>
  What the peer manager relies on: a table with a number of entries per direction, an insertion
  that fails on a known identity and otherwise counts the new peer, and a removal.
\<close>

locale peer_table =
  fixes inv :: "'m \<Rightarrow> bool"
    and cnt :: "PeerDirection \<Rightarrow> 'm \<Rightarrow> int"
    and has :: "'m \<Rightarrow> Hash \<Rightarrow> bool"
    and dir :: "'p \<Rightarrow> PeerDirection"
    and fresh :: "'m \<Rightarrow> 'p \<Rightarrow> bool"
    and add :: "'m \<Rightarrow> Hash \<Rightarrow> 'p \<Rightarrow> unit go \<times> 'm"
    and del :: "'m \<Rightarrow> Hash \<Rightarrow> 'm"
  assumes inv_add: "inv m \<Longrightarrow> fresh m p \<Longrightarrow> inv (snd (add m i p))"
    and inv_del: "inv m \<Longrightarrow> inv (del m i)"
    and add_known: "has m i \<Longrightarrow> (\<exists>e. fst (add m i p) = Err e) \<and> snd (add m i p) = m"
    and add_new: "\<not> has m i \<Longrightarrow> fst (add m i p) = Ok () \<and> has (snd (add m i p)) j = (j = i \<or> has m j)
      \<and> cnt d (snd (add m i p)) = cnt d m + (if dir p = d then 1 else 0)"
    and del_has: "has (del m i) j = (j \<noteq> i \<and> has m j)"
    and del_cnt: "cnt d (del m i) \<le> cnt d m"
    and cnt_nonneg: "inv m \<Longrightarrow> 0 \<le> cnt d m"
begin

text \<open>An insertion adds at most one peer to its own direction.\<close>

lemma add_cnt: "cnt d (snd (add m i p)) \<le> cnt d m + (if dir p = d then 1 else 0)"
  using add_known [of m i p] add_new [of m i p i d] by (cases "has m i") auto

lemma add_has: "has (snd (add m i p)) j \<Longrightarrow> j = i \<or> has m j"
  using add_known [of m i p] add_new [of m i p j] by (cases "has m i") auto

end

definition mux_cnt :: "PeerDirection \<Rightarrow> 'sk PeerMuxer \<Rightarrow> int" where
  "mux_cnt d p = (if d = Inbound then fst (PeerMuxer_PeerCount p) else snd (PeerMuxer_PeerCount p))"

definition mux_fresh :: "'sk PeerMuxer \<Rightarrow> muxPeer \<Rightarrow> bool" where
  "mux_fresh p x \<longleftrightarrow> x \<notin> snd ` set (mx_peers p)"

definition mux_add :: "'sk PeerMuxer \<Rightarrow> Hash \<Rightarrow> muxPeer \<Rightarrow> unit go \<times> 'sk PeerMuxer" where
  "mux_add p i x = (case PeerMuxer_AddPeer p i x of (r, _, p1) \<Rightarrow> (r, p1))"

definition mux_del :: "'sk PeerMuxer \<Rightarrow> Hash \<Rightarrow> 'sk PeerMuxer" where
  "mux_del p i = snd (PeerMuxer_ClosePeer p i)"

lemma snd_mux_add: "snd (mux_add p i x) = snd (snd (PeerMuxer_handlePeerOpen p i x))"
  by (simp add: mux_add_def PeerMuxer_AddPeer_def split: prod.splits)

lemma mux_del_cnt: "mux_cnt d (mux_del p i) \<le> mux_cnt d p"
proof (cases "map_of (mx_peers p) i")
  case None
  then show ?thesis by (simp add: mux_del_def PeerMuxer_ClosePeer_def PeerMuxer_handlePeerClose_def)
next
  case (Some x)
  then show ?thesis
    by (simp add: mux_del_def PeerMuxer_ClosePeer_def Close_open [OF Some] mux_cnt_def PeerMuxer_PeerCount_def)
qed

interpretation mt: peer_table mux_inv mux_cnt PeerMuxer_HasPeerID mp_Direction mux_fresh mux_add mux_del
proof
  fix m :: "'a PeerMuxer" and p i j d
  show "mux_inv m \<Longrightarrow> mux_fresh m p \<Longrightarrow> mux_inv (snd (mux_add m i p))"
    by (simp add: snd_mux_add mux_inv_Open mux_fresh_def)
  show "mux_inv m \<Longrightarrow> mux_inv (mux_del m i)"
    by (simp add: mux_del_def PeerMuxer_ClosePeer_def mux_inv_Close)
  show "PeerMuxer_HasPeerID m i \<Longrightarrow> (\<exists>e. fst (mux_add m i p) = Err e) \<and> snd (mux_add m i p) = m"
    by (simp add: PeerMuxer_HasPeerID_def mux_add_def PeerMuxer_AddPeer_def PeerMuxer_handlePeerOpen_def)
  show "\<not> PeerMuxer_HasPeerID m i \<Longrightarrow> fst (mux_add m i p) = Ok ()
      \<and> PeerMuxer_HasPeerID (snd (mux_add m i p)) j = (j = i \<or> PeerMuxer_HasPeerID m j)
      \<and> mux_cnt d (snd (mux_add m i p)) = mux_cnt d m + (if mp_Direction p = d then 1 else 0)"
    by (cases "mp_Direction p"; cases d)
      (auto simp: PeerMuxer_HasPeerID_def mux_add_def PeerMuxer_AddPeer_def PeerMuxer_handlePeerOpen_def
        Let_def mux_cnt_def PeerMuxer_PeerCount_def update_conv')
  show "PeerMuxer_HasPeerID (mux_del m i) j = (j \<noteq> i \<and> PeerMuxer_HasPeerID m j)"
    by (simp add: PeerMuxer_HasPeerID_def mux_del_def PeerMuxer_ClosePeer_def close_removes)
  show "mux_cnt d (mux_del m i) \<le> mux_cnt d m" by (rule mux_del_cnt)
  show "mux_inv m \<Longrightarrow> 0 \<le> mux_cnt d m" by (simp add: mux_cnt_def PeerMuxer_PeerCount_def mux_inv_def)
qed

section \<open>Runs\<close>

text \<open>
  The muxer's operations under its mutex, in any order: a peer object is added once, a turn of its
  receive loop handles what came, and messages are sent, broadcast and gossiped.
\<close>

inductive mux_run :: "(bytes \<Rightarrow> bytes) \<Rightarrow> ('pk, 'sk) btcec \<Rightarrow> 'sk PeerMuxer \<Rightarrow> bool"
  for b2 :: "bytes \<Rightarrow> bytes" and ec :: "('pk, 'sk) btcec" where
  mux_new: "mux_run b2 ec (NewPeerMuxer magic signer)"
| mux_open: "mux_run b2 ec p \<Longrightarrow> x \<notin> snd ` set (mx_peers p) \<Longrightarrow> mux_run b2 ec (snd (snd (PeerMuxer_AddPeer p i x)))"
| mux_turn: "mux_run b2 ec p \<Longrightarrow> mux_run b2 ec (snd (snd (PeerMuxer_AddPeer_turn b2 ec now p i received rx)))"
| mux_close: "mux_run b2 ec p \<Longrightarrow> mux_run b2 ec (snd (PeerMuxer_ClosePeer p i))"
| mux_send: "mux_run b2 ec p \<Longrightarrow> mux_run b2 ec (snd (snd (PeerMuxer_Send b2 ec now net p i m)))"
| mux_bcast: "mux_run b2 ec p \<Longrightarrow> mux_run b2 ec (snd (snd (BroadcastAll b2 ec now net p m)))"
| mux_gossip: "mux_run b2 ec p \<Longrightarrow> mux_run b2 ec (snd (snd (GossipAll b2 ec now net p m)))"

lemma Gossip_table: "mux_inv p \<Longrightarrow> mux_inv (snd (PeerMuxer_GossipPeerIDs b2 ec now p m))"
  by (simp add: PeerMuxer_GossipPeerIDs_def case_prod_beta)

lemma GossipAll_eq: "snd (snd (GossipAll b2 ec now net p m)) =
    (let g = PeerMuxer_GossipPeerIDs b2 ec now p m in
     case fst g of Ok recips \<Rightarrow> snd (snd (SendLoop b2 ec now net m recips (snd g))) | _ \<Rightarrow> snd g)"
  by (simp add: GossipAll_def Let_def case_prod_beta split: go.splits)

lemma mux_run_inv: "mux_run b2 ec p \<Longrightarrow> mux_inv p"
proof (induction rule: mux_run.induct)
  case (mux_open p x i)
  then show ?case by (simp add: PeerMuxer_AddPeer_def case_prod_beta mux_inv_Open)
next
  case (mux_gossip p now net m)
  then show ?case
    by (simp add: GossipAll_eq Let_def SendLoop_inv Gossip_table split: go.splits)
next
  case (mux_bcast p now net m)
  then show ?case by (simp add: BroadcastAll_def Let_def case_prod_beta SendLoop_inv)
qed (simp_all add: mux_inv_New Message_table PeerMuxer_ClosePeer_def mux_inv_Close Send_table)

section \<open>Gossip\<close>

lemma cache_lookup_Has: "fst (Cache_Has now c k) = (cache_lookup now c k \<noteq> None)"
  by (simp add: Cache_Has_def cache_lookup_def case_prod_beta)

lemma cache_lookup_Has_state:
  "cache_lookup now (snd (snd (Cache_Has now c key))) k = cache_lookup now c k"
  by (simp add: Cache_Has_def case_prod_beta cache_lookup_Get)

lemma GossipLoop_spec:
  assumes "fst (GossipLoop b2 ec now m is c) = Ok out"
  shows "out = filter (\<lambda>i. \<forall>key. PeerMuxer_gossipKey b2 ec i m = Ok key \<longrightarrow> cache_lookup now c key = None) is"
  using assms
proof (induction "is" arbitrary: c out)
  case (Cons i "is")
  obtain key where key: "PeerMuxer_gossipKey b2 ec i m = Ok key"
    using Cons.prems by (auto split: go.splits)
  define c1 where "c1 = snd (snd (Cache_Has now c key))"
  obtain out1 where out1: "fst (GossipLoop b2 ec now m is c1) = Ok out1"
    "out = (if fst (Cache_Has now c key) then out1 else i # out1)"
    using Cons.prems key by (auto simp: c1_def case_prod_beta go_bind_eq_Ok)
  show ?case using Cons.IH [OF out1(1)] out1(2) key
    by (simp add: c1_def cache_lookup_Has_state cache_lookup_Has)
qed simp

lemma gossipKey_inject:
  "PeerMuxer_gossipKey b2 ec i m = Ok k \<Longrightarrow> PeerMuxer_gossipKey b2 ec j m = Ok k \<Longrightarrow> i = j"
  by (auto simp: PeerMuxer_gossipKey_def go_bind_eq_Ok Hash_String_inject)

section \<open>Properties\<close>

definition demo_peer :: "nat \<Rightarrow> muxPeer" where
  "demo_peer n = \<lparr>mp_ref = n, mp_Direction = Inbound, mp_RemoteIP = ''10.0.0.1'', mp_RemoteAddr = ''10.0.0.1:9''\<rparr>"

definition demo_mux :: "muxPeer \<Rightarrow> 8 word PeerMuxer" where
  "demo_mux a = snd (snd (PeerMuxer_AddPeer (NewPeerMuxer 7 5) ZeroHash a))"

definition demo_ping :: "8 word Envelope" where
  "demo_ping = \<lparr>env_Magic = 7, env_MessageType = MessageTypePing, env_Timestamp = 0, env_Message = MPing,
     env_Signature = replicate 65 0\<rparr>"



text \<open>
  C33. A message that a peer sent is not gossiped back to it while the gossip timeout runs: of the
  recipients computed without the receipt exactly that peer is left out.
\<close>

theorem gossip_no_echo:
  assumes "PeerMuxer_handlePeerMessage b2 ec t0 p i envelope = (Ok (), out, p1)"
    and "0 < mx_GossipTimeoutMS p" and "0 \<le> t0" and "t0 + mx_GossipTimeoutMS p * time_Millisecond < 2 ^ 63"
    and "t \<le> t0 + mx_GossipTimeoutMS p * time_Millisecond"
    and "fst (PeerMuxer_GossipPeerIDs b2 ec t p (env_Message envelope)) = Ok before"
    and "fst (PeerMuxer_GossipPeerIDs b2 ec t p1 (env_Message envelope)) = Ok after"
  shows "after = filter (\<lambda>j. j \<noteq> i) before"
proof -
  obtain key c where key: "PeerMuxer_gossipKey b2 ec i (env_Message envelope) = Ok key"
    and set: "Cache_Set t0 (mx_gossipFilter p) key (Some True) (mx_GossipTimeoutMS p) = (Ok (), c)"
    and p1: "p1 = p\<lparr>mx_gossipFilter := c\<rparr>"
    using assms(1) by (auto simp: PeerMuxer_handlePeerMessage_def split: go.splits prod.splits)
  have exp: "int64 (t0 + int64 (mx_GossipTimeoutMS p * time_Millisecond)) = t0 + mx_GossipTimeoutMS p * time_Millisecond"
  proof -
    have "0 < mx_GossipTimeoutMS p * time_Millisecond"
      using assms(2) by (simp add: time_Millisecond_def)
    then show ?thesis using assms(3,4) by (simp add: int64_id)
  qed
  have look: "cache_lookup t c k = (if k = key then Some True else cache_lookup t (mx_gossipFilter p) k)" for k
    using cache_lookup_Set [OF set, of t k] assms(2,5) exp by simp
  have b: "before = filter (\<lambda>j. \<forall>k. PeerMuxer_gossipKey b2 ec j (env_Message envelope) = Ok k \<longrightarrow>
      cache_lookup t (mx_gossipFilter p) k = None) (PeerMuxer_PeerIDs p)"
    by (rule GossipLoop_spec) (use assms(6) in \<open>simp add: PeerMuxer_GossipPeerIDs_def case_prod_beta\<close>)
  have a: "after = filter (\<lambda>j. \<forall>k. PeerMuxer_gossipKey b2 ec j (env_Message envelope) = Ok k \<longrightarrow>
      cache_lookup t c k = None) (PeerMuxer_PeerIDs p)"
    by (rule GossipLoop_spec)
      (use assms(7) in \<open>simp add: PeerMuxer_GossipPeerIDs_def case_prod_beta p1 PeerMuxer_PeerIDs_def\<close>)
  have "(\<forall>k. PeerMuxer_gossipKey b2 ec j (env_Message envelope) = Ok k \<longrightarrow> cache_lookup t c k = None)
      \<longleftrightarrow> j \<noteq> i \<and> (\<forall>k. PeerMuxer_gossipKey b2 ec j (env_Message envelope) = Ok k \<longrightarrow>
        cache_lookup t (mx_gossipFilter p) k = None)" for j
    using key gossipKey_inject [OF key, of j] by (auto simp: look)
  then show ?thesis unfolding a b by (simp add: conj_commute)
qed

theorem gossip_no_echo_witness:
  "let b = (\<lambda>_. ZeroHash); j = replicate 32 1;
       p = (NewPeerMuxer 7 5)\<lparr>mx_peers := [(ZeroHash, demo_peer 1), (j, demo_peer 2)]\<rparr>;
       p1 = snd (snd (PeerMuxer_handlePeerMessage b toy_ec 0 p ZeroHash demo_ping))
   in fst (PeerMuxer_GossipPeerIDs b toy_ec 1 p1 (env_Message demo_ping)) = Ok [j]"
proof -
  define b where "b = (\<lambda>_ :: bytes. ZeroHash)"
  define j where "j = replicate 32 (1 :: byte)"
  define p where "p = (NewPeerMuxer 7 (5 :: 8 word))\<lparr>mx_peers := [(ZeroHash, demo_peer 1), (j, demo_peer 2)]\<rparr>"
  have m: "env_Message demo_ping = MPing" by (simp add: demo_ping_def)
  have key: "PeerMuxer_gossipKey b toy_ec i MPing = Ok (Hash_String i @ '':'' @ Hash_String ZeroHash)" for i
    by (simp add: PeerMuxer_gossipKey_def Message_Hash_def HashCacher_Hash_def HashCacher_new_def Ping_Encode_def
        Blake2B256_def b_def Let_def wr_bytes_def go_copy_def go_simps)
  define p1 where "p1 = snd (snd (PeerMuxer_handlePeerMessage b toy_ec 0 p ZeroHash demo_ping))"
  have h: "PeerMuxer_handlePeerMessage b toy_ec 0 p ZeroHash demo_ping = (Ok (), [(ZeroHash, demo_ping)], p1)"
    by (simp add: p1_def PeerMuxer_handlePeerMessage_def m key Cache_Set_def Let_def)
  have bef: "fst (PeerMuxer_GossipPeerIDs b toy_ec 1 p (env_Message demo_ping)) = Ok [ZeroHash, j]"
    by (simp add: p_def PeerMuxer_GossipPeerIDs_def PeerMuxer_PeerIDs_def m key NewPeerMuxer_def Cache_Has_def
        Cache_Get_def NewCache_def)
  have "j \<noteq> ZeroHash" by (simp add: j_def ZeroHash_def)
  moreover obtain aft where aft: "fst (PeerMuxer_GossipPeerIDs b toy_ec 1 p1 (env_Message demo_ping)) = Ok aft"
    by (simp add: p1_def PeerMuxer_handlePeerMessage_def m key Cache_Set_def Let_def p_def NewPeerMuxer_def
        PeerMuxer_GossipPeerIDs_def PeerMuxer_PeerIDs_def case_prod_beta)
  ultimately have "aft = [j]"
    using gossip_no_echo [OF h _ _ _ _ bef aft]
    by (simp add: p_def NewPeerMuxer_def DefaultPeerMuxerGossipTimeoutMS_def time_Millisecond_def)
  then show ?thesis using aft by (simp add: Let_def p1_def p_def b_def j_def)
qed

end
