(* ===== verification/P2P_Manager.thy ===== *)
theory P2P_Manager
  imports P2P_Muxer Store_Schema
begin

text \<open>
  The peer manager, \<open>p2p/peer_manager.go\<close>: admission of inbound and outbound connections, their
  handshakes and their entry into the multiplexer.

  \<open>AcceptPeer\<close> and \<open>DialPeer\<close> run concurrently and block on the network between taking a place and
  completing the connection.  Each is given as the parts that run without blocking, and as their
  composition around the handshake.  The semaphore of \<open>golang.org/x/sync\<close> is the parameter \<open>S\<close> with
  the laws \<open>weighted_laws\<close>.
\<close>

section \<open>Semaphores\<close>

record 's weighted =
  sw_New :: "nat \<Rightarrow> 's"
  sw_TryAcquire :: "'s \<Rightarrow> bool \<times> 's"
  sw_Release :: "'s \<Rightarrow> 's"

text \<open>
  Documented behaviour: an acquisition of weight one succeeds exactly while less than the capacity
  is held, and leaves the semaphore unchanged otherwise.
\<close>

definition weighted_laws :: "'s weighted \<Rightarrow> ('s \<Rightarrow> nat) \<Rightarrow> ('s \<Rightarrow> nat) \<Rightarrow> bool" where
  "weighted_laws S held cap \<longleftrightarrow>
     (\<forall>n. held (sw_New S n) = 0 \<and> cap (sw_New S n) = n) \<and>
     (\<forall>s ok s'. sw_TryAcquire S s = (ok, s') \<longrightarrow>
        ok = (held s < cap s) \<and> cap s' = cap s \<and> held s' = (if ok then held s + 1 else held s)) \<and>
     (\<forall>s. 0 < held s \<longrightarrow> held (sw_Release S s) = held s - 1 \<and> cap (sw_Release S s) = cap s)"

definition counter_weighted :: "(nat \<times> nat) weighted" where
  "counter_weighted =
     \<lparr>sw_New = (\<lambda>n. (0, n)),
      sw_TryAcquire = (\<lambda>(h, n). if h < n then (True, (h + 1, n)) else (False, (h, n))),
      sw_Release = (\<lambda>(h, n). (h - 1, n))\<rparr>"

lemma weighted_laws_counter: "weighted_laws counter_weighted fst snd"
  by (auto simp: weighted_laws_def counter_weighted_def split: if_splits)

section \<open>State\<close>

definition MainnetMagic :: uint32 where "MainnetMagic = 0xcafecafe"
definition ProtocolVersion :: uint32 where "ProtocolVersion = 1"
definition MaxPendingInbound :: nat where "MaxPendingInbound = 12"
definition MaxPendingOutbound :: nat where "MaxPendingOutbound = 5"
definition DayBan :: duration where "DayBan = 24 * time_Hour"
definition YearBan :: duration where "YearBan = 365 * DayBan"

definition ErrMaxOutbound :: err where "ErrMaxOutbound = ErrVar ''reached maximum outbound peers''"
definition ErrMaxInbound :: err where "ErrMaxInbound = ErrVar ''reached maximum inbound peers''"
definition ErrAlreadyConnecting :: err where "ErrAlreadyConnecting = ErrVar ''already connecting to this peer''"
definition ErrPeerIDMismatch :: err where "ErrPeerIDMismatch = ErrVar ''peer IDs do not match after handshake''"
definition ErrSelfDial :: err where "ErrSelfDial = ErrVar ''self-dial after handshake''"
definition ErrPeerBanned :: err where "ErrPeerBanned = ErrVar ''peer is banned''"
definition ErrInboundBusy :: err where "ErrInboundBusy = ErrVar ''all inbound connections busy''"
definition ErrOutboundBusy :: err where "ErrOutboundBusy = ErrVar ''all outbound connections busy''"

record ('sk, 'd, 's) peerManager =
  pm_mux :: "'sk PeerMuxer"
  pm_db :: 'd
  pm_maxInbound :: int
  pm_maxOutbound :: int
  pm_signer :: 'sk
  pm_listenHost :: string
  pm_magic :: uint32
  pm_protocolVersion :: uint32
  pm_peerID :: Hash
  pm_pendingInbound :: "string set"
  pm_pendingOutbound :: "string set"
  pm_inSem :: 's
  pm_outSem :: 's

record ('sk, 'd) PeerManagerOpts =
  po_Mux :: "'sk PeerMuxer"
  po_DB :: 'd
  po_Signer :: 'sk
  po_ListenHost :: string
  po_MaxInbound :: int
  po_MaxOutbound :: int

definition NewPeerManager ::
  "(bytes \<Rightarrow> bytes) \<Rightarrow> ('pk, 'sk) btcec \<Rightarrow> 's weighted \<Rightarrow> ('sk, 'd) PeerManagerOpts \<Rightarrow> ('sk, 'd, 's) peerManager" where
  "NewPeerManager b2 ec S opts =
     \<lparr>pm_mux = po_Mux opts, pm_db = po_DB opts, pm_maxInbound = po_MaxInbound opts,
      pm_maxOutbound = po_MaxOutbound opts, pm_signer = po_Signer opts, pm_listenHost = po_ListenHost opts,
      pm_magic = MainnetMagic, pm_protocolVersion = ProtocolVersion,
      pm_peerID = HashPub b2 ec (SECP256k1Signer_Pub ec (po_Signer opts)),
      pm_pendingInbound = {}, pm_pendingOutbound = {},
      pm_inSem = sw_New S MaxPendingInbound, pm_outSem = sw_New S MaxPendingOutbound\<rparr>"

definition pm_handshakeConfig :: "('sk, 'd, 's) peerManager \<Rightarrow> 'sk HandshakeConfig" where
  "pm_handshakeConfig p =
     \<lparr>hsc_Magic = pm_magic p, hsc_ProtocolVersion = pm_protocolVersion p, hsc_Signer = pm_signer p\<rparr>"

section \<open>Gates\<close>

text \<open>An error reading the ban state is logged and the peer is let through.\<close>

definition peerManager_gateInboundPeer ::
  "'d leveldb \<Rightarrow> time \<Rightarrow> ('sk, 'd, 's) peerManager \<Rightarrow> string \<Rightarrow> string \<Rightarrow> unit go \<times> ('sk, 'd, 's) peerManager" where
  "peerManager_gateInboundPeer L now p ip addr =
     (if ip = pm_listenHost p then (Err ErrSelfDial, p)
      else if addr \<in> pm_pendingInbound p then (Err ErrAlreadyConnecting, p)
      else if fst (PeerMuxer_PeerCount (pm_mux p)) \<ge> pm_maxInbound p then (Err ErrMaxInbound, p)
      else
        case IsBanned L now (pm_db p) ip of
          Panic m \<Rightarrow> (Panic m, p)
        | Ok (True, _) \<Rightarrow> (Err ErrPeerBanned, p)
        | _ \<Rightarrow> (Ok (), p\<lparr>pm_pendingInbound := insert addr (pm_pendingInbound p)\<rparr>))"

definition peerManager_cleanupInboundPeer :: "('sk, 'd, 's) peerManager \<Rightarrow> string \<Rightarrow> ('sk, 'd, 's) peerManager" where
  "peerManager_cleanupInboundPeer p addr = p\<lparr>pm_pendingInbound := pm_pendingInbound p - {addr}\<rparr>"

definition peerManager_gateOutboundPeer ::
  "'d leveldb \<Rightarrow> time \<Rightarrow> ('sk, 'd, 's) peerManager \<Rightarrow> Hash \<Rightarrow> string \<Rightarrow> unit go \<times> ('sk, 'd, 's) peerManager" where
  "peerManager_gateOutboundPeer L now p peerID ip =
     (if ip = pm_listenHost p then (Err ErrSelfDial, p)
      else if ip \<in> pm_pendingOutbound p then (Err ErrAlreadyConnecting, p)
      else if snd (PeerMuxer_PeerCount (pm_mux p)) \<ge> pm_maxOutbound p then (Err ErrMaxOutbound, p)
      else if PeerMuxer_HasPeerID (pm_mux p) peerID then (Err ErrAlreadyConnected, p)
      else if PeerMuxer_HasOutboundPeerIP (pm_mux p) ip then (Err ErrAlreadyConnected, p)
      else
        case IsBanned L now (pm_db p) ip of
          Panic m \<Rightarrow> (Panic m, p)
        | Ok (_, True) \<Rightarrow> (Err ErrPeerBanned, p)
        | _ \<Rightarrow> (Ok (), p\<lparr>pm_pendingOutbound := insert ip (pm_pendingOutbound p)\<rparr>))"

definition peerManager_cleanupOutboundPeer :: "('sk, 'd, 's) peerManager \<Rightarrow> string \<Rightarrow> ('sk, 'd, 's) peerManager" where
  "peerManager_cleanupOutboundPeer p ip = p\<lparr>pm_pendingOutbound := pm_pendingOutbound p - {ip}\<rparr>"

definition peerManager_banOutboundPeer ::
  "'d leveldb \<Rightarrow> time \<Rightarrow> ('sk, 'd, 's) peerManager \<Rightarrow> string \<Rightarrow> ('sk, 'd, 's) peerManager" where
  "peerManager_banOutboundPeer L now p ip = p\<lparr>pm_db := fst (BanOutboundPeer L now (pm_db p) ip time_Hour)\<rparr>"

section \<open>Completing a connection\<close>

definition completeConnection_cleanup :: "('sk, 'd, 's) peerManager \<Rightarrow> muxPeer \<Rightarrow> ('sk, 'd, 's) peerManager" where
  "completeConnection_cleanup p peer =
     (if mp_Direction peer = Inbound then peerManager_cleanupInboundPeer p (mp_RemoteAddr peer)
      else peerManager_cleanupOutboundPeer p (mp_RemoteIP peer))"

definition completeConnection_add ::
  "'d leveldb \<Rightarrow> time \<Rightarrow> ('sk, 'd, 's) peerManager \<Rightarrow> Hash \<Rightarrow> muxPeer \<Rightarrow> bool \<Rightarrow> unit go \<times> ('sk, 'd, 's) peerManager" where
  "completeConnection_add L now p peerID peer verify =
     (if pm_peerID p = peerID then
        (Err ErrSelfDial,
         if mp_Direction peer = Outbound
         then p\<lparr>pm_db := fst (BanOutboundPeer L now (pm_db p) (mp_RemoteIP peer) YearBan)\<rparr> else p)
      else
        case PeerMuxer_AddPeer (pm_mux p) peerID peer of
          (Err e, _, m) \<Rightarrow>
            (Err (if errors_Is e ErrAlreadyConnected then e else ErrWrap e ''error completing peer connection''),
             p\<lparr>pm_mux := m\<rparr>)
        | (Panic s, _, m) \<Rightarrow> (Panic s, p\<lparr>pm_mux := m\<rparr>)
        | (Ok _, _, m) \<Rightarrow>
            (Ok (), p\<lparr>pm_mux := m, pm_db := fst (SetPeer L now (pm_db p) peerID (mp_RemoteIP peer) verify)\<rparr>))"

definition peerManager_completeConnection ::
  "'d leveldb \<Rightarrow> time \<Rightarrow> ('sk, 'd, 's) peerManager \<Rightarrow> Hash \<Rightarrow> muxPeer \<Rightarrow> bool \<Rightarrow> unit go \<times> ('sk, 'd, 's) peerManager" where
  "peerManager_completeConnection L now p peerID peer verify =
     completeConnection_add L now (completeConnection_cleanup p peer) peerID peer verify"

section \<open>Accepting\<close>

definition inSem_Release :: "'s weighted \<Rightarrow> ('sk, 'd, 's) peerManager \<Rightarrow> ('sk, 'd, 's) peerManager" where
  "inSem_Release S p = p\<lparr>pm_inSem := sw_Release S (pm_inSem p)\<rparr>"

definition AcceptPeer_enter ::
  "'d leveldb \<Rightarrow> 's weighted \<Rightarrow> time \<Rightarrow> ('sk, 'd, 's) peerManager \<Rightarrow> string \<Rightarrow> string \<Rightarrow> unit go \<times> ('sk, 'd, 's) peerManager" where
  "AcceptPeer_enter L S now p ip addr =
     (case sw_TryAcquire S (pm_inSem p) of
        (False, s) \<Rightarrow> (Err ErrInboundBusy, p\<lparr>pm_inSem := s\<rparr>)
      | (True, s) \<Rightarrow>
          (case peerManager_gateInboundPeer L now (p\<lparr>pm_inSem := s\<rparr>) ip addr of
             (Ok _, p1) \<Rightarrow> (Ok (), p1)
           | (r, p1) \<Rightarrow> (r, inSem_Release S p1)))"

definition AcceptPeer_failed ::
  "'s weighted \<Rightarrow> ('sk, 'd, 's) peerManager \<Rightarrow> string \<Rightarrow> ('sk, 'd, 's) peerManager" where
  "AcceptPeer_failed S p addr = inSem_Release S (peerManager_cleanupInboundPeer p addr)"

text \<open>
  The whole call: \<open>clk\<close>, \<open>nonce\<close>, \<open>recv\<close> and \<open>sends\<close> are the time, randomness and network of the
  handshake on the accepted connection.
\<close>

definition peerManager_AcceptPeer ::
  "(bytes \<Rightarrow> bytes) \<Rightarrow> ('pk, 'sk) btcec \<Rightarrow> 'd leveldb \<Rightarrow> 's weighted \<Rightarrow> (nat \<Rightarrow> time) \<Rightarrow> bytes
     \<Rightarrow> (nat \<Rightarrow> err + 'pk Envelope) \<Rightarrow> (nat \<Rightarrow> err option) \<Rightarrow> muxPeer \<Rightarrow> ('sk, 'd, 's) peerManager
     \<Rightarrow> unit go \<times> ('sk, 'd, 's) peerManager" where
  "peerManager_AcceptPeer b2 ec L S clk nonce recv sends conn p =
     (case AcceptPeer_enter L S (clk 0) p (mp_RemoteIP conn) (mp_RemoteAddr conn) of
        (Ok _, p1) \<Rightarrow>
          (case fst (HandleIncomingHandshake b2 ec (\<lambda>i. clk (i + 1)) nonce (pm_handshakeConfig p1) recv sends) of
             Ok theirPeerID \<Rightarrow>
               (case peerManager_completeConnection L (clk 5) p1 theirPeerID conn False of
                  (r, p2) \<Rightarrow> (r, inSem_Release S p2))
           | Err e \<Rightarrow> (Err e, AcceptPeer_failed S p1 (mp_RemoteAddr conn))
           | Panic m \<Rightarrow> (Panic m, inSem_Release S p1))
      | (r, p1) \<Rightarrow> (r, p1))"

section \<open>Dialing\<close>

definition outSem_Release :: "'s weighted \<Rightarrow> ('sk, 'd, 's) peerManager \<Rightarrow> ('sk, 'd, 's) peerManager" where
  "outSem_Release S p = p\<lparr>pm_outSem := sw_Release S (pm_outSem p)\<rparr>"

definition DialPeer_enter ::
  "'d leveldb \<Rightarrow> 's weighted \<Rightarrow> time \<Rightarrow> ('sk, 'd, 's) peerManager \<Rightarrow> Hash \<Rightarrow> string \<Rightarrow> unit go \<times> ('sk, 'd, 's) peerManager" where
  "DialPeer_enter L S now p peerID ip =
     (case sw_TryAcquire S (pm_outSem p) of
        (False, s) \<Rightarrow> (Err ErrOutboundBusy, p\<lparr>pm_outSem := s\<rparr>)
      | (True, s) \<Rightarrow>
          (case peerManager_gateOutboundPeer L now (p\<lparr>pm_outSem := s\<rparr>) peerID ip of
             (Ok _, p1) \<Rightarrow> (Ok (), p1)
           | (r, p1) \<Rightarrow> (r, outSem_Release S p1)))"

definition DialPeer_failed ::
  "'d leveldb \<Rightarrow> 's weighted \<Rightarrow> time \<Rightarrow> ('sk, 'd, 's) peerManager \<Rightarrow> string \<Rightarrow> ('sk, 'd, 's) peerManager" where
  "DialPeer_failed L S now p ip =
     outSem_Release S (peerManager_cleanupOutboundPeer (peerManager_banOutboundPeer L now p ip) ip)"

text \<open>\<open>dial\<close> is what \<open>net.DialTimeout\<close> returns, as the peer object made of the connection.\<close>

definition peerManager_DialPeer ::
  "(bytes \<Rightarrow> bytes) \<Rightarrow> ('pk, 'sk) btcec \<Rightarrow> 'd leveldb \<Rightarrow> 's weighted \<Rightarrow> (nat \<Rightarrow> time) \<Rightarrow> bytes \<Rightarrow> string
     \<Rightarrow> (nat \<Rightarrow> err + 'pk Envelope) \<Rightarrow> (nat \<Rightarrow> err option) \<Rightarrow> err + muxPeer
     \<Rightarrow> ('sk, 'd, 's) peerManager \<Rightarrow> Hash \<Rightarrow> string \<Rightarrow> bool \<Rightarrow> unit go \<times> ('sk, 'd, 's) peerManager" where
  "peerManager_DialPeer b2 ec L S clk nonce userAgent recv sends dial p peerID ip verifyPeerID =
     (case DialPeer_enter L S (clk 0) p peerID ip of
        (Ok _, p1) \<Rightarrow>
          (case dial of
             Inl e \<Rightarrow> (Err (ErrWrap e ''dial failed''), DialPeer_failed L S (clk 1) p1 ip)
           | Inr peer \<Rightarrow>
               (case fst (HandleOutgoingHandshake b2 ec (\<lambda>i. clk (i + 2)) nonce userAgent (pm_handshakeConfig p1) recv sends) of
                  Err e \<Rightarrow> (Err e, DialPeer_failed L S (clk 5) p1 ip)
                | Panic m \<Rightarrow> (Panic m, outSem_Release S p1)
                | Ok theirPeerID \<Rightarrow>
                    if verifyPeerID \<and> peerID \<noteq> theirPeerID
                    then (Err ErrPeerIDMismatch, DialPeer_failed L S (clk 5) p1 ip)
                    else
                      case peerManager_completeConnection L (clk 5) p1 theirPeerID peer verifyPeerID of
                        (r, p2) \<Rightarrow> (r, outSem_Release S p2)))
      | (r, p1) \<Rightarrow> (r, p1))"

section \<open>Refilling\<close>

text \<open>The candidates: at most 256 peers of the stream that are not connected.\<close>

lemma PeerStream_Next_length: "it \<noteq> [] \<Longrightarrow> length (snd (PeerStream_Next L now b db it)) < length it"
  by (induction it) (force split: go.splits if_splits)+

function refill_candidates ::
  "'d leveldb \<Rightarrow> time \<Rightarrow> ('sk, 'd, 's) peerManager \<Rightarrow> (bytes \<times> dbval) list \<Rightarrow> storePeer list \<Rightarrow> storePeer list go" where
  "refill_candidates L now p it acc =
     (if \<not> length acc < 256 then Ok acc
      else if it = [] then Ok acc
      else
        case PeerStream_Next L now False (pm_db p) it of
          (Panic m, _) \<Rightarrow> Panic m
        | (Err e, _) \<Rightarrow> Ok acc
        | (Ok None, _) \<Rightarrow> Ok acc
        | (Ok (Some peer), it') \<Rightarrow>
            refill_candidates L now p it' (if PeerMuxer_HasPeerID (pm_mux p) (sp_ID peer) then acc else acc @ [peer]))"
  by pat_completeness auto
termination
  by (relation "measure (\<lambda>(L, now, p, it, acc). length it)") (auto dest: PeerStream_Next_length simp: prod_eq_iff)

declare refill_candidates.simps [simp del]

text \<open>Dialing them in turn; \<open>dials i p\<close> is the \<open>i\<close>-th call of \<open>DialPeer\<close>, whose error is only logged.\<close>

fun refill_dial ::
  "(nat \<Rightarrow> ('sk, 'd, 's) peerManager \<Rightarrow> Hash \<Rightarrow> string \<Rightarrow> bool \<Rightarrow> unit go \<times> ('sk, 'd, 's) peerManager)
     \<Rightarrow> nat \<Rightarrow> storePeer list \<Rightarrow> ('sk, 'd, 's) peerManager \<Rightarrow> ('sk, 'd, 's) peerManager" where
  "refill_dial dials i [] p = p"
| "refill_dial dials i (peer # peers) p =
     (if snd (PeerMuxer_PeerCount (pm_mux p)) \<ge> pm_maxOutbound p then p
      else refill_dial dials (i + 1) peers (snd (dials i p (sp_ID peer) (sp_IP peer) (sp_Verify peer))))"

definition peerManager_refillPeers ::
  "'d leveldb \<Rightarrow> time \<Rightarrow> (nat \<Rightarrow> ('sk, 'd, 's) peerManager \<Rightarrow> Hash \<Rightarrow> string \<Rightarrow> bool \<Rightarrow> unit go \<times> ('sk, 'd, 's) peerManager)
     \<Rightarrow> ('sk, 'd, 's) peerManager \<Rightarrow> unit go \<times> ('sk, 'd, 's) peerManager" where
  "peerManager_refillPeers L now dials p =
     (if snd (PeerMuxer_PeerCount (pm_mux p)) \<ge> pm_maxOutbound p then (Ok (), p)
      else
        case refill_candidates L now p (fst (StreamPeers L (pm_db p))) [] of
          Panic m \<Rightarrow> (Panic m, p)
        | Err e \<Rightarrow> (Ok (), p)
        | Ok candidatePeers \<Rightarrow> (Ok (), refill_dial dials 0 candidatePeers p))"

section \<open>Concurrent connections\<close>

text \<open>
  A call of \<open>AcceptPeer\<close> or \<open>DialPeer\<close> that has passed its gate: the connection, the arguments of
  the call, and whether it is still at the handshake or has learned the peer's identity and removed
  its pending mark.
\<close>

record flight =
  fl_peer :: muxPeer
  fl_ID :: Hash
  fl_ip :: string
  fl_verify :: bool
  fl_done :: "Hash option"

definition flight_failed ::
  "'d leveldb \<Rightarrow> 's weighted \<Rightarrow> time \<Rightarrow> ('sk, 'd, 's) peerManager \<Rightarrow> flight \<Rightarrow> ('sk, 'd, 's) peerManager" where
  "flight_failed L S now p f =
     (if mp_Direction (fl_peer f) = Inbound then AcceptPeer_failed S p (mp_RemoteAddr (fl_peer f))
      else DialPeer_failed L S now p (fl_ip f))"

definition flight_complete ::
  "'d leveldb \<Rightarrow> 's weighted \<Rightarrow> time \<Rightarrow> ('sk, 'd, 's) peerManager \<Rightarrow> Hash \<Rightarrow> flight \<Rightarrow> ('sk, 'd, 's) peerManager" where
  "flight_complete L S now p i f =
     (let p1 = snd (completeConnection_add L now p i (fl_peer f) (fl_verify f)) in
      if mp_Direction (fl_peer f) = Inbound then inSem_Release S p1 else outSem_Release S p1)"

text \<open>
  Runs of the manager: calls enter, fail, learn an identity and complete in any interleaving, while
  the multiplexer handles messages, sends and closes peers.
\<close>

inductive pm_run ::
  "(bytes \<Rightarrow> bytes) \<Rightarrow> ('pk, 'sk) btcec \<Rightarrow> 'd leveldb \<Rightarrow> 's weighted \<Rightarrow> ('sk, 'd) PeerManagerOpts
     \<Rightarrow> ('sk, 'd, 's) peerManager \<Rightarrow> flight list \<Rightarrow> bool"
  for b2 :: "bytes \<Rightarrow> bytes" and ec :: "('pk, 'sk) btcec" and L :: "'d leveldb" and S :: "'s weighted"
    and opts :: "('sk, 'd) PeerManagerOpts" where
  pm_start: "pm_run b2 ec L S opts (NewPeerManager b2 ec S opts) []"
| pm_accept: "pm_run b2 ec L S opts p fs \<Longrightarrow> mp_Direction peer = Inbound \<Longrightarrow>
     AcceptPeer_enter L S now p (mp_RemoteIP peer) (mp_RemoteAddr peer) = (Ok (), q) \<Longrightarrow>
     pm_run b2 ec L S opts q (\<lparr>fl_peer = peer, fl_ID = ZeroHash, fl_ip = mp_RemoteIP peer, fl_verify = False, fl_done = None\<rparr> # fs)"
| pm_refuse: "pm_run b2 ec L S opts p fs \<Longrightarrow> AcceptPeer_enter L S now p ip addr = (Err e, q) \<Longrightarrow>
     pm_run b2 ec L S opts q fs"
| pm_dial: "pm_run b2 ec L S opts p fs \<Longrightarrow> mp_Direction peer = Outbound \<Longrightarrow>
     DialPeer_enter L S now p i ip = (Ok (), q) \<Longrightarrow>
     pm_run b2 ec L S opts q (\<lparr>fl_peer = peer, fl_ID = i, fl_ip = ip, fl_verify = v, fl_done = None\<rparr> # fs)"
| pm_undial: "pm_run b2 ec L S opts p fs \<Longrightarrow> DialPeer_enter L S now p i ip = (Err e, q) \<Longrightarrow>
     pm_run b2 ec L S opts q fs"
| pm_fail: "pm_run b2 ec L S opts p (xs @ f # ys) \<Longrightarrow> fl_done f = None \<Longrightarrow>
     pm_run b2 ec L S opts (flight_failed L S now p f) (xs @ ys)"
| pm_shaken: "pm_run b2 ec L S opts p (xs @ f # ys) \<Longrightarrow> fl_done f = None \<Longrightarrow>
     fl_verify f \<longrightarrow> i = fl_ID f \<Longrightarrow>
     pm_run b2 ec L S opts (completeConnection_cleanup p (fl_peer f)) (xs @ f\<lparr>fl_done := Some i\<rparr> # ys)"
| pm_complete: "pm_run b2 ec L S opts p (xs @ f # ys) \<Longrightarrow> fl_done f = Some i \<Longrightarrow>
     pm_run b2 ec L S opts (flight_complete L S now p i f) (xs @ ys)"
| pm_close: "pm_run b2 ec L S opts p fs \<Longrightarrow> pm_run b2 ec L S opts (p\<lparr>pm_mux := snd (PeerMuxer_ClosePeer (pm_mux p) i)\<rparr>) fs"
| pm_turn: "pm_run b2 ec L S opts p fs \<Longrightarrow>
     pm_run b2 ec L S opts (p\<lparr>pm_mux := snd (snd (PeerMuxer_AddPeer_turn b2 ec now (pm_mux p) i r rx))\<rparr>) fs"
| pm_send: "pm_run b2 ec L S opts p fs \<Longrightarrow>
     pm_run b2 ec L S opts (p\<lparr>pm_mux := snd (snd (PeerMuxer_Send b2 ec now net (pm_mux p) i m))\<rparr>) fs"

definition flights :: "PeerDirection \<Rightarrow> flight list \<Rightarrow> nat" where
  "flights d fs = length (filter (\<lambda>f. mp_Direction (fl_peer f) = d) fs)"

lemma flights_simps [simp]:
  "flights d [] = 0" "flights d (f # fs) = (if mp_Direction (fl_peer f) = d then 1 else 0) + flights d fs"
  "flights d (xs @ ys) = flights d xs + flights d ys"
  by (simp_all add: flights_def)

definition pm_inv ::
  "('s \<Rightarrow> nat) \<Rightarrow> ('s \<Rightarrow> nat) \<Rightarrow> (bytes \<Rightarrow> bytes) \<Rightarrow> ('pk, 'sk) btcec \<Rightarrow> ('sk, 'd) PeerManagerOpts
     \<Rightarrow> ('sk, 'd, 's) peerManager \<Rightarrow> flight list \<Rightarrow> bool" where
  "pm_inv held cap b2 ec opts p fs \<longleftrightarrow>
     pm_maxInbound p = po_MaxInbound opts \<and> pm_maxOutbound p = po_MaxOutbound opts \<and>
     pm_peerID p = HashPub b2 ec (SECP256k1Signer_Pub ec (po_Signer opts)) \<and>
     \<not> PeerMuxer_HasPeerID (pm_mux p) (HashPub b2 ec (SECP256k1Signer_Pub ec (po_Signer opts))) \<and>
     cap (pm_inSem p) = MaxPendingInbound \<and> cap (pm_outSem p) = MaxPendingOutbound \<and>
     held (pm_inSem p) = flights Inbound fs \<and> held (pm_outSem p) = flights Outbound fs \<and>
     mux_cnt Inbound (pm_mux p) + int (flights Inbound fs) \<le> po_MaxInbound opts + int MaxPendingInbound - 1 \<and>
     mux_cnt Outbound (pm_mux p) + int (flights Outbound fs) \<le> po_MaxOutbound opts + int MaxPendingOutbound - 1 \<and>
     flights Inbound fs \<le> MaxPendingInbound \<and> flights Outbound fs \<le> MaxPendingOutbound"

text \<open>Replacing the multiplexer by one with no more peers keeps the invariant.\<close>

lemma pm_inv_mux:
  assumes "pm_inv held cap b2 ec opts p fs" "\<And>d. mux_cnt d m \<le> mux_cnt d (pm_mux p)"
    "\<And>i. PeerMuxer_HasPeerID m i \<Longrightarrow> PeerMuxer_HasPeerID (pm_mux p) i"
  shows "pm_inv held cap b2 ec opts (p\<lparr>pm_mux := m\<rparr>) fs"
  using assms(1) assms(2) [of Inbound] assms(2) [of Outbound] assms(3) [of "HashPub b2 ec (SECP256k1Signer_Pub ec (po_Signer opts))"]
  by (auto simp: pm_inv_def)

lemma turn_cnt:
  "mux_cnt d (snd (snd (PeerMuxer_AddPeer_turn b2 ec now m i r rx))) \<le> mux_cnt d m"
  "PeerMuxer_HasPeerID (snd (snd (PeerMuxer_AddPeer_turn b2 ec now m i r rx))) j \<Longrightarrow> PeerMuxer_HasPeerID m j"
proof -
  have c: "mux_cnt d (snd (PeerMuxer_handlePeerClose m i)) \<le> mux_cnt d m"
    "PeerMuxer_HasPeerID (snd (PeerMuxer_handlePeerClose m i)) j \<Longrightarrow> PeerMuxer_HasPeerID m j"
    using mt.del_cnt [of d m i] mt.del_has [of m i j] by (simp_all add: mux_del_def PeerMuxer_ClosePeer_def)
  show "mux_cnt d (snd (snd (PeerMuxer_AddPeer_turn b2 ec now m i r rx))) \<le> mux_cnt d m"
    using c(1) by (auto simp: PeerMuxer_AddPeer_turn_def PeerMuxer_handlePeerMessage_def mux_cnt_def PeerMuxer_PeerCount_def
        split: sum.splits go.splits prod.splits)
  show "PeerMuxer_HasPeerID m j"
    if "PeerMuxer_HasPeerID (snd (snd (PeerMuxer_AddPeer_turn b2 ec now m i r rx))) j"
    using c(2) that by (auto simp: PeerMuxer_AddPeer_turn_def PeerMuxer_handlePeerMessage_def PeerMuxer_HasPeerID_def
        split: sum.splits go.splits prod.splits)
qed

lemma send_cnt:
  "mux_cnt d (snd (snd (PeerMuxer_Send b2 ec now net m i msg))) = mux_cnt d m"
  "PeerMuxer_HasPeerID (snd (snd (PeerMuxer_Send b2 ec now net m i msg))) j = PeerMuxer_HasPeerID m j"
  by (auto simp: PeerMuxer_Send_def mux_cnt_def PeerMuxer_PeerCount_def PeerMuxer_HasPeerID_def
      split: option.splits go.splits prod.splits)

lemma weighted_lawsD:
  assumes "weighted_laws S held cap"
  shows "held (sw_New S n) = 0" "cap (sw_New S n) = n"
    "sw_TryAcquire S s = (ok, s') \<Longrightarrow> ok = (held s < cap s) \<and> cap s' = cap s \<and> held s' = (if ok then held s + 1 else held s)"
    "0 < held s \<Longrightarrow> held (sw_Release S s) = held s - 1 \<and> cap (sw_Release S s) = cap s"
  using assms unfolding weighted_laws_def by blast+

lemma AcceptPeer_enter_Ok:
  assumes "AcceptPeer_enter L S now p ip addr = (Ok (), q)"
  shows "\<exists>s pend. sw_TryAcquire S (pm_inSem p) = (True, s) \<and> q = p\<lparr>pm_inSem := s, pm_pendingInbound := pend\<rparr>
    \<and> mux_cnt Inbound (pm_mux p) < pm_maxInbound p"
  using assms
  by (auto simp: AcceptPeer_enter_def peerManager_gateInboundPeer_def mux_cnt_def not_le
      split: prod.splits bool.splits if_splits go.splits)

lemma AcceptPeer_enter_Err:
  assumes "AcceptPeer_enter L S now p ip addr = (Err e, q)"
  shows "\<exists>ok s. sw_TryAcquire S (pm_inSem p) = (ok, s) \<and> q = p\<lparr>pm_inSem := if ok then sw_Release S s else s\<rparr>"
  using assms
  by (auto simp: AcceptPeer_enter_def peerManager_gateInboundPeer_def inSem_Release_def
      split: prod.splits bool.splits if_splits go.splits)

lemma DialPeer_enter_Ok:
  assumes "DialPeer_enter L S now p i ip = (Ok (), q)"
  shows "\<exists>s pend. sw_TryAcquire S (pm_outSem p) = (True, s) \<and> q = p\<lparr>pm_outSem := s, pm_pendingOutbound := pend\<rparr>
    \<and> mux_cnt Outbound (pm_mux p) < pm_maxOutbound p"
  using assms
  by (auto simp: DialPeer_enter_def peerManager_gateOutboundPeer_def mux_cnt_def not_le
      split: prod.splits bool.splits if_splits go.splits)

lemma DialPeer_enter_Err:
  assumes "DialPeer_enter L S now p i ip = (Err e, q)"
  shows "\<exists>ok s. sw_TryAcquire S (pm_outSem p) = (ok, s) \<and> q = p\<lparr>pm_outSem := if ok then sw_Release S s else s\<rparr>"
  using assms
  by (auto simp: DialPeer_enter_def peerManager_gateOutboundPeer_def outSem_Release_def
      split: prod.splits bool.splits if_splits go.splits)

definition pm_cfg :: "('sk, 'd, 's) peerManager \<Rightarrow> int \<times> int \<times> Hash \<times> 's \<times> 's" where
  "pm_cfg p = (pm_maxInbound p, pm_maxOutbound p, pm_peerID p, pm_inSem p, pm_outSem p)"

lemma completeConnection_add_inv:
  assumes q: "snd (completeConnection_add L now p i peer v) = q"
  shows "pm_cfg q = pm_cfg p \<and>
    (\<forall>d. mux_cnt d (pm_mux q) \<le> mux_cnt d (pm_mux p) + (if mp_Direction peer = d then 1 else 0)) \<and>
    (PeerMuxer_HasPeerID (pm_mux q) (pm_peerID p) \<longrightarrow> PeerMuxer_HasPeerID (pm_mux p) (pm_peerID p))"
proof (cases "pm_peerID p = i")
  case True
  then have "pm_cfg q = pm_cfg p" "pm_mux q = pm_mux p" using q by (auto simp: completeConnection_add_def pm_cfg_def)
  then show ?thesis by simp
next
  case False
  obtain r evs m where a: "PeerMuxer_AddPeer (pm_mux p) i peer = (r, evs, m)" using prod_cases3 by blast
  then have m: "snd (mux_add (pm_mux p) i peer) = m" by (simp add: mux_add_def)
  have "pm_mux q = m" "pm_cfg q = pm_cfg p"
    using q False a by (cases r; auto simp: completeConnection_add_def pm_cfg_def)+
  moreover have "mux_cnt d m \<le> mux_cnt d (pm_mux p) + (if mp_Direction peer = d then 1 else 0)" for d
    using mt.add_cnt [of d "pm_mux p" i peer] by (simp add: m)
  moreover have "PeerMuxer_HasPeerID m (pm_peerID p) \<Longrightarrow> PeerMuxer_HasPeerID (pm_mux p) (pm_peerID p)"
    using mt.add_has [of "pm_mux p" i peer "pm_peerID p"] False by (auto simp: m)
  ultimately show ?thesis by simp
qed

lemma pm_inv_complete:
  assumes laws: "weighted_laws S held cap" and inv: "pm_inv held cap b2 ec opts p (xs @ f # ys)"
  shows "pm_inv held cap b2 ec opts (flight_complete L S now p i f) (xs @ ys)"
proof -
  define q where "q = snd (completeConnection_add L now p i (fl_peer f) (fl_verify f))"
  note add = completeConnection_add_inv [OF q_def [symmetric]]
  have cfg: "pm_maxInbound q = pm_maxInbound p" "pm_maxOutbound q = pm_maxOutbound p" "pm_peerID q = pm_peerID p"
    "pm_inSem q = pm_inSem p" "pm_outSem q = pm_outSem p" using add by (simp_all add: pm_cfg_def)
  have cnt: "mux_cnt Inbound (pm_mux q) \<le> mux_cnt Inbound (pm_mux p) + (if mp_Direction (fl_peer f) = Inbound then 1 else 0)"
    "mux_cnt Outbound (pm_mux q) \<le> mux_cnt Outbound (pm_mux p) + (if mp_Direction (fl_peer f) = Outbound then 1 else 0)"
    "\<not> PeerMuxer_HasPeerID (pm_mux q) (HashPub b2 ec (SECP256k1Signer_Pub ec (po_Signer opts)))"
    using add inv by (auto simp: pm_inv_def)
  show ?thesis
  proof (cases "mp_Direction (fl_peer f)")
    case Inbound
    then have "held (sw_Release S (pm_inSem p)) = held (pm_inSem p) - 1 \<and> cap (sw_Release S (pm_inSem p)) = cap (pm_inSem p)"
      using inv by (intro weighted_lawsD(4) [OF laws]) (simp add: pm_inv_def)
    then show ?thesis using inv cnt Inbound
      by (simp add: flight_complete_def Let_def flip: q_def) (simp add: pm_inv_def inSem_Release_def cfg)
  next
    case Outbound
    then have "held (sw_Release S (pm_outSem p)) = held (pm_outSem p) - 1 \<and> cap (sw_Release S (pm_outSem p)) = cap (pm_outSem p)"
      using inv by (intro weighted_lawsD(4) [OF laws]) (simp add: pm_inv_def)
    then show ?thesis using inv cnt Outbound
      by (simp add: flight_complete_def Let_def flip: q_def) (simp add: pm_inv_def outSem_Release_def cfg)
  qed
qed

lemma pm_inv_failed:
  assumes laws: "weighted_laws S held cap" and inv: "pm_inv held cap b2 ec opts p (xs @ f # ys)"
  shows "pm_inv held cap b2 ec opts (flight_failed L S now p f) (xs @ ys)"
proof (cases "mp_Direction (fl_peer f)")
  case Inbound
  then have "held (sw_Release S (pm_inSem p)) = held (pm_inSem p) - 1 \<and> cap (sw_Release S (pm_inSem p)) = cap (pm_inSem p)"
    using inv by (intro weighted_lawsD(4) [OF laws]) (simp add: pm_inv_def)
  then show ?thesis using inv Inbound
    by (simp add: flight_failed_def AcceptPeer_failed_def peerManager_cleanupInboundPeer_def inSem_Release_def pm_inv_def)
next
  case Outbound
  then have "held (sw_Release S (pm_outSem p)) = held (pm_outSem p) - 1 \<and> cap (sw_Release S (pm_outSem p)) = cap (pm_outSem p)"
    using inv by (intro weighted_lawsD(4) [OF laws]) (simp add: pm_inv_def)
  then show ?thesis using inv Outbound
    by (simp add: flight_failed_def DialPeer_failed_def peerManager_cleanupOutboundPeer_def peerManager_banOutboundPeer_def
        outSem_Release_def pm_inv_def)
qed

lemma sem_refused:
  assumes "weighted_laws S held cap" "sw_TryAcquire S s = (ok, s')"
  shows "held (if ok then sw_Release S s' else s') = held s" "cap (if ok then sw_Release S s' else s') = cap s"
  using weighted_lawsD(3) [OF assms] weighted_lawsD(4) [OF assms(1), of s'] by auto

lemma pm_run_inv:
  assumes laws: "weighted_laws S held cap" and pos: "0 \<le> po_MaxInbound opts" "0 \<le> po_MaxOutbound opts"
    and mux: "po_Mux opts = NewPeerMuxer magic sk"
    and run: "pm_run b2 ec L S opts p fs"
  shows "pm_inv held cap b2 ec opts p fs"
  using run
proof (induction rule: pm_run.induct)
  case pm_start
  show ?case using weighted_lawsD(1,2) [OF laws] pos
    by (simp add: pm_inv_def NewPeerManager_def mux PeerMuxer_HasPeerID_def NewPeerMuxer_def mux_cnt_def
        PeerMuxer_PeerCount_def MaxPendingInbound_def MaxPendingOutbound_def)
next
  case (pm_accept p fs peer now q)
  from AcceptPeer_enter_Ok [OF pm_accept.hyps(3)] obtain s pend where
    s: "sw_TryAcquire S (pm_inSem p) = (True, s)" "q = p\<lparr>pm_inSem := s, pm_pendingInbound := pend\<rparr>"
    "mux_cnt Inbound (pm_mux p) < pm_maxInbound p" by blast
  show ?case using weighted_lawsD(3) [OF laws s(1)] pm_accept.IH pm_accept.hyps(2) s(2,3) by (simp add: pm_inv_def)
next
  case (pm_refuse p fs now ip addr e q)
  from AcceptPeer_enter_Err [OF pm_refuse.hyps(2)] obtain ok s where
    s: "sw_TryAcquire S (pm_inSem p) = (ok, s)" "q = p\<lparr>pm_inSem := if ok then sw_Release S s else s\<rparr>" by blast
  show ?case using sem_refused [OF laws s(1)] pm_refuse.IH s(2) by (simp add: pm_inv_def)
next
  case (pm_dial p fs peer now i ip q v)
  from DialPeer_enter_Ok [OF pm_dial.hyps(3)] obtain s pend where
    s: "sw_TryAcquire S (pm_outSem p) = (True, s)" "q = p\<lparr>pm_outSem := s, pm_pendingOutbound := pend\<rparr>"
    "mux_cnt Outbound (pm_mux p) < pm_maxOutbound p" by blast
  show ?case using weighted_lawsD(3) [OF laws s(1)] pm_dial.IH pm_dial.hyps(2) s(2,3) by (simp add: pm_inv_def)
next
  case (pm_undial p fs now i ip e q)
  from DialPeer_enter_Err [OF pm_undial.hyps(2)] obtain ok s where
    s: "sw_TryAcquire S (pm_outSem p) = (ok, s)" "q = p\<lparr>pm_outSem := if ok then sw_Release S s else s\<rparr>" by blast
  show ?case using sem_refused [OF laws s(1)] pm_undial.IH s(2) by (simp add: pm_inv_def)
next
  case (pm_fail p xs f ys now)
  then show ?case using pm_inv_failed [OF laws] by blast
next
  case (pm_shaken p xs f ys i)
  then show ?case
    by (cases "mp_Direction (fl_peer f)") (simp_all add: pm_inv_def completeConnection_cleanup_def peerManager_cleanupInboundPeer_def peerManager_cleanupOutboundPeer_def)
next
  case (pm_complete p xs f ys i now)
  then show ?case using pm_inv_complete [OF laws] by blast
next
  case (pm_close p fs i)
  show ?case
    by (rule pm_inv_mux [OF pm_close.IH])
      (use mt.del_cnt [of _ "pm_mux p" i] mt.del_has [of "pm_mux p" i] in \<open>simp_all add: mux_del_def\<close>)
next
  case (pm_turn p fs now i r rx)
  show ?case by (rule pm_inv_mux [OF pm_turn.IH]) (rule turn_cnt, erule turn_cnt)
next
  case (pm_send p fs now net i m)
  show ?case by (rule pm_inv_mux [OF pm_send.IH]) (simp_all add: send_cnt)
qed

section \<open>Properties\<close>


definition demo_conn :: "nat \<Rightarrow> string \<Rightarrow> muxPeer" where
  "demo_conn n port = \<lparr>mp_ref = n, mp_Direction = Inbound, mp_RemoteIP = ''10.0.0.1'', mp_RemoteAddr = ''10.0.0.1:'' @ port\<rparr>"

definition demo_opts :: "(8 word, (bytes \<times> dbval option) list) PeerManagerOpts" where
  "demo_opts = \<lparr>po_Mux = NewPeerMuxer 7 5, po_DB = [], po_Signer = 5, po_ListenHost = ''127.0.0.1'',
     po_MaxInbound = 1, po_MaxOutbound = 0\<rparr>"

lemma IsBanned_empty: "IsBanned mem_ldb 0 [] ip = Ok (False, False)"
  by (simp add: IsBanned_def mem_ldb_def mem_view_def get_bytes_def go_of_def go_simps mustDecodeTime_def time_zero_def time_Second_def)

text \<open>Two connections that pass the gate before either completes: the limit of one is exceeded.\<close>

definition demo_flight :: "nat \<Rightarrow> string \<Rightarrow> flight" where
  "demo_flight n port =
     \<lparr>fl_peer = demo_conn n port, fl_ID = ZeroHash, fl_ip = ''10.0.0.1'', fl_verify = False, fl_done = None\<rparr>"

definition demo_pm :: "(8 word, (bytes \<times> dbval option) list, nat \<times> nat) peerManager" where
  "demo_pm = NewPeerManager (\<lambda>_. ZeroHash) toy_ec counter_weighted demo_opts"

lemma demo_enter:
  assumes "pm_inSem p = (n, 12)" "n < 12" "pm_db p = []" "pm_mux p = NewPeerMuxer 7 5" "pm_listenHost p = ''127.0.0.1''"
    "pm_maxInbound p = 1" "''10.0.0.1:'' @ port \<notin> pm_pendingInbound p"
  shows "AcceptPeer_enter mem_ldb counter_weighted 0 p ''10.0.0.1'' (''10.0.0.1:'' @ port) =
    (Ok (), p\<lparr>pm_inSem := (n + 1, 12), pm_pendingInbound := insert (''10.0.0.1:'' @ port) (pm_pendingInbound p)\<rparr>)"
  using assms
  by (simp add: AcceptPeer_enter_def peerManager_gateInboundPeer_def counter_weighted_def NewPeerMuxer_def
      PeerMuxer_PeerCount_def IsBanned_empty)

definition demo_two :: "(8 word, (bytes \<times> dbval option) list, nat \<times> nat) peerManager" where
  "demo_two = demo_pm\<lparr>pm_inSem := (2, 12), pm_pendingInbound := {''10.0.0.1:8'', ''10.0.0.1:9''}\<rparr>"

lemma demo_two_run:
  "pm_run (\<lambda>_. ZeroHash) toy_ec mem_ldb counter_weighted demo_opts demo_two [demo_flight 2 ''8'', demo_flight 1 ''9'']"
proof -
  let ?run = "pm_run (\<lambda>_. ZeroHash) toy_ec mem_ldb counter_weighted demo_opts"
  let ?p1 = "demo_pm\<lparr>pm_inSem := (1, 12), pm_pendingInbound := {''10.0.0.1:9''}\<rparr>"
  have "?run demo_pm []" unfolding demo_pm_def by (rule pm_start)
  then have "?run ?p1 [demo_flight 1 ''9'']"
    using pm_accept [of "\<lambda>_. ZeroHash" toy_ec mem_ldb counter_weighted demo_opts demo_pm "[]" "demo_conn 1 ''9''" 0 ?p1]
      demo_enter [of demo_pm 0 "''9''"]
    by (simp add: demo_flight_def demo_conn_def demo_pm_def NewPeerManager_def demo_opts_def counter_weighted_def
        MaxPendingInbound_def)
  then show ?thesis
    using pm_accept [of "\<lambda>_. ZeroHash" toy_ec mem_ldb counter_weighted demo_opts ?p1 "[demo_flight 1 ''9'']" "demo_conn 2 ''8''" 0 demo_two]
      demo_enter [of ?p1 1 "''8''"]
    by (simp add: demo_flight_def demo_conn_def demo_pm_def NewPeerManager_def demo_opts_def counter_weighted_def
        MaxPendingInbound_def demo_two_def numeral_2_eq_2)
qed


end
