(* ===== verification/Proto_Lists.thy ===== *)
theory Proto_Lists
  imports Complex_Main Hns_Names Wire_Codec
begin

text \<open>
  The self-contained helpers of the protocol: \<open>protocol/epoch.go\<close>, \<open>protocol/peer_set.go\<close>,
  \<open>protocol/ban_list.go\<close> and \<open>p2p/seeds.go\<close>, with what they use of \<open>strings\<close>, \<open>strconv\<close>, \<open>bufio\<close>,
  \<open>net\<close> and 64-bit floating point.
\<close>

section \<open>Library functions\<close>

text \<open>\<open>strings.Split\<close> at a separator of one byte, and \<open>strings.Trim\<close>.\<close>

fun strings_Split :: "string \<Rightarrow> char \<Rightarrow> string list" where
  "strings_Split [] sep = [[]]"
| "strings_Split (c # s) sep =
     (if c = sep then [] # strings_Split s sep
      else case strings_Split s sep of x # xs \<Rightarrow> (c # x) # xs | [] \<Rightarrow> [])"

definition strings_Trim :: "string \<Rightarrow> string \<Rightarrow> string" where
  "strings_Trim s cutset = rev (dropWhile (\<lambda>c. c \<in> set cutset) (rev (dropWhile (\<lambda>c. c \<in> set cutset) s)))"

definition is_digit :: "char \<Rightarrow> bool" where
  "is_digit c \<longleftrightarrow> 48 \<le> (of_char c :: nat) \<and> (of_char c :: nat) \<le> 57"

definition digits_value :: "string \<Rightarrow> nat" where
  "digits_value s = foldl (\<lambda>n c. 10 * n + (of_char c - 48)) 0 s"

text \<open>\<open>strconv.Atoi\<close> on a string of digits: the only error left is the range of \<open>int\<close>.\<close>

definition Atoi_digits :: "string \<Rightarrow> int go" where
  "Atoi_digits s =
     (if digits_value s < 2 ^ 63 then Ok (int (digits_value s)) else Err (ErrVar ''value out of range''))"

fun itoa :: "nat \<Rightarrow> string" where
  "itoa n = (if n < 10 then [char_of (48 + n)] else itoa (n div 10) @ [char_of (48 + n mod 10)])"

declare itoa.simps [simp del]

text \<open>
  The lines of a \<open>bufio.Scanner\<close> with its default buffer: a line that fills the buffer of 65536 bytes
  stops the scan, a final line needs no newline, and a carriage return before the newline is cut.
\<close>

definition dropCR :: "bytes \<Rightarrow> bytes" where
  "dropCR b = (if b \<noteq> [] \<and> last b = 13 then butlast b else b)"

definition MaxScanTokenSize :: nat where "MaxScanTokenSize = 64 * 1024"

function scan_lines :: "bytes \<Rightarrow> bytes list" where
  "scan_lines r =
     (if r = [] then []
      else
        let line = takeWhile (\<lambda>b. b \<noteq> 10) r in
        if MaxScanTokenSize \<le> length line then []
        else dropCR line # scan_lines (drop (length line + 1) r))"
  by pat_completeness auto
termination
  by (relation "measure length") auto

declare scan_lines.simps [simp del]

text \<open>
  \<open>Duration.Seconds\<close> is the sum of the whole seconds and the rest divided by \<open>1e9\<close> in 64-bit floating
  point.  \<open>fl64\<close> rounds a nonnegative rational to 53 significant bits, ties to even; its argument is
  zero or at least \<open>1e-9\<close>.
\<close>

definition round_even :: "rat \<Rightarrow> int" where
  "round_even x =
     (let f = \<lfloor>x\<rfloor>; r = x - of_int f in
      if r < 1 / 2 \<or> (r = 1 / 2 \<and> even f) then f else f + 1)"

fun log2_floor :: "nat \<Rightarrow> nat" where
  "log2_floor n = (if n < 2 then 0 else 1 + log2_floor (n div 2))"

declare log2_floor.simps [simp del]

definition fl64 :: "rat \<Rightarrow> rat" where
  "fl64 x =
     (if x = 0 then 0
      else
        let e = int (log2_floor (nat \<lfloor>x * 2 ^ 30\<rfloor>)) - 30;
            k = nat (52 - e) in
        if e \<le> 52 then of_int (round_even (x * 2 ^ k)) / 2 ^ k
        else of_int (round_even (x / 2 ^ nat (e - 52))) * 2 ^ nat (e - 52))"

definition Duration_Seconds :: "duration \<Rightarrow> rat" where
  "Duration_Seconds d =
     (let a = \<bar>d\<bar>;
          s = fl64 (fl64 (of_int (a div time_Second)) + fl64 (of_int (a mod time_Second) / 1000000000))
      in if d < 0 then - s else s)"

text \<open>Conversion to \<open>int\<close> and integer division truncate.\<close>

definition trunc :: "rat \<Rightarrow> int" where
  "trunc x = (if x < 0 then - \<lfloor>- x\<rfloor> else \<lfloor>x\<rfloor>)"

definition go_div :: "int \<Rightarrow> int \<Rightarrow> int" where
  "go_div a b = (if (a < 0) = (b < 0) then \<bar>a\<bar> div \<bar>b\<bar> else - (\<bar>a\<bar> div \<bar>b\<bar>))"

section \<open>Epochs\<close>

text \<open>2020-01-01 00:00 UTC.\<close>

definition epochDate :: time where "epochDate = time_FromUnix 1577836800"
definition secondsPerHour :: int where "secondsPerHour = 60 * 60"
definition hoursPerWeek :: int where "hoursPerWeek = 7 * 24"
definition weekDuration :: duration where "weekDuration = hoursPerWeek * time_Hour"

definition modBuffer :: "bytes \<Rightarrow> int \<Rightarrow> int" where
  "modBuffer b n = foldl (\<lambda>acc x. (256 mod n * acc + uint x) mod n) 0 b"

definition CurrentEpoch :: "(bytes \<Rightarrow> bytes) \<Rightarrow> time \<Rightarrow> string \<Rightarrow> uint16" where
  "CurrentEpoch b2 now name =
     (let hash = HashName b2 name;
          offset = modBuffer hash hoursPerWeek * secondsPerHour;
          startDate = epochDate + offset * time_Second
      in word_of_int
           (go_div (trunc (Duration_Seconds (time_Sub now startDate))) (trunc (Duration_Seconds weekDuration))))"

section \<open>Peer sets\<close>

record PeerSet =
  ps_peers :: "Hash set"
  ps_ids :: "Hash list"

definition PeerSet_Add :: "PeerSet \<Rightarrow> Hash \<Rightarrow> PeerSet" where
  "PeerSet_Add ps peerID =
     (if peerID \<in> ps_peers ps then ps
      else \<lparr>ps_peers = insert peerID (ps_peers ps), ps_ids = ps_ids ps @ [peerID]\<rparr>)"

definition NewPeerSet :: "Hash list \<Rightarrow> PeerSet" where
  "NewPeerSet initialPeers =
     foldl (\<lambda>res peer. if peer \<in> ps_peers res then res
       else \<lparr>ps_peers = insert peer (ps_peers res), ps_ids = ps_ids res @ [peer]\<rparr>)
       \<lparr>ps_peers = {}, ps_ids = []\<rparr> initialPeers"

definition PeerSet_Has :: "PeerSet \<Rightarrow> Hash \<Rightarrow> bool" where
  "PeerSet_Has ps peerID \<longleftrightarrow> peerID \<in> ps_peers ps"

definition PeerSet_Len :: "PeerSet \<Rightarrow> nat" where
  "PeerSet_Len ps = card (ps_peers ps)"

text \<open>The closure of \<open>Iterator\<close> is its index; a call returns the next identity and the next index.\<close>

definition PeerSet_Iterator :: "PeerSet \<Rightarrow> nat \<Rightarrow> (Hash \<times> bool) \<times> nat" where
  "PeerSet_Iterator ps i =
     (if i \<ge> length (ps_ids ps) then ((ZeroHash, False), i) else ((ps_ids ps ! i, True), i + 1))"

section \<open>Ban lists\<close>

definition CurrentBanListVersion :: int where "CurrentBanListVersion = 1"

text \<open>The regular expression is a \<open>v\<close> followed by at least one digit.\<close>

definition verRegex_Match :: "string \<Rightarrow> bool" where
  "verRegex_Match s \<longleftrightarrow> s \<noteq> [] \<and> hd s = CHR ''v'' \<and> tl s \<noteq> [] \<and> list_all is_digit (tl s)"

definition ParseBanListVersion :: "string \<Rightarrow> int go" where
  "ParseBanListVersion line =
     (let splits = strings_Split line (CHR '':'') in
      if length splits \<noteq> 2 then Err (ErrNew ''ban list version must consist of two colon-separated components'')
      else if splits ! 0 \<noteq> ''FNBAN'' then Err (ErrNew ''ban list version must start with FNBAN'')
      else if \<not> verRegex_Match (splits ! 1) then Err (ErrNew ''ban list version must end with v followed by a digit'')
      else
        case Atoi_digits (drop 1 (splits ! 1)) of
          Ok verInt \<Rightarrow> Ok verInt | Err e \<Rightarrow> Panic ''value out of range'' | Panic m \<Rightarrow> Panic m)"

fun ReadBanListLoop :: "nat \<Rightarrow> bytes list \<Rightarrow> string list go" where
  "ReadBanListLoop i [] = Ok []"
| "ReadBanListLoop i (line # lines) =
     (let name = strings_Trim (string_of_bytes line) [CHR '' '', CHR 0x09] in
      go_bind (go_wrap (ValidateName name) (''invalid name on line '' @ itoa i @ '': '' @ name)) (\<lambda>_.
      go_bind (ReadBanListLoop (i + 1) lines) (\<lambda>names. Ok (name # names))))"

text \<open>What the reader delivers before it ends or fails; the scanner's error is not looked at.\<close>

definition ReadBanList :: "bytes \<Rightarrow> string list go" where
  "ReadBanList r =
     (case scan_lines r of
        [] \<Rightarrow> Err (ErrNew ''ban list must start with version line'')
      | firstLine # lines \<Rightarrow>
          go_bind (ParseBanListVersion (string_of_bytes firstLine)) (\<lambda>version.
          if version \<noteq> CurrentBanListVersion then Err (ErrNew ''unsupported ban list version'')
          else ReadBanListLoop 1 lines))"

definition FetchListFile :: "(string \<Rightarrow> err + bytes) \<Rightarrow> string \<Rightarrow> string list go" where
  "FetchListFile http_Get url =
     go_bind (go_wrap (go_of (http_Get url)) ''failed to fetch list'') ReadBanList"

section \<open>Seeds\<close>

record SeedPeer =
  seed_ID :: Hash
  seed_IP :: string

definition IPv4_String :: "IP \<Rightarrow> string" where
  "IPv4_String i = concat (map (\<lambda>k. (if k = 0 then [] else ''.'') @ itoa (unat (i ! k))) [0, 1, 2, 3])"

text \<open>The set of used addresses is consulted but never written: it stays empty.\<close>

definition ResolveDNSSeeds :: "(string \<Rightarrow> err + IP list) \<Rightarrow> string \<Rightarrow> string list go" where
  "ResolveDNSSeeds LookupIP domain =
     go_bind (go_wrap (go_of (LookupIP domain)) ''error looking up DNS seeds'') (\<lambda>ips.
     Ok (map IPv4_String (List.map_filter IP_To4 ips)))"

fun ParseSeedPeers :: "string list \<Rightarrow> SeedPeer list go" where
  "ParseSeedPeers [] = Ok []"
| "ParseSeedPeers (seed # seeds) =
     (let pieces = strings_Split seed (CHR ''@'') in
      if length pieces \<noteq> 2 then Err (ErrNew ''seed peer must specify both a peer ID and address'')
      else
        go_bind (go_wrap (NewHashFromHex (pieces ! 0)) ''mal-formed peer ID'') (\<lambda>peerID.
        go_bind (ParseSeedPeers seeds) (\<lambda>peers.
        Ok (\<lparr>seed_ID = peerID, seed_IP = pieces ! 1\<rparr> # peers))))"

section \<open>Lemmas\<close>

lemma strings_Split_not_Nil [simp]: "strings_Split s sep \<noteq> []"
  by (induction s) (auto split: list.splits)

lemma strings_Split_join: "sep \<notin> set x \<Longrightarrow> strings_Split (x @ sep # y) sep = x # strings_Split y sep"
  by (induction x) auto

lemma strings_Split_none: "sep \<notin> set x \<Longrightarrow> strings_Split x sep = [x]"
  by (induction x) auto

definition peer_set_wf :: "PeerSet \<Rightarrow> bool" where
  "peer_set_wf ps \<longleftrightarrow> distinct (ps_ids ps) \<and> set (ps_ids ps) = ps_peers ps"

lemma peer_set_wf_Add: "peer_set_wf ps \<Longrightarrow> peer_set_wf (PeerSet_Add ps i)"
  by (auto simp: peer_set_wf_def PeerSet_Add_def)

lemma NewPeerSet_Add: "NewPeerSet ids = foldl PeerSet_Add \<lparr>ps_peers = {}, ps_ids = []\<rparr> ids"
  by (simp add: NewPeerSet_def PeerSet_Add_def [abs_def])

lemma peer_set_wf_fold: "peer_set_wf ps \<Longrightarrow> peer_set_wf (foldl PeerSet_Add ps ids)"
  by (induction ids arbitrary: ps) (simp_all add: peer_set_wf_Add)

lemma peer_set_wf_New: "peer_set_wf (NewPeerSet ids)"
  unfolding NewPeerSet_Add by (rule peer_set_wf_fold) (simp add: peer_set_wf_def)

lemma ReadBanListLoop_valid:
  "ReadBanListLoop i ls = Ok names \<Longrightarrow> length names = length ls \<and> (\<forall>n \<in> set names. ValidateName n = Ok ())"
proof (induction ls arbitrary: i names)
  case (Cons l ls)
  define name where "name = strings_Trim (string_of_bytes l) [CHR '' '', CHR 0x09]"
  from Cons.prems obtain ns where v: "ValidateName name = Ok ()" "ReadBanListLoop (i + 1) ls = Ok ns" "names = name # ns"
    by (auto simp: go_bind_eq_Ok Let_def go_wrap_eq_Ok simp flip: name_def)
  with Cons.IH [OF v(2)] show ?case by simp
qed simp

lemma ReadBanList_valid:
  assumes "ReadBanList r = Ok names" "n \<in> set names"
  shows "ValidateName n = Ok ()"
proof -
  obtain f ls where "scan_lines r = f # ls" "ReadBanListLoop 1 ls = Ok names"
    using assms(1) by (auto simp: ReadBanList_def go_bind_eq_Ok split: list.splits if_splits)
  then show ?thesis using ReadBanListLoop_valid assms(2) by blast
qed

lemma modBuffer_range: "0 < n \<Longrightarrow> 0 \<le> modBuffer b n \<and> modBuffer b n < n"
  unfolding modBuffer_def by (induction b rule: rev_induct) simp_all

end
