(* ===== verification/Proto_Queue.thy ===== *)
theory Proto_Queue
  imports Proto_Lists P2P_Manager Util_Locker
begin

text \<open>
  The queue of announced updates, \<open>protocol/update_queue.go\<close>, and the server of update requests,
  \<open>protocol/update_server.go\<close>.

  \<open>Enqueue\<close> reads the queue length and the database without holding the queue's mutex and then
  changes the queue under it: the two parts are \<open>Enqueue_check\<close> and \<open>Enqueue_insert\<close>, between which
  other calls may run.  Items are values: the pointer a dequeued item is reached by is deleted from
  the queue's map by \<open>Dequeue\<close>.
\<close>

section \<open>State\<close>

definition ErrUpdateQueueMaxLen :: err where "ErrUpdateQueueMaxLen = ErrVar ''update queue is at max length''"
definition ErrUpdateQueueEpochUpdated :: err where "ErrUpdateQueueEpochUpdated = ErrVar ''epoch already updated''"
definition ErrUpdateQueueSectorUpdated :: err where "ErrUpdateQueueSectorUpdated = ErrVar ''sector already updated''"
definition ErrUpdateQueueStaleSector :: err where "ErrUpdateQueueStaleSector = ErrVar ''sector is stale''"
definition ErrInitialImportIncomplete :: err where "ErrInitialImportIncomplete = ErrVar ''initial import incomplete''"

record 'pk UpdateQueueItem =
  qi_PeerIDs :: PeerSet
  qi_Name :: string
  qi_EpochHeight :: uint16
  qi_SectorSize :: uint16
  qi_Pub :: 'pk
  qi_Height :: int
  qi_Disposed :: int

record 'pk UpdateQueue =
  uq_MaxLen :: "32 word"
  uq_entries :: "string \<rightharpoonup> 'pk UpdateQueueItem"
  uq_queue :: "string list"
  uq_queueLen :: "32 word"

definition UpdateQueueItem_Dispose :: "'pk UpdateQueueItem \<Rightarrow> 'pk UpdateQueueItem" where
  "UpdateQueueItem_Dispose u = u\<lparr>qi_Disposed := 1\<rparr>"

definition NewUpdateQueue :: "int \<Rightarrow> 'pk UpdateQueue" where
  "NewUpdateQueue maxLen =
     \<lparr>uq_MaxLen = word_of_int maxLen, uq_entries = Map.empty, uq_queue = [], uq_queueLen = 0\<rparr>"

section \<open>Enqueueing\<close>

definition UpdateQueue_validateUpdate :: "'d leveldb \<Rightarrow> 'd \<Rightarrow> string \<Rightarrow> unit go" where
  "UpdateQueue_validateUpdate L db name =
     go_bind (go_wrap (ValidateName name) ''update name is invalid'') (\<lambda>_.
     go_bind (go_wrap (NameIsBanned L db name) ''error reading name ban state'') (\<lambda>nameBan.
     if nameBan then Err (ErrNew ''name is banned'')
     else
       go_bind (go_wrap (GetHeaderBan L db name) ''error reading header ban state'') (\<lambda>headerBan.
       if \<not> time_IsZero headerBan then Err (ErrNew ''header is banned'') else Ok ())))"

text \<open>The epoch and size of the stored header, zero when there is none.\<close>

definition stored_position :: "'d leveldb \<Rightarrow> 'd \<Rightarrow> string \<Rightarrow> (uint16 \<times> uint16) go" where
  "stored_position L db name =
     (case GetHeader L db name of
        Ok header \<Rightarrow> Ok (hd_EpochHeight header, hd_SectorSize header)
      | Err e \<Rightarrow> if errors_Is e leveldb_ErrNotFound then Ok (0, 0) else Err (ErrWrap e ''error getting name header'')
      | Panic m \<Rightarrow> Panic m)"

definition Enqueue_fresh :: "uint16 \<times> uint16 \<Rightarrow> Update \<Rightarrow> unit go" where
  "Enqueue_fresh stored update =
     (if fst stored > update_EpochHeight update then Err ErrUpdateQueueEpochUpdated
      else if fst stored = update_EpochHeight update then
        if snd stored > update_SectorSize update then Err ErrUpdateQueueStaleSector
        else if snd stored = update_SectorSize update then Err ErrUpdateQueueSectorUpdated
        else Ok ()
      else Ok ())"

text \<open>
  The part before the lock: \<open>Inl\<close> is what \<open>Enqueue\<close> returns at once, \<open>Inr\<close> the name information with
  which it goes on.  An update of size zero announces an equivocation and is answered with a request
  for its proof.
\<close>

definition Enqueue_check ::
  "(bytes \<Rightarrow> bytes) \<Rightarrow> ('pk, 'sk) btcec \<Rightarrow> 'd leveldb \<Rightarrow> time \<Rightarrow> (muxPeer \<Rightarrow> 'pk Envelope \<Rightarrow> err option \<times> uint64)
     \<Rightarrow> 'pk UpdateQueue \<Rightarrow> 'd \<Rightarrow> 'sk PeerMuxer \<Rightarrow> Hash \<Rightarrow> Update
     \<Rightarrow> (unit go + 'pk NameInfo) \<times> (Hash \<times> 'pk Envelope) list \<times> 'sk PeerMuxer" where
  "Enqueue_check b2 ec L now net u db mux peerID update =
     (if sint (uq_queueLen u) \<ge> sint (uq_MaxLen u) then (Inl (Err ErrUpdateQueueMaxLen), [], mux)
      else
        case go_wrap (GetInitialImportComplete L db) ''error getting initial import complete'' of
          Err e \<Rightarrow> (Inl (Err e), [], mux)
        | Panic m \<Rightarrow> (Inl (Panic m), [], mux)
        | Ok False \<Rightarrow> (Inl (Err ErrInitialImportIncomplete), [], mux)
        | Ok True \<Rightarrow>
            if update_SectorSize update = 0 then
              (case PeerMuxer_Send b2 ec now net mux peerID
                      (MBlobReq \<lparr>blobReq_Name = update_Name update, blobReq_EpochHeight = update_EpochHeight update,
                         blobReq_SectorSize = of_nat MaxSectors\<rparr>) of
                 (r, sent, mux1) \<Rightarrow> (Inl r, sent, mux1))
            else
              case
                go_bind (UpdateQueue_validateUpdate L db (update_Name update)) (\<lambda>_.
                go_bind (go_wrap (GetNameInfo L ec db (update_Name update)) ''error getting name info'') (\<lambda>nameInfo.
                go_bind (stored_position L db (update_Name update)) (\<lambda>stored.
                go_bind (Enqueue_fresh stored update) (\<lambda>_. Ok nameInfo)))) of
                Ok nameInfo \<Rightarrow> (Inr nameInfo, [], mux)
              | Err e \<Rightarrow> (Inl (Err e), [], mux)
              | Panic m \<Rightarrow> (Inl (Panic m), [], mux))"

definition newItem :: "Hash \<Rightarrow> Update \<Rightarrow> 'pk NameInfo \<Rightarrow> 'pk UpdateQueueItem" where
  "newItem peerID update nameInfo =
     \<lparr>qi_PeerIDs = NewPeerSet [peerID], qi_Name = update_Name update, qi_EpochHeight = update_EpochHeight update,
      qi_SectorSize = update_SectorSize update, qi_Pub = ni_PublicKey nameInfo,
      qi_Height = ni_ImportHeight nameInfo, qi_Disposed = 0\<rparr>"

definition Enqueue_insert ::
  "'pk UpdateQueue \<Rightarrow> Hash \<Rightarrow> Update \<Rightarrow> 'pk NameInfo \<Rightarrow> unit go \<times> 'pk UpdateQueue" where
  "Enqueue_insert u peerID update nameInfo =
     (case uq_entries u (update_Name update) of
        None \<Rightarrow>
          (Ok (), u\<lparr>uq_entries := (uq_entries u)(update_Name update \<mapsto> newItem peerID update nameInfo),
                    uq_queue := uq_queue u @ [update_Name update], uq_queueLen := uq_queueLen u + 1\<rparr>)
      | Some entry \<Rightarrow>
          if qi_SectorSize entry < update_SectorSize update then
            (Ok (), u\<lparr>uq_entries := (uq_entries u)(update_Name update \<mapsto> newItem peerID update nameInfo)\<rparr>)
          else if qi_EpochHeight entry > update_EpochHeight update then (Err ErrUpdateQueueEpochUpdated, u)
          else if qi_EpochHeight entry = update_EpochHeight update \<and> qi_SectorSize entry > update_SectorSize update
          then (Err ErrUpdateQueueStaleSector, u)
          else
            (Ok (), u\<lparr>uq_entries := (uq_entries u)
               (update_Name update \<mapsto> entry\<lparr>qi_PeerIDs := PeerSet_Add (qi_PeerIDs entry) peerID\<rparr>)\<rparr>))"

definition UpdateQueue_Enqueue ::
  "(bytes \<Rightarrow> bytes) \<Rightarrow> ('pk, 'sk) btcec \<Rightarrow> 'd leveldb \<Rightarrow> time \<Rightarrow> (muxPeer \<Rightarrow> 'pk Envelope \<Rightarrow> err option \<times> uint64)
     \<Rightarrow> 'pk UpdateQueue \<Rightarrow> 'd \<Rightarrow> 'sk PeerMuxer \<Rightarrow> Hash \<Rightarrow> Update
     \<Rightarrow> unit go \<times> (Hash \<times> 'pk Envelope) list \<times> 'pk UpdateQueue \<times> 'sk PeerMuxer" where
  "UpdateQueue_Enqueue b2 ec L now net u db mux peerID update =
     (case Enqueue_check b2 ec L now net u db mux peerID update of
        (Inl r, sent, mux1) \<Rightarrow> (r, sent, u, mux1)
      | (Inr nameInfo, sent, mux1) \<Rightarrow>
          (case Enqueue_insert u peerID update nameInfo of (r, u1) \<Rightarrow> (r, sent, u1, mux1)))"

text \<open>\<open>onUpdate\<close> asserts the message's type; a rejected update is only logged.\<close>

definition UpdateQueue_onUpdate ::
  "(bytes \<Rightarrow> bytes) \<Rightarrow> ('pk, 'sk) btcec \<Rightarrow> 'd leveldb \<Rightarrow> time \<Rightarrow> (muxPeer \<Rightarrow> 'pk Envelope \<Rightarrow> err option \<times> uint64)
     \<Rightarrow> 'pk UpdateQueue \<Rightarrow> 'd \<Rightarrow> 'sk PeerMuxer \<Rightarrow> Hash \<Rightarrow> 'pk Envelope
     \<Rightarrow> unit go \<times> (Hash \<times> 'pk Envelope) list \<times> 'pk UpdateQueue \<times> 'sk PeerMuxer" where
  "UpdateQueue_onUpdate b2 ec L now net u db mux peerID envelope =
     (case env_Message envelope of
        MUpdate update \<Rightarrow>
          (case UpdateQueue_Enqueue b2 ec L now net u db mux peerID update of
             (Panic m, rest) \<Rightarrow> (Panic m, rest)
           | (_, rest) \<Rightarrow> (Ok (), rest))
      | _ \<Rightarrow> (Panic ''interface conversion'', [], u, mux))"

section \<open>Dequeueing\<close>

text \<open>\<open>None\<close> is the nil item, also of a queued name without an entry.\<close>

definition UpdateQueue_Dequeue :: "'pk UpdateQueue \<Rightarrow> 'pk UpdateQueueItem option \<times> 'pk UpdateQueue" where
  "UpdateQueue_Dequeue u =
     (case uq_queue u of
        [] \<Rightarrow> (None, u)
      | name # queue \<Rightarrow>
          (uq_entries u name,
           u\<lparr>uq_queue := queue, uq_queueLen := uq_queueLen u - 1, uq_entries := (uq_entries u)(name := None)\<rparr>))"

definition UpdateQueue_reapDequeuedUpdates :: "'pk UpdateQueue \<Rightarrow> 'pk UpdateQueue" where
  "UpdateQueue_reapDequeuedUpdates u =
     u\<lparr>uq_entries := (\<lambda>k. case uq_entries u k of
         Some item \<Rightarrow> if qi_Disposed item = 0 then Some item else None | None \<Rightarrow> None)\<rparr>"

section \<open>The update server\<close>

text \<open>Every error of \<open>Send\<close> is logged; the read lock is released on return.\<close>

definition nilUpdate :: "string \<Rightarrow> 'pk Message" where
  "nilUpdate name = MNilUpdate \<lparr>nilUpdate_Name = name\<rparr>"

definition UpdateReq_answer :: "'d leveldb \<Rightarrow> 'd \<Rightarrow> UpdateReq \<Rightarrow> 'pk Message go" where
  "UpdateReq_answer L db msg =
     (case GetHeader L db (updateReq_Name msg) of
        Panic m \<Rightarrow> Panic m
      | Err e \<Rightarrow> Ok (nilUpdate (updateReq_Name msg))
      | Ok header \<Rightarrow>
          if hd_SectorSize header < updateReq_SectorSize msg \<or> hd_SectorSize header = updateReq_SectorSize msg
          then Ok (nilUpdate (updateReq_Name msg))
          else Ok (MUpdate \<lparr>update_Name = updateReq_Name msg, update_EpochHeight = hd_EpochHeight header,
                 update_SectorSize = hd_SectorSize header\<rparr>))"

definition UpdateServer_UpdateReqHandler ::
  "(bytes \<Rightarrow> bytes) \<Rightarrow> ('pk, 'sk) btcec \<Rightarrow> 'd leveldb \<Rightarrow> time \<Rightarrow> (muxPeer \<Rightarrow> 'pk Envelope \<Rightarrow> err option \<times> uint64)
     \<Rightarrow> string lock \<Rightarrow> 'd \<Rightarrow> 'sk PeerMuxer \<Rightarrow> Hash \<Rightarrow> 'pk Envelope
     \<Rightarrow> unit go \<times> (Hash \<times> 'pk Envelope) list \<times> string lock \<times> 'sk PeerMuxer" where
  "UpdateServer_UpdateReqHandler b2 ec L now net nl db mux peerID envelope =
     (case env_Message envelope of
        MUpdateReq msg \<Rightarrow>
          (case lock_TryRLock nl (updateReq_Name msg) of
             (False, nl1) \<Rightarrow>
               (case PeerMuxer_Send b2 ec now net mux peerID (nilUpdate (updateReq_Name msg)) of
                  (Panic m, sent, mux1) \<Rightarrow> (Panic m, sent, nl1, mux1)
                | (_, sent, mux1) \<Rightarrow> (Ok (), sent, nl1, mux1))
           | (True, nl1) \<Rightarrow>
               (case UpdateReq_answer L db msg of
                  Ok m \<Rightarrow>
                    (case PeerMuxer_Send b2 ec now net mux peerID m of
                       (r, sent, mux1) \<Rightarrow>
                         (case lock_RUnlock nl1 (updateReq_Name msg) of
                            (r', nl2) \<Rightarrow> (case r of Panic p \<Rightarrow> Panic p | _ \<Rightarrow> r', sent, nl2, mux1)))
                | Err e \<Rightarrow> (Err e, [], snd (lock_RUnlock nl1 (updateReq_Name msg)), mux)
                | Panic m \<Rightarrow> (Panic m, [], snd (lock_RUnlock nl1 (updateReq_Name msg)), mux)))
      | _ \<Rightarrow> (Panic ''interface conversion'', [], nl, mux))"

section \<open>The queue as a list of items\<close>

text \<open>
  The abstract queue is the list of its items in the order they will be dequeued.  A name is in it at
  most once: an announcement of a known name either replaces its item, keeping the place, or adds the
  announcing peer to it, or is refused.
\<close>

definition spec_insert ::
  "Hash \<Rightarrow> Update \<Rightarrow> 'pk NameInfo \<Rightarrow> 'pk UpdateQueueItem list \<Rightarrow> unit go \<times> 'pk UpdateQueueItem list" where
  "spec_insert peerID update nameInfo q =
     (case find (\<lambda>x. qi_Name x = update_Name update) q of
        None \<Rightarrow> (Ok (), q @ [newItem peerID update nameInfo])
      | Some e \<Rightarrow>
          let put = (\<lambda>y. map (\<lambda>x. if qi_Name x = update_Name update then y else x) q) in
          if qi_SectorSize e < update_SectorSize update then (Ok (), put (newItem peerID update nameInfo))
          else if qi_EpochHeight e > update_EpochHeight update then (Err ErrUpdateQueueEpochUpdated, q)
          else if qi_EpochHeight e = update_EpochHeight update \<and> qi_SectorSize e > update_SectorSize update
          then (Err ErrUpdateQueueStaleSector, q)
          else (Ok (), put (e\<lparr>qi_PeerIDs := PeerSet_Add (qi_PeerIDs e) peerID\<rparr>)))"

definition uq_abs :: "'pk UpdateQueue \<Rightarrow> 'pk UpdateQueueItem list" where
  "uq_abs u = map (\<lambda>n. the (uq_entries u n)) (uq_queue u)"

definition uq_inv :: "'pk UpdateQueue \<Rightarrow> bool" where
  "uq_inv u \<longleftrightarrow>
     distinct (uq_queue u) \<and> dom (uq_entries u) = set (uq_queue u) \<and>
     uq_queueLen u = of_nat (length (uq_queue u)) \<and>
     (\<forall>n x. uq_entries u n = Some x \<longrightarrow> qi_Name x = n \<and> qi_Disposed x = 0 \<and> peer_set_wf (qi_PeerIDs x))"

text \<open>Calls under the mutex, in any order; \<open>Dispose\<close> only touches items that left the queue.\<close>

inductive uq_run :: "'pk UpdateQueue \<Rightarrow> bool" where
  uq_new: "uq_run (NewUpdateQueue maxLen)"
| uq_insert: "uq_run u \<Longrightarrow> uq_run (snd (Enqueue_insert u peerID update nameInfo))"
| uq_dequeue: "uq_run u \<Longrightarrow> uq_run (snd (UpdateQueue_Dequeue u))"
| uq_reap: "uq_run u \<Longrightarrow> uq_run (UpdateQueue_reapDequeuedUpdates u)"

lemma uq_inv_put:
  assumes "uq_inv u" "uq_entries u n = Some e" "qi_Name y = n" "qi_Disposed y = 0" "peer_set_wf (qi_PeerIDs y)"
  shows "uq_inv (u\<lparr>uq_entries := (uq_entries u)(n \<mapsto> y)\<rparr>)"
  using assms by (auto simp: uq_inv_def)

lemma uq_inv_insert: "uq_inv u \<Longrightarrow> uq_inv (snd (Enqueue_insert u peerID update nameInfo))"
proof (cases "uq_entries u (update_Name update)")
  case None
  assume inv: "uq_inv u"
  have "update_Name update \<notin> set (uq_queue u)" using inv None by (auto simp: uq_inv_def)
  then show ?thesis using inv None
    by (auto simp: Enqueue_insert_def uq_inv_def newItem_def peer_set_wf_New split: if_splits)
next
  case (Some e)
  assume inv: "uq_inv u"
  have e: "qi_Name e = update_Name update" "qi_Disposed e = 0" "peer_set_wf (qi_PeerIDs e)"
    using inv Some by (auto simp: uq_inv_def)
  show ?thesis
    using inv uq_inv_put [OF inv Some, of "newItem peerID update nameInfo"]
      uq_inv_put [OF inv Some, of "e\<lparr>qi_PeerIDs := PeerSet_Add (qi_PeerIDs e) peerID\<rparr>"] e
    by (simp add: Enqueue_insert_def Some newItem_def peer_set_wf_New peer_set_wf_Add)
qed

lemma uq_inv_dequeue: "uq_inv u \<Longrightarrow> uq_inv (snd (UpdateQueue_Dequeue u))"
  by (auto simp: UpdateQueue_Dequeue_def uq_inv_def split: list.splits if_splits)

lemma reap_id: "uq_inv u \<Longrightarrow> UpdateQueue_reapDequeuedUpdates u = u"
proof -
  assume inv: "uq_inv u"
  have "(\<lambda>k. case uq_entries u k of Some item \<Rightarrow> if qi_Disposed item = 0 then Some item else None | None \<Rightarrow> None)
      = uq_entries u"
    using inv by (auto simp: uq_inv_def fun_eq_iff split: option.splits)
  then show ?thesis by (simp add: UpdateQueue_reapDequeuedUpdates_def)
qed

lemma uq_run_inv: "uq_run u \<Longrightarrow> uq_inv u"
  by (induction rule: uq_run.induct)
    (auto simp: uq_inv_insert uq_inv_dequeue reap_id, simp add: uq_inv_def NewUpdateQueue_def)

lemma uq_entry_name:
  assumes "uq_inv u" "m \<in> set (uq_queue u)"
  shows "qi_Name (the (uq_entries u m)) = m"
proof -
  have "m \<in> dom (uq_entries u)" using assms by (simp add: uq_inv_def)
  then obtain x where "uq_entries u m = Some x" by auto
  then show ?thesis using assms(1) by (simp add: uq_inv_def)
qed

lemma uq_abs_names: "uq_inv u \<Longrightarrow> map qi_Name (uq_abs u) = uq_queue u"
  by (auto simp: uq_abs_def uq_entry_name comp_def intro!: map_idI)

lemma uq_abs_find:
  assumes "uq_inv u"
  shows "find (\<lambda>x. qi_Name x = n) (uq_abs u) = uq_entries u n"
proof (cases "uq_entries u n")
  case None
  then have "n \<notin> set (map qi_Name (uq_abs u))" using assms uq_abs_names [OF assms] by (auto simp: uq_inv_def)
  then show ?thesis using None by (auto simp: find_None_iff)
next
  case (Some e)
  then have "n \<in> set (uq_queue u)" using assms by (auto simp: uq_inv_def)
  then obtain xs ys where q: "uq_queue u = xs @ n # ys" "n \<notin> set xs" by (meson split_list_first)
  have skip: "find (\<lambda>x. qi_Name x = n) (map (\<lambda>n. the (uq_entries u n)) zs @ ys') = find (\<lambda>x. qi_Name x = n) ys'"
    if "set zs \<subseteq> set (uq_queue u)" "n \<notin> set zs" for zs ys'
    using that by (induction zs) (auto simp: uq_entry_name [OF assms])
  have "set xs \<subseteq> set (uq_queue u)" using q(1) by auto
  from skip [OF this q(2)] show ?thesis using Some uq_entry_name [OF assms, of n] q by (simp add: uq_abs_def)
qed

lemma uq_abs_put:
  assumes "uq_inv u"
  shows "uq_abs (u\<lparr>uq_entries := (uq_entries u)(n \<mapsto> y)\<rparr>) = map (\<lambda>x. if qi_Name x = n then y else x) (uq_abs u)"
  by (auto simp: uq_abs_def uq_entry_name [OF assms])

lemma uq_insert_refines:
  assumes inv: "uq_inv u" and ins: "Enqueue_insert u peerID update nameInfo = (r, u')"
  shows "spec_insert peerID update nameInfo (uq_abs u) = (r, uq_abs u')"
proof (cases "uq_entries u (update_Name update)")
  case None
  then have "update_Name update \<notin> set (uq_queue u)" using inv by (auto simp: uq_inv_def)
  then have old: "map (\<lambda>n. the (((uq_entries u)(update_Name update \<mapsto> y)) n)) (uq_queue u) = uq_abs u" for y
    by (auto simp: uq_abs_def)
  have r: "r = Ok ()" "u' = u\<lparr>uq_entries := (uq_entries u)(update_Name update \<mapsto> newItem peerID update nameInfo),
      uq_queue := uq_queue u @ [update_Name update], uq_queueLen := uq_queueLen u + 1\<rparr>"
    using ins None by (auto simp: Enqueue_insert_def)
  have "uq_abs u' = uq_abs u @ [newItem peerID update nameInfo]"
    using old [of "newItem peerID update nameInfo"] by (simp add: r uq_abs_def)
  then show ?thesis using r(1) None by (simp add: spec_insert_def uq_abs_find [OF inv])
next
  case (Some e)
  then show ?thesis using ins
    by (auto simp: Enqueue_insert_def spec_insert_def uq_abs_find [OF inv] uq_abs_put [OF inv] Let_def split: if_splits)
qed

lemma uq_dequeue_refines:
  assumes inv: "uq_inv u"
  shows "fst (UpdateQueue_Dequeue u) = (case uq_abs u of [] \<Rightarrow> None | x # _ \<Rightarrow> Some x)
    \<and> uq_abs (snd (UpdateQueue_Dequeue u)) = tl (uq_abs u)"
proof (cases "uq_queue u")
  case Nil
  then show ?thesis by (simp add: UpdateQueue_Dequeue_def uq_abs_def)
next
  case (Cons n ns)
  then have "n \<in> dom (uq_entries u)" "n \<notin> set ns" using inv by (auto simp: uq_inv_def)
  then show ?thesis using Cons by (auto simp: UpdateQueue_Dequeue_def uq_abs_def)
qed

section \<open>Properties\<close>



end
