(* ===== verification/Proto_Sync.thy ===== *)
theory Proto_Sync
  imports Proto_Queue
begin

text \<open>
  Fetching sectors from peers, \<open>protocol/syncer.go\<close>, on top of the store, the peer multiplexer and
  blob transactions.

  The goroutine of \<open>SyncSectors\<close> handles one response after the other; the calling loop waits for
  its first result, its first error or the timeout.  \<open>SyncSectors\<close> runs over the list of responses
  that arrive before the timeout; the end of the list is the timeout.  What the goroutine
  may still request or handle after the caller has left is not part of the call.
\<close>

definition ErrInvalidPayloadSignature :: err where "ErrInvalidPayloadSignature = ErrVar ''update signature is invalid''"
definition ErrPayloadEquivocation :: err where "ErrPayloadEquivocation = ErrVar ''update payload is equivocated''"

record syncUpdate =
  su_sectorTipHash :: Hash
  su_reservedRoot :: Hash
  su_signature :: Signature

record SyncSectorsOpts =
  so_Peers :: PeerSet
  so_EpochHeight :: uint16
  so_SectorSize :: uint16
  so_PrevHash :: Hash
  so_Name :: string

section \<open>Validation\<close>

definition validateBlobUpdate ::
  "(bytes \<Rightarrow> bytes) \<Rightarrow> ('pk, 'sk) btcec \<Rightarrow> 'd leveldb \<Rightarrow> 'd \<Rightarrow> string \<Rightarrow> uint16 \<Rightarrow> uint16 \<Rightarrow> Hash \<Rightarrow> Hash
     \<Rightarrow> Signature \<Rightarrow> unit go" where
  "validateBlobUpdate b2 ec L db name epochHeight sectorSize sectorTipHash reservedRoot sig =
     go_bind (go_wrap (ValidateName name) ''update name is invalid'') (\<lambda>_.
     go_bind (go_wrap (NameIsBanned L db name) ''error reading name ban state'') (\<lambda>banned.
     if banned then Err (ErrNew ''name is banned'')
     else
       go_bind (go_wrap (GetNameInfo L ec db name) ''error reading name info'') (\<lambda>info.
       go_bind (VerifySigPub ec (ni_PublicKey info) sig
                  (SealHash b2 name epochHeight sectorSize sectorTipHash reservedRoot)) (\<lambda>valid.
       if \<not> valid then Err ErrInvalidPayloadSignature else Ok ()))))"

section \<open>Syncing\<close>

text \<open>What a call works on: the database, the multiplexer, the transaction with its files, the
  positions received so far, and the envelopes sent.\<close>

record ('pk, 'sk, 'd) syncState =
  ss_db :: 'd
  ss_mux :: "'sk PeerMuxer"
  ss_tx :: txImpl
  ss_fs :: blobFS
  ss_received :: "uint16 set"
  ss_sent :: "(Hash \<times> 'pk Envelope) list"

datatype sync_res = SyncNext | SyncErr err | SyncDone syncUpdate | SyncPanic string

text \<open>Requests go to the peers in turn until seven were sent; a failed send is skipped.\<close>

fun SyncSectors_request ::
  "(bytes \<Rightarrow> bytes) \<Rightarrow> ('pk, 'sk) btcec \<Rightarrow> time \<Rightarrow> (muxPeer \<Rightarrow> 'pk Envelope \<Rightarrow> err option \<times> uint64)
     \<Rightarrow> 'pk Message \<Rightarrow> Hash list \<Rightarrow> nat \<Rightarrow> ('pk, 'sk, 'd) syncState \<Rightarrow> ('pk, 'sk, 'd) syncState go" where
  "SyncSectors_request b2 ec now net req [] sendCount st = Ok st"
| "SyncSectors_request b2 ec now net req (peerID # ids) sendCount st =
     (if sendCount = 7 then Ok st
      else
        case PeerMuxer_Send b2 ec now net (ss_mux st) peerID req of
          (r, sent, mux1) \<Rightarrow>
            let st1 = st\<lparr>ss_mux := mux1, ss_sent := ss_sent st @ sent\<rparr> in
            case r of
              Ok _ \<Rightarrow> SyncSectors_request b2 ec now net req ids (sendCount + 1) st1
            | Err _ \<Rightarrow> SyncSectors_request b2 ec now net req ids sendCount st1
            | Panic m \<Rightarrow> Panic m)"

definition sync_request :: "SyncSectorsOpts \<Rightarrow> 'pk Message" where
  "sync_request opts =
     MBlobReq \<lparr>blobReq_Name = so_Name opts, blobReq_EpochHeight = so_EpochHeight opts,
       blobReq_SectorSize = so_SectorSize opts\<rparr>"

text \<open>A sector that cannot be written is logged and skipped.\<close>

fun SyncSectors_write ::
  "(nat \<Rightarrow> sys) \<Rightarrow> nat \<Rightarrow> Sector list \<Rightarrow> txImpl \<Rightarrow> blobFS \<Rightarrow> unit go \<times> txImpl \<times> blobFS" where
  "SyncSectors_write sysf i [] t fs = (Ok (), t, fs)"
| "SyncSectors_write sysf i (sector # payload) t fs =
     (case txImpl_WriteSector (sysf i) t fs sector of
        (Panic m, t1, fs1) \<Rightarrow> (Panic m, t1, fs1)
      | (_, t1, fs1) \<Rightarrow> SyncSectors_write sysf (i + 1) payload t1 fs1)"

definition equivocation_proof :: "BlobRes \<Rightarrow> Header \<Rightarrow> EquivocationProof" where
  "equivocation_proof msg header =
     \<lparr>ep_Name = blobRes_Name msg, ep_RemoteEpochHeight = blobRes_EpochHeight msg,
      ep_RemotePayloadPosition = blobRes_PayloadPosition msg, ep_RemotePrevHash = blobRes_PrevHash msg,
      ep_RemoteReservedRoot = blobRes_ReservedRoot msg, ep_RemotePayload = blobRes_Payload msg,
      ep_RemoteSignature = blobRes_Signature msg, ep_LocalEpochHeight = hd_EpochHeight header,
      ep_LocalSectorSize = hd_SectorSize header, ep_LocalSectorTipHash = hd_SectorTipHash header,
      ep_LocalReservedRoot = hd_ReservedRoot header, ep_LocalSignature = hd_Signature header\<rparr>"

text \<open>
  A validly signed response that does not continue the local hash chain at the same epoch: the name
  is banned, the proof stored and an update of size zero gossiped.  Some failures only leave the
  \<open>select\<close>, and the caller keeps waiting.
\<close>

definition SyncSectors_equivocation ::
  "(bytes \<Rightarrow> bytes) \<Rightarrow> ('pk, 'sk) btcec \<Rightarrow> 'd leveldb \<Rightarrow> time \<Rightarrow> (muxPeer \<Rightarrow> 'pk Envelope \<Rightarrow> err option \<times> uint64)
     \<Rightarrow> BlobRes \<Rightarrow> ('pk, 'sk, 'd) syncState \<Rightarrow> sync_res \<times> ('pk, 'sk, 'd) syncState" where
  "SyncSectors_equivocation b2 ec L now net msg st =
     (case GetEquivocationProof L (ss_db st) (blobRes_Name msg) of
        Panic m \<Rightarrow> (SyncPanic m, st)
      | Ok _ \<Rightarrow> (SyncErr ErrPayloadEquivocation, st)
      | Err _ \<Rightarrow>
          (case GetHeader L (ss_db st) (blobRes_Name msg) of
             Panic m \<Rightarrow> (SyncPanic m, st)
           | Err _ \<Rightarrow> (SyncNext, st)
           | Ok header \<Rightarrow>
               (case WithTx L (ss_db st) (SetHeaderBan L now (blobRes_Name msg) time_zero) of
                  (db1, Panic m) \<Rightarrow> (SyncPanic m, st\<lparr>ss_db := db1\<rparr>)
                | (db1, Err _) \<Rightarrow> (SyncNext, st\<lparr>ss_db := db1\<rparr>)
                | (db1, Ok _) \<Rightarrow>
                    (case WithTx L db1 (SetEquivocationProofTx L ec (blobRes_Name msg) (equivocation_proof msg header)) of
                       (db2, Panic m) \<Rightarrow> (SyncPanic m, st\<lparr>ss_db := db2\<rparr>)
                     | (db2, _) \<Rightarrow>
                         (case GossipAll b2 ec now net (ss_mux st)
                                 (MUpdate \<lparr>update_Name = blobRes_Name msg, update_EpochHeight = blobRes_EpochHeight msg,
                                    update_SectorSize = 0\<rparr>) of
                            (r, sent, mux1) \<Rightarrow>
                              (case r of Panic m \<Rightarrow> SyncPanic m | _ \<Rightarrow> SyncErr ErrPayloadEquivocation,
                               st\<lparr>ss_db := db2, ss_mux := mux1, ss_sent := ss_sent st @ sent\<rparr>))))))"

definition SyncSectors_handle ::
  "(bytes \<Rightarrow> bytes) \<Rightarrow> ('pk, 'sk) btcec \<Rightarrow> 'd leveldb \<Rightarrow> (nat \<Rightarrow> sys) \<Rightarrow> time
     \<Rightarrow> (muxPeer \<Rightarrow> 'pk Envelope \<Rightarrow> err option \<times> uint64) \<Rightarrow> SyncSectorsOpts \<Rightarrow> BlobRes
     \<Rightarrow> ('pk, 'sk, 'd) syncState \<Rightarrow> sync_res \<times> ('pk, 'sk, 'd) syncState" where
  "SyncSectors_handle b2 ec L sysf now net opts msg st =
     (if blobRes_Name msg \<noteq> so_Name opts then (SyncNext, st)
      else if blobRes_PayloadPosition msg \<in> ss_received st then (SyncNext, st)
      else if so_EpochHeight opts > blobRes_EpochHeight msg then (SyncNext, st)
      else if so_SectorSize opts \<noteq> blobRes_PayloadPosition msg then (SyncNext, st)
      else
        let sectorSize = blobRes_PayloadPosition msg + of_nat (length (blobRes_Payload msg)) in
        if unat sectorSize > MaxSectors then (SyncNext, st)
        else
          let sectorTipHash = foldl (\<lambda>h s. SerialHashSector b2 s h) (blobRes_PrevHash msg) (blobRes_Payload msg) in
          case validateBlobUpdate b2 ec L (ss_db st) (blobRes_Name msg) (blobRes_EpochHeight msg) sectorSize
                 sectorTipHash (blobRes_ReservedRoot msg) (blobRes_Signature msg) of
            Panic m \<Rightarrow> (SyncPanic m, st)
          | Err _ \<Rightarrow> (SyncErr (ErrWrap ErrInvalidPayloadSignature ''signature validation failed''), st)
          | Ok _ \<Rightarrow>
              if so_PrevHash opts \<noteq> blobRes_PrevHash msg then
                if so_EpochHeight opts = blobRes_EpochHeight msg then SyncSectors_equivocation b2 ec L now net msg st
                else (SyncErr ErrPayloadEquivocation, st)
              else
                case SyncSectors_write sysf 0 (blobRes_Payload msg) (ss_tx st) (ss_fs st) of
                  (Panic m, t1, fs1) \<Rightarrow> (SyncPanic m, st\<lparr>ss_tx := t1, ss_fs := fs1\<rparr>)
                | (_, t1, fs1) \<Rightarrow>
                    (SyncDone \<lparr>su_sectorTipHash = sectorTipHash, su_reservedRoot = blobRes_ReservedRoot msg,
                       su_signature = blobRes_Signature msg\<rparr>,
                     st\<lparr>ss_tx := t1, ss_fs := fs1, ss_received := insert (blobRes_PayloadPosition msg) (ss_received st)\<rparr>))"

text \<open>
  The call: requests are sent before every wait.  \<open>Ok None\<close> is the nil update with a nil error that
  the timeout leaves.
\<close>

fun SyncSectors ::
  "(bytes \<Rightarrow> bytes) \<Rightarrow> ('pk, 'sk) btcec \<Rightarrow> 'd leveldb \<Rightarrow> (nat \<Rightarrow> sys)
     \<Rightarrow> (muxPeer \<Rightarrow> 'pk Envelope \<Rightarrow> err option \<times> uint64) \<Rightarrow> SyncSectorsOpts \<Rightarrow> time \<Rightarrow> (time \<times> Hash \<times> BlobRes) list
     \<Rightarrow> ('pk, 'sk, 'd) syncState \<Rightarrow> syncUpdate option go \<times> ('pk, 'sk, 'd) syncState" where
  "SyncSectors b2 ec L sysf net opts now evs st =
     (case SyncSectors_request b2 ec now net (sync_request opts) (ps_ids (so_Peers opts)) 0 st of
        Panic m \<Rightarrow> (Panic m, st)
      | Err e \<Rightarrow> (Err e, st)
      | Ok st1 \<Rightarrow>
          (case evs of
             [] \<Rightarrow> (Ok None, st1)
           | (t, peerID, msg) # evs' \<Rightarrow>
               (case SyncSectors_handle b2 ec L sysf t net opts msg st1 of
                  (SyncNext, st2) \<Rightarrow> SyncSectors b2 ec L sysf net opts t evs' st2
                | (SyncErr e, st2) \<Rightarrow> (Err e, st2)
                | (SyncDone su, st2) \<Rightarrow> (Ok (Some su), st2)
                | (SyncPanic m, st2) \<Rightarrow> (Panic m, st2))))"

declare SyncSectors.simps [simp del]

end
