(* ===== verification/Proto_Updater.thy ===== *)
theory Proto_Updater
  imports Proto_Sync
begin

text \<open>
  Applying a queued update, \<open>protocol/updater.go\<close>: the composition of the header store, the per-name
  lock, the blob store with its transactions, the syncer and gossip.

  A node's blobs are the pool of open handles, the files of the store and the temporary files of the
  transactions.  A handle sees its file through \<open>bw_view\<close>, and what a transaction does to it is put
  back by \<open>bw_put\<close>.
\<close>

section \<open>A node\<close>

record blobWorld =
  bw_pool :: "blobHandle Pool"
  bw_store :: storeFS
  bw_temps :: "nat \<Rightarrow> tempFile option"
  bw_next :: nat

definition bw_file :: "blobWorld \<Rightarrow> string \<Rightarrow> ofile" where
  "bw_file w path = (case st_files (bw_store w) path of Some f \<Rightarrow> f | None \<Rightarrow> file_empty)"

definition bw_view :: "blobWorld \<Rightarrow> blobHandle \<Rightarrow> blobFS" where
  "bw_view w b =
     \<lparr>fs_blob = bw_file w (bh_path b), fs_blobOpen = (bh_id b \<in> st_open (bw_store w)),
      fs_blobLinked = (st_files (bw_store w) (bh_path b) \<noteq> None), fs_temps = bw_temps w, fs_next = bw_next w\<rparr>"

definition bw_put :: "blobWorld \<Rightarrow> blobHandle \<Rightarrow> blobFS \<Rightarrow> blobWorld" where
  "bw_put w b fs =
     w\<lparr>bw_store := (bw_store w)\<lparr>st_files := (st_files (bw_store w))
           (bh_path b := if fs_blobLinked fs then Some (fs_blob fs) else None)\<rparr>,
       bw_temps := fs_temps fs, bw_next := fs_next fs\<rparr>"

definition bw_Open ::
  "(bytes \<Rightarrow> bytes) \<Rightarrow> sys \<Rightarrow> string \<Rightarrow> blobWorld \<Rightarrow> string \<Rightarrow> blobHandle go \<times> blobWorld" where
  "bw_Open b2 sys blobsPath w name =
     (case storeImpl_Open b2 sys blobsPath (bw_pool w) (bw_store w) name of
        (r, p, s) \<Rightarrow> (r, w\<lparr>bw_pool := p, bw_store := s\<rparr>))"

definition bw_Close :: "sys \<Rightarrow> blobWorld \<Rightarrow> blobHandle \<Rightarrow> unit go \<times> blobWorld" where
  "bw_Close sys w b =
     (case wrappedBlob_Close sys (bw_pool w) (bw_store w) b of
        (r, p, s) \<Rightarrow> (r, w\<lparr>bw_pool := p, bw_store := s\<rparr>))"

record ('pk, 'sk, 'd) node =
  nd_db :: 'd
  nd_mux :: "'sk PeerMuxer"
  nd_lock :: "string lock"
  nd_world :: blobWorld
  nd_cache :: "Sector list Cache"
  nd_sent :: "(Hash \<times> 'pk Envelope) list"

text \<open>
  What a call meets from outside: the outcomes of its system calls by call site, the behaviour of its
  connections, its readings of the clock, the blob directory, and the responses that arrive.
\<close>

record 'pk world_env =
  we_sys :: "nat \<Rightarrow> sys"
  we_net :: "muxPeer \<Rightarrow> 'pk Envelope \<Rightarrow> err option \<times> uint64"
  we_now :: "nat \<Rightarrow> time"
  we_blobs :: string
  we_evs :: "(time \<times> Hash \<times> BlobRes) list"

section \<open>Errors\<close>

definition ErrUpdaterAlreadySynchronized :: err where
  "ErrUpdaterAlreadySynchronized = ErrVar ''updater already synchronized''"
definition ErrNameLocked :: err where "ErrNameLocked = ErrVar ''name is locked''"
definition ErrNameBanned :: err where "ErrNameBanned = ErrVar ''name is banned''"
definition ErrInvalidEpochCurrent :: err where "ErrInvalidEpochCurrent = ErrVar ''name epoch invalid current''"
definition ErrInvalidEpochThrottled :: err where "ErrInvalidEpochThrottled = ErrVar ''name epoch invalid throttled''"
definition ErrInvalidEpochBackdated :: err where "ErrInvalidEpochBackdated = ErrVar ''name epoch invalid backdated''"
definition ErrInvalidEpochFuturedated :: err where
  "ErrInvalidEpochFuturedated = ErrVar ''name epoch invalid futuredated''"

section \<open>The checks before the lock\<close>

definition lookup_header :: "'d leveldb \<Rightarrow> 'd \<Rightarrow> string \<Rightarrow> Header option go" where
  "lookup_header L db name =
     (case GetHeader L db name of
        Ok h \<Rightarrow> Ok (Some h)
      | Err e \<Rightarrow> if errors_Is e leveldb_ErrNotFound then Ok None else Err (ErrWrap e ''error getting header'')
      | Panic m \<Rightarrow> Panic m)"

text \<open>Where the sync starts: whether the epoch rolls over, the epoch, the size and the previous hash.\<close>

record sync_plan =
  pl_epochUpdated :: bool
  pl_epochHeight :: uint16
  pl_sectorSize :: uint16
  pl_prevHash :: Hash

definition week :: duration where "week = 7 * 24 * time_Hour"

definition UpdateBlob_rollover ::
  "(bytes \<Rightarrow> bytes) \<Rightarrow> (nat \<Rightarrow> time) \<Rightarrow> Header \<Rightarrow> time \<Rightarrow> 'pk UpdateQueueItem \<Rightarrow> unit go" where
  "UpdateBlob_rollover b2 clk header bannedAt item =
     (if \<not> time_IsZero bannedAt \<and> bannedAt + week > clk 0 then Err ErrNameBanned
      else if \<not> time_IsZero bannedAt \<and> qi_EpochHeight item \<le> hd_EpochHeight header + 1 then Err ErrInvalidEpochCurrent
      else if clk 1 < hd_EpochStartAt header + week \<and> qi_EpochHeight item < CurrentEpoch b2 (clk 2) (qi_Name item) + 1
      then Err ErrInvalidEpochThrottled
      else if qi_EpochHeight item > CurrentEpoch b2 (clk 3) (qi_Name item) + 1 then Err ErrInvalidEpochFuturedated
      else Ok ())"

definition UpdateBlob_plan ::
  "(bytes \<Rightarrow> bytes) \<Rightarrow> 'd leveldb \<Rightarrow> (nat \<Rightarrow> time) \<Rightarrow> 'd \<Rightarrow> 'pk UpdateQueueItem \<Rightarrow> (Header option \<times> sync_plan) go" where
  "UpdateBlob_plan b2 L clk db item =
     go_bind (lookup_header L db (qi_Name item)) (\<lambda>header.
     case header of
       None \<Rightarrow>
         go_bind (GetHeaderBan L db (qi_Name item)) (\<lambda>_.
         Ok (None, \<lparr>pl_epochUpdated = True, pl_epochHeight = 0, pl_sectorSize = 0, pl_prevHash = ZeroHash\<rparr>))
     | Some h \<Rightarrow>
         if hd_EpochHeight h = qi_EpochHeight item \<and> hd_SectorSize h \<ge> qi_SectorSize item
         then Err ErrUpdaterAlreadySynchronized
         else if qi_EpochHeight item < hd_EpochHeight h then Err ErrInvalidEpochBackdated
         else
           go_bind (GetHeaderBan L db (qi_Name item)) (\<lambda>bannedAt.
           if qi_EpochHeight item > hd_EpochHeight h then
             go_bind (UpdateBlob_rollover b2 clk h bannedAt item) (\<lambda>_.
             Ok (Some h, \<lparr>pl_epochUpdated = True, pl_epochHeight = qi_EpochHeight item, pl_sectorSize = 0,
                           pl_prevHash = ZeroHash\<rparr>))
           else
             Ok (Some h, \<lparr>pl_epochUpdated = False, pl_epochHeight = hd_EpochHeight h,
                           pl_sectorSize = hd_SectorSize h, pl_prevHash = hd_SectorTipHash h\<rparr>)))"

section \<open>Under the lock\<close>

text \<open>
  \<open>blob.NewReader(tx)\<close>: a read below the end of the blob is a \<open>ReadAt\<close> of the transaction, the first
  of which makes its clone; \<open>ReadAt\<close> does not panic (\<open>tx_ReadAt_no_panic\<close>).
\<close>

definition tx_readerAt :: "sys \<Rightarrow> txImpl \<Rightarrow> blobFS \<Rightarrow> readerAt" where
  "tx_readerAt sys t fs p off =
     (case fst (txImpl_ReadAt sys t fs p off) of
        Ok r \<Rightarrow> r | Err e \<Rightarrow> (p, 0, Some e) | Panic m \<Rightarrow> (p, 0, Some (ErrNew m)))"

definition tx_Read ::
  "sys \<Rightarrow> Reader \<times> txImpl \<times> blobFS \<Rightarrow> bytes \<Rightarrow> (Reader \<times> txImpl \<times> blobFS) \<times> bytes \<times> nat \<times> err option" where
  "tx_Read sys s p =
     (case s of (b, t, fs) \<Rightarrow>
        (case Reader_Read (tx_readerAt sys t fs) b p of
           (b1, p1, n, e) \<Rightarrow>
             ((b1, if reader_offset b \<ge> int blob_Size then (t, fs) else snd (txImpl_enter sys t fs)), p1, n, e)))"

definition tx_SerialHash ::
  "(bytes \<Rightarrow> bytes) \<Rightarrow> sys \<Rightarrow> txImpl \<Rightarrow> blobFS \<Rightarrow> uint16 \<Rightarrow> SectorHashes go \<times> txImpl \<times> blobFS" where
  "tx_SerialHash b2 sys t fs sectorSize =
     (case SerialHash b2 (tx_Read sys) (NewReader, t, fs) ZeroHash sectorSize of (r, _, t1, fs1) \<Rightarrow> (r, t1, fs1))"

text \<open>The error of a rollback is logged; what the function returns is \<open>r\<close>.\<close>

definition rollback_return ::
  "sys \<Rightarrow> unit go \<Rightarrow> ('pk, 'sk, 'd) syncState \<Rightarrow> unit go \<times> ('pk, 'sk, 'd) syncState" where
  "rollback_return sys r st =
     (case txImpl_Rollback sys (ss_tx st) (ss_fs st) of
        (Panic m, t1, fs1) \<Rightarrow> (Panic m, st\<lparr>ss_tx := t1, ss_fs := fs1\<rparr>)
      | (_, t1, fs1) \<Rightarrow> (r, st\<lparr>ss_tx := t1, ss_fs := fs1\<rparr>))"

definition UpdateBlob_gossip ::
  "(bytes \<Rightarrow> bytes) \<Rightarrow> ('pk, 'sk) btcec \<Rightarrow> 'd leveldb \<Rightarrow> 'pk world_env \<Rightarrow> 'pk UpdateQueueItem
     \<Rightarrow> ('pk, 'sk, 'd) syncState \<Rightarrow> unit go \<times> ('pk, 'sk, 'd) syncState" where
  "UpdateBlob_gossip b2 ec L env item st =
     (case GetLastNameImportHeight L (ss_db st) of
        Panic m \<Rightarrow> (Panic m, st)
      | Err _ \<Rightarrow> (Ok (), st)
      | Ok height \<Rightarrow>
          if height - qi_Height item < 10 then (Ok (), st)
          else
            case GossipAll b2 ec (we_now env 7) (we_net env) (ss_mux st)
                   (MUpdate \<lparr>update_Name = qi_Name item, update_EpochHeight = qi_EpochHeight item,
                      update_SectorSize = qi_SectorSize item\<rparr>) of
              (r, sent, mux1) \<Rightarrow>
                (case r of Panic m \<Rightarrow> Panic m | _ \<Rightarrow> Ok (), st\<lparr>ss_mux := mux1, ss_sent := ss_sent st @ sent\<rparr>))"

text \<open>
  Storing the header and committing the blob.  The comparison of the tips reads the update that
  \<open>SyncSectors\<close> returned, also when it is nil; a mismatch wraps the nil \<open>err\<close>, which is nil.
\<close>

definition updated_header :: "'pk UpdateQueueItem \<Rightarrow> Hash \<Rightarrow> syncUpdate \<Rightarrow> time \<Rightarrow> Header" where
  "updated_header item tip su epochStart =
     \<lparr>hd_Name = qi_Name item, hd_EpochHeight = qi_EpochHeight item, hd_SectorSize = qi_SectorSize item,
      hd_SectorTipHash = tip, hd_Signature = su_signature su, hd_ReservedRoot = su_reservedRoot su,
      hd_EpochStartAt = epochStart\<rparr>"

definition UpdateBlob_store ::
  "(bytes \<Rightarrow> bytes) \<Rightarrow> ('pk, 'sk) btcec \<Rightarrow> 'd leveldb \<Rightarrow> 'pk world_env \<Rightarrow> 'pk UpdateQueueItem \<Rightarrow> bool
     \<Rightarrow> syncUpdate option \<Rightarrow> ('pk, 'sk, 'd) syncState \<Rightarrow> unit go \<times> ('pk, 'sk, 'd) syncState" where
  "UpdateBlob_store b2 ec L env item epochUpdated sectorMeta st =
     (case tx_SerialHash b2 (we_sys env 2) (ss_tx st) (ss_fs st) (qi_SectorSize item) of
        (Panic m, t1, fs1) \<Rightarrow> (Panic m, st\<lparr>ss_tx := t1, ss_fs := fs1\<rparr>)
      | (Err e, t1, fs1) \<Rightarrow>
          rollback_return (we_sys env 3) (Err (ErrWrap e ''error calculating new blob sector tip hash''))
            (st\<lparr>ss_tx := t1, ss_fs := fs1\<rparr>)
      | (Ok tree, t1, fs1) \<Rightarrow>
          let st1 = st\<lparr>ss_tx := t1, ss_fs := fs1\<rparr> in
          case sectorMeta of
            None \<Rightarrow> (Panic ''nil pointer dereference'', st1)
          | Some su \<Rightarrow>
              if su_sectorTipHash su \<noteq> SectorHashes_Tip tree then
                rollback_return (we_sys env 3)
                  (case errors_Wrap None ''sector tip hash mismatch'' of None \<Rightarrow> Ok () | Some e \<Rightarrow> Err e) st1
              else
                let epochStart = (if epochUpdated then we_now env 6 else time_zero) in
                case WithTx L (ss_db st1) (SetHeaderTx L (updated_header item (SectorHashes_Tip tree) su epochStart) tree) of
                  (db1, Panic m) \<Rightarrow> (Panic m, st1\<lparr>ss_db := db1\<rparr>)
                | (db1, Err e) \<Rightarrow>
                    rollback_return (we_sys env 3) (Err (ErrWrap e ''error storing header'')) (st1\<lparr>ss_db := db1\<rparr>)
                | (db1, Ok _) \<Rightarrow>
                    (case txImpl_Commit (we_sys env 4) t1 fs1 of
                       (Panic m, t2, fs2) \<Rightarrow> (Panic m, st1\<lparr>ss_db := db1, ss_tx := t2, ss_fs := fs2\<rparr>)
                     | (_, t2, fs2) \<Rightarrow>
                         UpdateBlob_gossip b2 ec L env item (st1\<lparr>ss_db := db1, ss_tx := t2, ss_fs := fs2\<rparr>)))"

definition plan_opts :: "'pk UpdateQueueItem \<Rightarrow> sync_plan \<Rightarrow> SyncSectorsOpts" where
  "plan_opts item plan =
     \<lparr>so_Peers = qi_PeerIDs item, so_EpochHeight = pl_epochHeight plan, so_SectorSize = pl_sectorSize plan,
      so_PrevHash = pl_prevHash plan, so_Name = qi_Name item\<rparr>"

text \<open>The transaction's part; \<open>Truncate\<close> and \<open>Seek\<close> that fail return without a rollback.\<close>

definition UpdateBlob_truncate ::
  "(bytes \<Rightarrow> bytes) \<Rightarrow> 'pk world_env \<Rightarrow> 'pk UpdateQueueItem \<Rightarrow> sync_plan \<Rightarrow> txImpl \<Rightarrow> blobFS \<Rightarrow> unit go \<times> txImpl \<times> blobFS" where
  "UpdateBlob_truncate b2 env item plan t fs =
     (if \<not> pl_epochUpdated plan then (Ok (), t, fs)
      else if pl_epochHeight plan > CurrentEpoch b2 (we_now env 4) (qi_Name item) + 1
      then (Err (ErrNew ''cannot reset epoch ahead of schedule''), t, fs)
      else txImpl_Truncate (we_sys env 1) t fs)"

definition UpdateBlob_sync ::
  "(bytes \<Rightarrow> bytes) \<Rightarrow> ('pk, 'sk) btcec \<Rightarrow> 'd leveldb \<Rightarrow> 'pk world_env \<Rightarrow> 'pk UpdateQueueItem \<Rightarrow> sync_plan
     \<Rightarrow> ('pk, 'sk, 'd) syncState \<Rightarrow> unit go \<times> ('pk, 'sk, 'd) syncState" where
  "UpdateBlob_sync b2 ec L env item plan st =
     (case UpdateBlob_truncate b2 env item plan (ss_tx st) (ss_fs st) of
        (Ok _, t1, fs1) \<Rightarrow>
          (case txImpl_Seek t1 (uint (pl_sectorSize plan) * int SectorBytes) 0 of
             (Ok _, t2) \<Rightarrow>
               (case SyncSectors b2 ec L (\<lambda>i. we_sys env (10 + i)) (we_net env) (plan_opts item plan) (we_now env 5)
                       (we_evs env) (st\<lparr>ss_tx := t2, ss_fs := fs1\<rparr>) of
                  (Panic m, st1) \<Rightarrow> (Panic m, st1)
                | (Err e, st1) \<Rightarrow> rollback_return (we_sys env 3) (Err (ErrWrap e ''error during sync'')) st1
                | (Ok sectorMeta, st1) \<Rightarrow>
                    UpdateBlob_store b2 ec L env item (pl_epochUpdated plan) sectorMeta st1)
           | (Err e, t2) \<Rightarrow> (Err (ErrWrap e ''error seeking transaction''), st\<lparr>ss_tx := t2, ss_fs := fs1\<rparr>)
           | (Panic m, t2) \<Rightarrow> (Panic m, st\<lparr>ss_tx := t2, ss_fs := fs1\<rparr>))
      | (Err e, t1, fs1) \<Rightarrow> (Err e, st\<lparr>ss_tx := t1, ss_fs := fs1\<rparr>)
      | (Panic m, t1, fs1) \<Rightarrow> (Panic m, st\<lparr>ss_tx := t1, ss_fs := fs1\<rparr>))"

definition UpdateBlob_locked ::
  "(bytes \<Rightarrow> bytes) \<Rightarrow> ('pk, 'sk) btcec \<Rightarrow> 'd leveldb \<Rightarrow> 'pk world_env \<Rightarrow> 'pk UpdateQueueItem \<Rightarrow> sync_plan
     \<Rightarrow> ('pk, 'sk, 'd) node \<Rightarrow> unit go \<times> ('pk, 'sk, 'd) node" where
  "UpdateBlob_locked b2 ec L env item plan nd =
     (case bw_Open b2 (we_sys env 0) (we_blobs env) (nd_world nd) (qi_Name item) of
        (Err e, w1) \<Rightarrow> (Err (ErrWrap e ''error getting blob''), nd\<lparr>nd_world := w1\<rparr>)
      | (Panic m, w1) \<Rightarrow> (Panic m, nd\<lparr>nd_world := w1\<rparr>)
      | (Ok b, w1) \<Rightarrow>
          (case UpdateBlob_sync b2 ec L env item plan
                  \<lparr>ss_db = nd_db nd, ss_mux = nd_mux nd, ss_tx = blobImpl_Transaction (qi_Name item),
                   ss_fs = bw_view w1 b, ss_received = {}, ss_sent = nd_sent nd\<rparr> of
             (r, st) \<Rightarrow>
               (case bw_Close (we_sys env 5) (bw_put w1 b (ss_fs st)) b of
                  (c, w2) \<Rightarrow>
                    (case c of Panic m \<Rightarrow> Panic m | _ \<Rightarrow> r,
                     nd\<lparr>nd_db := ss_db st, nd_mux := ss_mux st, nd_sent := ss_sent st, nd_world := w2\<rparr>))))"

definition UpdateBlob ::
  "(bytes \<Rightarrow> bytes) \<Rightarrow> ('pk, 'sk) btcec \<Rightarrow> 'd leveldb \<Rightarrow> 'pk world_env \<Rightarrow> 'pk UpdateQueueItem
     \<Rightarrow> ('pk, 'sk, 'd) node \<Rightarrow> unit go \<times> 'pk UpdateQueueItem \<times> ('pk, 'sk, 'd) node" where
  "UpdateBlob b2 ec L env item nd =
     (case UpdateBlob_plan b2 L (we_now env) (nd_db nd) item of
        Panic m \<Rightarrow> (Panic m, UpdateQueueItem_Dispose item, nd)
      | Err e \<Rightarrow> (Err e, UpdateQueueItem_Dispose item, nd)
      | Ok (header, plan) \<Rightarrow>
          (case lock_TryLock (nd_lock nd) (qi_Name item) of
             (False, l1) \<Rightarrow> (Err ErrNameLocked, UpdateQueueItem_Dispose item, nd\<lparr>nd_lock := l1\<rparr>)
           | (True, l1) \<Rightarrow>
               (case UpdateBlob_locked b2 ec L env item plan (nd\<lparr>nd_lock := l1\<rparr>) of
                  (r, nd1) \<Rightarrow>
                    (case lock_Unlock (nd_lock nd1) (qi_Name item) of
                       (u, l2) \<Rightarrow>
                         (case u of Panic m \<Rightarrow> Panic m | _ \<Rightarrow> r,
                          UpdateQueueItem_Dispose item, nd1\<lparr>nd_lock := l2\<rparr>)))))"

text \<open>One poll of a worker: the outcome is emitted with the item it was given.\<close>

definition Updater_poll ::
  "(bytes \<Rightarrow> bytes) \<Rightarrow> ('pk, 'sk) btcec \<Rightarrow> 'd leveldb \<Rightarrow> 'pk world_env \<Rightarrow> 'pk UpdateQueue \<Rightarrow> ('pk, 'sk, 'd) node
     \<Rightarrow> ('pk UpdateQueueItem \<times> unit go) option \<times> 'pk UpdateQueue \<times> ('pk, 'sk, 'd) node" where
  "Updater_poll b2 ec L env u nd =
     (case UpdateQueue_Dequeue u of
        (None, u1) \<Rightarrow> (None, u1, nd)
      | (Some item, u1) \<Rightarrow>
          (case UpdateBlob b2 ec L env item nd of (r, item1, nd1) \<Rightarrow> (Some (item1, r), u1, nd1)))"

end
