(* ===== verification/Proto_Server.thy ===== *)
theory Proto_Server
  imports Proto_Updater
begin

text \<open>
  Serving sectors and equivocation proofs, \<open>protocol/sector_server.go\<close>.  A handler returns nothing: what
  it does is the new state of the node.  A panic of a handler is kept apart, since it ends the process.
\<close>

section \<open>Responses\<close>

type_synonym ('pk, 'sk, 'd) handler = "('pk, 'sk, 'd) node \<Rightarrow> unit go \<times> ('pk, 'sk, 'd) node"

text \<open>The error of a send is logged.\<close>

definition node_Send ::
  "(bytes \<Rightarrow> bytes) \<Rightarrow> ('pk, 'sk) btcec \<Rightarrow> 'pk world_env \<Rightarrow> Hash \<Rightarrow> 'pk Message \<Rightarrow> ('pk, 'sk, 'd) handler" where
  "node_Send b2 ec env peerID msg nd =
     (case PeerMuxer_Send b2 ec (we_now env 9) (we_net env) (nd_mux nd) peerID msg of
        (r, sent, mux1) \<Rightarrow>
          (case r of Panic m \<Rightarrow> Panic m | _ \<Rightarrow> Ok (), nd\<lparr>nd_mux := mux1, nd_sent := nd_sent nd @ sent\<rparr>))"

definition blob_response :: "string \<Rightarrow> Hash \<Rightarrow> Sector list \<Rightarrow> uint16 \<Rightarrow> uint16 \<Rightarrow> Signature \<Rightarrow> BlobRes" where
  "blob_response name prevHash sectors epochHeight sectorSize signature =
     \<lparr>blobRes_Name = name, blobRes_EpochHeight = epochHeight, blobRes_PayloadPosition = sectorSize,
      blobRes_PrevHash = prevHash, blobRes_ReservedRoot = ZeroHash, blobRes_Payload = sectors,
      blobRes_Signature = signature\<rparr>"

definition SectorServer_sendResponse ::
  "(bytes \<Rightarrow> bytes) \<Rightarrow> ('pk, 'sk) btcec \<Rightarrow> 'pk world_env \<Rightarrow> Hash \<Rightarrow> string \<Rightarrow> Hash \<Rightarrow> Sector list \<Rightarrow> uint16
     \<Rightarrow> uint16 \<Rightarrow> Signature \<Rightarrow> ('pk, 'sk, 'd) handler" where
  "SectorServer_sendResponse b2 ec env peerID name prevHash sectors epochHeight sectorSize signature =
     node_Send b2 ec env peerID (MBlobRes (blob_response name prevHash sectors epochHeight sectorSize signature))"

section \<open>Requests\<close>

definition serve_proof ::
  "(bytes \<Rightarrow> bytes) \<Rightarrow> ('pk, 'sk) btcec \<Rightarrow> 'd leveldb \<Rightarrow> 'pk world_env \<Rightarrow> Hash \<Rightarrow> string \<Rightarrow> ('pk, 'sk, 'd) handler" where
  "serve_proof b2 ec L env peerID name nd =
     (case GetEquivocationProof L (nd_db nd) name of
        Panic m \<Rightarrow> (Panic m, nd)
      | Err _ \<Rightarrow> (Ok (), nd)
      | Ok raw \<Rightarrow>
          (case EquivocationProof_Decode ec raw of
             Panic m \<Rightarrow> (Panic m, nd)
           | Err _ \<Rightarrow> (Ok (), nd)
           | Ok (proof, _) \<Rightarrow> node_Send b2 ec env peerID (MEquivocationProof proof) nd))"

definition node_RUnlock :: "string \<Rightarrow> ('pk, 'sk, 'd) handler" where
  "node_RUnlock name nd = (case lock_RUnlock (nd_lock nd) name of (u, l1) \<Rightarrow> (u, nd\<lparr>nd_lock := l1\<rparr>))"

definition and_then :: "unit go \<times> ('pk, 'sk, 'd) node \<Rightarrow> ('pk, 'sk, 'd) handler \<Rightarrow> unit go \<times> ('pk, 'sk, 'd) node" where
  "and_then r f = (case r of (Ok _, nd) \<Rightarrow> f nd | _ \<Rightarrow> r)"

fun read_sectors :: "readerAt \<Rightarrow> nat list \<Rightarrow> Sector list go" where
  "read_sectors r [] = Ok []"
| "read_sectors r (i # is) =
     (case r ZeroSector (int i * int SectorBytes) of
        (_, _, Some e) \<Rightarrow> Err e
      | (sector, _, None) \<Rightarrow> go_bind (read_sectors r is) (\<lambda>sectors. Ok (sector # sectors)))"

definition cacheKey_of :: "BlobReq \<Rightarrow> string" where
  "cacheKey_of req =
     blobReq_Name req @ '':'' @ itoa (unat (blobReq_EpochHeight req)) @ '':'' @ itoa (unat (blobReq_SectorSize req))"

definition node_Close :: "sys \<Rightarrow> blobHandle \<Rightarrow> ('pk, 'sk, 'd) handler" where
  "node_Close sys b nd =
     (case bw_Close sys (nd_world nd) b of
        (c, w) \<Rightarrow> (case c of Panic m \<Rightarrow> Panic m | _ \<Rightarrow> Ok (), nd\<lparr>nd_world := w\<rparr>))"

text \<open>The read lock is held; the blob is read, cached and sent, and closed at the end.\<close>

definition serve_blob ::
  "(bytes \<Rightarrow> bytes) \<Rightarrow> ('pk, 'sk) btcec \<Rightarrow> 'pk world_env \<Rightarrow> duration \<Rightarrow> Hash \<Rightarrow> BlobReq \<Rightarrow> Header \<Rightarrow> Hash
     \<Rightarrow> ('pk, 'sk, 'd) handler" where
  "serve_blob b2 ec env cacheExpiry peerID req header prevHash nd =
     (case bw_Open b2 (we_sys env 0) (we_blobs env) (nd_world nd) (blobReq_Name req) of
        (Panic m, w1) \<Rightarrow> (Panic m, nd\<lparr>nd_world := w1\<rparr>)
      | (Err e, w1) \<Rightarrow> node_RUnlock (blobReq_Name req) (nd\<lparr>nd_world := w1\<rparr>)
      | (Ok b, w1) \<Rightarrow>
          let nd1 = nd\<lparr>nd_world := w1\<rparr>; close = node_Close (we_sys env 5) b in
          case read_sectors (blobImpl_ReadAt (we_sys env 1) (bw_view w1 b))
                 [unat (blobReq_SectorSize req) ..< unat (hd_SectorSize header)] of
            Panic m \<Rightarrow> (Panic m, nd1)
          | Err _ \<Rightarrow> and_then (node_RUnlock (blobReq_Name req) nd1) close
          | Ok sectors \<Rightarrow>
              (case Cache_Set (we_now env 8) (nd_cache nd1) (cacheKey_of req) (Some sectors)
                      (cacheExpiry div time_Millisecond) of
                 (c, cache1) \<Rightarrow>
                   and_then (and_then (and_then (c, nd1\<lparr>nd_cache := cache1\<rparr>) (node_RUnlock (blobReq_Name req)))
                     (SectorServer_sendResponse b2 ec env peerID (blobReq_Name req) prevHash sectors
                        (hd_EpochHeight header) (blobReq_SectorSize req) (hd_Signature header)))
                     close))"

text \<open>A failed lookup of the previous hash returns with the read lock held.\<close>

definition serve_sectors ::
  "(bytes \<Rightarrow> bytes) \<Rightarrow> ('pk, 'sk) btcec \<Rightarrow> 'd leveldb \<Rightarrow> 'pk world_env \<Rightarrow> duration \<Rightarrow> Hash \<Rightarrow> BlobReq \<Rightarrow> Header
     \<Rightarrow> ('pk, 'sk, 'd) handler" where
  "serve_sectors b2 ec L env cacheExpiry peerID req header nd =
     (case (if blobReq_SectorSize req \<noteq> 0
            then GetSectorHash L (nd_db nd) (blobReq_Name req) (blobReq_SectorSize req - 1) else Ok ZeroHash) of
        Panic m \<Rightarrow> (Panic m, nd)
      | Err _ \<Rightarrow> (Ok (), nd)
      | Ok prevHash \<Rightarrow>
          (case Cache_Get (we_now env 8) (nd_cache nd) (cacheKey_of req) of
             (Some sectors, _, cache1) \<Rightarrow>
               and_then (node_RUnlock (blobReq_Name req) (nd\<lparr>nd_cache := cache1\<rparr>))
                 (SectorServer_sendResponse b2 ec env peerID (blobReq_Name req) prevHash sectors
                    (hd_EpochHeight header) (blobReq_SectorSize req) (hd_Signature header))
           | (None, _, cache1) \<Rightarrow>
               serve_blob b2 ec env cacheExpiry peerID req header prevHash (nd\<lparr>nd_cache := cache1\<rparr>)))"

definition SectorServer_onBlobReq ::
  "(bytes \<Rightarrow> bytes) \<Rightarrow> ('pk, 'sk) btcec \<Rightarrow> 'd leveldb \<Rightarrow> 'pk world_env \<Rightarrow> duration \<Rightarrow> Hash \<Rightarrow> BlobReq
     \<Rightarrow> ('pk, 'sk, 'd) handler" where
  "SectorServer_onBlobReq b2 ec L env cacheExpiry peerID req nd =
     (case GetHeader L (nd_db nd) (blobReq_Name req) of
        Panic m \<Rightarrow> (Panic m, nd)
      | Err _ \<Rightarrow> (Ok (), nd)
      | Ok header \<Rightarrow>
          if hd_EpochHeight header < blobReq_EpochHeight req then (Ok (), nd)
          else if unat (blobReq_SectorSize req) = MaxSectors then serve_proof b2 ec L env peerID (blobReq_Name req) nd
          else
            case lock_TryRLock (nd_lock nd) (blobReq_Name req) of
              (False, l1) \<Rightarrow> (Ok (), nd\<lparr>nd_lock := l1\<rparr>)
            | (True, l1) \<Rightarrow> serve_sectors b2 ec L env cacheExpiry peerID req header (nd\<lparr>nd_lock := l1\<rparr>))"

section \<open>Proofs\<close>

text \<open>The two updates a proof shows: the local one and the remote one recomputed from its payload.\<close>

definition proof_valid ::
  "(bytes \<Rightarrow> bytes) \<Rightarrow> ('pk, 'sk) btcec \<Rightarrow> 'd leveldb \<Rightarrow> 'd \<Rightarrow> EquivocationProof \<Rightarrow> unit go" where
  "proof_valid b2 ec L db msg =
     go_bind (validateBlobUpdate b2 ec L db (ep_Name msg) (ep_LocalEpochHeight msg) (ep_LocalSectorSize msg)
                (ep_LocalSectorTipHash msg) (ep_LocalReservedRoot msg) (ep_LocalSignature msg)) (\<lambda>_.
     let sectorSize = ep_RemotePayloadPosition msg + of_nat (length (ep_RemotePayload msg)) in
     if unat sectorSize > MaxSectors then Err (ErrNew ''received unexpected sector size'')
     else
       let sectorTipHash = foldl (\<lambda>h s. SerialHashSector b2 s h) (ep_RemotePrevHash msg) (ep_RemotePayload msg) in
       validateBlobUpdate b2 ec L db (ep_Name msg) (ep_RemoteEpochHeight msg) sectorSize sectorTipHash
         (ep_RemoteReservedRoot msg) (ep_RemoteSignature msg))"

definition SectorServer_onEquivocationProof ::
  "(bytes \<Rightarrow> bytes) \<Rightarrow> ('pk, 'sk) btcec \<Rightarrow> 'd leveldb \<Rightarrow> (nat \<Rightarrow> time) \<Rightarrow> EquivocationProof \<Rightarrow> 'd \<Rightarrow> unit go \<times> 'd" where
  "SectorServer_onEquivocationProof b2 ec L clk msg db =
     (if ep_LocalEpochHeight msg \<noteq> ep_RemoteEpochHeight msg then (Ok (), db)
      else
        case GetHeader L db (ep_Name msg) of
          Panic m \<Rightarrow> (Panic m, db)
        | Err _ \<Rightarrow> (Ok (), db)
        | Ok header \<Rightarrow>
            (case GetHeaderBan L db (ep_Name msg) of
               Panic m \<Rightarrow> (Panic m, db)
             | Err _ \<Rightarrow> (Ok (), db)
             | Ok bannedAt \<Rightarrow>
                 if \<not> time_IsZero bannedAt \<and> bannedAt + week > clk 0 then (Ok (), db)
                 else if \<not> time_IsZero bannedAt \<and> hd_EpochHeight header = ep_RemoteEpochHeight msg then (Ok (), db)
                 else if hd_EpochHeight header > ep_RemoteEpochHeight msg then (Ok (), db)
                 else if ep_LocalSectorSize msg \<noteq> ep_RemotePayloadPosition msg then (Ok (), db)
                 else
                   case proof_valid b2 ec L db msg of
                     Panic m \<Rightarrow> (Panic m, db)
                   | Err _ \<Rightarrow> (Ok (), db)
                   | Ok _ \<Rightarrow>
                       (case WithTx L db (SetEquivocationProofTx L ec (ep_Name msg) msg) of
                          (db1, Panic m) \<Rightarrow> (Panic m, db1)
                        | (db1, _) \<Rightarrow>
                            (case WithTx L db1 (SetHeaderBan L (clk 1) (ep_Name msg) time_zero) of
                               (db2, Panic m) \<Rightarrow> (Panic m, db2)
                             | (db2, _) \<Rightarrow> (Ok (), db2)))))"

end
