(* ===== verification/Proto_Consistency.thy ===== *)
theory Proto_Consistency
  imports Proto_Server
begin

text \<open>
  The lemmas behind the guarantees of the updater: which headers a call may change, how a sync and
  its transaction keep the stored header and the stored blob together, and the writes of bans.
\<close>

section \<open>Writes beside the headers\<close>

definition hdr_same :: "(bytes \<Rightarrow> dbval option) \<Rightarrow> (bytes \<Rightarrow> dbval option) \<Rightarrow> bool" where
  "hdr_same m m' \<longleftrightarrow>
     m' headerCountKey = m headerCountKey \<and>
     (\<forall>n. m' (headerDataPrefix [n]) = m (headerDataPrefix [n]) \<and>
          m' (headerSectorHashesPrefix [n]) = m (headerSectorHashesPrefix [n]))"

lemma hdr_same_refl [simp]: "hdr_same m m"
  by (simp add: hdr_same_def)

lemma hdr_same_trans: "hdr_same m m' \<Longrightarrow> hdr_same m' m'' \<Longrightarrow> hdr_same m m''"
  by (simp add: hdr_same_def)

lemma ban_key_neq [simp]:
  "headerDataPrefix [a] \<noteq> headerBanPrefix [b]" "headerSectorHashesPrefix [a] \<noteq> headerBanPrefix [b]"
  "headerCountKey \<noteq> headerBanPrefix [b]"
  "headerDataPrefix [a] \<noteq> equivocationProofsPrefix [b]" "headerSectorHashesPrefix [a] \<noteq> equivocationProofsPrefix [b]"
  "headerCountKey \<noteq> equivocationProofsPrefix [b]"
  by (simp_all add: key_defs Prefixer_def)

lemma WithTx_put_view:
  assumes laws: "leveldb_laws L v" and W: "WithTx L db cb = (db', r)"
    and cb: "cb = (\<lambda>tx. tx_do (ldb_Put L tx k x) msg (\<lambda>tx. (tx, Ok ())))"
  shows "(v db' = v db \<or> v db' = (v db)(k \<mapsto> x)) \<and> (\<forall>e. r = Err e \<longrightarrow> v db' = v db)"
  using laws W
proof (cases rule: WithTx_view)
  case (2 tx tx')
  obtain d e where put: "ldb_Put L tx k x = (d, e)" by fastforce
  have "v d = (if e = None then (v tx)(k \<mapsto> x) else v tx)" by (rule leveldb_lawsD(4) [OF laws put])
  then show ?thesis using 2 put by (cases e) (auto simp: cb tx_do_def)
qed auto

lemma WithTx_SetHeaderBan:
  assumes "leveldb_laws L v" and "WithTx L db (SetHeaderBan L now n t) = (db', r)"
  shows "hdr_same (v db) (v db')" and "r = Err e \<Longrightarrow> v db' = v db"
proof -
  note * = WithTx_put_view [OF assms(1,2), where k = "headerBanPrefix [n]"
      and x = "VBytes (mustEncodeInt (time_Unix (if time_IsZero t then now else t)))"
      and msg = "''error writing header tree''"]
  have "SetHeaderBan L now n t = (\<lambda>tx. tx_do (ldb_Put L tx (headerBanPrefix [n])
      (VBytes (mustEncodeInt (time_Unix (if time_IsZero t then now else t))))) ''error writing header tree'' (\<lambda>tx. (tx, Ok ())))"
    by (simp add: SetHeaderBan_def fun_eq_iff Let_def)
  from * [OF this] show "hdr_same (v db) (v db')" and "r = Err e \<Longrightarrow> v db' = v db"
    by (auto simp: hdr_same_def)
qed

lemma WithTx_SetEquivocationProof:
  assumes "leveldb_laws L v" and "WithTx L db (SetEquivocationProofTx L ec n p) = (db', r)"
  shows "hdr_same (v db) (v db')"
proof -
  obtain msg where "SetEquivocationProofTx L ec n p = (\<lambda>tx. tx_do (ldb_Put L tx (equivocationProofsPrefix [n])
      (VBytes (fst (EquivocationProof_Encode ec p)))) msg (\<lambda>tx. (tx, Ok ())))"
    by (auto simp: SetEquivocationProofTx_def fun_eq_iff)
  from WithTx_put_view [OF assms this] show ?thesis by (auto simp: hdr_same_def)
qed

section \<open>What a sync does\<close>

lemma SyncSectors_request_frame:
  "SyncSectors_request b2 ec now net req ids c st = Ok st' \<Longrightarrow>
     ss_db st' = ss_db st \<and> ss_tx st' = ss_tx st \<and> ss_fs st' = ss_fs st \<and> ss_received st' = ss_received st"
proof (induction ids arbitrary: c st)
  case (Cons i ids)
  obtain r sent mux1 where s: "PeerMuxer_Send b2 ec now net (ss_mux st) i req = (r, sent, mux1)"
    by (cases "PeerMuxer_Send b2 ec now net (ss_mux st) i req") auto
  show ?case
  proof (cases "c = 7")
    case False
    then show ?thesis using Cons.prems Cons.IH s by (cases r) fastforce+
  qed (use Cons.prems in simp)
qed simp

lemma SyncSectors_equivocation_frame:
  assumes laws: "leveldb_laws L v" and e: "SyncSectors_equivocation b2 ec L now net msg st = (res, st')"
  shows "hdr_same (v (ss_db st)) (v (ss_db st')) \<and> ss_tx st' = ss_tx st \<and> ss_fs st' = ss_fs st
    \<and> res \<noteq> SyncDone su \<and> (res = SyncNext \<longrightarrow> v (ss_db st') = v (ss_db st))"
proof -
  obtain db1 r1 where w1: "WithTx L (ss_db st) (SetHeaderBan L now (blobRes_Name msg) time_zero) = (db1, r1)"
    by fastforce
  note h1 = WithTx_SetHeaderBan [OF laws w1]
  show ?thesis
  proof (cases "GetEquivocationProof L (ss_db st) (blobRes_Name msg)")
    case (Err x)
    show ?thesis
    proof (cases "GetHeader L (ss_db st) (blobRes_Name msg)")
      case h: (Ok header)
      obtain db2 r2 where w2: "WithTx L db1 (SetEquivocationProofTx L ec (blobRes_Name msg) (equivocation_proof msg header))
          = (db2, r2)" by fastforce
      obtain g sent mux1 where g: "GossipAll b2 ec now net (ss_mux st)
          (MUpdate \<lparr>update_Name = blobRes_Name msg, update_EpochHeight = blobRes_EpochHeight msg, update_SectorSize = 0\<rparr>)
          = (g, sent, mux1)"
        by (metis prod_cases3)
      have "hdr_same (v (ss_db st)) (v db2)"
        using hdr_same_trans [OF h1(1) WithTx_SetEquivocationProof [OF laws w2]] .
      then show ?thesis
        using e Err h w1 w2 g h1
        by (cases r1; cases r2; cases g) (auto simp: SyncSectors_equivocation_def)
    qed (use e Err in \<open>auto simp: SyncSectors_equivocation_def\<close>)
  qed (use e in \<open>auto simp: SyncSectors_equivocation_def\<close>)
qed

text \<open>A live transaction on a blob whose own file is \<open>P\<close>, its working copy at least a blob long.\<close>

definition tx_ok :: "nat \<Rightarrow> ofile \<times> bool \<times> bool \<Rightarrow> txImpl \<times> blobFS \<Rightarrow> bool" where
  "tx_ok n0 P s \<longleftrightarrow> tx_live n0 s \<and> aTx_wf (tx_abs s) \<and> blob_part (snd s) = P"

lemma tx_exec_ok: "tx_ok n0 P s \<Longrightarrow> tx_ok n0 P (tx_exec sys_fine op s)"
  using tx_exec_refines [of n0 s op] aTx_exec_wf [of "tx_abs s" op] tx_exec_blob_part [of sys_fine op "fst s" "snd s"]
  by (simp add: tx_ok_def)

lemma txImpl_enter_no_panic: "fst (txImpl_enter sys t fs) \<noteq> Panic m"
  by (auto simp: txImpl_enter_def txImpl_lazyInitialize_def blobImpl_txCloner_def Let_def
      split: prod.splits option.splits go.splits)

lemma tx_ReadAt_no_panic: "fst (txImpl_ReadAt sys t fs p off) \<noteq> Panic m"
  using txImpl_enter_no_panic [of sys t fs m]
  by (auto simp: txImpl_ReadAt_def split: prod.splits go.splits)

lemma txImpl_WriteSector_no_panic: "fst (txImpl_WriteSector sys t fs sec) \<noteq> Panic m"
  using txImpl_enter_no_panic [of sys t fs m]
  by (auto simp: txImpl_WriteSector_def split: prod.splits go.splits option.splits)

lemma SyncSectors_write_run:
  assumes "\<And>i. sysf i = sys_fine" and "SyncSectors_write sysf k ss t fs = (r, t', fs')"
  shows "r = Ok () \<and> (t', fs') = tx_run (fine_ops (map OpWriteSector ss)) (t, fs)"
proof -
  have "sysf = (\<lambda>_. sys_fine)" using assms(1) by blast
  then have "SyncSectors_write (\<lambda>_. sys_fine) k ss t fs = (r, t', fs')" using assms(2) by simp
  then show ?thesis
  proof (induction ss arbitrary: k t fs)
    case (Cons s ss)
    obtain r1 t1 fs1 where w: "txImpl_WriteSector sys_fine t fs s = (r1, t1, fs1)" by (metis prod_cases3)
    then have "\<nexists>m. r1 = Panic m" using txImpl_WriteSector_no_panic [of sys_fine t fs s] by auto
    then have "SyncSectors_write (\<lambda>_. sys_fine) (k + 1) ss t1 fs1 = (r, t', fs')"
      using Cons.prems w by (cases r1) auto
    then show ?case using Cons.IH w by (simp add: tx_run_def fine_ops_def)
  qed (simp add: tx_run_def fine_ops_def)
qed

lemma tx_run_ok: "tx_ok n0 P s \<Longrightarrow> tx_ok n0 P (tx_run (fine_ops ops) s)"
  unfolding tx_run_def fine_ops_def by (induction ops arbitrary: s) (simp_all add: tx_exec_ok)

text \<open>An update some response carried: it was checked against the key of the name at an epoch \<open>e\<close>.\<close>

definition checked_update ::
  "(bytes \<Rightarrow> bytes) \<Rightarrow> ('pk, 'sk) btcec \<Rightarrow> 'd leveldb \<Rightarrow> 'd \<Rightarrow> SyncSectorsOpts \<Rightarrow> BlobRes \<Rightarrow> syncUpdate \<Rightarrow> bool" where
  "checked_update b2 ec L db opts msg su \<longleftrightarrow>
     blobRes_Name msg = so_Name opts \<and> so_EpochHeight opts \<le> blobRes_EpochHeight msg \<and>
     so_SectorSize opts = blobRes_PayloadPosition msg \<and> so_PrevHash opts = blobRes_PrevHash msg \<and>
     unat (blobRes_PayloadPosition msg + of_nat (length (blobRes_Payload msg))) \<le> MaxSectors \<and>
     validateBlobUpdate b2 ec L db (blobRes_Name msg) (blobRes_EpochHeight msg)
       (blobRes_PayloadPosition msg + of_nat (length (blobRes_Payload msg)))
       (su_sectorTipHash su) (su_reservedRoot su) (su_signature su) = Ok () \<and>
     su = \<lparr>su_sectorTipHash = chain_tip b2 (blobRes_PrevHash msg) (blobRes_Payload msg),
           su_reservedRoot = blobRes_ReservedRoot msg, su_signature = blobRes_Signature msg\<rparr>"

lemma SyncSectors_handle_cases:
  assumes h: "SyncSectors_handle b2 ec L sysf now net opts msg st = (res, st')"
  obtains "res = SyncNext" "st' = st"
  | m where "res = SyncPanic m" "st' = st"
  | e where "res = SyncErr e" "st' = st"
  | "SyncSectors_equivocation b2 ec L now net msg st = (res, st')"
  | r t1 fs1 su where "SyncSectors_write sysf 0 (blobRes_Payload msg) (ss_tx st) (ss_fs st) = (r, t1, fs1)"
      "checked_update b2 ec L (ss_db st) opts msg su"
      "res = (case r of Panic m \<Rightarrow> SyncPanic m | _ \<Rightarrow> SyncDone su)" "ss_db st' = ss_db st" "ss_tx st' = t1" "ss_fs st' = fs1"
proof -
  define size where "size = blobRes_PayloadPosition msg + of_nat (length (blobRes_Payload msg))"
  define tip where "tip = foldl (\<lambda>h s. SerialHashSector b2 s h) (blobRes_PrevHash msg) (blobRes_Payload msg)"
  define su where "su = \<lparr>su_sectorTipHash = tip, su_reservedRoot = blobRes_ReservedRoot msg,
      su_signature = blobRes_Signature msg\<rparr>"
  have tip: "tip = chain_tip b2 (blobRes_PrevHash msg) (blobRes_Payload msg)"
    by (simp add: tip_def chain_tip_def)
  define skip where "skip \<longleftrightarrow> blobRes_Name msg \<noteq> so_Name opts \<or> blobRes_PayloadPosition msg \<in> ss_received st
      \<or> so_EpochHeight opts > blobRes_EpochHeight msg \<or> so_SectorSize opts \<noteq> blobRes_PayloadPosition msg
      \<or> unat size > MaxSectors"
  obtain r t1 fs1 where w: "SyncSectors_write sysf 0 (blobRes_Payload msg) (ss_tx st) (ss_fs st) = (r, t1, fs1)"
    by (metis prod_cases3)
  show ?thesis
  proof (cases skip)
    case True
    then show ?thesis using h that(1) by (auto simp: SyncSectors_handle_def skip_def size_def Let_def split: if_splits)
  next
    case False
    define val where "val = validateBlobUpdate b2 ec L (ss_db st) (blobRes_Name msg) (blobRes_EpochHeight msg) size
        tip (blobRes_ReservedRoot msg) (blobRes_Signature msg)"
    have eq: "SyncSectors_handle b2 ec L sysf now net opts msg st =
      (case val of Panic m \<Rightarrow> (SyncPanic m, st)
       | Err _ \<Rightarrow> (SyncErr (ErrWrap ErrInvalidPayloadSignature ''signature validation failed''), st)
       | Ok _ \<Rightarrow>
          if so_PrevHash opts \<noteq> blobRes_PrevHash msg then
            if so_EpochHeight opts = blobRes_EpochHeight msg then SyncSectors_equivocation b2 ec L now net msg st
            else (SyncErr ErrPayloadEquivocation, st)
          else (case r of Panic m \<Rightarrow> (SyncPanic m, st\<lparr>ss_tx := t1, ss_fs := fs1\<rparr>)
             | _ \<Rightarrow> (SyncDone su, st\<lparr>ss_tx := t1, ss_fs := fs1,
                  ss_received := insert (blobRes_PayloadPosition msg) (ss_received st)\<rparr>)))"
      using False w
      by (cases "so_PrevHash opts = blobRes_PrevHash msg"; cases val; cases r)
        (simp_all add: SyncSectors_handle_def skip_def size_def tip_def val_def su_def Let_def)
    show ?thesis
    proof (cases "\<exists>u. val = Ok u \<and> so_PrevHash opts = blobRes_PrevHash msg")
      case True
      then have "checked_update b2 ec L (ss_db st) opts msg su"
        using False by (auto simp: checked_update_def su_def tip val_def size_def skip_def)
      then show ?thesis using h eq True w that(5) by (cases r) auto
    next
      case False
      then show ?thesis using h eq that(1-4) by (cases val) (auto split: if_splits)
    qed
  qed
qed

text \<open>One response: the database keeps its headers, and an accepted update was checked.\<close>

lemma SyncSectors_handle_frame:
  assumes laws: "leveldb_laws L v" and h: "SyncSectors_handle b2 ec L sysf now net opts msg st = (res, st')"
  shows "hdr_same (v (ss_db st)) (v (ss_db st')) \<and> (res = SyncNext \<longrightarrow> v (ss_db st') = v (ss_db st))
    \<and> (res = SyncDone su \<longrightarrow> ss_db st' = ss_db st \<and> checked_update b2 ec L (ss_db st) opts msg su)
    \<and> ((\<forall>i. sysf i = sys_fine) \<longrightarrow> tx_ok n0 P (ss_tx st, ss_fs st) \<longrightarrow> tx_ok n0 P (ss_tx st', ss_fs st'))"
  using h
proof (cases rule: SyncSectors_handle_cases)
  case 4
  then show ?thesis using SyncSectors_equivocation_frame [OF laws 4, of su] by simp
next
  case (5 r t1 fs1 su')
  have "tx_ok n0 P (t1, fs1)" if "\<forall>i. sysf i = sys_fine" "tx_ok n0 P (ss_tx st, ss_fs st)"
    using SyncSectors_write_run [of sysf, OF _ 5(1)] that tx_run_ok [OF that(2)] by simp
  then show ?thesis using 5 by (cases r) auto
qed auto

definition accepted ::
  "(bytes \<Rightarrow> bytes) \<Rightarrow> ('pk, 'sk) btcec \<Rightarrow> 'd leveldb \<Rightarrow> ('d \<Rightarrow> bytes \<Rightarrow> dbval option) \<Rightarrow> (bytes \<Rightarrow> dbval option)
     \<Rightarrow> SyncSectorsOpts \<Rightarrow> (time \<times> Hash \<times> BlobRes) list \<Rightarrow> syncUpdate \<Rightarrow> bool" where
  "accepted b2 ec L v m opts evs su \<longleftrightarrow>
     (\<exists>t p msg db. (t, p, msg) \<in> set evs \<and> v db = m \<and> checked_update b2 ec L db opts msg su)"

lemma accepted_Cons:
  "accepted b2 ec L v m opts evs su \<Longrightarrow> accepted b2 ec L v m opts (ev # evs) su"
  unfolding accepted_def list.set by (elim exE conjE) (intro exI conjI, rule insertI2, assumption+)

lemma accepted_hd: "checked_update b2 ec L db opts msg su \<Longrightarrow> accepted b2 ec L v (v db) opts ((t, p, msg) # evs) su"
  unfolding accepted_def by (intro exI conjI) (rule list.set_intros(1), rule refl, assumption)

lemma SyncSectors_frame:
  assumes laws: "leveldb_laws L v" and s: "SyncSectors b2 ec L sysf net opts now evs st = (res, st')"
  shows "hdr_same (v (ss_db st)) (v (ss_db st'))
    \<and> (\<forall>su. res = Ok (Some su) \<longrightarrow> v (ss_db st') = v (ss_db st)
        \<and> accepted b2 ec L v (v (ss_db st)) opts evs su)
    \<and> ((\<forall>i. sysf i = sys_fine) \<longrightarrow> tx_ok n0 P (ss_tx st, ss_fs st) \<longrightarrow> tx_ok n0 P (ss_tx st', ss_fs st'))"
  using s
proof (induction evs arbitrary: now st)
  case Nil
  then show ?case
    using SyncSectors_request_frame [of b2 ec now net "sync_request opts" "ps_ids (so_Peers opts)" 0 st]
    by (auto simp: SyncSectors.simps [of _ _ _ _ _ _ _ "[]"] split: go.splits)
next
  case (Cons ev evs)
  obtain t p msg where ev: "ev = (t, p, msg)" by (cases ev)
  show ?case
  proof (cases "SyncSectors_request b2 ec now net (sync_request opts) (ps_ids (so_Peers opts)) 0 st")
    case (Ok st1)
    note fr = SyncSectors_request_frame [OF Ok]
    obtain hr st2 where h: "SyncSectors_handle b2 ec L sysf t net opts msg st1 = (hr, st2)" by fastforce
    note hf = SyncSectors_handle_frame [OF laws h]
    have eq: "SyncSectors b2 ec L sysf net opts now (ev # evs) st =
      (case hr of SyncNext \<Rightarrow> SyncSectors b2 ec L sysf net opts t evs st2
       | SyncErr e \<Rightarrow> (Err e, st2) | SyncDone su \<Rightarrow> (Ok (Some su), st2) | SyncPanic m \<Rightarrow> (Panic m, st2))"
      unfolding ev by (subst SyncSectors.simps) (simp add: Ok h split: sync_res.splits)
    show ?thesis
    proof (cases hr)
      case SyncNext
      then have rec: "SyncSectors b2 ec L sysf net opts t evs st2 = (res, st')" using Cons.prems eq by simp
      have v2: "v (ss_db st2) = v (ss_db st)" using hf SyncNext fr by simp
      show ?thesis using Cons.IH [OF rec] v2 hf fr accepted_Cons by (simp add: fr) blast
    next
      case (SyncDone su)
      then have "res = Ok (Some su)" "st' = st2" using Cons.prems eq by simp_all
      then show ?thesis using SyncDone hf [of su] fr ev accepted_hd [of b2 ec L "ss_db st"] by auto
    qed (use Cons.prems eq hf fr in auto)
  qed (use Cons.prems in \<open>auto simp: SyncSectors.simps [of _ _ _ _ _ _ _ "ev # evs"]\<close>)
qed

section \<open>Authenticity\<close>

lemma put_view:
  assumes "leveldb_laws L v" and "ldb_Put L tx k x = (tx', e)"
  shows "v tx' k' = v tx k' \<or> k' = k \<and> v tx' k' = Some x"
  using leveldb_lawsD(4) [OF assms] by (auto split: if_splits)

lemma IncrementHeaderCount_data:
  assumes "leveldb_laws L v"
  shows "v (fst (IncrementHeaderCount L tx)) (headerDataPrefix [n]) = v tx (headerDataPrefix [n])"
proof (cases "go_bind (get_bytes L tx headerCountKey ''error getting header count'')
             (\<lambda>count. mustDecodeInt (case count of None \<Rightarrow> [] | Some b \<Rightarrow> b))")
  case (Ok c)
  obtain d e where put: "ldb_Put L tx headerCountKey (VBytes (mustEncodeInt (c + 1))) = (d, e)" by fastforce
  then have "v d (headerDataPrefix [n]) = v tx (headerDataPrefix [n])" using put_view [OF assms put, of "headerDataPrefix [n]"] by auto
  then show ?thesis using Ok put by (cases e) (simp_all add: IncrementHeaderCount_def tx_do_def)
qed (simp_all add: IncrementHeaderCount_def)

lemma SetHeaderTx_data:
  assumes laws: "leveldb_laws L v"
  shows "v (fst (SetHeaderTx L h hs tx)) (headerDataPrefix [n]) = v tx (headerDataPrefix [n])
    \<or> n = hd_Name h \<and> v (fst (SetHeaderTx L h hs tx)) (headerDataPrefix [n])
        = Some (VJson (doc_clean (Header_MarshalJSON h)))"
proof -
  obtain t1 e1 where p1: "ldb_Put L tx (headerSectorHashesPrefix [hd_Name h]) (VBytes (concat hs)) = (t1, e1)" by fastforce
  obtain t2 e2 where p2: "ldb_Put L t1 (headerDataPrefix [hd_Name h]) (VJson (doc_clean (Header_MarshalJSON h))) = (t2, e2)"
    by fastforce
  have v1: "v t1 (headerDataPrefix [n]) = v tx (headerDataPrefix [n])" using put_view [OF laws p1, of "headerDataPrefix [n]"] by auto
  have v2: "v t2 (headerDataPrefix [n]) = v tx (headerDataPrefix [n])
      \<or> n = hd_Name h \<and> v t2 (headerDataPrefix [n]) = Some (VJson (doc_clean (Header_MarshalJSON h)))"
    using put_view [OF laws p2, of "headerDataPrefix [n]"] v1 by auto
  have v3: "v (fst (IncrementHeaderCount L t2)) (headerDataPrefix [n]) = v t2 (headerDataPrefix [n])"
    by (rule IncrementHeaderCount_data [OF laws])
  show ?thesis
    using p1 p2 v1 v2 v3
    by (cases e1; cases e2)
      (auto simp: SetHeaderTx_def SectorHashes_Encode_def wr_bytes_def tx_do_def tx_put_json_def mustMarshalJSON_Ok
        split: sum.splits if_splits)
qed

lemma rollback_return_frame [simp]:
  "ss_db (snd (rollback_return sys r st)) = ss_db st"
  "blob_part (ss_fs (snd (rollback_return sys r st))) = blob_part (ss_fs st)"
proof -
  obtain x t1 fs1 where r: "txImpl_Rollback sys (ss_tx st) (ss_fs st) = (x, t1, fs1)" by (metis prod_cases3)
  then have "blob_part fs1 = blob_part (ss_fs st)"
    using blob_part_Remove_Rollback(2) [of sys "ss_tx st" "ss_fs st"] by simp
  then show "ss_db (snd (rollback_return sys r st)) = ss_db st"
    "blob_part (ss_fs (snd (rollback_return sys r st))) = blob_part (ss_fs st)"
    using r by (cases x; simp add: rollback_return_def)+
qed

lemma rollback_return_same:
  assumes "rollback_return sys r st = (r', st')"
  shows "ss_db st' = ss_db st \<and> blob_part (ss_fs st') = blob_part (ss_fs st)"
  using rollback_return_frame [of sys r st] by (simp add: assms)

lemma UpdateBlob_gossip_frame [simp]:
  "ss_db (snd (UpdateBlob_gossip b2 ec L env item st)) = ss_db st"
  "ss_fs (snd (UpdateBlob_gossip b2 ec L env item st)) = ss_fs st"
  "ss_tx (snd (UpdateBlob_gossip b2 ec L env item st)) = ss_tx st"
  by (simp_all add: UpdateBlob_gossip_def split: go.splits prod.splits)

text \<open>What \<open>UpdateBlob_store\<close> may do to the headers, whichever calls fail.\<close>

definition stored_as :: "'pk UpdateQueueItem \<Rightarrow> syncUpdate \<Rightarrow> dbval option \<Rightarrow> bool" where
  "stored_as item su x \<longleftrightarrow>
     (\<exists>start. x = Some (VJson (doc_clean (Header_MarshalJSON (updated_header item (su_sectorTipHash su) su start)))))"

lemma UpdateBlob_store_data:
  assumes laws: "leveldb_laws L v" and s: "UpdateBlob_store b2 ec L env item upd meta st = (r, st')"
    and ch: "v (ss_db st') (headerDataPrefix [n]) \<noteq> v (ss_db st) (headerDataPrefix [n])"
  shows "\<exists>su. meta = Some su \<and> n = qi_Name item \<and> stored_as item su (v (ss_db st') (headerDataPrefix [n]))"
proof -
  obtain h t1 fs1 where sh: "tx_SerialHash b2 (we_sys env 2) (ss_tx st) (ss_fs st) (qi_SectorSize item) = (h, t1, fs1)"
    by (metis prod_cases3)
  obtain tree su where h: "h = Ok tree" and su: "meta = Some su" and tip: "su_sectorTipHash su = SectorHashes_Tip tree"
  proof (cases h)
    case (Ok tree)
    then show ?thesis
      using that s ch sh
      by (cases meta; cases "su_sectorTipHash (the meta) = SectorHashes_Tip tree")
        (auto simp: UpdateBlob_store_def Let_def dest!: rollback_return_same)
  qed (use s ch sh in \<open>auto simp: UpdateBlob_store_def dest!: rollback_return_same\<close>)
  define hd where "hd = updated_header item (SectorHashes_Tip tree) su (if upd then we_now env 6 else time_zero)"
  obtain db1 w where w: "WithTx L (ss_db st) (SetHeaderTx L hd tree) = (db1, w)" by fastforce
  have "ss_db st' = db1"
  proof -
    obtain c t2 fs2 where "txImpl_Commit (we_sys env 4) t1 fs1 = (c, t2, fs2)" by (metis prod_cases3)
    then have "ss_db (snd (UpdateBlob_store b2 ec L env item upd meta st)) = db1"
      using sh h su tip w by (cases w; cases c) (simp_all add: UpdateBlob_store_def Let_def hd_def)
    then show ?thesis using s by simp
  qed
  moreover have "v db1 (headerDataPrefix [n]) = v (ss_db st) (headerDataPrefix [n])
      \<or> n = hd_Name hd \<and> v db1 (headerDataPrefix [n]) = Some (VJson (doc_clean (Header_MarshalJSON hd)))"
    using laws w
  proof (cases rule: WithTx_view)
    case (2 tx tx')
    then show ?thesis using SetHeaderTx_data [OF laws, of hd tree tx n] by simp
  qed simp
  ultimately show ?thesis using ch su tip by (auto simp: hd_def stored_as_def updated_header_def)
qed

lemma UpdateBlob_sync_data:
  assumes laws: "leveldb_laws L v" and s: "UpdateBlob_sync b2 ec L env item plan st = (r, st')"
    and ch: "v (ss_db st') (headerDataPrefix [n]) \<noteq> v (ss_db st) (headerDataPrefix [n])"
  shows "\<exists>su. n = qi_Name item \<and> stored_as item su (v (ss_db st') (headerDataPrefix [n]))
    \<and> accepted b2 ec L v (v (ss_db st)) (plan_opts item plan) (we_evs env) su"
proof -
  obtain tr t1 fs1 where tr: "UpdateBlob_truncate b2 env item plan (ss_tx st) (ss_fs st) = (tr, t1, fs1)"
    by (metis prod_cases3)
  obtain sk t2 where sk: "txImpl_Seek t1 (uint (pl_sectorSize plan) * int SectorBytes) 0 = (sk, t2)" by fastforce
  obtain y st1 where y: "SyncSectors b2 ec L (\<lambda>i. we_sys env (10 + i)) (we_net env) (plan_opts item plan) (we_now env 5)
      (we_evs env) (st\<lparr>ss_tx := t2, ss_fs := fs1\<rparr>) = (y, st1)" by fastforce
  note fr = SyncSectors_frame [OF laws y]
  have hs: "v (ss_db st1) (headerDataPrefix [n]) = v (ss_db st) (headerDataPrefix [n])"
    using fr by (simp add: hdr_same_def)
  have ok: "\<exists>u k. tr = Ok u \<and> sk = Ok k"
    using s ch tr sk by (cases tr; cases sk) (auto simp: UpdateBlob_sync_def)
  obtain meta where meta: "y = Ok meta" and store: "UpdateBlob_store b2 ec L env item (pl_epochUpdated plan) meta st1 = (r, st')"
    using s ok tr sk y hs ch by (cases y) (auto simp: UpdateBlob_sync_def dest!: rollback_return_same)
  obtain su where "meta = Some su" "n = qi_Name item" "stored_as item su (v (ss_db st') (headerDataPrefix [n]))"
    using UpdateBlob_store_data [OF laws store, of n] ch hs by auto
  then show ?thesis using fr meta by auto
qed

lemma UpdateBlob_locked_data:
  assumes laws: "leveldb_laws L v" and s: "UpdateBlob_locked b2 ec L env item plan nd = (r, nd')"
    and ch: "v (nd_db nd') (headerDataPrefix [n]) \<noteq> v (nd_db nd) (headerDataPrefix [n])"
  shows "\<exists>su. n = qi_Name item \<and> stored_as item su (v (nd_db nd') (headerDataPrefix [n]))
    \<and> accepted b2 ec L v (v (nd_db nd)) (plan_opts item plan) (we_evs env) su"
proof -
  obtain bo w1 where op: "bw_Open b2 (we_sys env 0) (we_blobs env) (nd_world nd) (qi_Name item) = (bo, w1)" by fastforce
  obtain b where b: "bo = Ok b" using s ch op by (cases bo) (auto simp: UpdateBlob_locked_def)
  obtain x st where x: "UpdateBlob_sync b2 ec L env item plan
      \<lparr>ss_db = nd_db nd, ss_mux = nd_mux nd, ss_tx = blobImpl_Transaction (qi_Name item),
       ss_fs = bw_view w1 b, ss_received = {}, ss_sent = nd_sent nd\<rparr> = (x, st)" by fastforce
  have "nd_db nd' = ss_db st" using s op b x by (auto simp: UpdateBlob_locked_def split: prod.splits)
  then show ?thesis using UpdateBlob_sync_data [OF laws x, of n] ch by auto
qed

section \<open>Hashing a transaction\<close>

lemma tx_enter_ok:
  assumes "tx_ok n0 P (t, fs)"
  obtains t1 fs1 where "txImpl_enter sys_fine t fs = (Ok (), t1, fs1)" "tx_ok n0 P (t1, fs1)"
    "tx_initialized t1" "tx_abs (t1, fs1) = tx_abs (t, fs)"
  using enter_live [of n0 t fs] assms unfolding tx_ok_def by (metis snd_conv)

lemma tx_Read_ok:
  assumes ok: "tx_ok n0 P (t, fs)" and i: "i < MaxSectors" and p: "length p = SectorBytes"
  obtains t1 fs1 where "tx_Read sys_fine (reader_at i, t, fs) p =
      ((reader_at (Suc i), t1, fs1), file_sector (tx_view t fs) i, SectorBytes, None)"
    "tx_ok n0 P (t1, fs1)" "tx_abs (t1, fs1) = tx_abs (t, fs)"
proof -
  obtain t1 fs1 where e: "txImpl_enter sys_fine t fs = (Ok (), t1, fs1)" and ok1: "tx_ok n0 P (t1, fs1)"
    and ini: "tx_initialized t1" and abs: "tx_abs (t1, fs1) = tx_abs (t, fs)"
    using tx_enter_ok [OF ok] .
  have view: "tx_view t1 fs1 = tx_view t fs" using abs by (simp add: tx_abs_def)
  have "tmp_ReadAt sys_fine fs1 (tx_f t1) = file_ReadAt sys_fine (tx_view t fs)"
    using tmp_ReadAt_live [of n0 t1 fs1] ok1 ini view by (simp add: tx_ok_def)
  then have r: "tx_readerAt sys_fine t fs q off = ReadBlobAt (file_ReadAt sys_fine (tx_view t fs)) q off" for q off
    by (simp add: tx_readerAt_def txImpl_ReadAt_def e)
  have "Suc i * SectorBytes \<le> MaxSectors * SectorBytes" using i by (intro mult_le_mono1) simp
  then have bs: "i * SectorBytes + SectorBytes \<le> blob_Size" by (simp add: blob_Size_def mult.commute)
  moreover have "0 < SectorBytes" by simp
  moreover have "blob_Size \<le> fsize (tx_view t fs)" using ok by (simp add: tx_ok_def aTx_wf_def tx_abs_def)
  ultimately have size: "nat (int (i * SectorBytes)) + length p \<le> fsize (tx_view t fs)"
    "int (i * SectorBytes) + int (length p) \<le> int blob_Size" "int (i * SectorBytes) < int blob_Size"
    using p by linarith+
  have "ReadBlobAt (file_ReadAt sys_fine (tx_view t fs)) p (int (i * SectorBytes))
      = (file_sector (tx_view t fs) i, SectorBytes, None)"
    using size p file_ReadAt_full [of sys_fine "int (i * SectorBytes)" p "tx_view t fs"]
    by (simp add: ReadBlobAt_def file_sector_def Let_def del: of_nat_mult)
  moreover have "\<not> int blob_Size \<le> reader_offset (reader_at i)"
    using size(3) by (simp add: reader_at_def del: of_nat_mult)
  moreover have "reader_at (Suc i) = \<lparr>reader_offset = int (i * SectorBytes) + int SectorBytes\<rparr>"
    by (simp add: reader_at_def)
  ultimately have "tx_Read sys_fine (reader_at i, t, fs) p =
      ((reader_at (Suc i), t1, fs1), file_sector (tx_view t fs) i, SectorBytes, None)"
    using r i p by (simp add: tx_Read_def Reader_Read_sector e del: of_nat_mult)
  then show ?thesis using that ok1 abs by blast
qed

lemma tx_Read_end: "MaxSectors \<le> i \<Longrightarrow> tx_Read sys (reader_at i, t, fs) p = ((reader_at i, t, fs), p, 0, Some io_EOF)"
  by (simp add: tx_Read_def Reader_Read_end)
    (simp add: reader_at_def blob_Size_def MaxSectors_def SectorBytes_def)

lemma SerialHashLoop_tx:
  assumes "tx_ok n0 P (t, fs)" and "length p = SectorBytes" and "length res = MaxSectors" and "i \<le> MaxSectors"
  shows "\<exists>b t1 fs1. tx_ok n0 P (t1, fs1) \<and> tx_abs (t1, fs1) = tx_abs (t, fs) \<and>
    SerialHashLoop b2 (tx_Read sys_fine) (reader_at i, t, fs) p prev res i n =
      (if i + n \<le> MaxSectors
       then Ok (take i res @ chain b2 prev (map (file_sector (tx_view t fs)) [i..<i + n]) @ drop (i + n) res)
       else Err io_EOF, b, t1, fs1)"
  using assms
proof (induction n arbitrary: t fs p prev res i)
  case 0
  then show ?case by auto
next
  case (Suc n)
  show ?case
  proof (cases "i < MaxSectors")
    case True
    obtain t1 fs1 where rd: "tx_Read sys_fine (reader_at i, t, fs) p =
        ((reader_at (Suc i), t1, fs1), file_sector (tx_view t fs) i, SectorBytes, None)"
      and ok: "tx_ok n0 P (t1, fs1)" and abs: "tx_abs (t1, fs1) = tx_abs (t, fs)"
      using tx_Read_ok [OF Suc.prems(1) True Suc.prems(2)] .
    define h where "h = SerialHashSector b2 (file_sector (tx_view t fs) i) prev"
    have view: "tx_view t1 fs1 = tx_view t fs" using abs by (simp add: tx_abs_def)
    have sec: "length (file_sector (tx_view t fs) i) = SectorBytes"
      using sector_wf_file_sector by (simp add: sector_wf_def)
    have tk: "take (Suc i) (res[i := h]) = take i res @ [h]"
      using Suc.prems(3) True by (simp add: take_Suc_conv_app_nth take_update_swap list_update_append)
    have step: "SerialHashLoop b2 (tx_Read sys_fine) (reader_at i, t, fs) p prev res i (Suc n) =
        SerialHashLoop b2 (tx_Read sys_fine) (reader_at (Suc i), t1, fs1) (file_sector (tx_view t fs) i) h
          (res[i := h]) (Suc i) n"
      using rd True Suc.prems(3) by (simp add: Let_def h_def)
    have up: "[i..<i + Suc n] = i # [Suc i..<Suc i + n]" by (simp add: upt_rec)
    have eq: "take i res @ chain b2 prev (map (file_sector (tx_view t fs)) [i..<i + Suc n]) @ drop (i + Suc n) res =
        take (Suc i) (res[i := h]) @ chain b2 h (map (file_sector (tx_view t fs)) [Suc i..<Suc i + n])
          @ drop (Suc i + n) (res[i := h])"
      unfolding up tk by (simp add: h_def del: upt_Suc)
    obtain b t2 fs2 where "tx_ok n0 P (t2, fs2)" "tx_abs (t2, fs2) = tx_abs (t1, fs1)"
      "SerialHashLoop b2 (tx_Read sys_fine) (reader_at (Suc i), t1, fs1) (file_sector (tx_view t fs) i) h
          (res[i := h]) (Suc i) n =
        (if Suc i + n \<le> MaxSectors
         then Ok (take (Suc i) (res[i := h]) @ chain b2 h (map (file_sector (tx_view t1 fs1)) [Suc i..<Suc i + n])
           @ drop (Suc i + n) (res[i := h]))
         else Err io_EOF, b, t2, fs2)"
      using Suc.IH [OF ok sec, of "res[i := h]" "Suc i" h] Suc.prems(3) True by auto
    then show ?thesis
      unfolding step eq view abs by (intro exI [of _ b] exI [of _ t2] exI [of _ fs2]) (simp del: upt_Suc)
  next
    case False
    then show ?thesis using Suc.prems by (intro exI [of _ "reader_at i"] exI [of _ t] exI [of _ fs]) (simp add: tx_Read_end)
  qed
qed

text \<open>The sector hashes of a blob with \<open>sz\<close> sectors.\<close>

definition blob_tree :: "(bytes \<Rightarrow> bytes) \<Rightarrow> ofile \<Rightarrow> uint16 \<Rightarrow> SectorHashes" where
  "blob_tree b2 f sz =
     chain b2 ZeroHash (map (file_sector f) [0..<unat sz]) @ replicate (MaxSectors - unat sz) ZeroHash"

lemma hash_wf_chain: "list_all hash_wf (chain b2 prev ss)"
  by (induction ss arbitrary: prev) simp_all

lemma blob_tree_wf:
  "unat sz \<le> MaxSectors \<Longrightarrow> length (blob_tree b2 f sz) = MaxSectors" "list_all hash_wf (blob_tree b2 f sz)"
  using hash_wf_chain by (auto simp: blob_tree_def list_all_iff hash_wf_def)

lemma hash_wf_Tip:
  assumes "list_all hash_wf hs"
  shows "hash_wf (SectorHashes_Tip hs)"
proof -
  have le: "TipLoop xs i \<le> i + length xs" for xs i by (induction xs arbitrary: i) (auto, metis add_Suc_right add_Suc)
  then have "TipLoop hs 0 \<le> length hs" by (metis add_0)
  then show ?thesis using assms by (auto simp: SectorHashes_Tip_def Let_def list_all_length hash_wf_def)
qed

lemma blob_tree_cong:
  assumes "\<And>i. i < MaxSectors \<Longrightarrow> file_sector f i = file_sector g i" and "unat sz \<le> MaxSectors"
  shows "blob_tree b2 f sz = blob_tree b2 g sz"
proof -
  have "map (file_sector f) [0..<unat sz] = map (file_sector g) [0..<unat sz]"
    using assms by (intro map_cong refl) auto
  then show ?thesis by (simp only: blob_tree_def)
qed

lemma tx_SerialHash_ok:
  assumes "tx_ok n0 P (t, fs)"
  obtains t1 fs1 where "tx_ok n0 P (t1, fs1)" "tx_abs (t1, fs1) = tx_abs (t, fs)"
    "tx_SerialHash b2 sys_fine t fs sz =
      (if unat sz \<le> MaxSectors then Ok (blob_tree b2 (tx_view t fs) sz) else Err io_EOF, t1, fs1)"
proof -
  have "length ZeroSector = SectorBytes" "length ZeroSectorHashes = MaxSectors" by (simp_all add: ZeroSectorHashes_def)
  from SerialHashLoop_tx [OF assms this, of 0 b2 ZeroHash "unat sz"]
  obtain b t1 fs1 where "tx_ok n0 P (t1, fs1)" "tx_abs (t1, fs1) = tx_abs (t, fs)"
    "SerialHashLoop b2 (tx_Read sys_fine) (NewReader, t, fs) ZeroSector ZeroHash ZeroSectorHashes 0 (unat sz) =
      (if unat sz \<le> MaxSectors
       then Ok (chain b2 ZeroHash (map (file_sector (tx_view t fs)) [0..<unat sz]) @ drop (unat sz) ZeroSectorHashes)
       else Err io_EOF, b, t1, fs1)"
    by (auto simp: reader_at_0)
  then show ?thesis
    using that by (simp add: tx_SerialHash_def SerialHash_def blob_tree_def ZeroSectorHashes_def)
qed

section \<open>Ending a transaction\<close>

definition fs_fresh :: "blobFS \<Rightarrow> bool" where
  "fs_fresh fs \<longleftrightarrow> (\<forall>i \<ge> fs_next fs. fs_temps fs i = None)"

lemma tx_ok_fresh: "tx_ok n0 P (t, fs) \<Longrightarrow> fs_fresh fs"
  by (simp add: tx_ok_def tx_live_def fs_fresh_def Let_def)

lemma tmp_set_fresh: "fs_fresh fs \<Longrightarrow> i < fs_next fs \<Longrightarrow> fs_fresh (tmp_set fs i x)"
  by (auto simp: fs_fresh_def tmp_set_def)

lemma tmp_discard_fresh:
  assumes "fs_fresh fs" and "i < fs_next fs"
  shows "fs_fresh (snd (tmp_discard sys fs i))"
proof -
  have n: "fs_next (tmp_set fs i x) = fs_next fs" for fs x by (simp add: tmp_set_def)
  show ?thesis
    using assms by (auto simp: tmp_discard_def Let_def n intro!: tmp_set_fresh split: option.splits)
qed

lemma tx_ok_clone: "tx_ok n0 P (t, fs) \<Longrightarrow> tx_initialized t \<Longrightarrow> tx_f t < fs_next fs"
  unfolding tx_ok_def tx_live_def Let_def fst_conv snd_conv by (meson not_le)

lemma Rollback_ok:
  assumes "tx_ok n0 P (t, fs)"
  obtains fs1 where "txImpl_Rollback sys_fine t fs = (Ok (), t\<lparr>tx_closed := True\<rparr>, fs1)" "blob_part fs1 = P" "fs_fresh fs1"
proof -
  obtain fs1 where r: "txImpl_Rollback sys_fine t fs = (Ok (), t\<lparr>tx_closed := True\<rparr>, fs1)" "blob_part fs1 = blob_part fs"
    using Rollback_live [of n0 t fs] assms unfolding tx_ok_def by blast
  have "fs_fresh fs1"
    using r(1) tx_ok_fresh [OF assms] tmp_discard_fresh [of fs "tx_f t" sys_fine] tx_ok_clone [OF assms] assms
    by (auto simp: txImpl_Rollback_def tx_ok_def tx_live_def Let_def split: if_splits prod.splits go.splits)
  then show ?thesis using that r assms by (simp add: tx_ok_def)
qed

lemma file_sector_overlay:
  assumes "Suc i * SectorBytes \<le> fsize g"
  shows "file_sector (file_overlay f g (fsize g)) i = file_sector g i"
  unfolding file_sector_def by (rule nth_equalityI) (use assms in \<open>auto simp: nth_file_bytes file_overlay_def\<close>)

lemma Commit_ok:
  assumes ok: "tx_ok n0 (f, op, l) (t, fs)"
  obtains fs1 g where "txImpl_Commit sys_fine t fs = (Ok (), t\<lparr>tx_closed := True\<rparr>, fs1)" "blob_part fs1 = (g, op, l)"
    "fs_fresh fs1" "file_wf g" "blob_Size \<le> fsize g" "\<forall>i < MaxSectors. file_sector g i = file_sector (tx_view t fs) i"
proof (cases "tx_initialized t")
  case True
  define g where "g = file_overlay (fs_blob fs) (tx_view t fs) (fsize (tx_view t fs))"
  define fs1 where "fs1 = snd (tmp_discard sys_fine (fs\<lparr>fs_blob := g\<rparr>) (tx_f t))"
  have live: "tmp_open (tmp_of fs (tx_f t))" "tmp_linked (tmp_of fs (tx_f t))" "fs_blobOpen fs" "\<not> tx_closed t"
    "\<not> tx_removed t" "file_wf (fs_blob fs)"
    using ok True by (simp_all add: tx_ok_def tx_live_def Let_def)
  have wf: "file_wf (tx_view t fs)" "blob_Size \<le> fsize (tx_view t fs)" using ok by (simp_all add: tx_ok_def aTx_wf_def tx_abs_def)
  have tmp: "tmp_of (fs\<lparr>fs_blob := g\<rparr>) i = tmp_of fs i" for i by (simp add: tmp_of_def)
  have "txImpl_Commit sys_fine t fs = (Ok (), t\<lparr>tx_closed := True\<rparr>, fs1)"
    using True live tmp_discard_fine [of "fs\<lparr>fs_blob := g\<rparr>" "tx_f t"]
    by (simp add: txImpl_Commit_def blobImpl_txCommitter_def tmp fs1_def g_def tx_view_def Let_def)
  moreover have "blob_part fs1 = (g, op, l)"
    using ok by (simp add: fs1_def tx_ok_def) (simp add: blob_part_def)
  moreover have "fs_fresh fs1"
    using tx_ok_fresh [OF ok] tx_ok_clone [OF ok True] tmp_discard_fresh [of "fs\<lparr>fs_blob := g\<rparr>"]
    by (simp add: fs1_def fs_fresh_def)
  moreover have "file_wf g" "blob_Size \<le> fsize g"
    using live(6) wf by (auto simp: g_def file_overlay_def file_wf_def)
  moreover have "\<forall>i < MaxSectors. file_sector g i = file_sector (tx_view t fs) i"
  proof (intro allI impI)
    fix i assume that: "i < MaxSectors"
    have "Suc i * SectorBytes \<le> MaxSectors * SectorBytes" using that by (intro mult_le_mono1) simp
    then have "Suc i * SectorBytes \<le> fsize (tx_view t fs)" using wf(2) by (simp add: blob_Size_def mult.commute)
    then show "file_sector g i = file_sector (tx_view t fs) i" by (simp add: g_def file_sector_overlay)
  qed
  ultimately show ?thesis by (rule that)
next
  case False
  then show ?thesis
    using ok tx_ok_fresh [OF ok]
    by (intro that [of fs f]) (auto simp: txImpl_Commit_def tx_ok_def tx_live_def aTx_wf_def tx_abs_def Let_def tx_view_def blob_part_def)
qed

section \<open>Headers describe blobs\<close>

text \<open>The header of a name describes the content of a file: its sector hashes and its tip are the file's.\<close>

definition describes :: "(bytes \<Rightarrow> bytes) \<Rightarrow> 'd leveldb \<Rightarrow> 'd \<Rightarrow> string \<Rightarrow> ofile \<Rightarrow> bool" where
  "describes b2 L db name f \<longleftrightarrow>
     (\<forall>h. GetHeader L db name = Ok h \<longrightarrow>
        unat (hd_SectorSize h) \<le> MaxSectors \<and>
        GetSectorHashes L db name = Ok (blob_tree b2 f (hd_SectorSize h)) \<and>
        hd_SectorTipHash h = SectorHashes_Tip (blob_tree b2 f (hd_SectorSize h)))"

lemma describes_cong:
  assumes "\<And>i. i < MaxSectors \<Longrightarrow> file_sector f i = file_sector g i"
  shows "describes b2 L db name f \<longleftrightarrow> describes b2 L db name g"
  unfolding describes_def using blob_tree_cong [OF assms] by auto

definition hdr_new :: "Header \<Rightarrow> SectorHashes \<Rightarrow> (bytes \<Rightarrow> dbval option) \<Rightarrow> (bytes \<Rightarrow> dbval option) \<Rightarrow> bool" where
  "hdr_new h hs m m' \<longleftrightarrow>
     m' (headerDataPrefix [hd_Name h]) = Some (VJson (doc_clean (Header_MarshalJSON h))) \<and>
     m' (headerSectorHashesPrefix [hd_Name h]) = Some (VBytes (concat hs)) \<and>
     (\<forall>n. n \<noteq> hd_Name h \<longrightarrow> m' (headerDataPrefix [n]) = m (headerDataPrefix [n]) \<and>
        m' (headerSectorHashesPrefix [n]) = m (headerSectorHashesPrefix [n]))"

lemma WithTx_SetHeaderTx_fine:
  assumes fine: "leveldb_fine L v" and h: "header_wf h" and c: "count_of (v db) = Ok c"
    and w: "WithTx L db (SetHeaderTx L h hs) = (db', r)"
  shows "r = Ok () \<and> hdr_new h hs (v db) (v db')"
proof -
  obtain tx where tx: "v tx = v db" and W: "\<not> is_panic (snd (SetHeaderTx L h hs tx)) \<Longrightarrow>
      v (fst (WithTx L db (SetHeaderTx L h hs))) = v (fst (SetHeaderTx L h hs tx))
      \<and> snd (WithTx L db (SetHeaderTx L h hs)) = snd (SetHeaderTx L h hs tx)"
    using WithTx_fine [OF fine, of db "SetHeaderTx L h hs"] by blast
  have "count_of (header_put h hs (v tx)) = Ok c" using c tx by simp
  note s = SetHeaderTx_fine [OF fine h this]
  then have "v db' = v (fst (SetHeaderTx L h hs tx)) \<and> r = Ok ()" using W w by simp
  then show ?thesis using s tx by (auto simp: hdr_new_def header_put_def)
qed

lemma describes_keys:
  assumes fine: "leveldb_fine L v"
    and "v db' (headerDataPrefix [n]) = v db (headerDataPrefix [n])"
    and "v db' (headerSectorHashesPrefix [n]) = v db (headerSectorHashesPrefix [n])"
  shows "describes b2 L db' n f \<longleftrightarrow> describes b2 L db n f"
  by (simp add: describes_def GetHeader_def GetSectorHashes_def leveldb_fineD(2) [OF fine] assms(2,3))

lemma GetHeader_new:
  assumes "leveldb_fine L v" and "hdr_new h hs m (v db)" and "header_wf h" and "json_string (hd_Name h) = hd_Name h"
  shows "GetHeader L db (hd_Name h) = Ok h"
  using assms by (simp add: GetHeader_def leveldb_fineD(2) hdr_new_def go_simps mustUnmarshalJSON_def Header_JSON_roundtrip)

lemma GetSectorHashes_new:
  assumes "leveldb_fine L v" and "hdr_new h hs m (v db)" and "length hs = MaxSectors" and "list_all hash_wf hs"
  shows "GetSectorHashes L db (hd_Name h) = Ok hs"
  using assms by (simp add: GetSectorHashes_def leveldb_fineD(2) hdr_new_def go_simps SectorHashes_Decode_concat)

lemma describes_new:
  assumes "leveldb_fine L v" and "hdr_new h (blob_tree b2 f (hd_SectorSize h)) m (v db)" and "header_wf h"
    and "json_string (hd_Name h) = hd_Name h" and "unat (hd_SectorSize h) \<le> MaxSectors"
    and "hd_SectorTipHash h = SectorHashes_Tip (blob_tree b2 f (hd_SectorSize h))"
  shows "describes b2 L db (hd_Name h) f"
  using GetHeader_new [OF assms(1-4)] GetSectorHashes_new [OF assms(1,2) blob_tree_wf(1) [OF assms(5)] blob_tree_wf(2)] assms(5,6)
  by (simp add: describes_def)

section \<open>An update keeps headers and blobs together\<close>

text \<open>No call fails, and what arrives and what the clock shows is well formed.\<close>

definition env_fine :: "'pk world_env \<Rightarrow> bool" where
  "env_fine env \<longleftrightarrow>
     (\<forall>i. we_sys env i = sys_fine) \<and> time_json_ok (we_now env 6) \<and>
     (\<forall>(t, p, msg) \<in> set (we_evs env). hash_wf (blobRes_ReservedRoot msg) \<and> sig_wf (blobRes_Signature msg))"

definition update_wf :: "syncUpdate \<Rightarrow> bool" where
  "update_wf su \<longleftrightarrow> hash_wf (su_reservedRoot su) \<and> sig_wf (su_signature su)"

text \<open>
  The outcome of the part under the transaction: either neither the header nor the blob changed, or
  the new header is the one of the new blob.
\<close>

definition kept_together ::
  "(bytes \<Rightarrow> bytes) \<Rightarrow> 'd leveldb \<Rightarrow> ('d \<Rightarrow> bytes \<Rightarrow> dbval option) \<Rightarrow> string \<Rightarrow> 'd \<Rightarrow> ofile \<Rightarrow> 'd \<Rightarrow> ofile \<Rightarrow> bool" where
  "kept_together b2 L v name db f db' g \<longleftrightarrow>
     hdr_same (v db) (v db') \<and> g = f \<or>
     describes b2 L db' name g \<and> file_wf g \<and> blob_Size \<le> fsize g \<and>
     (\<forall>n. n \<noteq> name \<longrightarrow> v db' (headerDataPrefix [n]) = v db (headerDataPrefix [n]) \<and>
        v db' (headerSectorHashesPrefix [n]) = v db (headerSectorHashesPrefix [n]))"

definition tx_done :: "ofile \<times> bool \<times> bool \<Rightarrow> blobFS \<Rightarrow> bool" where
  "tx_done P fs \<longleftrightarrow> blob_part fs = P \<and> fs_fresh fs"

lemma time_json_ok_zero: "time_json_ok time_zero"
  by (simp add: time_json_ok_def time_zero_def time_Second_def)

lemma rollback_return_done:
  assumes "tx_ok n0 P (ss_tx st, ss_fs st)" and "rollback_return sys_fine r st = (r', st')"
  shows "ss_db st' = ss_db st \<and> tx_done P (ss_fs st')"
proof -
  obtain fs1 where "txImpl_Rollback sys_fine (ss_tx st) (ss_fs st) = (Ok (), (ss_tx st)\<lparr>tx_closed := True\<rparr>, fs1)"
    "blob_part fs1 = P" "fs_fresh fs1"
    using Rollback_ok [OF assms(1)] .
  then show ?thesis using assms(2) by (auto simp: rollback_return_def tx_done_def)
qed

lemma UpdateBlob_store_success:
  assumes "tx_SerialHash b2 (we_sys env 2) (ss_tx st) (ss_fs st) (qi_SectorSize item) = (Ok tree, t1, fs1)"
    and "su_sectorTipHash su = SectorHashes_Tip tree"
    and "WithTx L (ss_db st) (SetHeaderTx L (updated_header item (SectorHashes_Tip tree) su
        (if upd then we_now env 6 else time_zero)) tree) = (db1, Ok ())"
    and "txImpl_Commit (we_sys env 4) t1 fs1 = (Ok (), t2, fs2)"
    and "UpdateBlob_store b2 ec L env item upd (Some su) st = (r, st')"
  shows "ss_db st' = db1 \<and> ss_fs st' = fs2
    \<and> r = fst (UpdateBlob_gossip b2 ec L env item (st\<lparr>ss_db := db1, ss_tx := t2, ss_fs := fs2\<rparr>))"
proof -
  have "UpdateBlob_store b2 ec L env item upd (Some su) st =
      UpdateBlob_gossip b2 ec L env item (st\<lparr>ss_db := db1, ss_tx := t2, ss_fs := fs2\<rparr>)"
    using assms(1-4) by (simp add: UpdateBlob_store_def Let_def)
  then have "(r, st') = UpdateBlob_gossip b2 ec L env item (st\<lparr>ss_db := db1, ss_tx := t2, ss_fs := fs2\<rparr>)"
    using assms(5) by simp
  then have "st' = snd (UpdateBlob_gossip b2 ec L env item (st\<lparr>ss_db := db1, ss_tx := t2, ss_fs := fs2\<rparr>))"
    and "r = fst (UpdateBlob_gossip b2 ec L env item (st\<lparr>ss_db := db1, ss_tx := t2, ss_fs := fs2\<rparr>))"
    by (simp_all add: prod_eq_iff)
  then show ?thesis by simp
qed

lemma UpdateBlob_store_together:
  assumes fine: "leveldb_fine L v" and env: "env_fine env" and ok: "tx_ok n0 (f, op, l) (ss_tx st, ss_fs st)"
    and c: "count_of (v (ss_db st)) = Ok c"
    and wf: "\<And>su. meta = Some su \<Longrightarrow> update_wf su \<and> json_string (qi_Name item) = qi_Name item"
    and s: "UpdateBlob_store b2 ec L env item upd meta st = (r, st')"
  shows "\<exists>g. tx_done (g, op, l) (ss_fs st') \<and> kept_together b2 L v (qi_Name item) (ss_db st) f (ss_db st') g"
proof -
  have sys: "we_sys env i = sys_fine" for i using env by (simp add: env_fine_def)
  define sz where "sz = qi_SectorSize item"
  define tree where "tree = blob_tree b2 (tx_view (ss_tx st) (ss_fs st)) sz"
  obtain t1 fs1 where ok1: "tx_ok n0 (f, op, l) (t1, fs1)" and abs: "tx_abs (t1, fs1) = tx_abs (ss_tx st, ss_fs st)"
    and h: "tx_SerialHash b2 sys_fine (ss_tx st) (ss_fs st) sz =
      (if unat sz \<le> MaxSectors then Ok tree else Err io_EOF, t1, fs1)"
    unfolding tree_def by (rule tx_SerialHash_ok [OF ok])
  have view: "tx_view t1 fs1 = tx_view (ss_tx st) (ss_fs st)" using abs by (simp add: tx_abs_def)
  define st1 where "st1 = st\<lparr>ss_tx := t1, ss_fs := fs1\<rparr>"
  have ok1': "tx_ok n0 (f, op, l) (ss_tx st1, ss_fs st1)" and db1: "ss_db st1 = ss_db st" using ok1 by (simp_all add: st1_def)
  have keep: ?thesis if "ss_db st' = ss_db st" "tx_done (f, op, l) (ss_fs st')"
    using that by (auto simp: kept_together_def)
  have rb: ?thesis if "rollback_return sys_fine x st1 = (r, st')" for x
    using rollback_return_done [OF ok1' that] db1 keep by simp
  show ?thesis
  proof (cases "unat sz \<le> MaxSectors")
    case big: True
    show ?thesis
    proof (cases meta)
      case None
      then have "st' = st1" using s h big by (simp add: UpdateBlob_store_def sys sz_def st1_def Let_def)
      then show ?thesis using keep db1 ok1' tx_ok_fresh [OF ok1] by (simp add: tx_done_def tx_ok_def st1_def)
    next
      case (Some su)
      show ?thesis
      proof (cases "su_sectorTipHash su = SectorHashes_Tip tree")
        case False
        then show ?thesis using s h big Some by (intro rb) (simp add: UpdateBlob_store_def sys sz_def st1_def Let_def)
      next
        case True
        define hd where "hd = updated_header item (SectorHashes_Tip tree) su (if upd then we_now env 6 else time_zero)"
        have tree: "length tree = MaxSectors" "list_all hash_wf tree" using blob_tree_wf big by (simp_all add: tree_def)
        have hw: "header_wf hd"
          using wf [OF Some] env hash_wf_Tip [OF tree(2)] time_json_ok_zero
          by (simp add: hd_def updated_header_def header_wf_def update_wf_def env_fine_def)
        obtain db2 w where w: "WithTx L (ss_db st) (SetHeaderTx L hd tree) = (db2, w)" by fastforce
        have new: "w = Ok ()" "hdr_new hd tree (v (ss_db st)) (v db2)"
          using WithTx_SetHeaderTx_fine [OF fine hw c w] by simp_all
        obtain fs2 g where cm: "txImpl_Commit sys_fine t1 fs1 = (Ok (), t1\<lparr>tx_closed := True\<rparr>, fs2)"
          and g: "blob_part fs2 = (g, op, l)" "fs_fresh fs2" "file_wf g" "blob_Size \<le> fsize g"
          and sec: "\<forall>i < MaxSectors. file_sector g i = file_sector (tx_view t1 fs1) i"
          using Commit_ok [OF ok1] .
        have hd: "hd_SectorSize hd = sz" "hd_SectorTipHash hd = SectorHashes_Tip tree" "hd_Name hd = qi_Name item"
          by (simp_all add: hd_def updated_header_def sz_def)
        have tg: "tree = blob_tree b2 g sz" using blob_tree_cong [OF _ big, of g "tx_view t1 fs1" b2] sec by (simp add: tree_def view)
        have "describes b2 L db2 (hd_Name hd) g"
          by (rule describes_new [OF fine _ hw]) (use new(2) wf [OF Some] big in \<open>simp_all add: hd tg [symmetric]\<close>)
        moreover have "tx_SerialHash b2 (we_sys env 2) (ss_tx st) (ss_fs st) (qi_SectorSize item) = (Ok tree, t1, fs1)"
          using h big by (simp add: sys sz_def)
        note success = UpdateBlob_store_success [OF this True w [unfolded hd_def new(1)] _ s [unfolded Some]]
        have "txImpl_Commit (we_sys env 4) t1 fs1 = (Ok (), t1\<lparr>tx_closed := True\<rparr>, fs2)" using cm by (simp add: sys)
        from success [OF this] have "ss_db st' = db2" "ss_fs st' = fs2" by simp_all
        ultimately show ?thesis
          using g new(2) hd(3) by (intro exI [of _ g]) (auto simp: tx_done_def kept_together_def hdr_new_def)
      qed
    qed
  next
    case False
    then show ?thesis using s h by (intro rb) (simp add: UpdateBlob_store_def sys sz_def st1_def)
  qed
qed

lemma ValidateName_ascii:
  assumes "ValidateName name = Ok ()"
  shows "json_string name = name"
proof (rule json_string_ascii, rule ballI)
  fix c assume "c \<in> set name"
  then have "name_alnum c \<or> name_hyphen c"
    using assms by (auto simp: ValidateName_def go_bind_eq_Ok ValidateNameLoop_Ok in_set_conv_nth split: if_splits)
  then show "(of_char c :: nat) < 128" by (auto simp: name_alnum_def name_hyphen_def Let_def)
qed

lemma accepted_wf:
  assumes env: "env_fine env" and acc: "accepted b2 ec L v m opts (we_evs env) su"
  shows "update_wf su \<and> json_string (so_Name opts) = so_Name opts"
proof -
  obtain t p msg db where ev: "(t, p, msg) \<in> set (we_evs env)" and ck: "checked_update b2 ec L db opts msg su"
    using acc unfolding accepted_def by blast
  have "ValidateName (so_Name opts) = Ok ()"
    using ck by (auto simp: checked_update_def validateBlobUpdate_def go_bind_eq_Ok go_wrap_eq_Ok)
  moreover have "update_wf su" using ck env ev by (auto simp: checked_update_def update_wf_def env_fine_def)
  ultimately show ?thesis using ValidateName_ascii by blast
qed

lemma hdr_same_count: "hdr_same m m' \<Longrightarrow> count_of m' = count_of m"
  by (simp add: hdr_same_def count_of_def)

lemma UpdateBlob_truncate_ok:
  assumes env: "env_fine env" and ok: "tx_ok n0 P (t, fs)"
    and tr: "UpdateBlob_truncate b2 env item plan t fs = (r, t1, fs1)"
  shows "tx_ok n0 P (t1, fs1)"
proof (cases "txImpl_Truncate sys_fine t fs = (r, t1, fs1)")
  case True
  then show ?thesis using tx_exec_ok [OF ok, of OpTruncate] by simp
next
  case False
  then show ?thesis
    using tr ok env by (auto simp: UpdateBlob_truncate_def env_fine_def split: if_splits)
qed

lemma kept_together_step:
  assumes "hdr_same (v db0) (v db)" and "kept_together b2 L v name db f db' g"
  shows "kept_together b2 L v name db0 f db' g"
  using assms hdr_same_trans [of "v db0" "v db" "v db'"] by (auto simp: kept_together_def hdr_same_def)

lemma UpdateBlob_sync_together:
  assumes fine: "leveldb_fine L v" and env: "env_fine env" and ok: "tx_ok n0 (f, op, l) (ss_tx st, ss_fs st)"
    and c: "count_of (v (ss_db st)) = Ok c" and s: "UpdateBlob_sync b2 ec L env item plan st = (r, st')"
  shows "\<exists>g. tx_done (g, op, l) (ss_fs st') \<and> kept_together b2 L v (qi_Name item) (ss_db st) f (ss_db st') g"
proof -
  note laws = leveldb_fineD(1) [OF fine]
  obtain tr t1 fs1 where tr: "UpdateBlob_truncate b2 env item plan (ss_tx st) (ss_fs st) = (tr, t1, fs1)"
    by (metis prod_cases3)
  obtain sk t2 where sk: "txImpl_Seek t1 (uint (pl_sectorSize plan) * int SectorBytes) 0 = (sk, t2)" by fastforce
  obtain y st1 where y: "SyncSectors b2 ec L (\<lambda>i. we_sys env (10 + i)) (we_net env) (plan_opts item plan) (we_now env 5)
      (we_evs env) (st\<lparr>ss_tx := t2, ss_fs := fs1\<rparr>) = (y, st1)" by fastforce
  have ok1: "tx_ok n0 (f, op, l) (t1, fs1)" by (rule UpdateBlob_truncate_ok [OF env ok tr])
  have ok2: "tx_ok n0 (f, op, l) (t2, fs1)"
    using tx_exec_ok [OF ok1, of "OpSeek (uint (pl_sectorSize plan) * int SectorBytes) 0"] sk by simp
  note fr = SyncSectors_frame [OF laws y, of n0 "(f, op, l)"]
  have ok3: "tx_ok n0 (f, op, l) (ss_tx st1, ss_fs st1)" using fr ok2 env by (simp add: env_fine_def)
  have same: "hdr_same (v (ss_db st)) (v (ss_db st1))" using fr by simp
  have leave: ?thesis if "hdr_same (v (ss_db st)) (v (ss_db st'))" "tx_done (f, op, l) (ss_fs st')"
    using that by (auto simp: kept_together_def)
  have live: "tx_done P fs" if "tx_ok n0 P (t, fs)" for P t fs
    using that tx_ok_fresh [OF that] by (simp add: tx_done_def tx_ok_def)
  show ?thesis
  proof (cases "\<exists>u k. tr = Ok u \<and> sk = Ok k")
    case False
    then have "st' = st\<lparr>ss_tx := t1, ss_fs := fs1\<rparr> \<or> st' = st\<lparr>ss_tx := t2, ss_fs := fs1\<rparr>"
      using s tr sk by (cases tr; cases sk) (auto simp: UpdateBlob_sync_def)
    then show ?thesis using leave live [OF ok1] by auto
  next
    case True
    then have eq: "UpdateBlob_sync b2 ec L env item plan st = (case y of
        Panic m \<Rightarrow> (Panic m, st1)
      | Err e \<Rightarrow> rollback_return sys_fine (Err (ErrWrap e ''error during sync'')) st1
      | Ok meta \<Rightarrow> UpdateBlob_store b2 ec L env item (pl_epochUpdated plan) meta st1)"
      using tr sk y env by (cases y) (auto simp: UpdateBlob_sync_def env_fine_def)
    show ?thesis
    proof (cases y)
      case (Ok meta)
      have wf: "update_wf su \<and> json_string (qi_Name item) = qi_Name item" if "meta = Some su" for su
        using accepted_wf [OF env, of b2 ec L v "v (ss_db st)" "plan_opts item plan" su] fr Ok that
        by (simp add: plan_opts_def)
      have c1: "count_of (v (ss_db st1)) = Ok c" using hdr_same_count [OF same] c by simp
      have store: "UpdateBlob_store b2 ec L env item (pl_epochUpdated plan) meta st1 = (r, st')" using s eq Ok by simp
      from UpdateBlob_store_together [OF fine env ok3 c1 _ store] wf
      obtain g where "tx_done (g, op, l) (ss_fs st')" "kept_together b2 L v (qi_Name item) (ss_db st1) f (ss_db st') g"
        by blast
      then show ?thesis using kept_together_step [where v = v, OF same] by blast
    next
      case (Err e)
      then have "rollback_return sys_fine (Err (ErrWrap e ''error during sync'')) st1 = (r, st')" using s eq by simp
      from rollback_return_done [OF ok3 this] show ?thesis using leave same by simp
    next
      case (Panic m)
      then have "st' = st1" using s eq by simp
      then show ?thesis using leave same live [OF ok3] by simp
    qed
  qed
qed

section \<open>The blobs of a node\<close>

definition blob_path :: "(bytes \<Rightarrow> bytes) \<Rightarrow> string \<Rightarrow> string \<Rightarrow> string" where
  "blob_path b2 blobs name = path_Join [blobs, case PathifyName b2 name of Ok sub \<Rightarrow> sub | _ \<Rightarrow> []]"

text \<open>
  A well-formed set of blobs: the pool counts its users, the handle of a name is open on the name's
  file, which is at least a blob long, and temporary files are numbered in order.
\<close>

definition world_ok :: "(bytes \<Rightarrow> bytes) \<Rightarrow> string \<Rightarrow> blobWorld \<Rightarrow> bool" where
  "world_ok b2 blobs w \<longleftrightarrow>
     (\<exists>H. pool_inv (bw_pool w) (bw_store w) H) \<and>
     (\<forall>name e. pool_blobs (bw_pool w) name = Some e \<longrightarrow>
        bh_path (pe_blob e) = blob_path b2 blobs name \<and>
        (\<exists>f. st_files (bw_store w) (blob_path b2 blobs name) = Some f \<and> blob_Size \<le> fsize f)) \<and>
     (\<forall>path f. st_files (bw_store w) path = Some f \<longrightarrow> file_wf f) \<and>
     (\<forall>i \<ge> bw_next w. bw_temps w i = None)"

definition blob_file :: "(bytes \<Rightarrow> bytes) \<Rightarrow> string \<Rightarrow> blobWorld \<Rightarrow> string \<Rightarrow> ofile" where
  "blob_file b2 blobs w name = bw_file w (blob_path b2 blobs name)"

definition same_sectors :: "blobWorld \<Rightarrow> blobWorld \<Rightarrow> bool" where
  "same_sectors w w' \<longleftrightarrow> (\<forall>path. \<forall>i < MaxSectors. file_sector (bw_file w' path) i = file_sector (bw_file w path) i)"

lemma same_sectors_refl [simp]: "same_sectors w w"
  by (simp add: same_sectors_def)

lemma fsize_Truncate: "fsize (file_Truncate f n) = n"
  by (simp add: file_Truncate_def)

lemma file_sector_Truncate: "i < MaxSectors \<Longrightarrow> file_sector (file_Truncate f blob_Size) i = file_sector f i"
proof -
  assume "i < MaxSectors"
  then have "Suc i * SectorBytes \<le> MaxSectors * SectorBytes" by (intro mult_le_mono1) simp
  then have "i * SectorBytes + j < blob_Size" if "j < SectorBytes" for j
    using that by (simp add: blob_Size_def mult.commute)
  then show ?thesis unfolding file_sector_def by (intro nth_equalityI) (auto simp: nth_file_bytes file_Truncate_def)
qed

lemma NewInStorePath_fine:
  assumes "NewInStorePath b2 sys_fine blobs name w = (r, w')"
  obtains "w' = w" "\<nexists>b. r = Ok b"
  | f where "r = Ok \<lparr>bh_id = st_next w, bh_name = name, bh_path = blob_path b2 blobs name\<rparr>"
      "f = (case st_files w (blob_path b2 blobs name) of Some f \<Rightarrow> f | None \<Rightarrow> file_empty)"
      "st_files w' = (st_files w)(blob_path b2 blobs name := Some (file_Truncate f blob_Size))"
proof (cases "PathifyName b2 name")
  case (Ok sub)
  then have path: "blob_path b2 blobs name = path_Join [blobs, sub]" by (simp add: blob_path_def)
  show ?thesis
  proof (cases "path_Join [blobs, sub] \<in> st_dirs w")
    case True
    then show ?thesis using assms Ok by (intro that(1)) (auto simp: NewInStorePath_def fileExists_def Let_def)
  next
    case False
    then have "NewInStorePath b2 sys_fine blobs name w =
      (Ok \<lparr>bh_id = st_next w, bh_name = name, bh_path = path_Join [blobs, sub]\<rparr>,
       w\<lparr>st_files := (st_files w)(path_Join [blobs, sub] := Some (file_Truncate
            (case st_files w (path_Join [blobs, sub]) of Some f \<Rightarrow> f | None \<Rightarrow> file_empty) blob_Size)),
         st_open := insert (st_next w) (st_open w), st_next := Suc (st_next w)\<rparr>)"
      using Ok
      by (cases "st_files w (path_Join [blobs, sub])")
        (simp_all add: NewInStorePath_def fileExists_def os_OpenFile_def Let_def)
    then have "r = Ok \<lparr>bh_id = st_next w, bh_name = name, bh_path = blob_path b2 blobs name\<rparr>"
      "st_files w' = (st_files w)(blob_path b2 blobs name := Some (file_Truncate
            (case st_files w (blob_path b2 blobs name) of Some f \<Rightarrow> f | None \<Rightarrow> file_empty) blob_Size))"
      using assms path by auto
    then show ?thesis by (rule that(2) [OF _ refl])
  qed
next
  case (Err e)
  then show ?thesis using assms by (intro that(1)) (auto simp: NewInStorePath_def)
next
  case (Panic m)
  then show ?thesis using assms by (intro that(1)) (auto simp: NewInStorePath_def)
qed

lemma bw_Open_ok:
  assumes ok: "world_ok b2 blobs w" and op: "bw_Open b2 sys_fine blobs w name = (r, w1)"
  shows "world_ok b2 blobs w1 \<and> same_sectors w w1 \<and>
    (\<forall>b. r = Ok b \<longrightarrow> (\<exists>e. pool_blobs (bw_pool w1) name = Some e \<and> pe_blob e = b))"
proof -
  obtain r' p s where st: "storeImpl_Open b2 sys_fine blobs (bw_pool w) (bw_store w) name = (r', p, s)" by (metis prod_cases3)
  then have r: "r = r'" and w1: "w1 = w\<lparr>bw_pool := p, bw_store := s\<rparr>" using op by (simp_all add: bw_Open_def)
  obtain H where "pool_inv (bw_pool w) (bw_store w) H" using ok by (auto simp: world_ok_def)
  from pool_inv_open [OF this st] have inv: "\<exists>H. pool_inv p s H" by blast
  show ?thesis
  proof (cases "pool_blobs (bw_pool w) name")
    case (Some e)
    then have "r' = Ok (pe_blob e)" "s = bw_store w"
      "p = (bw_pool w)\<lparr>pool_blobs := (pool_blobs (bw_pool w))(name := Some (e\<lparr>pe_refs := pe_refs e + 1\<rparr>))\<rparr>"
      using st by (auto simp: storeImpl_Open_def Pool_Get_def)
    then show ?thesis
      using ok Some inv r unfolding w1 by (auto simp: world_ok_def same_sectors_def bw_file_def)
  next
    case None
    obtain x s' where g: "NewInStorePath b2 sys_fine blobs name (bw_store w) = (x, s')" by fastforce
    from g show ?thesis
    proof (cases rule: NewInStorePath_fine)
      case 1
      then have "p = bw_pool w" "s = bw_store w" "\<nexists>b. r' = Ok b"
        using st None g by (cases x; auto simp: storeImpl_Open_def Pool_Get_def)+
      then show ?thesis using ok r unfolding w1 by auto
    next
      case (2 f)
      then have p: "p = (bw_pool w)\<lparr>pool_blobs := (pool_blobs (bw_pool w))(name := Some
            \<lparr>pe_blob = \<lparr>bh_id = st_next (bw_store w), bh_name = name, bh_path = blob_path b2 blobs name\<rparr>, pe_refs = 1\<rparr>)\<rparr>"
        and s: "s = s'" and r': "r' = x" using st None g by (auto simp: storeImpl_Open_def Pool_Get_def)
      have wf: "file_wf f" using ok 2(2) by (auto simp: world_ok_def split: option.splits)
      have "world_ok b2 blobs w1"
        using ok inv wf 2(3) unfolding world_ok_def w1 s p by (auto simp: fsize_Truncate)
      moreover have "same_sectors w w1"
        using 2 file_sector_Truncate unfolding same_sectors_def w1 s by (auto simp: bw_file_def)
      moreover have "\<forall>b. r = Ok b \<longrightarrow> (\<exists>e. pool_blobs (bw_pool w1) name = Some e \<and> pe_blob e = b)"
        using 2(1) unfolding r r' w1 p by auto
      ultimately show ?thesis by blast
    qed
  qed
qed

lemma bw_Close_ok:
  assumes ok: "world_ok b2 blobs w" and e: "pool_blobs (bw_pool w) name = Some e"
    and cl: "bw_Close sys_fine w (pe_blob e) = (c, w1)"
  shows "world_ok b2 blobs w1 \<and> st_files (bw_store w1) = st_files (bw_store w) \<and> \<not> is_panic c"
proof -
  obtain r' p s where st: "wrappedBlob_Close sys_fine (bw_pool w) (bw_store w) (pe_blob e) = (r', p, s)" by (metis prod_cases3)
  then have w1: "w1 = w\<lparr>bw_pool := p, bw_store := s\<rparr>" "c = r'" using cl by (simp_all add: bw_Close_def)
  obtain H where H: "pool_inv (bw_pool w) (bw_store w) H" using ok by (auto simp: world_ok_def)
  from pool_inv_close [OF H e st] have inv: "\<exists>H. pool_inv p s H" "\<not> is_panic r'" by blast+
  have nm: "bh_name (pe_blob e) = name" using H e by (simp add: pool_inv_def entry_ok_def)
  have files: "st_files s = st_files (bw_store w)"
    using st e nm
    by (auto simp: wrappedBlob_Close_def Pool_Put_def blobHandle_Close_def Let_def split: if_splits option.splits)
  have sub: "\<exists>f. pool_blobs (bw_pool w) n = Some f \<and> pe_blob f = pe_blob e'" if "pool_blobs p n = Some e'" for n e'
    using st e nm that
    by (cases "n = name") (auto simp: wrappedBlob_Close_def Pool_Put_def Let_def split: if_splits prod.splits)
  have "bh_path (pe_blob e') = blob_path b2 blobs n \<and>
      (\<exists>f. st_files s (blob_path b2 blobs n) = Some f \<and> blob_Size \<le> fsize f)" if "pool_blobs p n = Some e'" for n e'
    using sub [OF that] ok unfolding world_ok_def files by metis
  then have "world_ok b2 blobs w1" using ok inv(1) files unfolding world_ok_def w1 by simp
  then show ?thesis using files inv(2) by (simp add: w1)
qed

lemma bw_put_ok:
  assumes ok: "world_ok b2 blobs w" and e: "pool_blobs (bw_pool w) name = Some e"
    and d: "tx_done (g, True, True) fs" and g: "file_wf g" "blob_Size \<le> fsize g"
  shows "world_ok b2 blobs (bw_put w (pe_blob e) fs)" and "bw_pool (bw_put w (pe_blob e) fs) = bw_pool w"
    and "st_files (bw_store (bw_put w (pe_blob e) fs)) = (st_files (bw_store w))(blob_path b2 blobs name := Some g)"
proof -
  have path: "bh_path (pe_blob e) = blob_path b2 blobs name" using ok e by (simp add: world_ok_def)
  have fs: "fs_blobLinked fs" "fs_blob fs = g" "fs_fresh fs" using d by (simp_all add: tx_done_def blob_part_def)
  have inv: "pool_inv p (w'\<lparr>st_files := x\<rparr>) = pool_inv p w'" for p w' x
    by (simp add: fun_eq_iff pool_inv_def entry_ok_def)
  show "bw_pool (bw_put w (pe_blob e) fs) = bw_pool w"
    and files: "st_files (bw_store (bw_put w (pe_blob e) fs)) = (st_files (bw_store w))(blob_path b2 blobs name := Some g)"
    by (simp_all add: bw_put_def fs path)
  show "world_ok b2 blobs (bw_put w (pe_blob e) fs)"
    using ok g fs(3) unfolding world_ok_def files by (auto simp: bw_put_def inv fs_fresh_def fs(1,2) path)
qed

lemma bw_view_ok:
  assumes ok: "world_ok b2 blobs w" and e: "pool_blobs (bw_pool w) name = Some e"
  shows "tx_ok (bw_next w) (bw_file w (blob_path b2 blobs name), True, True) (blobImpl_Transaction n, bw_view w (pe_blob e))"
proof -
  have path: "bh_path (pe_blob e) = blob_path b2 blobs name" using ok e by (simp add: world_ok_def)
  obtain f where f: "st_files (bw_store w) (blob_path b2 blobs name) = Some f" "blob_Size \<le> fsize f" "file_wf f"
    using ok e unfolding world_ok_def by metis
  have "bh_id (pe_blob e) \<in> st_open (bw_store w)" using ok e by (auto simp: world_ok_def pool_inv_def entry_ok_def)
  moreover have "\<forall>i \<ge> bw_next w. bw_temps w i = None" using ok by (simp add: world_ok_def)
  ultimately show ?thesis
    using f tx_live_new [of "bw_view w (pe_blob e)" n]
    by (simp add: tx_ok_def bw_view_def path bw_file_def blob_part_def aTx_wf_def tx_abs_def tx_view_def blobImpl_Transaction_def)
qed

lemma UpdateBlob_locked_together:
  assumes fine: "leveldb_fine L v" and env: "env_fine env" and ok: "world_ok b2 (we_blobs env) (nd_world nd)"
    and c: "count_of (v (nd_db nd)) = Ok c" and s: "UpdateBlob_locked b2 ec L env item plan nd = (r, nd')"
  shows "world_ok b2 (we_blobs env) (nd_world nd') \<and>
    (same_sectors (nd_world nd) (nd_world nd') \<and> hdr_same (v (nd_db nd)) (v (nd_db nd')) \<or>
     describes b2 L (nd_db nd') (qi_Name item) (blob_file b2 (we_blobs env) (nd_world nd') (qi_Name item)) \<and>
     (\<forall>n. blob_path b2 (we_blobs env) n \<noteq> blob_path b2 (we_blobs env) (qi_Name item) \<longrightarrow>
        v (nd_db nd') (headerDataPrefix [n]) = v (nd_db nd) (headerDataPrefix [n]) \<and>
        v (nd_db nd') (headerSectorHashesPrefix [n]) = v (nd_db nd) (headerSectorHashesPrefix [n]) \<and>
        (\<forall>i < MaxSectors. file_sector (blob_file b2 (we_blobs env) (nd_world nd') n) i =
           file_sector (blob_file b2 (we_blobs env) (nd_world nd) n) i)))"
proof -
  define path where "path = blob_path b2 (we_blobs env) (qi_Name item)"
  have sys: "we_sys env i = sys_fine" for i using env by (simp add: env_fine_def)
  obtain bo w1 where op: "bw_Open b2 sys_fine (we_blobs env) (nd_world nd) (qi_Name item) = (bo, w1)" by fastforce
  note opened = bw_Open_ok [OF ok op]
  show ?thesis
  proof (cases "\<exists>b. bo = Ok b")
    case False
    then have "nd' = nd\<lparr>nd_world := w1\<rparr>" using s op by (cases bo) (auto simp: UpdateBlob_locked_def sys)
    then show ?thesis using opened by simp
  next
    case True
    then obtain b e where b: "bo = Ok b" and e: "pool_blobs (bw_pool w1) (qi_Name item) = Some e" "pe_blob e = b"
      using opened by blast
    define f where "f = bw_file w1 path"
    obtain x st where x: "UpdateBlob_sync b2 ec L env item plan
        \<lparr>ss_db = nd_db nd, ss_mux = nd_mux nd, ss_tx = blobImpl_Transaction (qi_Name item),
         ss_fs = bw_view w1 b, ss_received = {}, ss_sent = nd_sent nd\<rparr> = (x, st)" by fastforce
    have ok1: "world_ok b2 (we_blobs env) w1" using opened by blast
    have "\<exists>f'. st_files (bw_store w1) path = Some f' \<and> blob_Size \<le> fsize f' \<and> file_wf f'"
      using ok1 e(1) unfolding world_ok_def path_def by metis
    then have fwf: "file_wf f" "blob_Size \<le> fsize f" by (auto simp: f_def bw_file_def)
    have txok: "tx_ok (bw_next w1) (f, True, True) (blobImpl_Transaction (qi_Name item), bw_view w1 b)"
      using bw_view_ok [OF ok1 e(1)] by (simp add: f_def path_def e(2))
    obtain g where g: "tx_done (g, True, True) (ss_fs st)" and kt: "kept_together b2 L v (qi_Name item) (nd_db nd) f (ss_db st) g"
      using UpdateBlob_sync_together [OF fine env _ _ x, of "bw_next w1" f True True c] txok c by auto
    have gwf: "file_wf g" "blob_Size \<le> fsize g" using kt fwf by (auto simp: kept_together_def)
    note put = bw_put_ok [OF ok1 e(1) g gwf, unfolded e(2)]
    obtain cl w2 where cl: "bw_Close sys_fine (bw_put w1 b (ss_fs st)) b = (cl, w2)" by fastforce
    have w2: "world_ok b2 (we_blobs env) w2" "st_files (bw_store w2) = (st_files (bw_store w1))(path := Some g)"
      using bw_Close_ok [OF put(1), of "qi_Name item" e] put(2,3) e cl by (simp_all add: path_def)
    have nd': "nd_world nd' = w2" "nd_db nd' = ss_db st"
      using s op b x cl by (auto simp: UpdateBlob_locked_def sys)
    have file2: "bw_file w2 p = (if p = path then g else bw_file w1 p)" for p by (simp add: bw_file_def w2(2))
    have ss1: "file_sector (bw_file w1 p) i = file_sector (bw_file (nd_world nd) p) i" if "i < MaxSectors" for p i
      using opened that by (simp add: same_sectors_def)
    have ne: "n \<noteq> qi_Name item" if "blob_path b2 (we_blobs env) n \<noteq> path" for n using that by (auto simp: path_def)
    show ?thesis
      using kt w2(1) ss1 ne unfolding nd' kept_together_def
      by (auto simp: same_sectors_def blob_file_def file2 path_def [symmetric] f_def)
  qed
qed

section \<open>Equivocation proofs\<close>

text \<open>A proof that shows one stored update twice: as the local one, and as the remote one with no payload.\<close>

definition self_proof :: "Header \<Rightarrow> EquivocationProof" where
  "self_proof h =
     \<lparr>ep_Name = hd_Name h, ep_RemoteEpochHeight = hd_EpochHeight h, ep_RemotePayloadPosition = hd_SectorSize h,
      ep_RemotePrevHash = hd_SectorTipHash h, ep_RemoteReservedRoot = hd_ReservedRoot h, ep_RemotePayload = [],
      ep_RemoteSignature = hd_Signature h, ep_LocalEpochHeight = hd_EpochHeight h, ep_LocalSectorSize = hd_SectorSize h,
      ep_LocalSectorTipHash = hd_SectorTipHash h, ep_LocalReservedRoot = hd_ReservedRoot h,
      ep_LocalSignature = hd_Signature h\<rparr>"

lemma SetHeaderBan_fine:
  assumes "leveldb_fine L v" and "WithTx L db (SetHeaderBan L now n time_zero) = (db', r)"
  shows "r = Ok () \<and> v db' = (v db)(headerBanPrefix [n] \<mapsto> VBytes (mustEncodeInt (time_Unix now)))"
  using WithTx_put_fine [OF assms(1), of "SetHeaderBan L now n time_zero" "headerBanPrefix [n]"
      "VBytes (mustEncodeInt (time_Unix now))" "''error writing header tree''" db] assms(2)
  by (simp add: SetHeaderBan_def [abs_def] time_IsZero_def)

lemma SetEquivocationProof_fine:
  assumes "leveldb_fine L v" and "WithTx L db (SetEquivocationProofTx L ec n p) = (db', r)"
  shows "r = Ok ()"
proof -
  obtain msg where "SetEquivocationProofTx L ec n p = (\<lambda>tx. tx_do (ldb_Put L tx (equivocationProofsPrefix [n])
      (VBytes (fst (EquivocationProof_Encode ec p)))) msg (\<lambda>tx. (tx, Ok ())))"
    by (auto simp: SetEquivocationProofTx_def fun_eq_iff)
  from WithTx_put_fine [OF assms(1) this, of db] show ?thesis using assms(2) by simp
qed

lemma GetHeaderBan_put:
  assumes "leveldb_fine L v" and "v db (headerBanPrefix [n]) = Some (VBytes (mustEncodeInt i))" and "0 \<le> i" "i < 2 ^ 31"
  shows "GetHeaderBan L db n = Ok (time_FromUnix i)"
  using assms by (simp add: GetHeaderBan_def leveldb_fineD(2,3) go_simps)

end
