(* ===== verification/Proto_Replication.thy ===== *)
theory Proto_Replication
  imports Proto_Consistency
begin

text \<open>
  Replication: an update that a peer serves is applied.  The serving side is \<open>onBlobReq\<close>, the applying
  side \<open>UpdateBlob\<close> with the syncer below it.  A small database serves as the example.
\<close>

section \<open>Accepting a response\<close>

lemma NewEnvelope_no_panic:
  assumes "message_fits m" and "0 \<le> time_Unix t"
  shows "NewEnvelope b2 ec t magic m sk \<noteq> Panic x"
proof -
  obtain h where "Envelope_Hash b2 ec \<lparr>env_Magic = magic, env_MessageType = MsgType m, env_Timestamp = t,
      env_Message = m, env_Signature = ZeroSignature\<rparr> = Ok h"
    using Envelope_Hash_total [of "\<lparr>env_Magic = magic, env_MessageType = MsgType m, env_Timestamp = t,
      env_Message = m, env_Signature = ZeroSignature\<rparr>" b2 ec] assms by auto
  then show ?thesis
    by (cases "ec_SignCompact ec sk (Hash_Bytes h)") (simp_all add: NewEnvelope_def SECP256k1Signer_Sign_def)
qed

lemma SyncSectors_request_total:
  assumes "message_fits req" and "0 \<le> time_Unix now"
  shows "\<exists>st'. SyncSectors_request b2 ec now net req ids c st = Ok st'"
proof (induction ids arbitrary: c st)
  case (Cons i ids)
  obtain r sent mux1 where s: "PeerMuxer_Send b2 ec now net (ss_mux st) i req = (r, sent, mux1)" by (metis prod_cases3)
  have "\<nexists>m. r = Panic m"
    using s NewEnvelope_no_panic [OF assms, of b2 ec "mx_magic (ss_mux st)" "mx_signer (ss_mux st)"]
    by (auto simp: PeerMuxer_Send_def split: option.splits go.splits prod.splits)
  then show ?case using s Cons by (cases r) (auto simp: Let_def)
qed simp

definition hash_nonzero :: "(bytes \<Rightarrow> bytes) \<Rightarrow> bool" where
  "hash_nonzero b2 \<longleftrightarrow> (\<forall>x. Blake2B256 b2 x \<noteq> ZeroHash)"

lemma chain_nonzero: "hash_nonzero b2 \<Longrightarrow> h \<in> set (chain b2 prev ss) \<Longrightarrow> h \<noteq> ZeroHash"
proof (induction ss arbitrary: prev)
  case (Cons s ss)
  have "SerialHashSector b2 s prev \<noteq> ZeroHash" using Cons.prems(1) by (simp add: SerialHashSector_Blake hash_nonzero_def)
  then show ?case using Cons by auto
qed simp

lemma blob_tree_Tip:
  assumes "hash_nonzero b2"
  shows "SectorHashes_Tip (blob_tree b2 f sz) = chain_tip b2 ZeroHash (map (file_sector f) [0..<unat sz])"
proof -
  define ss where "ss = map (file_sector f) [0..<unat sz]"
  have "SectorHashes_Tip (chain b2 ZeroHash ss @ replicate (MaxSectors - unat sz) ZeroHash)
      = (if chain b2 ZeroHash ss = [] then ZeroHash else last (chain b2 ZeroHash ss))"
    using Tip_padded chain_nonzero [OF assms] by blast
  moreover have "chain b2 ZeroHash ss = [] \<longleftrightarrow> ss = []" by (metis length_0_conv length_chain)
  moreover have "chain_tip b2 ZeroHash [] = ZeroHash" by (simp add: chain_tip_def)
  ultimately show ?thesis using last_chain [of ss b2 ZeroHash] by (auto simp: blob_tree_def ss_def [symmetric])
qed

text \<open>The plan of an update starts where the header of the name ends, or at the start of the blob.\<close>

lemma UpdateBlob_plan_cases:
  assumes "UpdateBlob_plan b2 L clk db item = Ok (header, plan)"
  obtains "pl_epochUpdated plan" "pl_sectorSize plan = 0" "pl_prevHash plan = ZeroHash"
  | h where "\<not> pl_epochUpdated plan" "GetHeader L db (qi_Name item) = Ok h" "pl_sectorSize plan = hd_SectorSize h"
      "pl_prevHash plan = hd_SectorTipHash h" "pl_epochHeight plan = hd_EpochHeight h"
proof -
  obtain hd where hd: "lookup_header L db (qi_Name item) = Ok hd"
    using assms by (cases "lookup_header L db (qi_Name item)") (simp_all add: UpdateBlob_plan_def)
  show ?thesis
  proof (cases hd)
    case None
    then show ?thesis using assms hd that(1) by (auto simp: UpdateBlob_plan_def go_bind_eq_Ok)
  next
    case (Some h)
    then have get: "GetHeader L db (qi_Name item) = Ok h"
      using hd by (cases "GetHeader L db (qi_Name item)") (simp_all add: lookup_header_def split: if_splits)
    obtain bannedAt where "GetHeaderBan L db (qi_Name item) = Ok bannedAt"
      using assms hd Some by (cases "GetHeaderBan L db (qi_Name item)") (simp_all add: UpdateBlob_plan_def split: if_splits)
    then show ?thesis
      using assms hd Some that(1) that(2) [OF _ get]
      by (cases "UpdateBlob_rollover b2 clk h bannedAt item") (auto simp: UpdateBlob_plan_def split: if_splits)
  qed
qed

lemma seek_fits:
  assumes "unat (k :: uint16) \<le> MaxSectors"
  shows "uint k * int SectorBytes \<le> int blob_Size" and "word_of_int (uint k * int SectorBytes div int SectorBytes) = k"
proof -
  have "unat k * SectorBytes \<le> MaxSectors * SectorBytes" using assms by (intro mult_le_mono1)
  then have "int (unat k * SectorBytes) \<le> int blob_Size" unfolding of_nat_le_iff by (simp add: blob_Size_def mult.commute)
  moreover have "int (unat k * SectorBytes) = uint k * int SectorBytes" by simp
  ultimately show "uint k * int SectorBytes \<le> int blob_Size" by (simp only:)
  have "uint k * int SectorBytes div int SectorBytes = uint k" by simp
  then show "word_of_int (uint k * int SectorBytes div int SectorBytes) = k" by simp
qed

lemma Seek_start:
  assumes "tx_ok n0 P (t, fs)" and "tx_sectorSize t = 0" and "unat k \<le> MaxSectors"
  shows "txImpl_Seek t (uint k * int SectorBytes) 0 = (Ok (uint k * int SectorBytes), t\<lparr>tx_sectorSize := k\<rparr>)"
    and "tx_ok n0 P (t\<lparr>tx_sectorSize := k\<rparr>, fs)"
    and "tx_abs (t\<lparr>tx_sectorSize := k\<rparr>, fs) = (tx_abs (t, fs))\<lparr>at_pos := k\<rparr>"
proof -
  have "\<not> uint k * int SectorBytes < 0" by (simp add: not_less)
  then show sk: "txImpl_Seek t (uint k * int SectorBytes) 0 = (Ok (uint k * int SectorBytes), t\<lparr>tx_sectorSize := k\<rparr>)"
    using seek_fits [OF assms(3)] assms(2) by (simp add: txImpl_Seek_def)
  show "tx_ok n0 P (t\<lparr>tx_sectorSize := k\<rparr>, fs)"
    using tx_exec_ok [OF assms(1), of "OpSeek (uint k * int SectorBytes) 0"] sk by simp
  show "tx_abs (t\<lparr>tx_sectorSize := k\<rparr>, fs) = (tx_abs (t, fs))\<lparr>at_pos := k\<rparr>"
    by (simp add: tx_abs_def tx_view_def)
qed

text \<open>The transaction when the sync starts.\<close>

lemma UpdateBlob_start:
  assumes env: "env_fine env" and ok: "tx_ok n0 P (blobImpl_Transaction nm, fs)" and sz: "unat (pl_sectorSize plan) \<le> MaxSectors"
    and sched: "pl_epochUpdated plan \<Longrightarrow> \<not> pl_epochHeight plan > CurrentEpoch b2 (we_now env 4) (qi_Name item) + 1"
  obtains t1 fs1 t2 k where "UpdateBlob_truncate b2 env item plan (blobImpl_Transaction nm) fs = (Ok (), t1, fs1)"
    "txImpl_Seek t1 (uint (pl_sectorSize plan) * int SectorBytes) 0 = (Ok k, t2)" "tx_ok n0 P (t2, fs1)"
    "tx_abs (t2, fs1) = \<lparr>at_work = if pl_epochUpdated plan then blank_blob else fs_blob fs, at_pos = pl_sectorSize plan\<rparr>"
proof -
  have sys: "we_sys env i = sys_fine" for i using env by (simp add: env_fine_def)
  obtain t1 fs1 where tr: "UpdateBlob_truncate b2 env item plan (blobImpl_Transaction nm) fs = (Ok (), t1, fs1)"
    and abs: "tx_abs (t1, fs1) = \<lparr>at_work = if pl_epochUpdated plan then blank_blob else fs_blob fs, at_pos = 0\<rparr>"
  proof (cases "pl_epochUpdated plan")
    case False
    then show ?thesis
      by (intro that [of "blobImpl_Transaction nm" fs])
        (simp_all add: UpdateBlob_truncate_def tx_abs_def tx_view_def blobImpl_Transaction_def)
  next
    case True
    obtain t1 fs1 where "txImpl_Truncate sys_fine (blobImpl_Transaction nm) fs = (Ok (), t1, fs1)"
      "tx_abs (t1, fs1) = (tx_abs (blobImpl_Transaction nm, fs))\<lparr>at_work := blank_blob\<rparr>"
      using Truncate_live [of n0 "blobImpl_Transaction nm" fs] ok unfolding tx_ok_def by blast
    then show ?thesis
      using True sched [OF True]
      by (intro that [of t1 fs1]) (simp_all add: UpdateBlob_truncate_def sys tx_abs_def blobImpl_Transaction_def)
  qed
  have "tx_sectorSize t1 = 0" using abs by (simp add: tx_abs_def)
  note sk = Seek_start [OF UpdateBlob_truncate_ok [OF env ok tr] this sz]
  then show ?thesis using that [OF tr sk(1,2)] abs by simp
qed

lemma SyncSectors_handle_accepts:
  assumes "checked_update b2 ec L (ss_db st) opts msg su" and "blobRes_PayloadPosition msg \<notin> ss_received st"
    and "SyncSectors_write sysf 0 (blobRes_Payload msg) (ss_tx st) (ss_fs st) = (Ok (), t1, fs1)"
  shows "SyncSectors_handle b2 ec L sysf now net opts msg st =
    (SyncDone su, st\<lparr>ss_tx := t1, ss_fs := fs1, ss_received := insert (blobRes_PayloadPosition msg) (ss_received st)\<rparr>)"
  using assms by (auto simp: checked_update_def SyncSectors_handle_def chain_tip_def Let_def not_less)

lemma SyncSectors_accepts:
  assumes ck: "checked_update b2 ec L (ss_db st) opts msg su" and rcv: "ss_received st = {}"
    and fits: "name_fits (so_Name opts)" and now: "0 \<le> time_Unix now" and sys: "\<And>i. sysf i = sys_fine"
  obtains st' where "SyncSectors b2 ec L sysf net opts now ((t, p, msg) # evs) st = (Ok (Some su), st')"
    "ss_db st' = ss_db st" "(ss_tx st', ss_fs st') = tx_run (fine_ops (map OpWriteSector (blobRes_Payload msg))) (ss_tx st, ss_fs st)"
proof -
  have "message_fits (sync_request opts)" using fits by (simp add: sync_request_def)
  then obtain st1 where rq: "SyncSectors_request b2 ec now net (sync_request opts) (ps_ids (so_Peers opts)) 0 st = Ok st1"
    using SyncSectors_request_total [OF _ now] by blast
  note fr = SyncSectors_request_frame [OF rq]
  obtain r t1 fs1 where w: "SyncSectors_write sysf 0 (blobRes_Payload msg) (ss_tx st) (ss_fs st) = (r, t1, fs1)" by (metis prod_cases3)
  note run = SyncSectors_write_run [OF sys w]
  have "SyncSectors_handle b2 ec L sysf t net opts msg st1 =
      (SyncDone su, st1\<lparr>ss_tx := t1, ss_fs := fs1, ss_received := insert (blobRes_PayloadPosition msg) (ss_received st1)\<rparr>)"
    by (rule SyncSectors_handle_accepts) (use ck rcv fr w run in simp_all)
  then have "SyncSectors b2 ec L sysf net opts now ((t, p, msg) # evs) st =
      (Ok (Some su), st1\<lparr>ss_tx := t1, ss_fs := fs1, ss_received := insert (blobRes_PayloadPosition msg) (ss_received st1)\<rparr>)"
    using rq by (subst SyncSectors.simps) simp
  then show ?thesis using that fr run by simp
qed

text \<open>The file after an update: the sectors of the response behind those that were kept.\<close>

definition extended :: "ofile \<Rightarrow> uint16 \<Rightarrow> Sector list \<Rightarrow> ofile \<Rightarrow> bool" where
  "extended f k ss g \<longleftrightarrow>
     (\<forall>i < unat k. file_sector g i = file_sector f i) \<and> (\<forall>i < length ss. file_sector g (unat k + i) = ss ! i)"

lemma extended_tree:
  assumes nz: "hash_nonzero b2" and ex: "extended f k ss g" and fit: "unat k + length ss \<le> MaxSectors"
  shows "SectorHashes_Tip (blob_tree b2 g (k + of_nat (length ss)))
    = chain_tip b2 (chain_tip b2 ZeroHash (map (file_sector f) [0..<unat k])) ss"
    and "unat (k + of_nat (length ss)) = unat k + length ss"
proof -
  have "unat k + length ss < 2 ^ 16" using fit by (simp add: MaxSectors_def)
  then show sz: "unat (k + of_nat (length ss)) = unat k + length ss"
    by (simp add: unat_word_ariths unat_of_nat take_bit_nat_eq_self)
  have "file_sector g i = ss ! (i - unat k)" if "\<not> i < unat k" "i < unat k + length ss" for i
    using ex that le_add_diff_inverse [of "unat k" i] unfolding extended_def by (metis add_less_cancel_left not_less)
  then have "map (file_sector g) [0..<unat k + length ss] = map (file_sector f) [0..<unat k] @ ss"
    using ex by - (rule nth_equalityI, auto simp: extended_def nth_append)
  then show "SectorHashes_Tip (blob_tree b2 g (k + of_nat (length ss)))
      = chain_tip b2 (chain_tip b2 ZeroHash (map (file_sector f) [0..<unat k])) ss"
    by (simp add: blob_tree_Tip [OF nz] sz chain_tip_append)
qed

lemma UpdateBlob_sync_accepts:
  fixes st :: "('pk, 'sk, 'd) syncState"
  assumes fine: "leveldb_fine L v" and env: "env_fine env" and nz: "hash_nonzero b2"
    and ok: "tx_ok n0 (f, True, True) (ss_tx st, ss_fs st)" and tx: "ss_tx st = blobImpl_Transaction nm" and rcv: "ss_received st = {}"
    and c: "count_of (v (ss_db st)) = Ok c"
    and upd: "pl_epochUpdated plan \<Longrightarrow> pl_sectorSize plan = 0 \<and> pl_prevHash plan = ZeroHash
        \<and> \<not> pl_epochHeight plan > CurrentEpoch b2 (we_now env 4) (qi_Name item) + 1"
    and app: "\<not> pl_epochUpdated plan \<Longrightarrow>
        pl_prevHash plan = chain_tip b2 ZeroHash (map (file_sector f) [0..<unat (pl_sectorSize plan)])"
    and evs: "we_evs env = (t, p, msg) # evs" and now: "0 \<le> time_Unix (we_now env 5)"
    and ck: "checked_update b2 ec L (ss_db st) (plan_opts item plan) msg su"
    and sec: "list_all sector_wf (blobRes_Payload msg)"
    and fit: "unat (pl_sectorSize plan) + length (blobRes_Payload msg) \<le> MaxSectors"
    and size: "qi_SectorSize item = pl_sectorSize plan + of_nat (length (blobRes_Payload msg))"
    and s: "UpdateBlob_sync b2 ec L env item plan st = (r, st')"
  shows "\<exists>g start. tx_done (g, True, True) (ss_fs st') \<and> file_wf g \<and> blob_Size \<le> fsize g \<and>
    GetHeader L (ss_db st') (qi_Name item) = Ok (updated_header item (su_sectorTipHash su) su start) \<and>
    extended f (pl_sectorSize plan) (blobRes_Payload msg) g"
proof -
  define k ss where "k = pl_sectorSize plan" and "ss = blobRes_Payload msg"
  have sys: "we_sys env i = sys_fine" for i using env by (simp add: env_fine_def)
  have blob: "fs_blob (ss_fs st) = f" using ok by (simp add: tx_ok_def blob_part_def)
  have kfit: "unat (pl_sectorSize plan) \<le> MaxSectors" using fit by simp
  have sched: "\<not> pl_epochHeight plan > CurrentEpoch b2 (we_now env 4) (qi_Name item) + 1" if "pl_epochUpdated plan"
    using upd [OF that] by simp
  obtain t1 fs1 t2 j where tr: "UpdateBlob_truncate b2 env item plan (blobImpl_Transaction nm) (ss_fs st) = (Ok (), t1, fs1)"
    and sk: "txImpl_Seek t1 (uint (pl_sectorSize plan) * int SectorBytes) 0 = (Ok j, t2)"
    and ok2: "tx_ok n0 (f, True, True) (t2, fs1)"
    and abs: "tx_abs (t2, fs1) = \<lparr>at_work = if pl_epochUpdated plan then blank_blob else fs_blob (ss_fs st),
      at_pos = pl_sectorSize plan\<rparr>"
    using UpdateBlob_start [OF env ok [unfolded tx] kfit sched] .
  note abs = abs [unfolded blob, folded k_def]
  have nm: "so_Name (plan_opts item plan) = qi_Name item" by (simp add: plan_opts_def)
  have vn: "ValidateName (qi_Name item) = Ok ()"
    using ck nm by (auto simp: checked_update_def validateBlobUpdate_def go_bind_eq_Ok go_wrap_eq_Ok)
  then have fits: "name_fits (so_Name (plan_opts item plan))"
    by (auto simp: nm name_fits_def ValidateName_def MaxNameLen_def split: if_splits)
  obtain st1 where sy: "SyncSectors b2 ec L (\<lambda>i. we_sys env (10 + i)) (we_net env) (plan_opts item plan) (we_now env 5)
      (we_evs env) (st\<lparr>ss_tx := t2, ss_fs := fs1\<rparr>) = (Ok (Some su), st1)"
    and db1: "ss_db st1 = ss_db st" and run: "(ss_tx st1, ss_fs st1) = tx_run (fine_ops (map OpWriteSector ss)) (t2, fs1)"
    unfolding evs ss_def
    by (rule SyncSectors_accepts [of b2 ec L "st\<lparr>ss_tx := t2, ss_fs := fs1\<rparr>" "plan_opts item plan" msg su "we_now env 5"
          "\<lambda>i. we_sys env (10 + i)" "we_net env" t p evs]) (use ck rcv fits now sys in auto)
  have store: "UpdateBlob_store b2 ec L env item (pl_epochUpdated plan) (Some su) st1 = (r, st')"
    using s tr sk sy by (simp add: UpdateBlob_sync_def tx)
  have ok1: "tx_ok n0 (f, True, True) (ss_tx st1, ss_fs st1)" unfolding run by (rule tx_run_ok [OF ok2])
  define W where "W = tx_view (ss_tx st1) (ss_fs st1)"
  have "at_work (tx_abs (ss_tx st1, ss_fs st1)) = at_work (fold aTx_exec (map OpWriteSector ss) (tx_abs (t2, fs1)))"
    unfolding run using tx_run_refines [of n0 "(t2, fs1)"] ok2 by (simp add: tx_ok_def)
  then have W: "W = at_work (fold aTx_exec (map OpWriteSector ss) (tx_abs (t2, fs1)))"
    by (simp only: W_def tx_abs_def [of "(ss_tx st1, ss_fs st1)"] aTx.simps fst_conv snd_conv)
  have pos: "unat k + length ss < 65536" using fit by (simp add: k_def ss_def MaxSectors_def)
  have secW: "file_sector W i = (if unat k \<le> i \<and> i < unat k + length ss then ss ! (i - unat k)
      else file_sector (if pl_epochUpdated plan then blank_blob else f) i)" for i
    using aTx_write_sectors [of ss "tx_abs (t2, fs1)"] sec pos unfolding W ss_def [symmetric] by (simp add: abs)
  have k0: "unat k = 0" if "pl_epochUpdated plan" using upd [OF that] by (simp add: k_def)
  have ext: "extended f k ss W" using secW k0 by (auto simp: extended_def)
  have tip: "SectorHashes_Tip (blob_tree b2 W (qi_SectorSize item)) = su_sectorTipHash su"
    and size': "unat (qi_SectorSize item) \<le> MaxSectors"
  proof -
    have "chain_tip b2 ZeroHash (map (file_sector f) [0..<unat k]) = pl_prevHash plan"
      using upd app k0 by (cases "pl_epochUpdated plan") (auto simp: k_def chain_tip_def)
    then show "SectorHashes_Tip (blob_tree b2 W (qi_SectorSize item)) = su_sectorTipHash su"
      using extended_tree(1) [OF nz ext] fit ck
      by (simp add: size k_def [symmetric] ss_def [symmetric] checked_update_def plan_opts_def)
    show "unat (qi_SectorSize item) \<le> MaxSectors" using extended_tree(2) [OF nz ext] fit by (simp add: size k_def ss_def)
  qed
  obtain t3 fs3 where ok3: "tx_ok n0 (f, True, True) (t3, fs3)" and abs3: "tx_abs (t3, fs3) = tx_abs (ss_tx st1, ss_fs st1)"
    and sh: "tx_SerialHash b2 (we_sys env 2) (ss_tx st1) (ss_fs st1) (qi_SectorSize item) =
      (Ok (blob_tree b2 W (qi_SectorSize item)), t3, fs3)"
    using tx_SerialHash_ok [OF ok1, of b2 "qi_SectorSize item"] size' unfolding sys W_def by auto
  define start where "start = (if pl_epochUpdated plan then we_now env 6 else time_zero)"
  define hd where "hd = updated_header item (SectorHashes_Tip (blob_tree b2 W (qi_SectorSize item))) su start"
  have su: "update_wf su \<and> json_string (qi_Name item) = qi_Name item"
    using ck env evs ValidateName_ascii [OF vn] by (auto simp: checked_update_def update_wf_def env_fine_def)
  have hw: "header_wf hd"
    using su env hash_wf_Tip [OF blob_tree_wf(2)] time_json_ok_zero
    by (simp add: hd_def start_def updated_header_def header_wf_def update_wf_def env_fine_def)
  obtain db2 w where w: "WithTx L (ss_db st1) (SetHeaderTx L hd (blob_tree b2 W (qi_SectorSize item))) = (db2, w)" by fastforce
  have new: "w = Ok ()" "hdr_new hd (blob_tree b2 W (qi_SectorSize item)) (v (ss_db st1)) (v db2)"
    using WithTx_SetHeaderTx_fine [OF fine hw _ w] c db1 by simp_all
  obtain fs2 g where cm: "txImpl_Commit sys_fine t3 fs3 = (Ok (), t3\<lparr>tx_closed := True\<rparr>, fs2)"
    and g: "blob_part fs2 = (g, True, True)" "fs_fresh fs2" "file_wf g" "blob_Size \<le> fsize g"
    and secg: "\<forall>i < MaxSectors. file_sector g i = file_sector (tx_view t3 fs3) i"
    using Commit_ok [OF ok3] .
  have "tx_view t3 fs3 = W" using abs3 by (simp add: tx_abs_def W_def)
  then have extg: "extended f k ss g" using ext secg fit by (simp add: extended_def k_def ss_def)
  have "txImpl_Commit (we_sys env 4) t3 fs3 = (Ok (), t3\<lparr>tx_closed := True\<rparr>, fs2)" using cm by (simp add: sys)
  note success = UpdateBlob_store_success [OF sh tip [symmetric] w [unfolded new(1) hd_def start_def] this store]
  have "GetHeader L db2 (qi_Name item) = Ok hd"
    using GetHeader_new [OF fine new(2) hw] su by (simp add: hd_def updated_header_def)
  then have "GetHeader L (ss_db st') (qi_Name item) = Ok (updated_header item (su_sectorTipHash su) su start)"
    using success tip by (simp add: hd_def)
  then show ?thesis
    using g extg success by (intro exI [of _ g] exI [of _ start]) (simp add: tx_done_def k_def ss_def)
qed

lemma UpdateBlob_locked_accepts:
  fixes nd :: "('pk, 'sk, 'd) node"
  assumes fine: "leveldb_fine L v" and env: "env_fine env" and nz: "hash_nonzero b2"
    and ok: "world_ok b2 (we_blobs env) (nd_world nd)" and c: "count_of (v (nd_db nd)) = Ok c"
    and plan: "UpdateBlob_plan b2 L clk (nd_db nd) item = Ok (header, plan)"
    and sched: "\<not> pl_epochHeight plan > CurrentEpoch b2 (we_now env 4) (qi_Name item) + 1"
    and desc: "describes b2 L (nd_db nd) (qi_Name item) (blob_file b2 (we_blobs env) (nd_world nd) (qi_Name item))"
    and opn: "\<exists>b w. bw_Open b2 sys_fine (we_blobs env) (nd_world nd) (qi_Name item) = (Ok b, w)"
    and evs: "we_evs env = (t, p, msg) # evs" and now: "0 \<le> time_Unix (we_now env 5)"
    and ck: "checked_update b2 ec L (nd_db nd) (plan_opts item plan) msg su"
    and sec: "list_all sector_wf (blobRes_Payload msg)"
    and fit: "unat (pl_sectorSize plan) + length (blobRes_Payload msg) \<le> MaxSectors"
    and size: "qi_SectorSize item = pl_sectorSize plan + of_nat (length (blobRes_Payload msg))"
    and s: "UpdateBlob_locked b2 ec L env item plan nd = (r, nd')"
  shows "(\<exists>start. GetHeader L (nd_db nd') (qi_Name item) = Ok (updated_header item (su_sectorTipHash su) su start)) \<and>
    extended (blob_file b2 (we_blobs env) (nd_world nd) (qi_Name item)) (pl_sectorSize plan) (blobRes_Payload msg)
      (blob_file b2 (we_blobs env) (nd_world nd') (qi_Name item))"
proof -
  define path where "path = blob_path b2 (we_blobs env) (qi_Name item)"
  define f0 where "f0 = bw_file (nd_world nd) path"
  have sys: "we_sys env i = sys_fine" for i using env by (simp add: env_fine_def)
  obtain b w1 where op: "bw_Open b2 sys_fine (we_blobs env) (nd_world nd) (qi_Name item) = (Ok b, w1)" using opn by blast
  note opened = bw_Open_ok [OF ok op]
  then obtain e where ok1: "world_ok b2 (we_blobs env) w1" and e: "pool_blobs (bw_pool w1) (qi_Name item) = Some e" "pe_blob e = b"
    by blast
  define f where "f = bw_file w1 path"
  have same: "file_sector f i = file_sector f0 i" if "i < MaxSectors" for i
    using opened that by (simp add: same_sectors_def f_def f0_def)
  define st :: "('pk, 'sk, 'd) syncState" where
    "st = \<lparr>ss_db = nd_db nd, ss_mux = nd_mux nd, ss_tx = blobImpl_Transaction (qi_Name item),
       ss_fs = bw_view w1 b, ss_received = {}, ss_sent = nd_sent nd\<rparr>"
  obtain x st' where x: "UpdateBlob_sync b2 ec L env item plan st = (x, st')" by fastforce
  have st: "ss_db st = nd_db nd" "ss_tx st = blobImpl_Transaction (qi_Name item)" "ss_received st = {}"
    "ss_fs st = bw_view w1 b" by (simp_all add: st_def)
  have txok: "tx_ok (bw_next w1) (f, True, True) (ss_tx st, ss_fs st)"
    using bw_view_ok [OF ok1 e(1)] by (simp add: f_def path_def e(2) st)
  have kle: "unat (pl_sectorSize plan) \<le> MaxSectors" using fit by simp
  have upd: "pl_sectorSize plan = 0 \<and> pl_prevHash plan = ZeroHash
      \<and> \<not> pl_epochHeight plan > CurrentEpoch b2 (we_now env 4) (qi_Name item) + 1" if "pl_epochUpdated plan"
    using plan that sched by (cases rule: UpdateBlob_plan_cases) auto
  have app: "pl_prevHash plan = chain_tip b2 ZeroHash (map (file_sector f) [0..<unat (pl_sectorSize plan)])"
    if "\<not> pl_epochUpdated plan"
    using plan
  proof (cases rule: UpdateBlob_plan_cases)
    case (2 h)
    then have "pl_prevHash plan = SectorHashes_Tip (blob_tree b2 f0 (pl_sectorSize plan))"
      using desc by (simp add: describes_def f0_def blob_file_def path_def)
    also have "\<dots> = SectorHashes_Tip (blob_tree b2 f (pl_sectorSize plan))" using blob_tree_cong [OF same kle, of b2] by simp
    finally show ?thesis by (simp add: blob_tree_Tip [OF nz])
  qed (use that in simp)
  have c': "count_of (v (ss_db st)) = Ok c" using c by (simp add: st)
  have ck': "checked_update b2 ec L (ss_db st) (plan_opts item plan) msg su" using ck by (simp add: st)
  obtain g start where g: "tx_done (g, True, True) (ss_fs st')" "file_wf g" "blob_Size \<le> fsize g"
    and hd: "GetHeader L (ss_db st') (qi_Name item) = Ok (updated_header item (su_sectorTipHash su) su start)"
    and ext: "extended f (pl_sectorSize plan) (blobRes_Payload msg) g"
    using UpdateBlob_sync_accepts [OF fine env nz txok st(2,3) c' upd app evs now ck' sec fit size x] by blast
  note put = bw_put_ok [OF ok1 e(1) g, unfolded e(2)]
  obtain cl w2 where cl: "bw_Close sys_fine (bw_put w1 b (ss_fs st')) b = (cl, w2)" by fastforce
  have "st_files (bw_store w2) = (st_files (bw_store w1))(path := Some g)"
    using bw_Close_ok [OF put(1), of "qi_Name item" e] put(2,3) e cl by (simp_all add: path_def)
  then have "bw_file w2 path = g" by (simp add: bw_file_def)
  moreover have "nd_world nd' = w2" "nd_db nd' = ss_db st'"
    using s op x cl by (auto simp: UpdateBlob_locked_def sys st_def)
  moreover have "extended f0 (pl_sectorSize plan) (blobRes_Payload msg) g"
    using ext same kle by (simp add: extended_def)
  ultimately show ?thesis using hd by (auto simp: blob_file_def path_def f0_def)
qed

section \<open>Serving a response\<close>

lemma read_sectors_file:
  assumes "fs_blobOpen fs" and "blob_Size \<le> fsize (fs_blob fs)" and "\<forall>i \<in> set is. i < MaxSectors"
  shows "read_sectors (blobImpl_ReadAt sys_fine fs) is = Ok (map (file_sector (fs_blob fs)) is)"
  using assms(3)
proof (induction "is")
  case (Cons i "is")
  have "Suc i * SectorBytes \<le> MaxSectors * SectorBytes" using Cons.prems by (intro mult_le_mono1) simp
  then have bs: "i * SectorBytes + SectorBytes \<le> blob_Size" by (simp add: blob_Size_def mult.commute)
  have len: "length ZeroSector = SectorBytes" by simp
  have le: "int (i * SectorBytes) + int SectorBytes \<le> int blob_Size" using bs by linarith
  have off: "nat (int (i * SectorBytes)) + length ZeroSector \<le> fsize (fs_blob fs)" using bs assms(2) len by linarith
  have "file_ReadAt sys_fine (fs_blob fs) ZeroSector (int (i * SectorBytes)) = (file_sector (fs_blob fs) i, SectorBytes, None)"
    using file_ReadAt_full [of sys_fine "int (i * SectorBytes)" ZeroSector "fs_blob fs"] off
    by (simp add: file_sector_def len del: of_nat_mult)
  then have "blobImpl_ReadAt sys_fine fs ZeroSector (int (i * SectorBytes)) = (file_sector (fs_blob fs) i, SectorBytes, None)"
    using le assms(1) by (simp add: blobImpl_ReadAt_def ReadBlobAt_def len del: of_nat_mult)
  then show ?case using Cons by simp
qed simp

lemma nth_chain: "i < length ss \<Longrightarrow> chain b2 prev ss ! i = chain_tip b2 prev (take (Suc i) ss)"
proof (induction ss arbitrary: prev i)
  case (Cons s ss)
  then show ?case by (cases i) (simp_all add: chain_tip_def)
qed simp

lemma GetSectorHash_tree:
  assumes "GetSectorHashes L db name = Ok (blob_tree b2 f n)" and "unat n \<le> MaxSectors" and "k \<noteq> 0" and "k \<le> n"
  shows "GetSectorHash L db name (k - 1) = Ok (chain_tip b2 ZeroHash (map (file_sector f) [0..<unat k]))"
proof -
  have k: "unat (k - 1) = unat k - 1" "0 < unat k" using assms(3) by (simp_all add: unat_minus_one unat_gt_0)
  have kn: "unat k \<le> unat n" using assms(4) by (simp add: word_le_nat_alt)
  then have i: "unat (k - 1) < unat n" using k by simp
  then have "blob_tree b2 f n ! unat (k - 1) = chain_tip b2 ZeroHash (take (Suc (unat (k - 1))) (map (file_sector f) [0..<unat n]))"
    by (simp add: blob_tree_def nth_append nth_chain)
  also have "take (Suc (unat (k - 1))) (map (file_sector f) [0..<unat n]) = map (file_sector f) [0..<unat k]"
    using k kn by (simp add: take_map)
  finally show ?thesis
    using assms(1,2) i blob_tree_wf(1) [OF assms(2), of b2 f] by (simp add: GetSectorHash_def)
qed

text \<open>What a node with header \<open>h\<close> and blob \<open>f\<close> answers to a request.\<close>

definition served :: "(bytes \<Rightarrow> bytes) \<Rightarrow> ofile \<Rightarrow> Header \<Rightarrow> BlobReq \<Rightarrow> BlobRes" where
  "served b2 f h req =
     blob_response (blobReq_Name req) (chain_tip b2 ZeroHash (map (file_sector f) [0..<unat (blobReq_SectorSize req)]))
       (map (file_sector f) [unat (blobReq_SectorSize req)..<unat (hd_SectorSize h)])
       (hd_EpochHeight h) (blobReq_SectorSize req) (hd_Signature h)"

lemma node_Send_sent:
  "node_Send b2 ec env peerID msg nd = (r, nd') \<Longrightarrow>
     \<exists>x sent mux1. PeerMuxer_Send b2 ec (we_now env 9) (we_net env) (nd_mux nd) peerID msg = (x, sent, mux1)
       \<and> nd_sent nd' = nd_sent nd @ sent"
  by (auto simp: node_Send_def split: prod.splits)

lemma node_Close_sent: "nd_sent (snd (and_then x (node_Close sys b))) = nd_sent (snd x)"
  by (auto simp: and_then_def node_Close_def split: prod.splits go.splits)

lemma SectorServer_onBlobReq_serves:
  fixes nd :: "('pk, 'sk, 'd) node"
  assumes env: "\<And>i. we_sys env i = sys_fine" and ok: "world_ok b2 (we_blobs env) (nd_world nd)"
    and h: "GetHeader L (nd_db nd) (blobReq_Name req) = Ok h"
    and desc: "describes b2 L (nd_db nd) (blobReq_Name req) (blob_file b2 (we_blobs env) (nd_world nd) (blobReq_Name req))"
    and idle: "inUse (nd_lock nd) (blobReq_Name req) = None"
    and miss: "map_of (cache_entries (nd_cache nd)) (cacheKey_of req) = None"
    and opn: "\<exists>b w. bw_Open b2 sys_fine (we_blobs env) (nd_world nd) (blobReq_Name req) = (Ok b, w)"
    and req: "blobReq_EpochHeight req \<le> hd_EpochHeight h" "blobReq_SectorSize req \<le> hd_SectorSize h"
      "unat (blobReq_SectorSize req) \<noteq> MaxSectors"
    and s: "SectorServer_onBlobReq b2 ec L env expiry peerID req nd = (r, nd')"
  shows "\<exists>x sent mux1. PeerMuxer_Send b2 ec (we_now env 9) (we_net env) (nd_mux nd) peerID
      (MBlobRes (served b2 (blob_file b2 (we_blobs env) (nd_world nd) (blobReq_Name req)) h req)) = (x, sent, mux1)
    \<and> nd_sent nd' = nd_sent nd @ sent"
proof -
  define name where "name = blobReq_Name req"
  define path where "path = blob_path b2 (we_blobs env) name"
  define f0 where "f0 = bw_file (nd_world nd) path"
  have hsz: "unat (hd_SectorSize h) \<le> MaxSectors" and hashes: "GetSectorHashes L (nd_db nd) name = Ok (blob_tree b2 f0 (hd_SectorSize h))"
    using desc h by (simp_all add: describes_def name_def f0_def blob_file_def path_def)
  define prev where "prev = chain_tip b2 ZeroHash (map (file_sector f0) [0..<unat (blobReq_SectorSize req)])"
  have prev: "(if blobReq_SectorSize req \<noteq> 0 then GetSectorHash L (nd_db nd) name (blobReq_SectorSize req - 1) else Ok ZeroHash)
      = Ok prev"
    using GetSectorHash_tree [OF hashes hsz _ req(2)] by (simp add: prev_def chain_tip_def)
  obtain l1 l2 where lock: "lock_TryRLock (nd_lock nd) name = (True, l1)" "lock_RUnlock l1 name = (Ok (), l2)"
    using idle by (simp add: lock_ops_defs name_def Let_def)
  obtain b w1 where op: "bw_Open b2 sys_fine (we_blobs env) (nd_world nd) name = (Ok b, w1)" using opn by (auto simp: name_def)
  note opened = bw_Open_ok [OF ok op]
  then obtain e where ok1: "world_ok b2 (we_blobs env) w1" and e: "pool_blobs (bw_pool w1) name = Some e" "pe_blob e = b" by blast
  have bpath: "bh_path b = path" using ok1 e by (auto simp: world_ok_def path_def)
  have bview: "fs_blob (bw_view w1 b) = bw_file w1 path" by (simp add: bw_view_def bpath)
  have "tx_ok (bw_next w1) (bw_file w1 path, True, True) (blobImpl_Transaction name, bw_view w1 b)"
    using bw_view_ok [OF ok1 e(1)] by (simp add: e(2) path_def)
  then have vw: "fs_blobOpen (bw_view w1 b)" "blob_Size \<le> fsize (fs_blob (bw_view w1 b))"
    by (simp_all add: tx_ok_def tx_live_def Let_def aTx_wf_def tx_abs_def tx_view_def blobImpl_Transaction_def)
  have same: "file_sector (bw_file w1 path) i = file_sector f0 i" if "i < MaxSectors" for i
    using opened that by (simp add: same_sectors_def f0_def)
  define ss where "ss = map (file_sector f0) [unat (blobReq_SectorSize req)..<unat (hd_SectorSize h)]"
  have rd: "read_sectors (blobImpl_ReadAt sys_fine (bw_view w1 b)) [unat (blobReq_SectorSize req)..<unat (hd_SectorSize h)] = Ok ss"
    using read_sectors_file [OF vw, of "[unat (blobReq_SectorSize req)..<unat (hd_SectorSize h)]"] same hsz
    by (auto simp: ss_def bview)
  define cache1 where "cache1 = snd (Cache_Set (we_now env 8) (nd_cache nd) (cacheKey_of req) (Some ss) (expiry div time_Millisecond))"
  define ndl where "ndl = nd\<lparr>nd_lock := l1\<rparr>"
  define nd1 where "nd1 = ndl\<lparr>nd_world := w1, nd_cache := cache1, nd_lock := l2\<rparr>"
  have ndl: "nd_db ndl = nd_db nd" "nd_cache ndl = nd_cache nd" "nd_world ndl = nd_world nd" "nd_lock ndl = l1"
    "ndl\<lparr>nd_cache := nd_cache nd\<rparr> = ndl" by (simp_all add: ndl_def)
  have set: "Cache_Set (we_now env 8) (nd_cache nd) (cacheKey_of req) (Some ss) (expiry div time_Millisecond) = (Ok (), cache1)"
    by (simp add: Cache_Set_def Let_def cache1_def)
  have "SectorServer_onBlobReq b2 ec L env expiry peerID req nd = serve_sectors b2 ec L env expiry peerID req h ndl"
    using h leD [OF req(1)] req(3) lock(1) by (simp add: SectorServer_onBlobReq_def name_def ndl_def)
  also have "\<dots> = serve_blob b2 ec env expiry peerID req h prev ndl"
    using prev miss by (simp only: serve_sectors_def name_def [symmetric] ndl Cache_Get_def option.case prod.case go.case)
  also have "\<dots> = and_then (SectorServer_sendResponse b2 ec env peerID name prev ss (hd_EpochHeight h) (blobReq_SectorSize req)
        (hd_Signature h) nd1) (node_Close sys_fine b)"
  proof -
    have "node_RUnlock name (ndl\<lparr>nd_world := w1, nd_cache := cache1\<rparr>) = (Ok (), nd1)"
      using lock(2) by (simp add: node_RUnlock_def ndl nd1_def)
    then have "and_then (Ok (), ndl\<lparr>nd_world := w1, nd_cache := cache1\<rparr>) (node_RUnlock name) = (Ok (), nd1)"
      by (simp add: and_then_def)
    moreover have "and_then (Ok (), nd1) f = f nd1" for f :: "('pk, 'sk, 'd) handler" by (simp add: and_then_def)
    ultimately show ?thesis
      using op rd set by (simp add: serve_blob_def env name_def [symmetric] ndl Let_def)
  qed
  finally have eq: "SectorServer_onBlobReq b2 ec L env expiry peerID req nd =
      and_then (SectorServer_sendResponse b2 ec env peerID name prev ss (hd_EpochHeight h) (blobReq_SectorSize req)
        (hd_Signature h) nd1) (node_Close sys_fine b)" .
  obtain y nd2 where y: "SectorServer_sendResponse b2 ec env peerID name prev ss (hd_EpochHeight h) (blobReq_SectorSize req)
      (hd_Signature h) nd1 = (y, nd2)" by fastforce
  have sent: "nd_sent nd' = nd_sent nd2" using s eq y node_Close_sent [of "(y, nd2)" sys_fine b] by simp
  have "served b2 (blob_file b2 (we_blobs env) (nd_world nd) name) h req
      = blob_response name prev ss (hd_EpochHeight h) (blobReq_SectorSize req) (hd_Signature h)"
    by (simp add: served_def prev_def ss_def f0_def blob_file_def path_def name_def)
  then show ?thesis
    using node_Send_sent [OF y [unfolded SectorServer_sendResponse_def]] unfolding sent name_def [symmetric]
    by (simp add: nd1_def ndl_def)
qed

section \<open>Two nodes\<close>

text \<open>A node that can serve a name, and a node that is about to apply an update; no call fails.\<close>

definition can_serve :: "(bytes \<Rightarrow> bytes) \<Rightarrow> 'd leveldb \<Rightarrow> 'pk world_env \<Rightarrow> ('pk, 'sk, 'd) node \<Rightarrow> string \<Rightarrow> Header \<Rightarrow> bool" where
  "can_serve b2 L env nd name h \<longleftrightarrow>
     (\<forall>i. we_sys env i = sys_fine) \<and> world_ok b2 (we_blobs env) (nd_world nd) \<and>
     GetHeader L (nd_db nd) name = Ok h \<and>
     describes b2 L (nd_db nd) name (blob_file b2 (we_blobs env) (nd_world nd) name) \<and>
     inUse (nd_lock nd) name = None \<and> cache_entries (nd_cache nd) = [] \<and>
     (\<exists>b w. bw_Open b2 sys_fine (we_blobs env) (nd_world nd) name = (Ok b, w))"

definition can_update ::
  "(bytes \<Rightarrow> bytes) \<Rightarrow> 'd leveldb \<Rightarrow> 'pk world_env \<Rightarrow> ('pk, 'sk, 'd) node \<Rightarrow> 'pk UpdateQueueItem \<Rightarrow> sync_plan \<Rightarrow> bool" where
  "can_update b2 L env nd item plan \<longleftrightarrow>
     env_fine env \<and> 0 \<le> time_Unix (we_now env 5) \<and> world_ok b2 (we_blobs env) (nd_world nd) \<and>
     (\<exists>c. GetHeaderCount L (nd_db nd) = Ok c) \<and>
     (\<exists>header. UpdateBlob_plan b2 L (we_now env) (nd_db nd) item = Ok (header, plan)) \<and>
     \<not> pl_epochHeight plan > CurrentEpoch b2 (we_now env 4) (qi_Name item) + 1 \<and>
     describes b2 L (nd_db nd) (qi_Name item) (blob_file b2 (we_blobs env) (nd_world nd) (qi_Name item)) \<and>
     fst (lock_TryLock (nd_lock nd) (qi_Name item)) \<and>
     (\<exists>b w. bw_Open b2 sys_fine (we_blobs env) (nd_world nd) (qi_Name item) = (Ok b, w))"

lemma UpdateBlob_accepts:
  assumes fine: "leveldb_fine L v" and nz: "hash_nonzero b2" and can: "can_update b2 L env nd item plan"
    and evs: "we_evs env = (t, p, msg) # evs"
    and ck: "checked_update b2 ec L (nd_db nd) (plan_opts item plan) msg su"
    and sec: "list_all sector_wf (blobRes_Payload msg)"
    and fit: "unat (pl_sectorSize plan) + length (blobRes_Payload msg) \<le> MaxSectors"
    and size: "qi_SectorSize item = pl_sectorSize plan + of_nat (length (blobRes_Payload msg))"
    and s: "UpdateBlob b2 ec L env item nd = (r, item', nd')"
  shows "(\<exists>start. GetHeader L (nd_db nd') (qi_Name item) = Ok (updated_header item (su_sectorTipHash su) su start)) \<and>
    extended (blob_file b2 (we_blobs env) (nd_world nd) (qi_Name item)) (pl_sectorSize plan) (blobRes_Payload msg)
      (blob_file b2 (we_blobs env) (nd_world nd') (qi_Name item))"
proof -
  obtain header l1 c where plan: "UpdateBlob_plan b2 L (we_now env) (nd_db nd) item = Ok (header, plan)"
    and l1: "lock_TryLock (nd_lock nd) (qi_Name item) = (True, l1)" and c: "GetHeaderCount L (nd_db nd) = Ok c"
    using can by (cases "lock_TryLock (nd_lock nd) (qi_Name item)") (auto simp: can_update_def)
  obtain x nd1 where x: "UpdateBlob_locked b2 ec L env item plan (nd\<lparr>nd_lock := l1\<rparr>) = (x, nd1)" by fastforce
  have nd': "nd_db nd' = nd_db nd1" "nd_world nd' = nd_world nd1"
    using s plan l1 x by (auto simp: UpdateBlob_def split: prod.splits)
  have c': "count_of (v (nd_db (nd\<lparr>nd_lock := l1\<rparr>))) = Ok c" using GetHeaderCount_fine [OF fine] c by simp
  show ?thesis
    using UpdateBlob_locked_accepts [OF fine _ nz _ c' _ _ _ _ evs _ _ sec fit size x, of "we_now env" header su] can plan ck
    unfolding nd' by (auto simp: can_update_def)
qed

text \<open>The plan continues the hash chain of the node's own blob.\<close>

lemma can_update_chain:
  assumes "hash_nonzero b2" and "can_update b2 L env nd item plan"
  shows "pl_prevHash plan = chain_tip b2 ZeroHash
    (map (file_sector (blob_file b2 (we_blobs env) (nd_world nd) (qi_Name item))) [0..<unat (pl_sectorSize plan)])"
proof -
  obtain header where "UpdateBlob_plan b2 L (we_now env) (nd_db nd) item = Ok (header, plan)"
    using assms(2) by (auto simp: can_update_def)
  then show ?thesis
  proof (cases rule: UpdateBlob_plan_cases)
    case (2 h)
    then show ?thesis using assms(2) by (simp add: can_update_def describes_def blob_tree_Tip [OF assms(1)])
  qed (simp add: chain_tip_def)
qed

text \<open>The response a node serves is one that the updating node accepts.\<close>

lemma served_checked:
  assumes nz: "hash_nonzero b2" and srv: "can_serve b2 L env nd name h"
    and f: "f = blob_file b2 (we_blobs env) (nd_world nd) name"
    and req: "req = \<lparr>blobReq_Name = name, blobReq_EpochHeight = so_EpochHeight opts, blobReq_SectorSize = so_SectorSize opts\<rparr>"
    and opts: "so_Name opts = name" "so_EpochHeight opts \<le> hd_EpochHeight h" "so_SectorSize opts \<le> hd_SectorSize h"
      "so_PrevHash opts = chain_tip b2 ZeroHash (map (file_sector f) [0..<unat (so_SectorSize opts)])"
    and root: "hd_ReservedRoot h = ZeroHash"
    and valid: "validateBlobUpdate b2 ec L db name (hd_EpochHeight h) (hd_SectorSize h) (hd_SectorTipHash h)
        (hd_ReservedRoot h) (hd_Signature h) = Ok ()"
  shows "checked_update b2 ec L db opts (served b2 f h req)
      \<lparr>su_sectorTipHash = hd_SectorTipHash h, su_reservedRoot = hd_ReservedRoot h, su_signature = hd_Signature h\<rparr>"
    and "so_SectorSize opts + of_nat (length (blobRes_Payload (served b2 f h req))) = hd_SectorSize h"
    and "unat (so_SectorSize opts) + length (blobRes_Payload (served b2 f h req)) = unat (hd_SectorSize h)"
    and "unat (hd_SectorSize h) \<le> MaxSectors"
    and "list_all sector_wf (blobRes_Payload (served b2 f h req))"
proof -
  define k n where "k = so_SectorSize opts" and "n = hd_SectorSize h"
  have kn: "unat k \<le> unat n" using opts(3) by (simp add: k_def n_def word_le_nat_alt)
  have "unat (of_nat (unat n - unat k) :: uint16) = unat n - unat k"
    using unsigned_less [of n, where ?'a = nat] by (simp add: unat_of_nat take_bit_nat_eq_self)
  then have "unat (k + of_nat (unat n - unat k)) = unat n"
    using kn unsigned_less [of n, where ?'a = nat] by (simp add: unat_word_ariths)
  then have sum: "k + of_nat (unat n - unat k) = n" by (simp only: word_unat_eq_iff)
  show nsz: "unat (hd_SectorSize h) \<le> MaxSectors" using srv by (simp add: can_serve_def describes_def)
  have tip: "hd_SectorTipHash h = chain_tip b2 ZeroHash (map (file_sector f) [0..<unat n])"
    using srv by (simp add: can_serve_def describes_def f n_def blob_tree_Tip [OF nz])
  have "map (file_sector f) [0..<unat n] = map (file_sector f) [0..<unat k] @ map (file_sector f) [unat k..<unat n]"
    using kn upt_add_eq_append [of 0 "unat k" "unat n - unat k"] by (simp flip: map_append)
  then have tip': "chain_tip b2 (chain_tip b2 ZeroHash (map (file_sector f) [0..<unat k])) (map (file_sector f) [unat k..<unat n])
      = hd_SectorTipHash h" using tip by (simp add: chain_tip_append)
  note defs = served_def blob_response_def req k_def [symmetric] n_def [symmetric]
  show "checked_update b2 ec L db opts (served b2 f h req)
      \<lparr>su_sectorTipHash = hd_SectorTipHash h, su_reservedRoot = hd_ReservedRoot h, su_signature = hd_Signature h\<rparr>"
    using opts valid root nsz tip' by (simp add: checked_update_def defs sum)
  show "so_SectorSize opts + of_nat (length (blobRes_Payload (served b2 f h req))) = hd_SectorSize h"
    by (simp add: defs sum)
  show "unat (so_SectorSize opts) + length (blobRes_Payload (served b2 f h req)) = unat (hd_SectorSize h)"
    using kn by (simp add: defs)
  show "list_all sector_wf (blobRes_Payload (served b2 f h req))" by (simp add: defs list_all_iff)
qed

section \<open>From one disk to another\<close>

lemma replication_ok:
  fixes ndA ndB :: "('pk, 'sk, 'd) node"
  assumes fine: "leveldb_fine L v" and nz: "hash_nonzero b2"
    and A: "can_serve b2 L envA ndA name h" and root: "hd_ReservedRoot h = ZeroHash"
    and B: "can_update b2 L envB ndB item plan" and item: "qi_Name item = name" "qi_SectorSize item = hd_SectorSize h"
    and behind: "pl_epochHeight plan \<le> hd_EpochHeight h" "pl_sectorSize plan \<le> hd_SectorSize h"
      "unat (pl_sectorSize plan) \<noteq> MaxSectors"
    and chained: "pl_prevHash plan = chain_tip b2 ZeroHash
        (map (file_sector (blob_file b2 (we_blobs envA) (nd_world ndA) name)) [0..<unat (pl_sectorSize plan)])"
    and valid: "validateBlobUpdate b2 ec L (nd_db ndB) name (hd_EpochHeight h) (hd_SectorSize h) (hd_SectorTipHash h)
        (hd_ReservedRoot h) (hd_Signature h) = Ok ()"
    and serve: "SectorServer_onBlobReq b2 ec L envA expiry peerB
        \<lparr>blobReq_Name = name, blobReq_EpochHeight = pl_epochHeight plan, blobReq_SectorSize = pl_sectorSize plan\<rparr> ndA = (rA, ndA')"
    and sent: "nd_sent ndA' = nd_sent ndA @ [(peerB, envl)]"
    and arrives: "we_evs envB = (t, peerA, msg) # evs" "env_Message envl = MBlobRes msg"
    and upd: "UpdateBlob b2 ec L envB item ndB = (rB, item', ndB')"
  shows "(\<exists>start. GetHeader L (nd_db ndB') name =
      Ok (h\<lparr>hd_Name := name, hd_EpochHeight := qi_EpochHeight item, hd_EpochStartAt := start\<rparr>))
    \<and> ((\<forall>i < unat (hd_SectorSize h). file_sector (blob_file b2 (we_blobs envB) (nd_world ndB') name) i =
          file_sector (blob_file b2 (we_blobs envA) (nd_world ndA) name) i) \<or> b2_collision b2)"
proof -
  define req where "req = \<lparr>blobReq_Name = name, blobReq_EpochHeight = pl_epochHeight plan, blobReq_SectorSize = pl_sectorSize plan\<rparr>"
  define opts where "opts = plan_opts item plan"
  define f where "f = blob_file b2 (we_blobs envA) (nd_world ndA) name"
  define k n where "k = unat (pl_sectorSize plan)" and "n = unat (hd_SectorSize h)"
  have opts: "so_Name opts = name" "so_EpochHeight opts = pl_epochHeight plan" "so_SectorSize opts = pl_sectorSize plan"
    "so_PrevHash opts = pl_prevHash plan" by (simp_all add: opts_def plan_opts_def item)
  have req': "req = \<lparr>blobReq_Name = name, blobReq_EpochHeight = so_EpochHeight opts, blobReq_SectorSize = so_SectorSize opts\<rparr>"
    by (simp add: req_def opts)
  note ck = served_checked [OF nz A f_def req' opts(1) _ _ _ root valid, unfolded opts, OF behind(1,2), folded f_def, OF chained [folded f_def]]
  have msg: "msg = served b2 f h req"
  proof -
    obtain x s m where snd: "PeerMuxer_Send b2 ec (we_now envA 9) (we_net envA) (nd_mux ndA) peerB (MBlobRes (served b2 f h req)) = (x, s, m)"
      and s: "nd_sent ndA' = nd_sent ndA @ s"
      using SectorServer_onBlobReq_serves [of envA b2 ndA L req h ec expiry peerB rA ndA'] A behind serve
      by (auto simp: can_serve_def req_def f_def)
    have "s = [(peerB, envl)]" using s sent by simp
    from PeerMuxer_Send_message [OF snd [unfolded this]] show ?thesis using arrives(2) by simp
  qed
  define ss where "ss = blobRes_Payload msg"
  have ss: "ss = map (file_sector f) [k..<n]"
    by (simp add: ss_def msg served_def blob_response_def req_def k_def n_def)
  have size: "qi_SectorSize item = pl_sectorSize plan + of_nat (length (blobRes_Payload msg))"
    and fit: "unat (pl_sectorSize plan) + length (blobRes_Payload msg) = n" "n \<le> MaxSectors"
    using ck(2,3,4) item(2) by (simp_all add: msg n_def)
  have "checked_update b2 ec L (nd_db ndB) (plan_opts item plan) msg
      \<lparr>su_sectorTipHash = hd_SectorTipHash h, su_reservedRoot = hd_ReservedRoot h, su_signature = hd_Signature h\<rparr>"
    using ck(1) by (simp add: msg opts_def)
  note acc = UpdateBlob_accepts [OF fine nz B arrives(1) this _ _ size upd, unfolded item(1)]
  define g g0 where "g = blob_file b2 (we_blobs envB) (nd_world ndB') name" and "g0 = blob_file b2 (we_blobs envB) (nd_world ndB) name"
  obtain start where hd: "GetHeader L (nd_db ndB') name = Ok (updated_header item (hd_SectorTipHash h)
        \<lparr>su_sectorTipHash = hd_SectorTipHash h, su_reservedRoot = hd_ReservedRoot h, su_signature = hd_Signature h\<rparr> start)"
    and ext: "extended g0 (pl_sectorSize plan) ss g"
    using acc ck(5) fit by (auto simp: msg ss_def g_def g0_def)
  have "chain_tip b2 ZeroHash (map (file_sector g0) [0..<k]) = chain_tip b2 ZeroHash (map (file_sector f) [0..<k])"
    using can_update_chain [OF nz B] chained by (simp add: item g0_def f_def k_def)
  then have pre: "map (file_sector g0) [0..<k] = map (file_sector f) [0..<k] \<or> b2_collision b2"
    using chain_tip_binding [of "map (file_sector g0) [0..<k]" "map (file_sector f) [0..<k]" ZeroHash ZeroHash b2]
    by (simp add: hash_wf_def)
  have "file_sector g i = file_sector f i" if "i < n" "\<not> b2_collision b2" for i
  proof (cases "i < k")
    case True
    then have "file_sector g0 i = file_sector f i" using pre that(2) by (metis map_eq_conv set_upt atLeastLessThan_iff le0)
    then show ?thesis using ext True by (simp add: extended_def k_def)
  next
    case False
    then have "i - k < n - k" "k + (i - k) = i" using that(1) by simp_all
    then show ?thesis using ext by (simp add: extended_def k_def [symmetric] ss) metis
  qed
  then have "(\<forall>i < n. file_sector g i = file_sector f i) \<or> b2_collision b2" by blast
  moreover have "updated_header item (hd_SectorTipHash h) \<lparr>su_sectorTipHash = hd_SectorTipHash h,
      su_reservedRoot = hd_ReservedRoot h, su_signature = hd_Signature h\<rparr> start
      = h\<lparr>hd_Name := name, hd_EpochHeight := qi_EpochHeight item, hd_EpochStartAt := start\<rparr>"
    using item by (simp add: updated_header_def)
  ultimately show ?thesis using hd by (auto simp: g_def f_def n_def)
qed

section \<open>An example database\<close>

definition demo_hash :: Hash where "demo_hash = replicate 32 1"

definition demo_b2 :: "bytes \<Rightarrow> bytes" where "demo_b2 _ = demo_hash"

definition demo_sig :: Signature where "demo_sig = 5 # demo_hash @ replicate 32 0"

definition demo_info :: dbval where
  "demo_info = VJson (doc_clean (NameInfo_MarshalJSON toy_ec \<lparr>ni_Name = ''a'', ni_PublicKey = 5, ni_ImportHeight = 0\<rparr>))"

definition demo_header :: Header where
  "demo_header = \<lparr>hd_Name = ''a'', hd_EpochHeight = 1, hd_SectorSize = 1, hd_SectorTipHash = demo_hash,
     hd_Signature = demo_sig, hd_ReservedRoot = ZeroHash, hd_EpochStartAt = 0\<rparr>"

definition demo_db :: "(bytes \<times> dbval option) list" where
  "demo_db = [(nameDataPrefix [''a''], Some demo_info)]"

definition demo_hdb :: "(bytes \<times> dbval option) list" where
  "demo_hdb = [(headerDataPrefix [''a''], Some (VJson (doc_clean (Header_MarshalJSON demo_header)))),
     (headerSectorHashesPrefix [''a''], Some (VBytes (concat (demo_hash # replicate (MaxSectors - 1) ZeroHash)))),
     (nameDataPrefix [''a''], Some demo_info)]"

lemma name_key_neq [simp]:
  "nameDataPrefix [a] \<noteq> headerDataPrefix [b]" "nameDataPrefix [a] \<noteq> headerSectorHashesPrefix [b]"
  "headerDataPrefix [b] \<noteq> nameDataPrefix [a]" "headerSectorHashesPrefix [b] \<noteq> nameDataPrefix [a]"
  "banPrefix [a] \<noteq> nameDataPrefix [b]" "banPrefix [a] \<noteq> headerDataPrefix [b]" "banPrefix [a] \<noteq> headerSectorHashesPrefix [b]"
  "headerBanPrefix [a] \<noteq> nameDataPrefix [b]" "headerBanPrefix [a] \<noteq> headerDataPrefix [b]"
  "headerBanPrefix [a] \<noteq> headerSectorHashesPrefix [b]" "headerCountKey \<noteq> nameDataPrefix [a]"
  by (simp_all add: key_defs Prefixer_def)

lemma demo_Blake: "Blake2B256 demo_b2 x = demo_hash"
  by (simp add: Blake2B256_def demo_b2_def demo_hash_def go_copy_def ZeroHash_def)

lemma demo_GetNameInfo:
  assumes "mem_view db (nameDataPrefix [''a'']) = Some demo_info"
  shows "GetNameInfo mem_ldb toy_ec db ''a'' = Ok \<lparr>ni_Name = ''a'', ni_PublicKey = 5, ni_ImportHeight = 0\<rparr>"
  using assms btcec_laws_toy_ec
  by (simp add: GetNameInfo_def leveldb_fineD(2) [OF leveldb_fine_mem] demo_info_def mustUnmarshalJSON_def
      NameInfo_UnmarshalJSON_def NameInfo_MarshalJSON_def json_eval go_simps json_string_ascii mustDecodePublicKey_def btcec_laws_def)

lemma demo_valid:
  assumes "mem_view db (nameDataPrefix [''a'']) = Some demo_info" and "mem_view db (banPrefix [''a'']) = None"
  shows "validateBlobUpdate demo_b2 toy_ec mem_ldb db ''a'' e s t r demo_sig = Ok ()"
proof -
  have "ValidateName ''a'' = Ok ()" by code_simp
  moreover have "NameIsBanned mem_ldb db ''a'' = Ok False"
    using assms(2) by (simp add: NameIsBanned_def leveldb_fineD(3) [OF leveldb_fine_mem])
  moreover note demo_GetNameInfo [OF assms(1)]
  moreover obtain h where h: "SealHash demo_b2 ''a'' e s t r = Ok h"
    using SealHash_fits [of demo_b2 "''a''" e s t r] by (auto simp: name_fits_def)
  moreover have "h = demo_hash" using h demo_Blake by (auto elim!: SealHash_Ok)
  moreover have "VerifySigPub toy_ec 5 demo_sig (Ok demo_hash) = Ok True"
    by (simp add: VerifySigPub_def toy_ec_def demo_sig_def Hash_Bytes_def)
  ultimately show ?thesis by (simp add: validateBlobUpdate_def)
qed

text \<open>An empty blob directory, a node that knows the owner of a name, and one that also has its blob.\<close>

definition demo_world :: blobWorld where
  "demo_world = \<lparr>bw_pool = NewPool, bw_store = empty_store, bw_temps = (\<lambda>_. None), bw_next = 0\<rparr>"

definition demo_req :: BlobReq where
  "demo_req = \<lparr>blobReq_Name = ''a'', blobReq_EpochHeight = 0, blobReq_SectorSize = 0\<rparr>"

definition demo_env :: "byte world_env" where
  "demo_env = \<lparr>we_sys = (\<lambda>_. sys_fine), we_net = (\<lambda>_ _. (None, 0)), we_now = (\<lambda>_. 0), we_blobs = ''b'',
     we_evs = [(0, ZeroHash, served demo_b2 file_empty demo_header demo_req)]\<rparr>"

definition demo_item :: "byte UpdateQueueItem" where
  "demo_item = \<lparr>qi_PeerIDs = NewPeerSet [], qi_Name = ''a'', qi_EpochHeight = 65535, qi_SectorSize = 1, qi_Pub = 5,
     qi_Height = 0, qi_Disposed = 0\<rparr>"

definition demo_node :: "(bytes \<times> dbval option) list \<Rightarrow> (byte, byte, (bytes \<times> dbval option) list) node" where
  "demo_node db = \<lparr>nd_db = db, nd_mux = demo_mux (demo_peer 1), nd_lock = NewMultiLocker, nd_world = demo_world,
     nd_cache = NewCache, nd_sent = []\<rparr>"

definition demo_plan :: sync_plan where
  "demo_plan = \<lparr>pl_epochUpdated = True, pl_epochHeight = 0, pl_sectorSize = 0, pl_prevHash = ZeroHash\<rparr>"

lemma demo_nonzero: "hash_nonzero demo_b2"
  unfolding hash_nonzero_def demo_Blake by (simp add: demo_hash_def ZeroHash_def)

lemma demo_world_ok: "world_ok demo_b2 ''b'' demo_world"
  by (auto simp: world_ok_def demo_world_def NewPool_def empty_store_def pool_inv_def intro!: exI [of _ "\<lambda>_. 0"])

lemma demo_open: "\<exists>b w. bw_Open demo_b2 sys_fine ''b'' demo_world ''a'' = (Ok b, w)"
proof -
  obtain sub where "PathifyName demo_b2 ''a'' = Ok sub"
    using PathifyName_segs [of demo_b2 "''a''"] by (simp add: demo_b2_def demo_hash_def)
  then show ?thesis
    by (simp add: bw_Open_def storeImpl_Open_def Pool_Get_def NewPool_def NewInStorePath_def fileExists_def os_OpenFile_def
        empty_store_def demo_world_def Let_def)
qed

lemma demo_file: "blob_file demo_b2 ''b'' demo_world name = file_empty"
  by (simp add: blob_file_def bw_file_def demo_world_def empty_store_def)

lemma demo_tree: "blob_tree demo_b2 f 1 = demo_hash # replicate (MaxSectors - 1) ZeroHash"
  by (simp add: blob_tree_def SerialHashSector_Blake demo_Blake)

lemma demo_header_wf: "header_wf demo_header"
  by (simp add: header_wf_def demo_header_def demo_sig_def demo_hash_def hash_wf_def sig_wf_def time_json_ok_def time_Second_def)

lemma demo_json: "json_string ''a'' = ''a''"
  by (rule json_string_ascii) simp

lemma demo_hdb_new: "hdr_new demo_header (demo_hash # replicate (MaxSectors - 1) ZeroHash) (mem_view demo_db) (mem_view demo_hdb)"
  by (simp add: hdr_new_def demo_hdb_def demo_db_def mem_view_def demo_header_def)

lemma demo_GetHeader: "GetHeader mem_ldb demo_hdb ''a'' = Ok demo_header"
  using GetHeader_new [OF leveldb_fine_mem, of demo_header "demo_hash # replicate (MaxSectors - 1) ZeroHash" "mem_view demo_db" demo_hdb]
    demo_hdb_new demo_header_wf demo_json by (simp add: demo_header_def)

lemma demo_describes: "describes demo_b2 mem_ldb demo_hdb ''a'' f"
proof -
  have max: "1 \<le> MaxSectors" by (simp add: MaxSectors_def)
  have "list_all hash_wf (demo_hash # replicate (MaxSectors - 1) ZeroHash)"
    by (simp add: hash_wf_def demo_hash_def list_all_iff)
  moreover have "length (demo_hash # replicate (MaxSectors - 1) ZeroHash) = MaxSectors" using max by simp
  ultimately have "GetSectorHashes mem_ldb demo_hdb ''a'' = Ok (demo_hash # replicate (MaxSectors - 1) ZeroHash)"
    using GetSectorHashes_new [OF leveldb_fine_mem, of demo_header "demo_hash # replicate (MaxSectors - 1) ZeroHash" "mem_view demo_db" demo_hdb]
      demo_hdb_new by (simp add: demo_header_def)
  moreover have "SectorHashes_Tip (demo_hash # replicate (MaxSectors - 1) ZeroHash) = demo_hash"
    using Tip_padded [of "[demo_hash]" "MaxSectors - 1"] by (simp add: demo_hash_def ZeroHash_def)
  ultimately show ?thesis
    unfolding describes_def demo_GetHeader using max by (simp add: demo_header_def demo_tree)
qed

lemma demo_views:
  "mem_view demo_db (nameDataPrefix [''a'']) = Some demo_info" "mem_view demo_db (banPrefix [''a'']) = None"
  "mem_view demo_hdb (nameDataPrefix [''a'']) = Some demo_info" "mem_view demo_hdb (banPrefix [''a'']) = None"
  "mem_view demo_db (headerDataPrefix [''a'']) = None" "mem_view demo_db (headerBanPrefix [''a'']) = None"
  "mem_view demo_hdb (headerBanPrefix [''a'']) = None" "mem_view demo_db headerCountKey = None"
  by (simp_all add: demo_db_def demo_hdb_def mem_view_def)

lemma demo_server: "can_serve demo_b2 mem_ldb demo_env (demo_node demo_hdb) ''a'' demo_header"
  using demo_world_ok demo_open demo_describes
  by (simp add: can_serve_def demo_env_def demo_node_def demo_GetHeader NewMultiLocker_def NewCache_def)

lemma demo_client_evs:
  assumes "hash_wf (blobRes_ReservedRoot m)" and "sig_wf (blobRes_Signature m)"
  shows "can_update demo_b2 mem_ldb (demo_env\<lparr>we_evs := [(0, ZeroHash, m)]\<rparr>) (demo_node demo_db) demo_item demo_plan"
proof -
  have get: "GetHeader mem_ldb demo_db ''a'' = Err (ErrWrap leveldb_ErrNotFound ''error getting header data'')"
    by (simp add: GetHeader_def leveldb_fineD(2) [OF leveldb_fine_mem] demo_views)
  have ban: "GetHeaderBan mem_ldb demo_db ''a'' = Ok time_zero"
    by (simp add: GetHeaderBan_def leveldb_fineD(3) [OF leveldb_fine_mem] demo_views)
  have "UpdateBlob_plan demo_b2 mem_ldb (we_now demo_env) demo_db demo_item = Ok (None, demo_plan)"
    using get ban by (simp add: UpdateBlob_plan_def lookup_header_def demo_item_def demo_plan_def)
  moreover have "env_fine (demo_env\<lparr>we_evs := [(0, ZeroHash, m)]\<rparr>)"
    using assms by (simp add: env_fine_def demo_env_def time_json_ok_def time_Second_def)
  moreover have "GetHeaderCount mem_ldb demo_db = Ok 0"
    by (simp add: GetHeaderCount_fine [OF leveldb_fine_mem] count_of_def demo_views)
  moreover have "describes demo_b2 mem_ldb demo_db ''a'' f" for f by (simp add: describes_def get)
  ultimately show ?thesis
    using demo_world_ok demo_open
    by (simp add: can_update_def demo_node_def demo_item_def demo_plan_def demo_env_def NewMultiLocker_def lock_ops_defs Let_def
        time_Unix_def)
qed

lemma demo_client: "can_update demo_b2 mem_ldb demo_env (demo_node demo_db) demo_item demo_plan"
  using demo_client_evs [of "served demo_b2 file_empty demo_header demo_req"]
  by (simp add: demo_env_def served_def blob_response_def demo_header_def hash_wf_def sig_wf_def demo_sig_def demo_hash_def)

lemma demo_update:
  assumes "UpdateBlob demo_b2 toy_ec mem_ldb demo_env demo_item (demo_node demo_db) = (r, item', nd')"
  shows "\<exists>h. GetHeader mem_ldb (nd_db nd') ''a'' = Ok h"
proof -
  define opts where "opts = plan_opts demo_item demo_plan"
  have opts: "so_Name opts = ''a''" "so_EpochHeight opts = 0" "so_SectorSize opts = 0" "so_PrevHash opts = ZeroHash"
    by (simp_all add: opts_def plan_opts_def demo_item_def demo_plan_def)
  have req: "demo_req = \<lparr>blobReq_Name = ''a'', blobReq_EpochHeight = so_EpochHeight opts, blobReq_SectorSize = so_SectorSize opts\<rparr>"
    by (simp add: demo_req_def opts)
  have valid: "validateBlobUpdate demo_b2 toy_ec mem_ldb demo_db ''a'' (hd_EpochHeight demo_header) (hd_SectorSize demo_header)
      (hd_SectorTipHash demo_header) (hd_ReservedRoot demo_header) (hd_Signature demo_header) = Ok ()"
    using demo_valid [OF demo_views(1,2)] by (simp add: demo_header_def)
  have f: "file_empty = blob_file demo_b2 (we_blobs demo_env) (nd_world (demo_node demo_hdb)) ''a''"
    by (simp add: demo_env_def demo_node_def demo_file)
  have root: "hd_ReservedRoot demo_header = ZeroHash" by (simp add: demo_header_def)
  have prev: "so_PrevHash opts = chain_tip demo_b2 ZeroHash (map (file_sector file_empty) [0..<unat (so_SectorSize opts)])"
    by (simp add: opts chain_tip_def)
  have le: "so_EpochHeight opts \<le> hd_EpochHeight demo_header" "so_SectorSize opts \<le> hd_SectorSize demo_header" by (simp_all add: opts)
  note ck = served_checked [OF demo_nonzero demo_server f req opts(1) le prev root valid]
  have evs: "we_evs demo_env = [(0, ZeroHash, served demo_b2 file_empty demo_header demo_req)]" by (simp add: demo_env_def)
  have pl: "pl_sectorSize demo_plan = so_SectorSize opts" by (simp add: opts demo_plan_def)
  have db: "nd_db (demo_node demo_db) = demo_db" by (simp add: demo_node_def)
  have size: "qi_SectorSize demo_item = hd_SectorSize demo_header" by (simp add: demo_item_def demo_header_def)
  have nm: "qi_Name demo_item = ''a''" by (simp add: demo_item_def)
  have ck1: "checked_update demo_b2 toy_ec mem_ldb (nd_db (demo_node demo_db)) (plan_opts demo_item demo_plan)
      (served demo_b2 file_empty demo_header demo_req) \<lparr>su_sectorTipHash = hd_SectorTipHash demo_header,
        su_reservedRoot = hd_ReservedRoot demo_header, su_signature = hd_Signature demo_header\<rparr>"
    using ck(1) by (simp only: db opts_def)
  note acc = UpdateBlob_accepts [OF leveldb_fine_mem demo_nonzero demo_client evs ck1 ck(5) _ _ assms]
  have "unat (pl_sectorSize demo_plan) + length (blobRes_Payload (served demo_b2 file_empty demo_header demo_req)) \<le> MaxSectors"
    using ck(3,4) by (simp only: pl)
  moreover have "qi_SectorSize demo_item
      = pl_sectorSize demo_plan + of_nat (length (blobRes_Payload (served demo_b2 file_empty demo_header demo_req)))"
    using ck(2) by (simp only: pl size)
  ultimately show ?thesis using acc unfolding nm by blast
qed

text \<open>An update that passes: the name is valid and not banned, and its owner has signed.\<close>

lemma validateBlobUpdate_Ok:
  assumes "validateBlobUpdate b2 ec L db name e k tip rr sig = Ok ()"
  shows "ValidateName name = Ok () \<and> NameIsBanned L db name = Ok False \<and>
    (\<exists>info. GetNameInfo L ec db name = Ok info \<and>
       VerifySigPub ec (ni_PublicKey info) sig (SealHash b2 name e k tip rr) = Ok True)"
  using assms by (auto simp: validateBlobUpdate_def go_bind_eq_Ok go_wrap_eq_Ok split: if_splits)

section \<open>Properties\<close>

text \<open>
  C9. Authenticity: whichever calls fail and whatever peers answer, an update changes no header but
  the one of its own name, and only to one whose tip hash, reserved root and signature come from a
  response of this call whose signature the key of the name's owner verifies, for a valid name that is
  not banned: it covers the chain of the response's payload after its previous hash.  The epoch and the size of the stored header are
  the queue item's, those the signature covers are the response's.
\<close>

theorem UpdateBlob_authentic:
  assumes "leveldb_laws L v" and "UpdateBlob b2 ec L env item nd = (r, item', nd')"
    and "v (nd_db nd') (headerDataPrefix [n]) \<noteq> v (nd_db nd) (headerDataPrefix [n])"
  shows "n = qi_Name item \<and>
    (\<exists>t p msg db start. (t, p, msg) \<in> set (we_evs env) \<and> v db = v (nd_db nd) \<and> blobRes_Name msg = n
       \<and> ValidateName n = Ok () \<and> NameIsBanned L db n = Ok False
       \<and> (\<exists>info. GetNameInfo L ec db n = Ok info \<and>
            VerifySigPub ec (ni_PublicKey info) (blobRes_Signature msg)
              (SealHash b2 n (blobRes_EpochHeight msg) (blobRes_PayloadPosition msg + of_nat (length (blobRes_Payload msg)))
                 (chain_tip b2 (blobRes_PrevHash msg) (blobRes_Payload msg)) (blobRes_ReservedRoot msg)) = Ok True)
       \<and> v (nd_db nd') (headerDataPrefix [n]) = Some (VJson (doc_clean (Header_MarshalJSON
           \<lparr>hd_Name = n, hd_EpochHeight = qi_EpochHeight item, hd_SectorSize = qi_SectorSize item,
            hd_SectorTipHash = chain_tip b2 (blobRes_PrevHash msg) (blobRes_Payload msg),
            hd_Signature = blobRes_Signature msg, hd_ReservedRoot = blobRes_ReservedRoot msg,
            hd_EpochStartAt = start\<rparr>))))"
proof -
  obtain header plan l1 where plan: "UpdateBlob_plan b2 L (we_now env) (nd_db nd) item = Ok (header, plan)"
    and l1: "lock_TryLock (nd_lock nd) (qi_Name item) = (True, l1)"
    using assms(2,3) by (auto simp: UpdateBlob_def split: go.splits prod.splits bool.splits)
  obtain x nd1 where x: "UpdateBlob_locked b2 ec L env item plan (nd\<lparr>nd_lock := l1\<rparr>) = (x, nd1)" by fastforce
  have "nd_db nd' = nd_db nd1" using assms(2) plan l1 x by (auto simp: UpdateBlob_def split: prod.splits)
  then obtain su where n: "n = qi_Name item" and st: "stored_as item su (v (nd_db nd') (headerDataPrefix [n]))"
    and acc: "accepted b2 ec L v (v (nd_db nd)) (plan_opts item plan) (we_evs env) su"
    using UpdateBlob_locked_data [OF assms(1) x, of n] assms(3) by auto
  obtain t p msg db where ev: "(t, p, msg) \<in> set (we_evs env)" "v db = v (nd_db nd)"
    and ck: "checked_update b2 ec L db (plan_opts item plan) msg su"
    using acc unfolding accepted_def by blast
  obtain start where "v (nd_db nd') (headerDataPrefix [n])
      = Some (VJson (doc_clean (Header_MarshalJSON (updated_header item (su_sectorTipHash su) su start))))"
    using st unfolding stored_as_def by blast
  moreover have "blobRes_Name msg = n" and val: "validateBlobUpdate b2 ec L db n (blobRes_EpochHeight msg)
      (blobRes_PayloadPosition msg + of_nat (length (blobRes_Payload msg)))
      (chain_tip b2 (blobRes_PrevHash msg) (blobRes_Payload msg)) (blobRes_ReservedRoot msg) (blobRes_Signature msg) = Ok ()"
    and "updated_header item (su_sectorTipHash su) su start = \<lparr>hd_Name = n, hd_EpochHeight = qi_EpochHeight item,
      hd_SectorSize = qi_SectorSize item, hd_SectorTipHash = chain_tip b2 (blobRes_PrevHash msg) (blobRes_Payload msg),
      hd_Signature = blobRes_Signature msg, hd_ReservedRoot = blobRes_ReservedRoot msg, hd_EpochStartAt = start\<rparr>"
    using n ck unfolding checked_update_def updated_header_def plan_opts_def by auto
  ultimately show ?thesis using n ev validateBlobUpdate_Ok [OF val] by metis
qed

theorem UpdateBlob_authentic_witness:
  "\<exists>(msg :: BlobRes) start. mem_view (nd_db (snd (snd (UpdateBlob demo_b2 toy_ec mem_ldb demo_env demo_item (demo_node demo_db)))))
      (headerDataPrefix [''a'']) = Some (VJson (doc_clean (Header_MarshalJSON
         \<lparr>hd_Name = ''a'', hd_EpochHeight = 65535, hd_SectorSize = 1,
          hd_SectorTipHash = chain_tip demo_b2 (blobRes_PrevHash msg) (blobRes_Payload msg),
          hd_Signature = blobRes_Signature msg, hd_ReservedRoot = blobRes_ReservedRoot msg, hd_EpochStartAt = start\<rparr>)))
    \<and> blobRes_EpochHeight msg = 1"
proof -
  obtain r item' nd' where u: "UpdateBlob demo_b2 toy_ec mem_ldb demo_env demo_item (demo_node demo_db) = (r, item', nd')"
    by (metis prod_cases3)
  have "mem_view (nd_db nd') (headerDataPrefix [''a'']) \<noteq> None"
    using demo_update [OF u] by (auto simp: GetHeader_def leveldb_fineD(2) [OF leveldb_fine_mem] split: option.splits)
  then have ch: "mem_view (nd_db nd') (headerDataPrefix [''a'']) \<noteq> mem_view (nd_db (demo_node demo_db)) (headerDataPrefix [''a''])"
    by (simp add: demo_node_def demo_views)
  have ep: "blobRes_EpochHeight msg = 1" if "(t, p, msg) \<in> set (we_evs demo_env)" for t p msg
    using that by (auto simp: demo_env_def served_def blob_response_def demo_header_def)
  from UpdateBlob_authentic [OF leveldb_fineD(1) [OF leveldb_fine_mem] u ch] obtain t p msg start where
    "(t, p, msg) \<in> set (we_evs demo_env)" "mem_view (nd_db nd') (headerDataPrefix [''a'']) = Some (VJson (doc_clean (Header_MarshalJSON
       \<lparr>hd_Name = ''a'', hd_EpochHeight = qi_EpochHeight demo_item, hd_SectorSize = qi_SectorSize demo_item,
        hd_SectorTipHash = chain_tip demo_b2 (blobRes_PrevHash msg) (blobRes_Payload msg),
        hd_Signature = blobRes_Signature msg, hd_ReservedRoot = blobRes_ReservedRoot msg, hd_EpochStartAt = start\<rparr>)))"
    by (elim conjE exE) (rule that)
  then show ?thesis using ep unfolding u by - (rule exI [of _ msg], rule exI [of _ start], simp add: demo_item_def)
qed

text \<open>
  C8. Headers describe blobs: when no call fails, then whatever peers answer, an update keeps every
  header in step with its blob.  If the stored sector hashes and the stored tip of a name were those
  of the leading sectors of its blob file, they are so after the update, for the updated name and for
  every name whose blob is another file; and the pool of open blobs stays well formed.
\<close>

theorem UpdateBlob_keeps_blobs:
  assumes "leveldb_fine L v" and "env_fine env" and "world_ok b2 (we_blobs env) (nd_world nd)"
    and "GetHeaderCount L (nd_db nd) = Ok c" and "UpdateBlob b2 ec L env item nd = (r, item', nd')"
    and "n = qi_Name item \<or> blob_path b2 (we_blobs env) n \<noteq> blob_path b2 (we_blobs env) (qi_Name item)"
    and "describes b2 L (nd_db nd) n (blob_file b2 (we_blobs env) (nd_world nd) n)"
  shows "world_ok b2 (we_blobs env) (nd_world nd') \<and>
    describes b2 L (nd_db nd') n (blob_file b2 (we_blobs env) (nd_world nd') n)"
proof (cases "\<exists>header plan l1. UpdateBlob_plan b2 L (we_now env) (nd_db nd) item = Ok (header, plan)
    \<and> lock_TryLock (nd_lock nd) (qi_Name item) = (True, l1)")
  case False
  then have "nd_world nd' = nd_world nd \<and> nd_db nd' = nd_db nd"
    using assms(5) by (auto simp: UpdateBlob_def split: go.splits prod.splits bool.splits)
  then show ?thesis using assms(3,7) by simp
next
  case True
  then obtain header plan l1 where plan: "UpdateBlob_plan b2 L (we_now env) (nd_db nd) item = Ok (header, plan)"
    and l1: "lock_TryLock (nd_lock nd) (qi_Name item) = (True, l1)" by blast
  obtain x nd1 where x: "UpdateBlob_locked b2 ec L env item plan (nd\<lparr>nd_lock := l1\<rparr>) = (x, nd1)" by fastforce
  have nd': "nd_db nd' = nd_db nd1" "nd_world nd' = nd_world nd1"
    using assms(5) plan l1 x by (auto simp: UpdateBlob_def split: prod.splits)
  have c: "count_of (v (nd_db nd)) = Ok c" using GetHeaderCount_fine [OF assms(1)] assms(4) by simp
  define f g where "f = blob_file b2 (we_blobs env) (nd_world nd) n" and "g = blob_file b2 (we_blobs env) (nd_world nd1) n"
  have key: "describes b2 L (nd_db nd1) n g"
    if "v (nd_db nd1) (headerDataPrefix [n]) = v (nd_db nd) (headerDataPrefix [n])"
      "v (nd_db nd1) (headerSectorHashesPrefix [n]) = v (nd_db nd) (headerSectorHashesPrefix [n])"
      "\<forall>i < MaxSectors. file_sector g i = file_sector f i"
    using that assms(7) describes_keys [OF assms(1), where db = "nd_db nd" and db' = "nd_db nd1" and n = n]
      describes_cong [of f g b2 L "nd_db nd" n]
    by (simp add: f_def)
  show ?thesis
    using UpdateBlob_locked_together [OF assms(1,2) _ _ x, of c] c assms(3,6) key
    unfolding nd' by (auto simp: same_sectors_def hdr_same_def blob_file_def f_def g_def)
qed

theorem UpdateBlob_keeps_blobs_witness:
  "let nd' = snd (snd (UpdateBlob demo_b2 toy_ec mem_ldb demo_env demo_item (demo_node demo_db))) in
   (\<exists>h. GetHeader mem_ldb (nd_db nd') ''a'' = Ok h)
   \<and> describes demo_b2 mem_ldb (nd_db nd') ''a'' (blob_file demo_b2 ''b'' (nd_world nd') ''a'')"
proof -
  obtain r item' nd' where u: "UpdateBlob demo_b2 toy_ec mem_ldb demo_env demo_item (demo_node demo_db) = (r, item', nd')"
    by (metis prod_cases3)
  obtain c where c: "GetHeaderCount mem_ldb (nd_db (demo_node demo_db)) = Ok c"
    using demo_client by (auto simp: can_update_def)
  have "env_fine demo_env" "world_ok demo_b2 (we_blobs demo_env) (nd_world (demo_node demo_db))" "''a'' = qi_Name demo_item"
    "describes demo_b2 mem_ldb (nd_db (demo_node demo_db)) ''a'' (blob_file demo_b2 (we_blobs demo_env) (nd_world (demo_node demo_db)) ''a'')"
    using demo_client by (simp_all add: can_update_def demo_item_def)
  then have "describes demo_b2 mem_ldb (nd_db nd') ''a'' (blob_file demo_b2 (we_blobs demo_env) (nd_world nd') ''a'')"
    using UpdateBlob_keeps_blobs [OF leveldb_fine_mem _ _ c u, of "''a''"] by blast
  moreover have "we_blobs demo_env = ''b''" by (simp add: demo_env_def)
  ultimately show ?thesis using demo_update [OF u] unfolding u by (simp add: Let_def)
qed

text \<open>
  C35. One honest update is a proof of equivocation: the handler of proofs does not ask that the two
  updates conflict.  Given any header a node stores whose signature is valid, a peer that sends the
  header's own data as both sides of the proof gets the name banned at that node.
\<close>

theorem one_update_proves_equivocation:
  assumes fine: "leveldb_fine L v" and h: "GetHeader L db (hd_Name h) = Ok h"
    and valid: "validateBlobUpdate b2 ec L db (hd_Name h) (hd_EpochHeight h) (hd_SectorSize h) (hd_SectorTipHash h)
        (hd_ReservedRoot h) (hd_Signature h) = Ok ()"
    and sz: "unat (hd_SectorSize h) \<le> MaxSectors" and ban: "GetHeaderBan L db (hd_Name h) = Ok time_zero"
    and now: "0 \<le> time_Unix (clk 1)" "time_Unix (clk 1) < 2 ^ 31"
  shows "case SectorServer_onEquivocationProof b2 ec L clk (self_proof h) db of
    (r, db') \<Rightarrow> r = Ok () \<and> GetHeaderBan L db' (hd_Name h) = Ok (time_FromUnix (time_Unix (clk 1)))"
proof -
  obtain db1 r1 where w1: "WithTx L db (SetEquivocationProofTx L ec (hd_Name h) (self_proof h)) = (db1, r1)" by fastforce
  obtain db2 r2 where w2: "WithTx L db1 (SetHeaderBan L (clk 1) (hd_Name h) time_zero) = (db2, r2)" by fastforce
  have r1: "r1 = Ok ()" by (rule SetEquivocationProof_fine [OF fine w1])
  have r2: "r2 = Ok ()" "v db2 (headerBanPrefix [hd_Name h]) = Some (VBytes (mustEncodeInt (time_Unix (clk 1))))"
    using SetHeaderBan_fine [OF fine w2] by simp_all
  have "proof_valid b2 ec L db (self_proof h) = Ok ()"
    using valid sz by (simp add: proof_valid_def self_proof_def go_simps Let_def not_less)
  then have "SectorServer_onEquivocationProof b2 ec L clk (self_proof h) db = (Ok (), db2)"
    using h ban w1 w2 r1 r2(1)
    by (simp add: SectorServer_onEquivocationProof_def self_proof_def time_IsZero_def)
  then show ?thesis using GetHeaderBan_put [OF fine r2(2) now] by simp
qed

theorem one_update_proves_equivocation_witness:
  "GetHeaderBan mem_ldb demo_hdb ''a'' = Ok time_zero
   \<and> GetHeaderBan mem_ldb (snd (SectorServer_onEquivocationProof demo_b2 toy_ec mem_ldb (\<lambda>_. 5 * time_Second)
        (self_proof demo_header) demo_hdb)) ''a'' = Ok (time_FromUnix 5)"
proof -
  have ban: "GetHeaderBan mem_ldb demo_hdb ''a'' = Ok time_zero"
    by (simp add: GetHeaderBan_def leveldb_fineD(3) [OF leveldb_fine_mem] demo_views)
  have nm: "hd_Name demo_header = ''a''" by (simp add: demo_header_def)
  have unix: "time_Unix (5 * time_Second) = 5" by (simp add: time_Unix_def time_Second_def)
  have "validateBlobUpdate demo_b2 toy_ec mem_ldb demo_hdb (hd_Name demo_header) (hd_EpochHeight demo_header)
      (hd_SectorSize demo_header) (hd_SectorTipHash demo_header) (hd_ReservedRoot demo_header) (hd_Signature demo_header) = Ok ()"
    using demo_valid [OF demo_views(3,4)] by (simp add: demo_header_def)
  moreover have "unat (hd_SectorSize demo_header) \<le> MaxSectors" by (simp add: demo_header_def MaxSectors_def)
  ultimately show ?thesis
    using one_update_proves_equivocation [OF leveldb_fine_mem, where h = demo_header and db = demo_hdb
        and clk = "\<lambda>_. 5 * time_Second" and ?b2.0 = demo_b2 and ec = toy_ec] demo_GetHeader ban
    by (simp add: nm unix split: prod.splits)
qed

end
