(* ===== verification/Rpc_Server.thy ===== *)
theory Rpc_Server
  imports Proto_Server
begin

text \<open>
  The blob calls of the RPC server, \<open>rpc/server.go\<close>: checking out, writing, committing and reading
  blobs.

  An \<open>awaitingTx\<close> is an object that the transaction cache points to: the cache holds addresses into
  \<open>sv_awaiting\<close>, so that a write through one lookup is seen by the next.  A response is the value of
  the call; the transport of requests and responses is gRPC and not part of the model.  A panic of a
  handler ends the process.
\<close>

section \<open>State\<close>

definition TransactionExpiry :: int where "TransactionExpiry = 15000"

record awaitingTx =
  aw_blob :: blobHandle
  aw_tx :: txImpl

record ('pk, 'sk, 'd) Server =
  sv_peerID :: Hash
  sv_node :: "('pk, 'sk, 'd) node"
  sv_txStore :: "nat Cache"
  sv_awaiting :: "nat \<Rightarrow> awaitingTx option"
  sv_next :: nat
  sv_lastTxID :: uint32

definition NewServer :: "Hash \<Rightarrow> ('pk, 'sk, 'd) node \<Rightarrow> ('pk, 'sk, 'd) Server" where
  "NewServer peerID nd =
     \<lparr>sv_peerID = peerID, sv_node = nd, sv_txStore = NewCache, sv_awaiting = (\<lambda>_. None), sv_next = 0,
      sv_lastTxID = 0\<rparr>"

definition sv_world :: "('pk, 'sk, 'd) Server \<Rightarrow> blobWorld" where
  "sv_world s = nd_world (sv_node s)"

definition sv_set_world :: "blobWorld \<Rightarrow> ('pk, 'sk, 'd) Server \<Rightarrow> ('pk, 'sk, 'd) Server" where
  "sv_set_world w s = s\<lparr>sv_node := (sv_node s)\<lparr>nd_world := w\<rparr>\<rparr>"

text \<open>A call on the transaction of an object, which may change the transaction and the files.\<close>

definition awaiting_do ::
  "(txImpl \<Rightarrow> blobFS \<Rightarrow> 'a go \<times> txImpl \<times> blobFS) \<Rightarrow> nat \<Rightarrow> ('pk, 'sk, 'd) Server
     \<Rightarrow> 'a go \<times> ('pk, 'sk, 'd) Server" where
  "awaiting_do f a s =
     (case sv_awaiting s a of
        None \<Rightarrow> (Panic ''nil pointer dereference'', s)
      | Some aw \<Rightarrow>
          (case f (aw_tx aw) (bw_view (sv_world s) (aw_blob aw)) of
             (r, t1, fs1) \<Rightarrow>
               (r, (sv_set_world (bw_put (sv_world s) (aw_blob aw) fs1) s)
                     \<lparr>sv_awaiting := (sv_awaiting s)(a \<mapsto> aw\<lparr>aw_tx := t1\<rparr>)\<rparr>)))"

definition awaiting_Close ::
  "sys \<Rightarrow> nat \<Rightarrow> ('pk, 'sk, 'd) Server \<Rightarrow> unit go \<times> ('pk, 'sk, 'd) Server" where
  "awaiting_Close sys a s =
     (case sv_awaiting s a of
        None \<Rightarrow> (Panic ''nil pointer dereference'', s)
      | Some aw \<Rightarrow> (case bw_Close sys (sv_world s) (aw_blob aw) of (c, w) \<Rightarrow> (c, sv_set_world w s)))"

section \<open>The transaction cache\<close>

text \<open>
  \<open>ReaperFunc\<close> rolls the transaction back and closes the blob; both errors are logged.
\<close>

definition Server_ReaperFunc ::
  "'pk world_env \<Rightarrow> nat \<Rightarrow> ('pk, 'sk, 'd) Server \<Rightarrow> unit go \<times> ('pk, 'sk, 'd) Server" where
  "Server_ReaperFunc env a s =
     (case awaiting_do (txImpl_Rollback (we_sys env 3)) a s of
        (Panic m, s1) \<Rightarrow> (Panic m, s1)
      | (_, s1) \<Rightarrow>
          (case awaiting_Close (we_sys env 4) a s1 of
             (Panic m, s2) \<Rightarrow> (Panic m, s2)
           | (_, s2) \<Rightarrow> (Ok (), s2)))"

fun Server_reap ::
  "'pk world_env \<Rightarrow> (string \<times> nat) list \<Rightarrow> ('pk, 'sk, 'd) Server \<Rightarrow> unit go \<times> ('pk, 'sk, 'd) Server" where
  "Server_reap env [] s = (Ok (), s)"
| "Server_reap env ((k, a) # reaped) s =
     (case Server_ReaperFunc env a s of
        (Ok _, s1) \<Rightarrow> Server_reap env reaped s1
      | (r, s1) \<Rightarrow> (r, s1))"

text \<open>A tick of the cache's reaper.\<close>

definition Server_reapTick ::
  "'pk world_env \<Rightarrow> ('pk, 'sk, 'd) Server \<Rightarrow> unit go \<times> ('pk, 'sk, 'd) Server" where
  "Server_reapTick env s =
     (case Cache_reapTick (we_now env 0) (sv_txStore s) of
        (reaped, c) \<Rightarrow> Server_reap env reaped (s\<lparr>sv_txStore := c\<rparr>))"

text \<open>\<open>strconv.FormatUint(n, 32)\<close>: the digits are 0 to 9 and a to v.\<close>

definition digit_32 :: "nat \<Rightarrow> char" where
  "digit_32 n = (if n < 10 then char_of (48 + n) else char_of (87 + n))"

fun FormatUint_32 :: "nat \<Rightarrow> string" where
  "FormatUint_32 n = (if n < 32 then [digit_32 n] else FormatUint_32 (n div 32) @ [digit_32 (n mod 32)])"

declare FormatUint_32.simps [simp del]

definition txKey :: "uint32 \<Rightarrow> string" where
  "txKey txID = FormatUint_32 (unat txID)"

text \<open>
  A lookup asserts the type of what the cache returns before it compares it with nil: the nil
  interface of an unknown or expired transaction fails the assertion, which panics.
\<close>

definition Server_lookup ::
  "'pk world_env \<Rightarrow> uint32 \<Rightarrow> ('pk, 'sk, 'd) Server \<Rightarrow> (nat \<times> awaitingTx) go \<times> ('pk, 'sk, 'd) Server" where
  "Server_lookup env txID s =
     (case Cache_Get (we_now env 0) (sv_txStore s) (txKey txID) of
        (v, reaped, c) \<Rightarrow>
          (case Server_reap env reaped (s\<lparr>sv_txStore := c\<rparr>) of
             (Panic m, s1) \<Rightarrow> (Panic m, s1)
           | (_, s1) \<Rightarrow>
               (case v of
                  None \<Rightarrow> (Panic ''interface conversion: interface is nil'', s1)
                | Some a \<Rightarrow>
                    (case sv_awaiting s1 a of
                       None \<Rightarrow> (Err (ErrNew ''transaction ID not found''), s1)
                     | Some aw \<Rightarrow> (Ok (a, aw), s1)))))"

section \<open>Checking out\<close>

record CheckoutReq =
  coq_Name :: string
  coq_ResetEpoch :: bool

record CheckoutRes =
  cor_TxID :: uint32
  cor_EpochHeight :: uint32
  cor_SectorSize :: uint32
  cor_SectorTipHash :: bytes

text \<open>Any error of reading the header starts the name at its current epoch.\<close>

definition Checkout_position ::
  "(bytes \<Rightarrow> bytes) \<Rightarrow> 'd leveldb \<Rightarrow> time \<Rightarrow> 'd \<Rightarrow> string \<Rightarrow> (uint16 \<times> uint16 \<times> Hash) go" where
  "Checkout_position b2 L now db name =
     (case GetHeader L db name of
        Panic m \<Rightarrow> Panic m
      | Err _ \<Rightarrow> Ok (CurrentEpoch b2 now name, 0, ZeroHash)
      | Ok h \<Rightarrow> Ok (hd_EpochHeight h, hd_SectorSize h, hd_SectorTipHash h))"

definition Checkout_reset ::
  "(bytes \<Rightarrow> bytes) \<Rightarrow> 'pk world_env \<Rightarrow> CheckoutReq \<Rightarrow> uint16 \<times> uint16 \<times> Hash \<Rightarrow> txImpl \<Rightarrow> blobFS
     \<Rightarrow> (uint16 \<times> uint16 \<times> Hash) go \<times> txImpl \<times> blobFS" where
  "Checkout_reset b2 env req pos t fs =
     (if \<not> coq_ResetEpoch req then (Ok pos, t, fs)
      else if fst pos > CurrentEpoch b2 (we_now env 2) (coq_Name req)
      then (Err (ErrNew ''cannot reset epoch ahead of schedule''), t, fs)
      else
        case txImpl_Truncate (we_sys env 1) t fs of
          (Ok _, t1, fs1) \<Rightarrow> (Ok (fst pos + 1, 0, ZeroHash), t1, fs1)
        | (Err e, t1, fs1) \<Rightarrow> (Err e, t1, fs1)
        | (Panic m, t1, fs1) \<Rightarrow> (Panic m, t1, fs1))"

text \<open>The transaction of an opened blob; what it fails with leaves the blob open.\<close>

definition Checkout_tx ::
  "(bytes \<Rightarrow> bytes) \<Rightarrow> 'pk world_env \<Rightarrow> CheckoutReq \<Rightarrow> uint16 \<times> uint16 \<times> Hash \<Rightarrow> blobFS
     \<Rightarrow> (uint16 \<times> uint16 \<times> Hash) go \<times> txImpl \<times> blobFS" where
  "Checkout_tx b2 env req pos fs =
     (case Checkout_reset b2 env req pos (blobImpl_Transaction (coq_Name req)) fs of
        (Ok (epochHeight, sectorSize, sectorTipHash), t1, fs1) \<Rightarrow>
          (case txImpl_Seek t1 (uint sectorSize * int SectorBytes) 0 of
             (Ok _, t2) \<Rightarrow> (Ok (epochHeight, sectorSize, sectorTipHash), t2, fs1)
           | (Err e, t2) \<Rightarrow> (Err e, t2, fs1)
           | (Panic m, t2) \<Rightarrow> (Panic m, t2, fs1))
      | r \<Rightarrow> r)"

definition Server_store ::
  "'pk world_env \<Rightarrow> uint32 \<Rightarrow> awaitingTx \<Rightarrow> ('pk, 'sk, 'd) Server \<Rightarrow> unit go \<times> ('pk, 'sk, 'd) Server" where
  "Server_store env txID aw s =
     (case Cache_Set (we_now env 3) (sv_txStore s) (txKey txID) (Some (sv_next s)) TransactionExpiry of
        (r, c) \<Rightarrow>
          (r, s\<lparr>sv_txStore := c, sv_awaiting := (sv_awaiting s)(sv_next s \<mapsto> aw), sv_next := sv_next s + 1\<rparr>))"

definition Server_Checkout ::
  "(bytes \<Rightarrow> bytes) \<Rightarrow> 'd leveldb \<Rightarrow> 'pk world_env \<Rightarrow> CheckoutReq \<Rightarrow> ('pk, 'sk, 'd) Server
     \<Rightarrow> CheckoutRes go \<times> ('pk, 'sk, 'd) Server" where
  "Server_Checkout b2 L env req s0 =
     (let txID = sv_lastTxID s0 + 1; s = s0\<lparr>sv_lastTxID := txID\<rparr> in
      case bw_Open b2 (we_sys env 0) (we_blobs env) (sv_world s) (coq_Name req) of
        (Err e, w1) \<Rightarrow> (Err e, sv_set_world w1 s)
      | (Panic m, w1) \<Rightarrow> (Panic m, sv_set_world w1 s)
      | (Ok b, w1) \<Rightarrow>
          (case Checkout_position b2 L (we_now env 1) (nd_db (sv_node s)) (coq_Name req) of
             Err e \<Rightarrow> (Err e, sv_set_world w1 s)
           | Panic m \<Rightarrow> (Panic m, sv_set_world w1 s)
           | Ok pos \<Rightarrow>
               (case Checkout_tx b2 env req pos (bw_view w1 b) of
                  (Err e, t, fs) \<Rightarrow> (Err e, sv_set_world (bw_put w1 b fs) s)
                | (Panic m, t, fs) \<Rightarrow> (Panic m, sv_set_world (bw_put w1 b fs) s)
                | (Ok (epochHeight, sectorSize, sectorTipHash), t, fs) \<Rightarrow>
                    (case Server_store env txID \<lparr>aw_blob = b, aw_tx = t\<rparr> (sv_set_world (bw_put w1 b fs) s) of
                       (r, s2) \<Rightarrow>
                         (go_bind r (\<lambda>_. Ok \<lparr>cor_TxID = txID, cor_EpochHeight = ucast epochHeight,
                            cor_SectorSize = ucast sectorSize, cor_SectorTipHash = Hash_Bytes sectorTipHash\<rparr>), s2)))))"

section \<open>Writing\<close>

record WriteSectorReq =
  wsq_TxID :: uint32
  wsq_Data :: bytes

text \<open>The response carries the text of the write's error, here the error itself.\<close>

definition Server_WriteSector ::
  "'pk world_env \<Rightarrow> WriteSectorReq \<Rightarrow> ('pk, 'sk, 'd) Server \<Rightarrow> err option go \<times> ('pk, 'sk, 'd) Server" where
  "Server_WriteSector env req s =
     (case Server_lookup env (wsq_TxID req) s of
        (Panic m, s1) \<Rightarrow> (Panic m, s1)
      | (Err e, s1) \<Rightarrow> (Err e, s1)
      | (Ok (a, aw), s1) \<Rightarrow>
          (case awaiting_do (\<lambda>t fs. txImpl_WriteSector (we_sys env 1) t fs (go_copy ZeroSector (wsq_Data req))) a s1 of
             (Ok _, s2) \<Rightarrow> (Ok None, s2)
           | (Err e, s2) \<Rightarrow> (Ok (Some e), s2)
           | (Panic m, s2) \<Rightarrow> (Panic m, s2)))"

section \<open>Committing\<close>

record CommitReq =
  cmq_TxID :: uint32
  cmq_Timestamp :: uint64
  cmq_Signature :: bytes
  cmq_Broadcast :: bool
  cmq_EpochHeight :: uint32
  cmq_SectorSize :: uint32
  cmq_SectorTipHash :: bytes

definition commit_header :: "string \<Rightarrow> CommitReq \<Rightarrow> Hash \<Rightarrow> time \<Rightarrow> Header" where
  "commit_header name req tip now =
     \<lparr>hd_Name = name, hd_EpochHeight = ucast (cmq_EpochHeight req), hd_SectorSize = ucast (cmq_SectorSize req),
      hd_SectorTipHash = tip, hd_Signature = go_copy ZeroSignature (cmq_Signature req), hd_ReservedRoot = ZeroHash,
      hd_EpochStartAt = now\<rparr>"

text \<open>The checks before the lock: the tip and the sector hashes of the transaction.\<close>

definition Commit_check ::
  "(bytes \<Rightarrow> bytes) \<Rightarrow> ('pk, 'sk) btcec \<Rightarrow> 'd leveldb \<Rightarrow> 'pk world_env \<Rightarrow> CommitReq \<Rightarrow> string \<Rightarrow> nat
     \<Rightarrow> ('pk, 'sk, 'd) Server \<Rightarrow> (Hash \<times> SectorHashes) go \<times> ('pk, 'sk, 'd) Server" where
  "Commit_check b2 ec L env req name a s =
     (case go_bind (go_wrap (GetNameInfo L ec (nd_db (sv_node s)) name) ''error getting name info'') (\<lambda>info.
             go_bind (go_wrap (NewHashFromBytes (cmq_SectorTipHash req)) ''error parsing sector tip hash'') (\<lambda>tip.
             Ok (info, tip))) of
        Panic m \<Rightarrow> (Panic m, s)
      | Err e \<Rightarrow> (Err e, s)
      | Ok (info, tip) \<Rightarrow>
          (case awaiting_do (\<lambda>t fs. tx_SerialHash b2 (we_sys env 1) t fs (ucast (cmq_SectorSize req))) a s of
             (r, s1) \<Rightarrow>
               (go_bind (go_wrap r ''error getting sector hashes'') (\<lambda>hashes.
                if SectorHashes_Tip hashes \<noteq> tip then Err (ErrNew ''sector tip hash mismatch'')
                else
                  go_bind (VerifySigPub ec (ni_PublicKey info) (go_copy ZeroSignature (cmq_Signature req))
                    (SealHash b2 name (ucast (cmq_EpochHeight req)) (ucast (cmq_SectorSize req)) tip ZeroHash)) (\<lambda>ok.
                  if \<not> ok then Err (ErrNew ''signature verification failed'') else Ok (tip, hashes))), s1)))"

text \<open>Under the lock; a commit that fails keeps the header it has stored.\<close>

definition Commit_gossip ::
  "(bytes \<Rightarrow> bytes) \<Rightarrow> ('pk, 'sk) btcec \<Rightarrow> 'pk world_env \<Rightarrow> CommitReq \<Rightarrow> string \<Rightarrow> ('pk, 'sk, 'd) Server
     \<Rightarrow> unit go \<times> ('pk, 'sk, 'd) Server" where
  "Commit_gossip b2 ec env req name s =
     (if \<not> cmq_Broadcast req then (Ok (), s)
      else
        case GossipAll b2 ec (we_now env 7) (we_net env) (nd_mux (sv_node s))
               (MUpdate \<lparr>update_Name = name, update_EpochHeight = ucast (cmq_EpochHeight req),
                  update_SectorSize = ucast (cmq_SectorSize req)\<rparr>) of
          (r, sent, mux1) \<Rightarrow>
            (case r of Panic m \<Rightarrow> Panic m | _ \<Rightarrow> Ok (),
             s\<lparr>sv_node := (sv_node s)\<lparr>nd_mux := mux1, nd_sent := nd_sent (sv_node s) @ sent\<rparr>\<rparr>))"

definition Commit_locked ::
  "(bytes \<Rightarrow> bytes) \<Rightarrow> ('pk, 'sk) btcec \<Rightarrow> 'd leveldb \<Rightarrow> 'pk world_env \<Rightarrow> CommitReq \<Rightarrow> string \<Rightarrow> nat
     \<Rightarrow> Hash \<Rightarrow> SectorHashes \<Rightarrow> ('pk, 'sk, 'd) Server \<Rightarrow> unit go \<times> ('pk, 'sk, 'd) Server" where
  "Commit_locked b2 ec L env req name a tip hashes s =
     (case WithTx L (nd_db (sv_node s)) (SetHeaderTx L (commit_header name req tip (we_now env 6)) hashes) of
        (db1, Panic m) \<Rightarrow> (Panic m, s\<lparr>sv_node := (sv_node s)\<lparr>nd_db := db1\<rparr>\<rparr>)
      | (db1, Err e) \<Rightarrow> (Err (ErrWrap e ''error storing header''), s\<lparr>sv_node := (sv_node s)\<lparr>nd_db := db1\<rparr>\<rparr>)
      | (db1, Ok _) \<Rightarrow>
          (case awaiting_do (txImpl_Commit (we_sys env 2)) a (s\<lparr>sv_node := (sv_node s)\<lparr>nd_db := db1\<rparr>\<rparr>) of
             (Panic m, s1) \<Rightarrow> (Panic m, s1)
           | (Err e, s1) \<Rightarrow> (Err (ErrWrap e ''error committing blob''), s1)
           | (Ok _, s1) \<Rightarrow>
               (case awaiting_Close (we_sys env 5) a s1 of
                  (Panic m, s2) \<Rightarrow> (Panic m, s2)
                | (Err e, s2) \<Rightarrow> (Err (ErrWrap e ''error closing blob''), s2)
                | (Ok _, s2) \<Rightarrow>
                    Commit_gossip b2 ec env req name
                      (s2\<lparr>sv_txStore := Cache_Del (sv_txStore s2) (txKey (cmq_TxID req))\<rparr>))))"

definition Server_Commit ::
  "(bytes \<Rightarrow> bytes) \<Rightarrow> ('pk, 'sk) btcec \<Rightarrow> 'd leveldb \<Rightarrow> 'pk world_env \<Rightarrow> CommitReq \<Rightarrow> ('pk, 'sk, 'd) Server
     \<Rightarrow> unit go \<times> ('pk, 'sk, 'd) Server" where
  "Server_Commit b2 ec L env req s =
     (case Server_lookup env (cmq_TxID req) s of
        (Panic m, s1) \<Rightarrow> (Panic m, s1)
      | (Err e, s1) \<Rightarrow> (Err e, s1)
      | (Ok (a, aw), s1) \<Rightarrow>
          (case Commit_check b2 ec L env req (tx_name (aw_tx aw)) a s1 of
             (Panic m, s2) \<Rightarrow> (Panic m, s2)
           | (Err e, s2) \<Rightarrow> (Err e, s2)
           | (Ok (tip, hashes), s2) \<Rightarrow>
               (case lock_TryLock (nd_lock (sv_node s2)) (tx_name (aw_tx aw)) of
                  (False, l1) \<Rightarrow> (Err (ErrNew ''name is busy''), s2\<lparr>sv_node := (sv_node s2)\<lparr>nd_lock := l1\<rparr>\<rparr>)
                | (True, l1) \<Rightarrow>
                    (case Commit_locked b2 ec L env req (tx_name (aw_tx aw)) a tip hashes
                            (s2\<lparr>sv_node := (sv_node s2)\<lparr>nd_lock := l1\<rparr>\<rparr>) of
                       (r, s3) \<Rightarrow>
                         (case lock_Unlock (nd_lock (sv_node s3)) (tx_name (aw_tx aw)) of
                            (u, l2) \<Rightarrow>
                              (case u of Panic m \<Rightarrow> Panic m | _ \<Rightarrow> r,
                               s3\<lparr>sv_node := (sv_node s3)\<lparr>nd_lock := l2\<rparr>\<rparr>))))))"

section \<open>Reading\<close>

record ReadAtReq =
  raq_Name :: string
  raq_Offset :: uint32
  raq_Len :: uint32

text \<open>The sum of offset and length is a \<open>uint32\<close>.  The deferred calls close the blob and release the lock.\<close>

definition ReadAt_open ::
  "(bytes \<Rightarrow> bytes) \<Rightarrow> 'pk world_env \<Rightarrow> ReadAtReq \<Rightarrow> blobWorld \<Rightarrow> bytes go \<times> blobWorld" where
  "ReadAt_open b2 env req w =
     (case bw_Open b2 (we_sys env 0) (we_blobs env) w (raq_Name req) of
        (Panic m, w1) \<Rightarrow> (Panic m, w1)
      | (Err e, w1) \<Rightarrow> (Err (ErrWrap e ''error opening blob for reading''), w1)
      | (Ok b, w1) \<Rightarrow>
          (case bw_Close (we_sys env 5) w1 b of
             (c, w2) \<Rightarrow>
               (case blobImpl_ReadAt (we_sys env 1) (bw_view w1 b) (replicate (unat (raq_Len req)) 0)
                       (uint (raq_Offset req)) of
                  (buf, n, e) \<Rightarrow>
                    (case c of
                       Panic m \<Rightarrow> Panic m
                     | _ \<Rightarrow> (case e of None \<Rightarrow> Ok buf | Some e \<Rightarrow> Err (ErrWrap e ''error reading blob'')), w2))))"

definition Server_ReadAt ::
  "(bytes \<Rightarrow> bytes) \<Rightarrow> 'pk world_env \<Rightarrow> ReadAtReq \<Rightarrow> ('pk, 'sk, 'd) Server \<Rightarrow> bytes go \<times> ('pk, 'sk, 'd) Server" where
  "Server_ReadAt b2 env req s =
     (if raq_Offset req > of_nat blob_Size then (Err (ErrNew ''offset is beyond blob bounds''), s)
      else if raq_Offset req + raq_Len req > of_nat blob_Size then (Err (ErrNew ''read is beyond blob bounds''), s)
      else if raq_Len req = 0 then (Ok [], s)
      else
        case lock_TryRLock (nd_lock (sv_node s)) (raq_Name req) of
          (False, l1) \<Rightarrow> (Err (ErrNew ''name is busy''), s\<lparr>sv_node := (sv_node s)\<lparr>nd_lock := l1\<rparr>\<rparr>)
        | (True, l1) \<Rightarrow>
            (case ReadAt_open b2 env req (sv_world s) of
               (r, w1) \<Rightarrow>
                 (case lock_RUnlock l1 (raq_Name req) of
                    (u, l2) \<Rightarrow>
                      (case u of Panic m \<Rightarrow> Panic m | _ \<Rightarrow> r,
                       s\<lparr>sv_node := (sv_node s)\<lparr>nd_world := w1, nd_lock := l2\<rparr>\<rparr>))))"

end
