(* ===== verification/Rpc_Client.thy ===== *)
theory Rpc_Client
  imports Rpc_Server
begin

text \<open>
  The clients of the blob calls: \<open>rpc/blob_writer.go\<close> and \<open>rpc/blob_reader.go\<close>, and the command that
  writes a blob, \<open>cmd/fnd-cli/cmd/blob/write.go\<close>.  A client stub is a record of calls on the state
  \<open>'s\<close> of what it is connected to; \<open>server_client\<close> is the stub whose calls reach a server of this
  development.
\<close>

section \<open>Stubs\<close>

record 's rpcClient =
  cl_Checkout :: "CheckoutReq \<Rightarrow> 's \<Rightarrow> CheckoutRes go \<times> 's"
  cl_WriteSector :: "WriteSectorReq \<Rightarrow> 's \<Rightarrow> err option go \<times> 's"
  cl_Commit :: "CommitReq \<Rightarrow> 's \<Rightarrow> unit go \<times> 's"
  cl_ReadAt :: "ReadAtReq \<Rightarrow> 's \<Rightarrow> bytes go \<times> 's"

text \<open>The state of the stub of a server counts its calls, each of which meets its own outside world.\<close>

definition at_call :: "('e \<Rightarrow> 'q \<Rightarrow> 's \<Rightarrow> 'r \<times> 's) \<Rightarrow> (nat \<Rightarrow> 'e) \<Rightarrow> 'q \<Rightarrow> nat \<times> 's \<Rightarrow> 'r \<times> nat \<times> 's" where
  "at_call f envs req st = (case f (envs (fst st)) req (snd st) of (r, s) \<Rightarrow> (r, fst st + 1, s))"

definition server_client ::
  "(bytes \<Rightarrow> bytes) \<Rightarrow> ('pk, 'sk) btcec \<Rightarrow> 'd leveldb \<Rightarrow> (nat \<Rightarrow> 'pk world_env) \<Rightarrow> (nat \<times> ('pk, 'sk, 'd) Server) rpcClient" where
  "server_client b2 ec L envs =
     \<lparr>cl_Checkout = at_call (Server_Checkout b2 L) envs, cl_WriteSector = at_call Server_WriteSector envs,
      cl_Commit = at_call (Server_Commit b2 ec L) envs, cl_ReadAt = at_call (Server_ReadAt b2) envs\<rparr>"

section \<open>The blob writer\<close>

record 'sk BlobWriter =
  wr_signer :: 'sk
  wr_name :: string
  wr_epochHeight :: uint16
  wr_sectorSize :: uint16
  wr_sectorTipHash :: Hash
  wr_txID :: uint32
  wr_opened :: bool
  wr_committed :: bool
  wr_resetEpoch :: bool

definition NewBlobWriter :: "'sk \<Rightarrow> string \<Rightarrow> bool \<Rightarrow> 'sk BlobWriter" where
  "NewBlobWriter signer name resetEpoch =
     \<lparr>wr_signer = signer, wr_name = name, wr_epochHeight = 0, wr_sectorSize = 0, wr_sectorTipHash = ZeroHash,
      wr_txID = 0, wr_opened = False, wr_committed = False, wr_resetEpoch = resetEpoch\<rparr>"

text \<open>The fields of the response are taken over before the hash is parsed.\<close>

definition BlobWriter_Open :: "'s rpcClient \<Rightarrow> 'sk BlobWriter \<Rightarrow> 's \<Rightarrow> unit go \<times> 'sk BlobWriter \<times> 's" where
  "BlobWriter_Open cl b s =
     (if wr_opened b then (Panic ''writer already open'', b, s)
      else if wr_committed b then (Panic ''writer committed'', b, s)
      else
        case cl_Checkout cl \<lparr>coq_Name = wr_name b, coq_ResetEpoch = wr_resetEpoch b\<rparr> s of
          (Panic m, s1) \<Rightarrow> (Panic m, b, s1)
        | (Err e, s1) \<Rightarrow> (Err (ErrWrap e ''failed to check out blob''), b, s1)
        | (Ok res, s1) \<Rightarrow>
            let b1 = b\<lparr>wr_txID := cor_TxID res, wr_epochHeight := ucast (cor_EpochHeight res),
                       wr_sectorSize := ucast (cor_SectorSize res)\<rparr> in
            case NewHashFromBytes (cor_SectorTipHash res) of
              Panic m \<Rightarrow> (Panic m, b1, s1)
            | Err e \<Rightarrow> (Err (ErrWrap e ''failed to check out blob''), b1, s1)
            | Ok tip \<Rightarrow> (Ok (), b1\<lparr>wr_sectorTipHash := tip, wr_opened := True\<rparr>, s1))"

definition BlobWriter_WriteSector ::
  "(bytes \<Rightarrow> bytes) \<Rightarrow> 's rpcClient \<Rightarrow> bytes \<Rightarrow> 'sk BlobWriter \<Rightarrow> 's \<Rightarrow> Hash go \<times> 'sk BlobWriter \<times> 's" where
  "BlobWriter_WriteSector b2 cl p b s =
     (if \<not> wr_opened b then (Panic ''writer not open'', b, s)
      else if wr_committed b then (Panic ''writer committed'', b, s)
      else
        case cl_WriteSector cl \<lparr>wsq_TxID = wr_txID b, wsq_Data = p\<rparr> s of
          (Panic m, s1) \<Rightarrow> (Panic m, b, s1)
        | (Err e, s1) \<Rightarrow> (Err (ErrWrap e ''error writing blob''), b, s1)
        | (Ok (Some e), s1) \<Rightarrow> (Err (ErrWrap e ''error writing blob''), b, s1)
        | (Ok None, s1) \<Rightarrow>
            let tip = SerialHashSector b2 (go_copy ZeroSector p) (wr_sectorTipHash b) in
            (Ok tip, b\<lparr>wr_sectorSize := wr_sectorSize b + 1, wr_sectorTipHash := tip\<rparr>, s1))"

definition commit_request :: "time \<Rightarrow> bool \<Rightarrow> Signature \<Rightarrow> 'sk BlobWriter \<Rightarrow> CommitReq" where
  "commit_request ts broadcast sig b =
     \<lparr>cmq_TxID = wr_txID b, cmq_Timestamp = of_int (time_Unix ts), cmq_Signature = sig, cmq_Broadcast = broadcast,
      cmq_EpochHeight = ucast (wr_epochHeight b), cmq_SectorSize = ucast (wr_sectorSize b),
      cmq_SectorTipHash = Hash_Bytes (wr_sectorTipHash b)\<rparr>"

definition BlobWriter_Commit ::
  "(bytes \<Rightarrow> bytes) \<Rightarrow> ('pk, 'sk) btcec \<Rightarrow> time \<Rightarrow> 's rpcClient \<Rightarrow> bool \<Rightarrow> 'sk BlobWriter \<Rightarrow> 's
     \<Rightarrow> Hash go \<times> 'sk BlobWriter \<times> 's" where
  "BlobWriter_Commit b2 ec ts cl broadcast b s =
     (if \<not> wr_opened b then (Panic ''writer not open'', b, s)
      else if wr_committed b then (Panic ''writer committed'', b, s)
      else
        case SignSeal b2 ec (wr_signer b) (wr_name b) (wr_epochHeight b) (wr_sectorSize b) (wr_sectorTipHash b) ZeroHash of
          Panic m \<Rightarrow> (Panic m, b, s)
        | Err e \<Rightarrow> (Err (ErrWrap e ''error sealing blob''), b, s)
        | Ok sig \<Rightarrow>
            (case cl_Commit cl (commit_request ts broadcast sig b) s of
               (Panic m, s1) \<Rightarrow> (Panic m, b, s1)
             | (Err e, s1) \<Rightarrow> (Err (ErrWrap e ''error sending commit''), b, s1)
             | (Ok _, s1) \<Rightarrow> (Ok (wr_sectorTipHash b), b\<lparr>wr_committed := True\<rparr>, s1)))"

section \<open>The write command\<close>

text \<open>
  The loop of \<open>fnd-cli blob write\<close> over the bytes given as its argument.  Each turn reads into the
  same array; a read that does not fill it leaves the rest of the previous sector in place.  A buffered
  reader holds 4096 bytes, a multiple of the sector size, so only the last read is short.  The errors
  of \<open>WriteSector\<close> are not looked at.
\<close>

fun writeCmd_loop ::
  "(bytes \<Rightarrow> bytes) \<Rightarrow> 's rpcClient \<Rightarrow> nat \<Rightarrow> Sector \<Rightarrow> bytes \<Rightarrow> 'sk BlobWriter \<Rightarrow> 's \<Rightarrow> unit go \<times> 'sk BlobWriter \<times> 's" where
  "writeCmd_loop b2 cl 0 sector rd b s = (Ok (), b, s)"
| "writeCmd_loop b2 cl (Suc n) sector rd b s =
     (case bytes_Read sector rd of
        Panic m \<Rightarrow> (Panic m, b, s)
      | Err e \<Rightarrow> if e = io_EOF then (Ok (), b, s) else (Err e, b, s)
      | Ok (sector1, rd1) \<Rightarrow>
          (case BlobWriter_WriteSector b2 cl sector1 b s of
             (Panic m, b1, s1) \<Rightarrow> (Panic m, b1, s1)
           | (_, b1, s1) \<Rightarrow> writeCmd_loop b2 cl n sector1 rd1 b1 s1))"

definition writeCmd ::
  "(bytes \<Rightarrow> bytes) \<Rightarrow> ('pk, 'sk) btcec \<Rightarrow> time \<Rightarrow> 's rpcClient \<Rightarrow> 'sk \<Rightarrow> string \<Rightarrow> bool \<Rightarrow> bool \<Rightarrow> bytes \<Rightarrow> 's
     \<Rightarrow> Hash go \<times> 's" where
  "writeCmd b2 ec ts cl signer name resetEpoch broadcast data s =
     (case BlobWriter_Open cl (NewBlobWriter signer name resetEpoch) s of
        (Panic m, _, s1) \<Rightarrow> (Panic m, s1)
      | (Err e, _, s1) \<Rightarrow> (Err e, s1)
      | (Ok _, b1, s1) \<Rightarrow>
          (case writeCmd_loop b2 cl MaxSectors ZeroSector data b1 s1 of
             (Panic m, _, s2) \<Rightarrow> (Panic m, s2)
           | (Err e, _, s2) \<Rightarrow> (Err e, s2)
           | (Ok _, b2', s2) \<Rightarrow>
               (case BlobWriter_Commit b2 ec ts cl broadcast b2' s2 of (r, _, s3) \<Rightarrow> (r, s3))))"

section \<open>The blob reader\<close>

record BlobReader =
  rr_name :: string
  rr_off :: int

definition NewBlobReader :: "string \<Rightarrow> BlobReader" where
  "NewBlobReader name = \<lparr>rr_name = name, rr_off = 0\<rparr>"

text \<open>The buffer afterwards, the count and the error.\<close>

definition BlobReader_ReadAt ::
  "'s rpcClient \<Rightarrow> BlobReader \<Rightarrow> bytes \<Rightarrow> int \<Rightarrow> 's \<Rightarrow> (bytes \<times> nat \<times> err option) go \<times> 's" where
  "BlobReader_ReadAt cl b p off s =
     (case cl_ReadAt cl \<lparr>raq_Name = rr_name b, raq_Offset = of_int off, raq_Len = of_nat (length p)\<rparr> s of
        (Panic m, s1) \<Rightarrow> (Panic m, s1)
      | (Err e, s1) \<Rightarrow> (Ok (p, 0, Some e), s1)
      | (Ok data, s1) \<Rightarrow>
          (Ok (go_copy p data, length data,
               if length data \<noteq> length p then Some (ErrNew ''unequal read - should not happen'') else None), s1))"

text \<open>\<open>p[:toRead]\<close> panics when \<open>toRead\<close> is negative, which an offset beyond the blob makes it.\<close>

definition BlobReader_Read ::
  "'s rpcClient \<Rightarrow> BlobReader \<Rightarrow> bytes \<Rightarrow> 's \<Rightarrow> (bytes \<times> nat \<times> err option) go \<times> BlobReader \<times> 's" where
  "BlobReader_Read cl b p s =
     (if rr_off b = int blob_Size then (Ok (p, 0, Some io_EOF), b, s)
      else
        let toRead = (if rr_off b + int (length p) > int blob_Size then int blob_Size - rr_off b else int (length p)) in
        if toRead < 0 then (Panic ''slice bounds out of range'', b, s)
        else
          case BlobReader_ReadAt cl b (take (nat toRead) p) (rr_off b) s of
            (Panic m, s1) \<Rightarrow> (Panic m, b, s1)
          | (Err e, s1) \<Rightarrow> (Err e, b, s1)
          | (Ok (q, n, e), s1) \<Rightarrow>
              (Ok (q @ drop (nat toRead) p, n, e), b\<lparr>rr_off := rr_off b + int n\<rparr>, s1))"

text \<open>A seek from the start checks the old offset and not the new one.\<close>

definition BlobReader_Seek :: "BlobReader \<Rightarrow> int \<Rightarrow> int \<Rightarrow> int go \<times> BlobReader" where
  "BlobReader_Seek b off whence =
     (let beyond = Err (ErrNew ''seek beyond blob bounds'') in
      if whence = 0 then
        if rr_off b > int blob_Size then (beyond, b) else (Ok off, b\<lparr>rr_off := off\<rparr>)
      else if whence = 1 then
        let next = rr_off b + off in if next > int blob_Size then (beyond, b) else (Ok next, b\<lparr>rr_off := next\<rparr>)
      else if whence = 2 then
        let next = int blob_Size - off in if next < 0 then (beyond, b) else (Ok next, b\<lparr>rr_off := next\<rparr>)
      else (Panic ''invalid whence'', b))"

end
