(* ===== verification/Rpc_Frame.thy ===== *)
theory Rpc_Frame
  imports Rpc_Client
begin

text \<open>
  What the blob calls and the write command leave alone: no call makes or removes a directory of the blob
  store or touches the sector server's cache,
  and without a broadcast nothing is sent.
\<close>

definition kept :: "bool \<Rightarrow> ('pk, 'sk, 'd) Server \<Rightarrow> ('pk, 'sk, 'd) Server \<Rightarrow> bool" where
  "kept g s s' \<longleftrightarrow>
     st_dirs (bw_store (sv_world s')) = st_dirs (bw_store (sv_world s)) \<and> nd_cache (sv_node s') = nd_cache (sv_node s) \<and>
     (\<not> g \<longrightarrow> nd_mux (sv_node s') = nd_mux (sv_node s) \<and> nd_sent (sv_node s') = nd_sent (sv_node s))"

lemma kept_refl [simp]: "kept g s s"
  by (simp add: kept_def)

lemma kept_trans: "kept g s s1 \<Longrightarrow> kept g s1 s2 \<Longrightarrow> kept g s s2"
  by (simp add: kept_def)

lemma kept_weaken: "kept False s s' \<Longrightarrow> kept g s s'"
  by (simp add: kept_def)

lemma bw_Open_dirs: "bw_Open b2 sys blobs w name = (r, w') \<Longrightarrow> st_dirs (bw_store w') = st_dirs (bw_store w)"
  by (auto simp: bw_Open_def storeImpl_Open_def Pool_Get_def NewInStorePath_def os_OpenFile_def Let_def
      split: option.splits prod.splits go.splits if_splits)

lemma bw_Close_dirs: "bw_Close sys w b = (r, w') \<Longrightarrow> st_dirs (bw_store w') = st_dirs (bw_store w)"
  by (auto simp: bw_Close_def wrappedBlob_Close_def Pool_Put_def blobHandle_Close_def Let_def
      split: option.splits prod.splits go.splits if_splits)

lemma awaiting_do_kept: "awaiting_do f a s = (r, s') \<Longrightarrow> kept False s s'"
  by (auto simp: awaiting_do_def kept_def sv_world_def sv_set_world_def bw_put_def split: option.splits prod.splits)

lemma awaiting_Close_kept: "awaiting_Close sys a s = (r, s') \<Longrightarrow> kept False s s'"
  by (auto simp: awaiting_Close_def kept_def sv_world_def sv_set_world_def dest: bw_Close_dirs split: option.splits prod.splits)

lemma ReaperFunc_kept: "Server_ReaperFunc env a s = (r, s') \<Longrightarrow> kept False s s'"
  by (auto simp: Server_ReaperFunc_def dest!: awaiting_do_kept awaiting_Close_kept intro: kept_trans split: prod.splits go.splits)

lemma reap_kept: "Server_reap env xs s = (r, s') \<Longrightarrow> kept False s s'"
  by (induction env xs s rule: Server_reap.induct) (auto dest: ReaperFunc_kept intro: kept_trans split: prod.splits go.splits)

lemma lookup_kept:
  assumes "Server_lookup env txID s = (r, s')"
  shows "kept False s s'"
proof -
  obtain v reaped c where c: "Cache_Get (we_now env 0) (sv_txStore s) (txKey txID) = (v, reaped, c)" by (metis prod_cases3)
  obtain x s1 where x: "Server_reap env reaped (s\<lparr>sv_txStore := c\<rparr>) = (x, s1)" by fastforce
  have "s' = s1" using assms c x by (auto simp: Server_lookup_def split: go.splits option.splits)
  then show ?thesis using reap_kept [OF x] by (simp add: kept_def sv_world_def)
qed

lemma WriteSector_kept: "Server_WriteSector env req s = (r, s') \<Longrightarrow> kept False s s'"
  by (auto simp: Server_WriteSector_def dest!: lookup_kept awaiting_do_kept intro: kept_trans split: prod.splits go.splits)

lemma kept_world: "st_dirs (bw_store w) = st_dirs (bw_store (sv_world s)) \<Longrightarrow> kept False s (sv_set_world w (s\<lparr>sv_lastTxID := i\<rparr>))"
  by (simp add: kept_def sv_world_def sv_set_world_def)

lemma store_kept: "Server_store env txID aw s = (r, s') \<Longrightarrow> kept False s s'"
  by (auto simp: Server_store_def kept_def sv_world_def split: prod.splits)

lemma Checkout_kept:
  assumes "Server_Checkout b2 L env req s = (r, s')"
  shows "kept False s s'"
proof -
  define txID where "txID = sv_lastTxID s + 1"
  obtain x w where w: "bw_Open b2 (we_sys env 0) (we_blobs env) (sv_world s) (coq_Name req) = (x, w)" by fastforce
  have wd: "st_dirs (bw_store w) = st_dirs (bw_store (sv_world s))" by (rule bw_Open_dirs [OF w])
  have pd: "st_dirs (bw_store (bw_put w b fs)) = st_dirs (bw_store w)" for b fs by (simp add: bw_put_def)
  have "(\<exists>w'. s' = sv_set_world w' (s\<lparr>sv_lastTxID := txID\<rparr>) \<and> st_dirs (bw_store w') = st_dirs (bw_store w))
      \<or> (\<exists>aw w' y. Server_store env txID aw (sv_set_world w' (s\<lparr>sv_lastTxID := txID\<rparr>)) = (y, s') \<and> st_dirs (bw_store w') = st_dirs (bw_store w))"
    using assms w pd
    by (auto simp: Server_Checkout_def Let_def txID_def [symmetric] sv_world_def split: prod.splits go.splits) metis+
  then show ?thesis using kept_world store_kept kept_trans wd by metis
qed

lemma Commit_check_kept: "Commit_check b2 ec L env req name a s = (r, s') \<Longrightarrow> kept False s s'"
  by (auto simp: Commit_check_def dest!: awaiting_do_kept split: prod.splits go.splits)

lemma kept_node:
  "kept g s (s'\<lparr>sv_txStore := c\<rparr>) = kept g s s'" "kept g s (s'\<lparr>sv_node := (sv_node s')\<lparr>nd_db := db\<rparr>\<rparr>) = kept g s s'"
  "kept g s (s'\<lparr>sv_node := (sv_node s')\<lparr>nd_lock := l\<rparr>\<rparr>) = kept g s s'"
  "kept True s (s'\<lparr>sv_node := (sv_node s')\<lparr>nd_mux := m, nd_sent := x\<rparr>\<rparr>) = kept True s s'"
  "kept g (s'\<lparr>sv_txStore := c\<rparr>) s = kept g s' s" "kept g (s'\<lparr>sv_node := (sv_node s')\<lparr>nd_db := db\<rparr>\<rparr>) s = kept g s' s"
  "kept g (s'\<lparr>sv_node := (sv_node s')\<lparr>nd_lock := l\<rparr>\<rparr>) s = kept g s' s"
  by (simp_all add: kept_def sv_world_def)

lemma Commit_gossip_kept: "Commit_gossip b2 ec env req name s = (r, s') \<Longrightarrow> kept (cmq_Broadcast req) s s'"
  by (auto simp: Commit_gossip_def kept_node split: prod.splits if_splits)

lemma Commit_locked_kept: "Commit_locked b2 ec L env req name a tip hashes s = (r, s') \<Longrightarrow> kept (cmq_Broadcast req) s s'"
  by (auto simp: Commit_locked_def kept_node dest!: awaiting_do_kept awaiting_Close_kept Commit_gossip_kept
      split: prod.splits go.splits) (metis kept_trans kept_weaken)+

lemma Commit_kept: "Server_Commit b2 ec L env req s = (r, s') \<Longrightarrow> kept (cmq_Broadcast req) s s'"
  by (auto simp: Server_Commit_def kept_node dest!: lookup_kept Commit_check_kept Commit_locked_kept
      split: prod.splits go.splits bool.splits) (metis kept_trans kept_weaken)+

lemma Open_kept: "BlobWriter_Open (server_client b2 ec L envs) b st = (r, b', st') \<Longrightarrow> kept False (snd st) (snd st')"
  by (auto simp: BlobWriter_Open_def server_client_def at_call_def Let_def dest!: Checkout_kept
      split: go.splits prod.splits if_splits)

lemma writer_WriteSector_kept:
  "BlobWriter_WriteSector b2 (server_client b2 ec L envs) p b st = (r, b', st') \<Longrightarrow> kept False (snd st) (snd st')"
  by (auto simp: BlobWriter_WriteSector_def server_client_def at_call_def Let_def dest!: WriteSector_kept
      split: go.splits prod.splits if_splits option.splits)

lemma writer_Commit_kept:
  "BlobWriter_Commit b2 ec ts (server_client b2 ec L envs) broadcast b st = (r, b', st') \<Longrightarrow> kept broadcast (snd st) (snd st')"
  by (auto simp: BlobWriter_Commit_def server_client_def at_call_def Let_def dest!: Commit_kept
      split: go.splits prod.splits if_splits) (simp_all add: commit_request_def)

lemma writeCmd_loop_kept:
  "writeCmd_loop b2 (server_client b2 ec L envs) n sec rd b st = (r, b', st') \<Longrightarrow> kept False (snd st) (snd st')"
proof (induction n arbitrary: sec rd b st)
  case (Suc n)
  show ?case
  proof (cases "bytes_Read sec rd")
    case (Ok x)
    obtain y b1 st1 where w: "BlobWriter_WriteSector b2 (server_client b2 ec L envs) (fst x) b st = (y, b1, st1)" by (metis prod_cases3)
    have "st' = st1 \<or> writeCmd_loop b2 (server_client b2 ec L envs) n (fst x) (snd x) b1 st1 = (r, b', st')"
      using Suc.prems Ok w by (cases x; cases y) auto
    then show ?thesis using writer_WriteSector_kept [OF w] Suc.IH kept_trans by metis
  qed (use Suc.prems in \<open>auto split: if_splits\<close>)
qed simp

lemma writeCmd_kept:
  assumes "writeCmd b2 ec ts (server_client b2 ec L envs) sk name reset broadcast data st = (r, st')"
  shows "kept broadcast (snd st) (snd st')"
proof -
  obtain x b1 st1 where op: "BlobWriter_Open (server_client b2 ec L envs) (NewBlobWriter sk name reset) st = (x, b1, st1)" by (metis prod_cases3)
  obtain y bb st2 where lp: "writeCmd_loop b2 (server_client b2 ec L envs) MaxSectors ZeroSector data b1 st1 = (y, bb, st2)" by (metis prod_cases3)
  obtain z bc st3 where cm: "BlobWriter_Commit b2 ec ts (server_client b2 ec L envs) broadcast bb st2 = (z, bc, st3)" by (metis prod_cases3)
  have "st' = st1 \<or> st' = st2 \<or> st' = st3"
    using assms op lp cm by (cases x; cases y) (simp_all add: writeCmd_def)
  then show ?thesis
    using Open_kept [OF op] writeCmd_loop_kept [OF lp] writer_Commit_kept [OF cm] kept_trans kept_weaken by metis
qed

end
