(* ===== verification/Rpc_Publish.thy ===== *)
theory Rpc_Publish
  imports Rpc_Frame Proto_Replication
begin

text \<open>
  Publishing: the write command of the client against the RPC server of a node.  The state of a session
  between its calls is \<open>checked_out\<close>: the cache knows the transaction, the transaction is live and its
  working copy and position are those of the abstract transaction \<open>a\<close>, while the files of the store are
  as they were.
\<close>

section \<open>A session\<close>

definition checked_out ::
  "(bytes \<Rightarrow> bytes) \<Rightarrow> string \<Rightarrow> ofile \<Rightarrow> string \<Rightarrow> uint32 \<Rightarrow> time \<Rightarrow> aTx \<Rightarrow> ('pk, 'sk, 'd) Server \<Rightarrow> bool" where
  "checked_out b2 blobs f name txID expiry a s \<longleftrightarrow>
     (\<exists>p aw e n0.
        map_of (cache_entries (sv_txStore s)) (txKey txID) = Some \<lparr>entry_val = p, entry_expiry = expiry\<rparr> \<and>
        sv_awaiting s p = Some aw \<and> tx_name (aw_tx aw) = name \<and>
        world_ok b2 blobs (sv_world s) \<and>
        pool_blobs (bw_pool (sv_world s)) name = Some e \<and> pe_blob e = aw_blob aw \<and>
        tx_ok n0 (f, True, True) (aw_tx aw, bw_view (sv_world s) (aw_blob aw)) \<and>
        tx_abs (aw_tx aw, bw_view (sv_world s) (aw_blob aw)) = a)"

lemma sv_world_simps [simp]:
  "sv_world (sv_set_world w s) = w" "sv_txStore (sv_set_world w s) = sv_txStore s"
  "sv_awaiting (sv_set_world w s) = sv_awaiting s" "sv_next (sv_set_world w s) = sv_next s"
  "sv_lastTxID (sv_set_world w s) = sv_lastTxID s"
  "nd_db (sv_node (sv_set_world w s)) = nd_db (sv_node s)" "nd_lock (sv_node (sv_set_world w s)) = nd_lock (sv_node s)"
  "sv_world (s\<lparr>sv_txStore := c\<rparr>) = sv_world s" "sv_world (s\<lparr>sv_awaiting := aw\<rparr>) = sv_world s"
  "sv_world (s\<lparr>sv_lastTxID := i\<rparr>) = sv_world s" "sv_world (s\<lparr>sv_next := n\<rparr>) = sv_world s"
  by (simp_all add: sv_world_def sv_set_world_def)

lemma bw_view_put:
  assumes "world_ok b2 blobs w" and "pool_blobs (bw_pool w) name = Some e" and "blob_part fs = (f, True, True)"
  shows "bw_view (bw_put w (pe_blob e) fs) (pe_blob e) = fs"
proof -
  have "bh_id (pe_blob e) \<in> st_open (bw_store w)"
    using assms(1,2) by (auto simp: world_ok_def pool_inv_def entry_ok_def)
  then show ?thesis using assms(3) by (simp add: bw_view_def bw_put_def bw_file_def blob_part_def)
qed

lemma tx_ok_blob: "tx_ok n0 (f, True, True) (t, bw_view w b) \<Longrightarrow> bw_file w (bh_path b) = f"
  by (simp add: tx_ok_def blob_part_def bw_view_def)

text \<open>A call on the transaction that keeps it live.\<close>

lemma awaiting_do_ok:
  assumes aw: "sv_awaiting s p = Some aw" and ok: "world_ok b2 blobs (sv_world s)"
    and e: "pool_blobs (bw_pool (sv_world s)) name = Some e" "pe_blob e = aw_blob aw"
    and run: "F (aw_tx aw) (bw_view (sv_world s) (aw_blob aw)) = (r, t1, fs1)"
    and d: "tx_done (g, True, True) fs1" "file_wf g" "blob_Size \<le> fsize g"
  obtains s' where "awaiting_do F p s = (r, s')" "sv_awaiting s' = (sv_awaiting s)(p \<mapsto> aw\<lparr>aw_tx := t1\<rparr>)"
    "sv_txStore s' = sv_txStore s" "nd_db (sv_node s') = nd_db (sv_node s)" "nd_lock (sv_node s') = nd_lock (sv_node s)"
    "nd_mux (sv_node s') = nd_mux (sv_node s)" "world_ok b2 blobs (sv_world s')" "bw_pool (sv_world s') = bw_pool (sv_world s)"
    "bw_view (sv_world s') (aw_blob aw) = fs1"
    "st_files (bw_store (sv_world s')) = (st_files (bw_store (sv_world s)))(blob_path b2 blobs name := Some g)"
proof -
  define w where "w = bw_put (sv_world s) (aw_blob aw) fs1"
  define s' where "s' = (sv_set_world w s)\<lparr>sv_awaiting := (sv_awaiting s)(p \<mapsto> aw\<lparr>aw_tx := t1\<rparr>)\<rparr>"
  have s': "awaiting_do F p s = (r, s')" using aw run by (simp add: awaiting_do_def s'_def w_def)
  note put = bw_put_ok [OF ok e(1) d, unfolded e(2)]
  have view: "bw_view w (aw_blob aw) = fs1"
    using bw_view_put [OF ok e(1), of fs1 g] d(1) by (simp add: w_def e(2) tx_done_def)
  show ?thesis
    by (rule that [of s']) (use s' put view in \<open>simp_all add: s'_def w_def sv_set_world_def sv_world_def\<close>)
qed

lemma tx_ok_done: "tx_ok n0 P (t, fs) \<Longrightarrow> tx_done P fs"
  using tx_ok_fresh by (auto simp: tx_ok_def tx_done_def)

lemma world_file:
  assumes "world_ok b2 blobs w" and "pool_blobs (bw_pool w) name = Some e"
    and "tx_ok n0 (f, True, True) (t, bw_view w (pe_blob e))"
  shows "st_files (bw_store w) (blob_path b2 blobs name) = Some f" and "file_wf f" and "blob_Size \<le> fsize f"
proof -
  have path: "bh_path (pe_blob e) = blob_path b2 blobs name" using assms(1,2) by (simp add: world_ok_def)
  obtain f' where f': "st_files (bw_store w) (blob_path b2 blobs name) = Some f'" "blob_Size \<le> fsize f'" "file_wf f'"
    using assms(1,2) unfolding world_ok_def by metis
  moreover have "f' = f" using tx_ok_blob [OF assms(3)] f'(1) by (simp add: bw_file_def path)
  ultimately show "st_files (bw_store w) (blob_path b2 blobs name) = Some f" "file_wf f" "blob_Size \<le> fsize f" by simp_all
qed

lemma Server_lookup_ok:
  assumes "map_of (cache_entries (sv_txStore s)) (txKey txID) = Some \<lparr>entry_val = p, entry_expiry = expiry\<rparr>"
    and "sv_awaiting s p = Some aw" and "we_now env 0 \<le> expiry"
  shows "Server_lookup env txID s = (Ok (p, aw), s)"
  using assms by (simp add: Server_lookup_def Cache_Get_def)

section \<open>Writing\<close>

lemma WriteSector_name: "txImpl_WriteSector sys_fine t fs sector = (r, t1, fs1) \<Longrightarrow> tx_name t1 = tx_name t"
  by (auto simp: txImpl_WriteSector_def txImpl_enter_def txImpl_lazyInitialize_def Let_def
      split: if_splits prod.splits go.splits option.splits)

lemma WriteSector_fine:
  assumes "tx_ok n0 P (t, fs)"
  shows "fst (txImpl_WriteSector sys_fine t fs sector) = Ok ()"
proof -
  obtain t1 fs1 where "txImpl_enter sys_fine t fs = (Ok (), t1, fs1)" "tx_ok n0 P (t1, fs1)" "tx_initialized t1"
    using tx_enter_ok [OF assms] .
  then show ?thesis
    by (auto simp: txImpl_WriteSector_def WriteSector_def tx_ok_def tx_live_def tmp_WriteAt_def file_WriteAt_def Let_def not_less
        split: prod.splits if_splits)
qed

lemma Server_WriteSector_ok:
  assumes co: "checked_out b2 blobs f name txID expiry a s" and sys: "we_sys env 1 = sys_fine"
    and now: "we_now env 0 \<le> expiry"
  obtains s' where "Server_WriteSector env \<lparr>wsq_TxID = txID, wsq_Data = data\<rparr> s = (Ok None, s')"
    "checked_out b2 blobs f name txID expiry (aTx_exec (OpWriteSector (go_copy ZeroSector data)) a) s'"
    "nd_db (sv_node s') = nd_db (sv_node s)" "nd_lock (sv_node s') = nd_lock (sv_node s)"
    "st_files (bw_store (sv_world s')) = st_files (bw_store (sv_world s))"
proof -
  define sec where "sec = go_copy ZeroSector data"
  obtain p aw e n0 where c: "map_of (cache_entries (sv_txStore s)) (txKey txID) = Some \<lparr>entry_val = p, entry_expiry = expiry\<rparr>"
    and aw: "sv_awaiting s p = Some aw" "tx_name (aw_tx aw) = name" and ok: "world_ok b2 blobs (sv_world s)"
    and e: "pool_blobs (bw_pool (sv_world s)) name = Some e" "pe_blob e = aw_blob aw"
    and tx: "tx_ok n0 (f, True, True) (aw_tx aw, bw_view (sv_world s) (aw_blob aw))"
    and a: "tx_abs (aw_tx aw, bw_view (sv_world s) (aw_blob aw)) = a"
    using co unfolding checked_out_def by blast
  note wf = world_file [OF ok e(1) tx [folded e(2)]]
  define F where "F = (\<lambda>t fs. txImpl_WriteSector sys_fine t fs sec)"
  obtain r t1 fs1 where w: "F (aw_tx aw) (bw_view (sv_world s) (aw_blob aw)) = (r, t1, fs1)" by (metis prod_cases3)
  have step: "(t1, fs1) = tx_exec sys_fine (OpWriteSector sec) (aw_tx aw, bw_view (sv_world s) (aw_blob aw))"
    using w by (simp add: F_def)
  have ok1: "tx_ok n0 (f, True, True) (t1, fs1)" unfolding step by (rule tx_exec_ok [OF tx])
  have abs1: "tx_abs (t1, fs1) = aTx_exec (OpWriteSector sec) a"
    unfolding step a [symmetric] using tx unfolding tx_ok_def by (blast dest: tx_exec_refines)
  have r: "r = Ok ()" using WriteSector_fine [OF tx, of sec] w by (simp add: F_def)
  obtain s' where s': "awaiting_do F p s = (r, s')" "sv_awaiting s' = (sv_awaiting s)(p \<mapsto> aw\<lparr>aw_tx := t1\<rparr>)"
    "sv_txStore s' = sv_txStore s" "nd_db (sv_node s') = nd_db (sv_node s)" "nd_lock (sv_node s') = nd_lock (sv_node s)"
    "world_ok b2 blobs (sv_world s')" "bw_pool (sv_world s') = bw_pool (sv_world s)"
    "bw_view (sv_world s') (aw_blob aw) = fs1"
    "st_files (bw_store (sv_world s')) = (st_files (bw_store (sv_world s)))(blob_path b2 blobs name := Some f)"
    by (rule awaiting_do_ok [where F = F, OF aw(1) ok e w tx_ok_done [OF ok1] wf(2,3)])
  have "Server_WriteSector env \<lparr>wsq_TxID = txID, wsq_Data = data\<rparr> s = (Ok None, s')"
    using Server_lookup_ok [OF c aw(1) now] s'(1) r sys by (simp add: Server_WriteSector_def F_def sec_def)
  moreover have "checked_out b2 blobs f name txID expiry (aTx_exec (OpWriteSector sec) a) s'"
    unfolding checked_out_def
    by (intro exI [of _ p] exI [of _ "aw\<lparr>aw_tx := t1\<rparr>"] exI [of _ e] exI [of _ n0])
      (use c aw s' e ok1 abs1 WriteSector_name [OF w [unfolded F_def]] in simp)
  moreover have "st_files (bw_store (sv_world s')) = st_files (bw_store (sv_world s))"
    using s'(9) wf(1) by (simp add: fun_upd_idem)
  ultimately show ?thesis using that s'(4,5) by (simp add: sec_def)
qed

section \<open>Checking out\<close>

lemma Cache_Set_lookup:
  assumes "Cache_Set now c key (Some x) expMS = (r, c')" and "expMS \<noteq> 0"
  shows "r = Ok () \<and> map_of (cache_entries c') key
    = Some \<lparr>entry_val = x, entry_expiry = int64 (now + int64 (expMS * time_Millisecond))\<rparr>"
  using assms by (auto simp: Cache_Set_def Let_def Cache_touchReaper_def update_conv')

definition session_expiry :: "time \<Rightarrow> time" where
  "session_expiry now = int64 (now + int64 (TransactionExpiry * time_Millisecond))"

lemma session_expiry_plus: "0 \<le> now \<Longrightarrow> now < 2 ^ 62 \<Longrightarrow> session_expiry now = now + 15 * time_Second"
  by (simp add: session_expiry_def int64_def TransactionExpiry_def time_Millisecond_def time_Second_def)

lemma Checkout_tx_ok:
  assumes ok: "tx_ok n0 P (blobImpl_Transaction (coq_Name req), fs)" and sys: "we_sys env 1 = sys_fine"
    and fit: "unat k \<le> MaxSectors"
    and sched: "coq_ResetEpoch req \<Longrightarrow> ep \<le> CurrentEpoch b2 (we_now env 2) (coq_Name req)"
  obtains t fs1 where "Checkout_tx b2 env req (ep, k, tip) fs =
      (Ok (if coq_ResetEpoch req then (ep + 1, 0, ZeroHash) else (ep, k, tip)), t, fs1)"
    "tx_ok n0 P (t, fs1)" "tx_name t = coq_Name req"
    "tx_abs (t, fs1) = \<lparr>at_work = if coq_ResetEpoch req then blank_blob else fs_blob fs,
       at_pos = if coq_ResetEpoch req then 0 else k\<rparr>"
proof (cases "coq_ResetEpoch req")
  case False
  define t where "t = blobImpl_Transaction (coq_Name req)"
  have "tx_sectorSize t = 0" by (simp add: t_def blobImpl_Transaction_def)
  note sk = Seek_start [OF ok [folded t_def] this fit]
  show ?thesis
    by (rule that [of "t\<lparr>tx_sectorSize := k\<rparr>" fs])
      (use False sk in \<open>simp_all add: Checkout_tx_def Checkout_reset_def t_def tx_abs_def tx_view_def blobImpl_Transaction_def\<close>)
next
  case True
  define t where "t = blobImpl_Transaction (coq_Name req)"
  obtain t1 fs1 where tr: "txImpl_Truncate sys_fine t fs = (Ok (), t1, fs1)"
    and abs: "tx_abs (t1, fs1) = (tx_abs (t, fs))\<lparr>at_work := blank_blob\<rparr>"
    using Truncate_live [of n0 t fs] ok unfolding tx_ok_def t_def by blast
  have ok1: "tx_ok n0 P (t1, fs1)" using tx_exec_ok [OF ok, of OpTruncate] tr by (simp add: t_def)
  have "tx_sectorSize t1 = 0" using abs by (simp add: tx_abs_def t_def blobImpl_Transaction_def)
  note sk = Seek_start [OF ok1 this, of 0]
  have nm: "tx_name t1 = tx_name t"
    using tr by (auto simp: txImpl_Truncate_def Let_def split: if_splits prod.splits option.splits)
  show ?thesis
    by (rule that [of "t1\<lparr>tx_sectorSize := 0\<rparr>" fs1])
      (use True sk tr abs nm sys sched in
        \<open>simp_all add: Checkout_tx_def Checkout_reset_def t_def tx_abs_def tx_view_def blobImpl_Transaction_def not_less
          split: if_splits\<close>)
qed

lemma Server_Checkout_ok:
  fixes s :: "('pk, 'sk, 'd) Server"
  assumes sys: "\<And>i. we_sys env i = sys_fine" and ok: "world_ok b2 (we_blobs env) (sv_world s)"
    and opn: "bw_Open b2 sys_fine (we_blobs env) (sv_world s) name = (Ok b, w1)"
    and pos: "Checkout_position b2 L (we_now env 1) (nd_db (sv_node s)) name = Ok (ep, k, tip)"
    and fit: "unat k \<le> MaxSectors" and sched: "reset \<Longrightarrow> ep \<le> CurrentEpoch b2 (we_now env 2) name"
  obtains s' f where "Server_Checkout b2 L env \<lparr>coq_Name = name, coq_ResetEpoch = reset\<rparr> s =
      (Ok \<lparr>cor_TxID = sv_lastTxID s + 1, cor_EpochHeight = ucast (if reset then ep + 1 else ep),
           cor_SectorSize = ucast (if reset then 0 else k),
           cor_SectorTipHash = Hash_Bytes (if reset then ZeroHash else tip)\<rparr>, s')"
    "checked_out b2 (we_blobs env) f name (sv_lastTxID s + 1) (session_expiry (we_now env 3))
       \<lparr>at_work = if reset then blank_blob else f, at_pos = if reset then 0 else k\<rparr> s'"
    "nd_db (sv_node s') = nd_db (sv_node s)" "nd_lock (sv_node s') = nd_lock (sv_node s)"
    "same_sectors (sv_world s) (sv_world s')" "blob_file b2 (we_blobs env) (sv_world s') name = f"
proof -
  define req where "req = \<lparr>coq_Name = name, coq_ResetEpoch = reset\<rparr>"
  define txID where "txID = sv_lastTxID s + 1"
  note opened = bw_Open_ok [OF ok opn]
  then obtain e where ok1: "world_ok b2 (we_blobs env) w1" and e: "pool_blobs (bw_pool w1) name = Some e" "pe_blob e = b" by blast
  define f where "f = bw_file w1 (blob_path b2 (we_blobs env) name)"
  have tx0: "tx_ok (bw_next w1) (f, True, True) (blobImpl_Transaction name, bw_view w1 b)"
    using bw_view_ok [OF ok1 e(1)] by (simp add: f_def e(2))
  note wf = world_file [OF ok1 e(1) tx0 [folded e(2)]]
  obtain t fs1 where co: "Checkout_tx b2 env req (ep, k, tip) (bw_view w1 b) =
      (Ok (if reset then (ep + 1, 0, ZeroHash) else (ep, k, tip)), t, fs1)"
    and tx: "tx_ok (bw_next w1) (f, True, True) (t, fs1)" and nm: "tx_name t = name"
    and abs: "tx_abs (t, fs1) = \<lparr>at_work = if reset then blank_blob else fs_blob (bw_view w1 b), at_pos = if reset then 0 else k\<rparr>"
    using Checkout_tx_ok [of "bw_next w1" "(f, True, True)" req "bw_view w1 b" env k ep b2 tip] tx0 sys fit sched
    by (auto simp: req_def)
  have fb: "fs_blob (bw_view w1 b) = f" using tx0 by (simp add: tx_ok_def blob_part_def)
  define w2 where "w2 = bw_put w1 b fs1"
  note put = bw_put_ok [OF ok1 e(1) tx_ok_done [OF tx] wf(2,3), unfolded e(2), folded w2_def]
  have view: "bw_view w2 b = fs1"
    using bw_view_put [OF ok1 e(1), of fs1 f] tx by (simp add: w2_def e(2) tx_ok_def)
  define s1 where "s1 = sv_set_world w2 (s\<lparr>sv_lastTxID := txID\<rparr>)"
  obtain x c where set: "Cache_Set (we_now env 3) (sv_txStore s) (txKey txID) (Some (sv_next s)) TransactionExpiry = (x, c)"
    by fastforce
  have cache: "x = Ok ()" "map_of (cache_entries c) (txKey txID) =
      Some \<lparr>entry_val = sv_next s, entry_expiry = session_expiry (we_now env 3)\<rparr>"
    using Cache_Set_lookup [OF set] by (simp_all add: TransactionExpiry_def session_expiry_def)
  define s' where "s' = s1\<lparr>sv_txStore := c, sv_awaiting := (sv_awaiting s)(sv_next s \<mapsto> \<lparr>aw_blob = b, aw_tx = t\<rparr>),
      sv_next := sv_next s + 1\<rparr>"
  have st: "Server_store env txID \<lparr>aw_blob = b, aw_tx = t\<rparr> s1 = (Ok (), s')"
    using set cache(1) by (simp add: Server_store_def s'_def s1_def)
  have w': "sv_world s' = w2" by (simp add: s'_def s1_def)
  show ?thesis
  proof (rule that [of s' f])
    show "Server_Checkout b2 L env \<lparr>coq_Name = name, coq_ResetEpoch = reset\<rparr> s =
      (Ok \<lparr>cor_TxID = sv_lastTxID s + 1, cor_EpochHeight = ucast (if reset then ep + 1 else ep),
           cor_SectorSize = ucast (if reset then 0 else k),
           cor_SectorTipHash = Hash_Bytes (if reset then ZeroHash else tip)\<rparr>, s')"
      using opn pos co st sys
      by (simp add: Server_Checkout_def req_def txID_def [symmetric] Let_def s1_def w2_def)
    show "checked_out b2 (we_blobs env) f name (sv_lastTxID s + 1) (session_expiry (we_now env 3))
       \<lparr>at_work = if reset then blank_blob else f, at_pos = if reset then 0 else k\<rparr> s'"
      unfolding checked_out_def w'
      by (intro exI [of _ "sv_next s"] exI [of _ "\<lparr>aw_blob = b, aw_tx = t\<rparr>"] exI [of _ e] exI [of _ "bw_next w1"])
        (use cache put e nm tx view abs fb in \<open>simp add: s'_def txID_def\<close>)
    show "nd_db (sv_node s') = nd_db (sv_node s)" "nd_lock (sv_node s') = nd_lock (sv_node s)"
      by (simp_all add: s'_def s1_def)
    have "bw_file w2 path = bw_file w1 path" for path using put(3) wf(1) by (simp add: bw_file_def)
    then show "same_sectors (sv_world s) (sv_world s')" "blob_file b2 (we_blobs env) (sv_world s') name = f"
      using opened by (simp_all add: w' same_sectors_def blob_file_def f_def)
  qed
qed

section \<open>Committing\<close>

lemma bw_Close_fine:
  assumes ok: "world_ok b2 blobs w" and e: "pool_blobs (bw_pool w) name = Some e"
  shows "fst (bw_Close sys_fine w (pe_blob e)) = Ok ()"
proof -
  obtain H where H: "pool_inv (bw_pool w) (bw_store w) H" using ok by (auto simp: world_ok_def)
  then have "bh_name (pe_blob e) = name" "bh_id (pe_blob e) \<in> st_open (bw_store w)" "pe_refs e = int (H name)" "0 < H name"
    using e by (simp_all add: pool_inv_def entry_ok_def)
  then show ?thesis
    using e by (auto simp: bw_Close_def wrappedBlob_Close_def Pool_Put_def blobHandle_Close_def Let_def split: prod.splits)
qed

lemma GossipAll_no_panic:
  assumes "message_fits m"
  shows "fst (GossipAll b2 ec now net mux m) \<noteq> Panic x"
proof -
  have key: "PeerMuxer_gossipKey b2 ec i m \<noteq> Panic y" for i y
    using Message_Encode_total [of ec m] assms
    by (cases "Message_Encode ec m")
      (simp add: PeerMuxer_gossipKey_def Message_Hash_def HashCacher_Hash_def HashCacher_new_def Let_def)
  have "fst (GossipLoop b2 ec now m is c) \<noteq> Panic x" for "is" c
  proof (induction "is" arbitrary: c)
    case (Cons i "is")
    show ?case
    proof (cases "PeerMuxer_gossipKey b2 ec i m")
      case (Ok key)
      obtain has rp c1 where h: "Cache_Has now c key = (has, rp, c1)" by (metis prod_cases3)
      obtain r c2 where "GossipLoop b2 ec now m is c1 = (r, c2)" by fastforce
      then show ?thesis using Ok h Cons [of c1] by (cases r) simp_all
    qed (use key in simp_all)
  qed simp
  then show ?thesis
    by (auto simp: GossipAll_def PeerMuxer_GossipPeerIDs_def split: prod.splits go.splits) (metis fst_conv)
qed

lemma lock_cycle:
  assumes "inUse l k = None"
  shows "\<exists>l1. lock_TryLock l k = (True, l1) \<and> (\<exists>l2. lock_Unlock l1 k = (Ok (), l2) \<and> inUse l2 = inUse l)"
  using assms by (simp add: lock_ops_defs Let_def fun_eq_iff)

lemma ucast_16_32: "ucast (ucast (x :: uint16) :: uint32) = x"
  by transfer simp

text \<open>The checks: the transaction is hashed, which may make its clone, and stays as it was.\<close>

lemma Commit_check_ok:
  assumes aw: "sv_awaiting s p = Some aw" and ok: "world_ok b2 blobs (sv_world s)"
    and e: "pool_blobs (bw_pool (sv_world s)) name = Some e" "pe_blob e = aw_blob aw"
    and tx: "tx_ok n0 (f, True, True) (aw_tx aw, bw_view (sv_world s) (aw_blob aw))"
    and a: "tx_abs (aw_tx aw, bw_view (sv_world s) (aw_blob aw)) = a"
    and sys: "we_sys env 1 = sys_fine" and info: "GetNameInfo L ec (nd_db (sv_node s)) name = Ok info"
    and req: "cmq_SectorTipHash req = tip" "cmq_Signature req = sig" "cmq_EpochHeight req = ucast ep" "cmq_SectorSize req = ucast sz"
    and tip: "tip = SectorHashes_Tip (blob_tree b2 (at_work a) sz)" and sz: "unat sz \<le> MaxSectors" and sig: "sig_wf sig"
    and ver: "VerifySigPub ec (ni_PublicKey info) sig (SealHash b2 name ep sz tip ZeroHash) = Ok True"
  obtains s' t1 where "Commit_check b2 ec L env req name p s = (Ok (tip, blob_tree b2 (at_work a) sz), s')"
    "sv_awaiting s' = (sv_awaiting s)(p \<mapsto> aw\<lparr>aw_tx := t1\<rparr>)" "sv_txStore s' = sv_txStore s"
    "nd_db (sv_node s') = nd_db (sv_node s)" "nd_lock (sv_node s') = nd_lock (sv_node s)" "world_ok b2 blobs (sv_world s')"
    "bw_pool (sv_world s') = bw_pool (sv_world s)" "tx_ok n0 (f, True, True) (t1, bw_view (sv_world s') (aw_blob aw))"
    "tx_abs (t1, bw_view (sv_world s') (aw_blob aw)) = a"
    "st_files (bw_store (sv_world s')) = st_files (bw_store (sv_world s))"
proof -
  note wf = world_file [OF ok e(1) tx [folded e(2)]]
  define F where "F = (\<lambda>t fs. tx_SerialHash b2 sys_fine t fs sz)"
  have work: "tx_view (aw_tx aw) (bw_view (sv_world s) (aw_blob aw)) = at_work a" using a by (auto simp: tx_abs_def)
  obtain t1 fs1 where ok1: "tx_ok n0 (f, True, True) (t1, fs1)"
    and abs1: "tx_abs (t1, fs1) = tx_abs (aw_tx aw, bw_view (sv_world s) (aw_blob aw))"
    and h: "tx_SerialHash b2 sys_fine (aw_tx aw) (bw_view (sv_world s) (aw_blob aw)) sz =
      (if unat sz \<le> MaxSectors then Ok (blob_tree b2 (tx_view (aw_tx aw) (bw_view (sv_world s) (aw_blob aw))) sz) else Err io_EOF, t1, fs1)"
    using tx_SerialHash_ok [OF tx] .
  have w: "F (aw_tx aw) (bw_view (sv_world s) (aw_blob aw)) = (Ok (blob_tree b2 (at_work a) sz), t1, fs1)"
    using h sz by (simp add: F_def work)
  obtain s' where s': "awaiting_do F p s = (Ok (blob_tree b2 (at_work a) sz), s')"
    "sv_awaiting s' = (sv_awaiting s)(p \<mapsto> aw\<lparr>aw_tx := t1\<rparr>)"
    "sv_txStore s' = sv_txStore s" "nd_db (sv_node s') = nd_db (sv_node s)" "nd_lock (sv_node s') = nd_lock (sv_node s)"
    "world_ok b2 blobs (sv_world s')" "bw_pool (sv_world s') = bw_pool (sv_world s)" "bw_view (sv_world s') (aw_blob aw) = fs1"
    "st_files (bw_store (sv_world s')) = (st_files (bw_store (sv_world s)))(blob_path b2 blobs name := Some f)"
    by (rule awaiting_do_ok [where F = F, OF aw ok e w tx_ok_done [OF ok1] wf(2,3)])
  have hw: "hash_wf tip" unfolding tip by (rule hash_wf_Tip [OF blob_tree_wf(2)])
  have "NewHashFromBytes tip = Ok tip" using hw by (simp add: NewHashFromBytes_Ok)
  moreover have "go_copy ZeroSignature sig = sig"
    using sig by (simp add: sig_wf_def ZeroSignature_def go_copy_same_length)
  ultimately have "Commit_check b2 ec L env req name p s = (Ok (tip, blob_tree b2 (at_work a) sz), s')"
    using info s'(1) ver sys by (simp add: Commit_check_def req F_def tip [symmetric] ucast_16_32)
  then show ?thesis
    using that [of s' t1] s' ok1 abs1 a wf(1) by (simp add: fun_upd_idem)
qed

lemma Commit_locked_ok:
  assumes fine: "leveldb_fine L v" and c: "GetHeaderCount L (nd_db (sv_node s)) = Ok cnt"
    and aw: "sv_awaiting s p = Some aw" and ok: "world_ok b2 blobs (sv_world s)"
    and e: "pool_blobs (bw_pool (sv_world s)) name = Some e" "pe_blob e = aw_blob aw"
    and tx: "tx_ok n0 (f, True, True) (aw_tx aw, bw_view (sv_world s) (aw_blob aw))"
    and a: "tx_abs (aw_tx aw, bw_view (sv_world s) (aw_blob aw)) = a"
    and sys: "\<And>i. we_sys env i = sys_fine" and fits: "name_fits name" "json_string name = name"
    and h: "h = commit_header name req tip (we_now env 6)" "header_wf h" "hd_SectorSize h = sz"
    and tip: "tip = SectorHashes_Tip (blob_tree b2 (at_work a) sz)" and sz: "unat sz \<le> MaxSectors"
  obtains s' g where "Commit_locked b2 ec L env req name p tip (blob_tree b2 (at_work a) sz) s = (Ok (), s')"
    "GetHeader L (nd_db (sv_node s')) name = Ok h" "describes b2 L (nd_db (sv_node s')) name g"
    "nd_lock (sv_node s') = nd_lock (sv_node s)" "world_ok b2 blobs (sv_world s')"
    "st_files (bw_store (sv_world s')) = (st_files (bw_store (sv_world s)))(blob_path b2 blobs name := Some g)"
    "\<forall>i < MaxSectors. file_sector g i = file_sector (at_work a) i"
proof -
  have nm: "hd_Name h = name" by (simp add: h(1) commit_header_def)
  have tip': "hd_SectorTipHash h = tip" by (simp add: h(1) commit_header_def)
  obtain db1 w where w: "WithTx L (nd_db (sv_node s)) (SetHeaderTx L h (blob_tree b2 (at_work a) sz)) = (db1, w)" by fastforce
  have "count_of (v (nd_db (sv_node s))) = Ok cnt" using GetHeaderCount_fine [OF fine] c by simp
  then have new: "w = Ok ()" "hdr_new h (blob_tree b2 (at_work a) sz) (v (nd_db (sv_node s))) (v db1)"
    using WithTx_SetHeaderTx_fine [OF fine h(2) _ w] by simp_all
  define s0 where "s0 = s\<lparr>sv_node := (sv_node s)\<lparr>nd_db := db1\<rparr>\<rparr>"
  have s0: "sv_awaiting s0 p = Some aw" "sv_world s0 = sv_world s" "nd_db (sv_node s0) = db1" "nd_lock (sv_node s0) = nd_lock (sv_node s)"
    using aw by (simp_all add: s0_def sv_world_def)
  obtain fs2 g where cm: "txImpl_Commit sys_fine (aw_tx aw) (bw_view (sv_world s) (aw_blob aw)) = (Ok (), (aw_tx aw)\<lparr>tx_closed := True\<rparr>, fs2)"
    and g: "blob_part fs2 = (g, True, True)" "fs_fresh fs2" "file_wf g" "blob_Size \<le> fsize g"
    and secg: "\<forall>i < MaxSectors. file_sector g i = file_sector (tx_view (aw_tx aw) (bw_view (sv_world s) (aw_blob aw))) i"
    using Commit_ok [OF tx] .
  have work: "tx_view (aw_tx aw) (bw_view (sv_world s) (aw_blob aw)) = at_work a" using a by (auto simp: tx_abs_def)
  have gd: "tx_done (g, True, True) fs2" using g by (simp add: tx_done_def)
  obtain s1 where s1: "awaiting_do (txImpl_Commit sys_fine) p s0 = (Ok (), s1)"
    "sv_awaiting s1 = (sv_awaiting s0)(p \<mapsto> aw\<lparr>aw_tx := (aw_tx aw)\<lparr>tx_closed := True\<rparr>\<rparr>)"
    "nd_db (sv_node s1) = nd_db (sv_node s0)" "nd_lock (sv_node s1) = nd_lock (sv_node s0)" "world_ok b2 blobs (sv_world s1)"
    "bw_pool (sv_world s1) = bw_pool (sv_world s0)"
    "st_files (bw_store (sv_world s1)) = (st_files (bw_store (sv_world s0)))(blob_path b2 blobs name := Some g)"
    by (rule awaiting_do_ok [where F = "txImpl_Commit sys_fine" and g = g, OF s0(1) _ _ e(2) _ gd g(3,4)])
      (use s0(2) ok e(1) cm in simp_all)
  obtain x w2 where cl: "bw_Close sys_fine (sv_world s1) (pe_blob e) = (x, w2)" by fastforce
  have e1: "pool_blobs (bw_pool (sv_world s1)) name = Some e" using s1(6) s0(2) e(1) by simp
  have x: "x = Ok ()" using bw_Close_fine [OF s1(5) e1] cl by simp
  note w2 = bw_Close_ok [OF s1(5) e1 cl]
  define s2 where "s2 = (sv_set_world w2 s1)\<lparr>sv_txStore := Cache_Del (sv_txStore s1) (txKey (cmq_TxID req))\<rparr>"
  obtain y s' where gs: "Commit_gossip b2 ec env req name s2 = (y, s')" by fastforce
  have y: "y = Ok ()" "nd_db (sv_node s') = nd_db (sv_node s2)" "nd_lock (sv_node s') = nd_lock (sv_node s2)" "sv_world s' = sv_world s2"
    using gs GossipAll_no_panic [of "MUpdate \<lparr>update_Name = name, update_EpochHeight = ucast (cmq_EpochHeight req),
          update_SectorSize = ucast (cmq_SectorSize req)\<rparr>" b2 ec "we_now env 7" "we_net env" "nd_mux (sv_node s2)"] fits(1)
    by (auto simp: Commit_gossip_def sv_world_def split: if_splits prod.splits go.splits)
  have "Commit_locked b2 ec L env req name p tip (blob_tree b2 (at_work a) sz) s = (Ok (), s')"
    using w new(1) s1(1,2) cl x gs y(1) e(2)
    by (simp add: Commit_locked_def h(1) s0_def sys awaiting_Close_def s2_def)
  moreover have "GetHeader L (nd_db (sv_node s')) name = Ok h"
    using GetHeader_new [OF fine new(2) h(2)] fits(2) nm y(2) s1(3) s0(3) by (simp add: s2_def)
  moreover have "describes b2 L (nd_db (sv_node s')) name g"
  proof -
    have "describes b2 L db1 (hd_Name h) (at_work a)"
      by (rule describes_new [OF fine _ h(2)]) (use new(2) fits(2) nm sz tip tip' h(3) in simp_all)
    then show ?thesis
      using describes_cong [of "at_work a" g b2 L db1 name] secg nm y(2) s1(3) s0(3) by (simp add: work s2_def)
  qed
  ultimately show ?thesis
    using that y(3,4) s1 s0 w2 secg by (simp add: s2_def work)
qed

lemma Server_Commit_ok:
  assumes fine: "leveldb_fine L v" and c: "GetHeaderCount L (nd_db (sv_node s)) = Ok cnt"
    and co: "checked_out b2 blobs f name (cmq_TxID req) expiry a s" and now: "we_now env 0 \<le> expiry"
    and sys: "\<And>i. we_sys env i = sys_fine" and fits: "name_fits name" "json_string name = name"
    and info: "GetNameInfo L ec (nd_db (sv_node s)) name = Ok info"
    and req: "cmq_SectorTipHash req = tip" "cmq_Signature req = sig" "cmq_EpochHeight req = ucast ep" "cmq_SectorSize req = ucast sz"
    and tip: "tip = SectorHashes_Tip (blob_tree b2 (at_work a) sz)" and sz: "unat sz \<le> MaxSectors" and sig: "sig_wf sig"
    and ver: "VerifySigPub ec (ni_PublicKey info) sig (SealHash b2 name ep sz tip ZeroHash) = Ok True"
    and h: "h = commit_header name req tip (we_now env 6)" "header_wf h"
    and free: "inUse (nd_lock (sv_node s)) name = None"
  obtains s' g where "Server_Commit b2 ec L env req s = (Ok (), s')"
    "GetHeader L (nd_db (sv_node s')) name = Ok h" "describes b2 L (nd_db (sv_node s')) name g"
    "inUse (nd_lock (sv_node s')) = inUse (nd_lock (sv_node s))" "world_ok b2 blobs (sv_world s')"
    "st_files (bw_store (sv_world s')) = (st_files (bw_store (sv_world s)))(blob_path b2 blobs name := Some g)"
    "\<forall>i < MaxSectors. file_sector g i = file_sector (at_work a) i"
proof -
  obtain p aw e n0 where k: "map_of (cache_entries (sv_txStore s)) (txKey (cmq_TxID req)) = Some \<lparr>entry_val = p, entry_expiry = expiry\<rparr>"
    and aw: "sv_awaiting s p = Some aw" "tx_name (aw_tx aw) = name" and ok: "world_ok b2 blobs (sv_world s)"
    and e: "pool_blobs (bw_pool (sv_world s)) name = Some e" "pe_blob e = aw_blob aw"
    and tx: "tx_ok n0 (f, True, True) (aw_tx aw, bw_view (sv_world s) (aw_blob aw))"
    and a: "tx_abs (aw_tx aw, bw_view (sv_world s) (aw_blob aw)) = a"
    using co unfolding checked_out_def by blast
  obtain s1 t1 where s1: "Commit_check b2 ec L env req name p s = (Ok (tip, blob_tree b2 (at_work a) sz), s1)"
    "sv_awaiting s1 = (sv_awaiting s)(p \<mapsto> aw\<lparr>aw_tx := t1\<rparr>)" "sv_txStore s1 = sv_txStore s"
    "nd_db (sv_node s1) = nd_db (sv_node s)" "nd_lock (sv_node s1) = nd_lock (sv_node s)" "world_ok b2 blobs (sv_world s1)"
    "bw_pool (sv_world s1) = bw_pool (sv_world s)" "tx_ok n0 (f, True, True) (t1, bw_view (sv_world s1) (aw_blob aw))"
    "tx_abs (t1, bw_view (sv_world s1) (aw_blob aw)) = a" "st_files (bw_store (sv_world s1)) = st_files (bw_store (sv_world s))"
    by (rule Commit_check_ok [OF aw(1) ok e tx a sys info req tip sz sig ver])
  obtain l1 l2 where l: "lock_TryLock (nd_lock (sv_node s1)) name = (True, l1)" "lock_Unlock l1 name = (Ok (), l2)"
    "inUse l2 = inUse (nd_lock (sv_node s))"
    using lock_cycle [OF free] s1(5) by auto
  define s2 where "s2 = s1\<lparr>sv_node := (sv_node s1)\<lparr>nd_lock := l1\<rparr>\<rparr>"
  have s2: "sv_world s2 = sv_world s1" "sv_awaiting s2 p = Some (aw\<lparr>aw_tx := t1\<rparr>)" "nd_db (sv_node s2) = nd_db (sv_node s)"
    "nd_lock (sv_node s2) = l1"
    using s1 by (simp_all add: s2_def sv_world_def)
  have hsz: "hd_SectorSize h = sz" by (simp add: h(1) commit_header_def req ucast_16_32)
  have e2: "pool_blobs (bw_pool (sv_world s2)) name = Some e" "pe_blob e = aw_blob (aw\<lparr>aw_tx := t1\<rparr>)"
    using e s1(7) s2(1) by simp_all
  obtain s3 g where s3: "Commit_locked b2 ec L env req name p tip (blob_tree b2 (at_work a) sz) s2 = (Ok (), s3)"
    "GetHeader L (nd_db (sv_node s3)) name = Ok h" "describes b2 L (nd_db (sv_node s3)) name g"
    "nd_lock (sv_node s3) = nd_lock (sv_node s2)" "world_ok b2 blobs (sv_world s3)"
    "st_files (bw_store (sv_world s3)) = (st_files (bw_store (sv_world s2)))(blob_path b2 blobs name := Some g)"
    "\<forall>i < MaxSectors. file_sector g i = file_sector (at_work a) i"
    by (rule Commit_locked_ok [OF fine _ s2(2) _ e2 _ _ sys fits h hsz tip sz])
      (use c s2 s1 in simp_all)
  define s' where "s' = s3\<lparr>sv_node := (sv_node s3)\<lparr>nd_lock := l2\<rparr>\<rparr>"
  have "Server_Commit b2 ec L env req s = (Ok (), s')"
    using Server_lookup_ok [OF k aw(1) now] s1(1) l(1,2) s3(1,4) s2(4) aw(2)
    by (simp add: Server_Commit_def s2_def [symmetric] s'_def)
  then show ?thesis
    using that [of s' g] s3 s1(10) s2(1) l(3) by (simp add: s'_def sv_world_def)
qed

section \<open>The write command\<close>

text \<open>
  The sectors the command writes: the data in pieces of a sector, where a last piece that is shorter is
  followed by the rest of the sector before it.
\<close>

fun command_sectors :: "nat \<Rightarrow> Sector \<Rightarrow> bytes \<Rightarrow> Sector list" where
  "command_sectors 0 sector rd = []"
| "command_sectors (Suc n) sector rd =
     (if rd = [] then []
      else let sector1 = go_copy sector (take (length sector) rd) in
        sector1 # command_sectors n sector1 (drop (length sector) rd))"

lemma command_sectors_wf: "sector_wf sector \<Longrightarrow> list_all sector_wf (command_sectors n sector rd)"
  by (induction n sector rd rule: command_sectors.induct) (auto simp: Let_def sector_wf_def)

lemma writeCmd_loop_ok:
  assumes "checked_out b2 blobs f name txID expiry a s" and "sector_wf sector" and "wr_txID b = txID"
    and "wr_opened b" and "\<not> wr_committed b"
    and "\<And>i j. we_sys (envs i) j = sys_fine" and "\<And>i. i < c + length (command_sectors n sector rd) \<Longrightarrow> we_now (envs i) 0 \<le> expiry"
  shows "\<exists>s'. writeCmd_loop b2 (server_client b2 ec L envs) n sector rd b (c, s) =
      (Ok (), b\<lparr>wr_sectorSize := wr_sectorSize b + of_nat (length (command_sectors n sector rd)),
                wr_sectorTipHash := chain_tip b2 (wr_sectorTipHash b) (command_sectors n sector rd)\<rparr>,
       c + length (command_sectors n sector rd), s')
    \<and> checked_out b2 blobs f name txID expiry (fold aTx_exec (map OpWriteSector (command_sectors n sector rd)) a) s'
    \<and> nd_db (sv_node s') = nd_db (sv_node s) \<and> nd_lock (sv_node s') = nd_lock (sv_node s)
    \<and> st_files (bw_store (sv_world s')) = st_files (bw_store (sv_world s))"
  using assms
proof (induction n sector rd arbitrary: a s b c rule: command_sectors.induct)
  case (2 n sector rd)
  show ?case
  proof (cases "rd = []")
    case True
    then show ?thesis using 2(2) by (simp add: bytes_Read_def chain_tip_def)
  next
    case False
    define sec where "sec = go_copy sector (take (length sector) rd)"
    define rd1 where "rd1 = drop (length sector) rd"
    define b1 where "b1 = b\<lparr>wr_sectorSize := wr_sectorSize b + 1, wr_sectorTipHash := SerialHashSector b2 sec (wr_sectorTipHash b)\<rparr>"
    have ss: "command_sectors (Suc n) sector rd = sec # command_sectors n sec rd1"
      using False by (simp add: sec_def rd1_def Let_def)
    have wf: "sector_wf sec" using 2(3) by (simp add: sec_def sector_wf_def)
    have copy: "go_copy ZeroSector sec = sec" using wf by (simp add: sector_wf_def go_copy_same_length ZeroSector_def)
    have now: "we_now (envs c) 0 \<le> expiry"
      and later: "\<And>i. i < c + 1 + length (command_sectors n sec rd1) \<Longrightarrow> we_now (envs i) 0 \<le> expiry"
      by (rule 2(8) [unfolded ss], simp)+
    obtain s1 where s1: "Server_WriteSector (envs c) \<lparr>wsq_TxID = txID, wsq_Data = sec\<rparr> s = (Ok None, s1)"
      "checked_out b2 blobs f name txID expiry (aTx_exec (OpWriteSector sec) a) s1"
      "nd_db (sv_node s1) = nd_db (sv_node s)" "nd_lock (sv_node s1) = nd_lock (sv_node s)"
      "st_files (bw_store (sv_world s1)) = st_files (bw_store (sv_world s))"
      by (rule Server_WriteSector_ok [OF 2(2) 2(7) now, of sec]) (simp add: copy)
    have w: "BlobWriter_WriteSector b2 (server_client b2 ec L envs) sec b (c, s) =
        (Ok (SerialHashSector b2 sec (wr_sectorTipHash b)), b1, c + 1, s1)"
      using s1(1) 2(4,5,6) by (simp add: BlobWriter_WriteSector_def server_client_def at_call_def copy Let_def b1_def)
    have "\<exists>s'. writeCmd_loop b2 (server_client b2 ec L envs) n sec rd1 b1 (c + 1, s1) =
      (Ok (), b1\<lparr>wr_sectorSize := wr_sectorSize b1 + of_nat (length (command_sectors n sec rd1)),
                wr_sectorTipHash := chain_tip b2 (wr_sectorTipHash b1) (command_sectors n sec rd1)\<rparr>,
       c + 1 + length (command_sectors n sec rd1), s')
    \<and> checked_out b2 blobs f name txID expiry
        (fold aTx_exec (map OpWriteSector (command_sectors n sec rd1)) (aTx_exec (OpWriteSector sec) a)) s'
    \<and> nd_db (sv_node s') = nd_db (sv_node s1) \<and> nd_lock (sv_node s') = nd_lock (sv_node s1)
    \<and> st_files (bw_store (sv_world s')) = st_files (bw_store (sv_world s1))"
      by (rule 2(1) [OF False sec_def s1(2) wf, folded rd1_def, OF _ _ _ 2(7) later]) (use 2(4-6) in \<open>simp_all add: b1_def\<close>)
    then show ?thesis
      unfolding ss using w False s1(3-5)
      by (auto simp: bytes_Read_def sec_def [symmetric] rd1_def [symmetric] b1_def chain_tip_def)
  qed
qed (simp add: chain_tip_def)

text \<open>
  A node that can take a publication: no call of the system fails, the header of the name describes its
  blob, the name is not locked, and its owner's key is the key of the signer.
\<close>

definition can_publish ::
  "(bytes \<Rightarrow> bytes) \<Rightarrow> ('pk, 'sk) btcec \<Rightarrow> 'd leveldb \<Rightarrow> (nat \<Rightarrow> 'pk world_env) \<Rightarrow> ('pk, 'sk, 'd) node \<Rightarrow> string \<Rightarrow> 'sk \<Rightarrow> bool" where
  "can_publish b2 ec L envs nd name sk \<longleftrightarrow>
     (\<forall>i j. we_sys (envs i) j = sys_fine) \<and> (\<forall>i. time_json_ok (we_now (envs i) 6)) \<and>
     world_ok b2 (we_blobs (envs 0)) (nd_world nd) \<and> (\<exists>c. GetHeaderCount L (nd_db nd) = Ok c) \<and>
     describes b2 L (nd_db nd) name (blob_file b2 (we_blobs (envs 0)) (nd_world nd) name) \<and>
     inUse (nd_lock nd) name = None \<and>
     (\<exists>b w. bw_Open b2 sys_fine (we_blobs (envs 0)) (nd_world nd) name = (Ok b, w)) \<and>
     (\<exists>info. GetNameInfo L ec (nd_db nd) name = Ok info \<and> ni_PublicKey info = ec_PubKey ec sk)"

lemma Checkout_position_chain:
  assumes "hash_nonzero b2" and "describes b2 L db name f" and "Checkout_position b2 L now db name = Ok (ep, k, tip)"
  shows "unat k \<le> MaxSectors \<and> tip = chain_tip b2 ZeroHash (map (file_sector f) [0..<unat k])"
  using assms blob_tree_Tip [OF assms(1), of f k]
  by (auto simp: Checkout_position_def describes_def chain_tip_def split: go.splits)

lemma SignSeal_verifies:
  assumes "btcec_laws ec" and "sign_total ec" and "name_fits name"
  obtains sig where "SignSeal b2 ec sk name ep sz tip rr = Ok sig" "sig_wf sig"
    "VerifySigPub ec (ec_PubKey ec sk) sig (SealHash b2 name ep sz tip rr) = Ok True"
proof -
  obtain h where h: "SealHash b2 name ep sz tip rr = Ok h" using SealHash_fits assms(3) by blast
  have wf: "hash_wf h" using SealHash_Ok [OF h] by (metis hash_wf_Blake2B256)
  then obtain s where "ec_SignCompact ec sk h = Inr s" using assms(2) by (auto simp: sign_total_def hash_wf_def)
  then obtain sig where sig: "SECP256k1Signer_Sign ec sk (Ok h) = Ok sig"
    by (auto simp: SECP256k1Signer_Sign_def Hash_Bytes_def)
  show ?thesis
    by (rule that [of sig])
      (use Sign_Ok [OF assms(1) sig wf] sig h in \<open>simp_all add: SignSeal_def Hash_Hash_def VerifySigPub_def Hash_Bytes_def\<close>)
qed

definition opened_writer :: "'sk \<Rightarrow> string \<Rightarrow> bool \<Rightarrow> uint32 \<Rightarrow> uint16 \<Rightarrow> uint16 \<Rightarrow> Hash \<Rightarrow> 'sk BlobWriter" where
  "opened_writer sk name reset txID ep k tip = (NewBlobWriter sk name reset)
     \<lparr>wr_txID := txID, wr_epochHeight := ep, wr_sectorSize := k, wr_sectorTipHash := tip, wr_opened := True\<rparr>"

lemma opened_writer_simps [simp]:
  "wr_signer (opened_writer sk name reset txID ep k tip) = sk" "wr_name (opened_writer sk name reset txID ep k tip) = name"
  "wr_epochHeight (opened_writer sk name reset txID ep k tip) = ep" "wr_sectorSize (opened_writer sk name reset txID ep k tip) = k"
  "wr_sectorTipHash (opened_writer sk name reset txID ep k tip) = tip" "wr_txID (opened_writer sk name reset txID ep k tip) = txID"
  "wr_opened (opened_writer sk name reset txID ep k tip)" "\<not> wr_committed (opened_writer sk name reset txID ep k tip)"
  "(opened_writer sk name reset txID ep k tip)\<lparr>wr_sectorSize := k', wr_sectorTipHash := tip'\<rparr> = opened_writer sk name reset txID ep k' tip'"
  by (simp_all add: opened_writer_def NewBlobWriter_def)

lemma can_publishE:
  assumes "can_publish b2 ec L envs nd name sk"
  obtains b w c info where "\<And>i j. we_sys (envs i) j = sys_fine" "\<And>i. time_json_ok (we_now (envs i) 6)"
    "world_ok b2 (we_blobs (envs 0)) (nd_world nd)" "GetHeaderCount L (nd_db nd) = Ok c"
    "describes b2 L (nd_db nd) name (blob_file b2 (we_blobs (envs 0)) (nd_world nd) name)" "inUse (nd_lock nd) name = None"
    "bw_Open b2 sys_fine (we_blobs (envs 0)) (nd_world nd) name = (Ok b, w)"
    "GetNameInfo L ec (nd_db nd) name = Ok info" "ni_PublicKey info = ec_PubKey ec sk"
  using assms unfolding can_publish_def by blast

lemma BlobWriter_Open_ok:
  fixes s :: "('pk, 'sk, 'd) Server"
  assumes nz: "hash_nonzero b2" and can: "can_publish b2 ec L envs (sv_node s) name sk" and blobs: "blobs = we_blobs (envs 0)"
    and pos: "Checkout_position b2 L (we_now (envs 0) 1) (nd_db (sv_node s)) name = Ok (ep, k, tip)"
    and sched: "reset \<Longrightarrow> ep \<le> CurrentEpoch b2 (we_now (envs 0) 2) name"
    and start: "(ep', k') = (if reset then (ep + 1, 0) else (ep, k))"
    and f0: "f0 = blob_file b2 blobs (sv_world s) name"
  obtains txID s1 f where "BlobWriter_Open (server_client b2 ec L envs) (NewBlobWriter sk name reset) (0, s) =
      (Ok (), opened_writer sk name reset txID ep' k' (chain_tip b2 ZeroHash (map (file_sector f0) [0..<unat k'])), 1, s1)"
    "checked_out b2 blobs f name txID (session_expiry (we_now (envs 0) 3)) \<lparr>at_work = if reset then blank_blob else f, at_pos = k'\<rparr> s1"
    "nd_db (sv_node s1) = nd_db (sv_node s)" "nd_lock (sv_node s1) = nd_lock (sv_node s)"
    "\<forall>i < MaxSectors. file_sector f i = file_sector f0 i" "unat k' \<le> MaxSectors"
proof -
  obtain b w where can': "\<And>i j. we_sys (envs i) j = sys_fine" "world_ok b2 (we_blobs (envs 0)) (sv_world s)"
    "describes b2 L (nd_db (sv_node s)) name f0" "bw_Open b2 sys_fine (we_blobs (envs 0)) (sv_world s) name = (Ok b, w)"
    using can_publishE [OF can] unfolding sv_world_def f0 blobs by metis
  have k: "unat k \<le> MaxSectors" and tip: "tip = chain_tip b2 ZeroHash (map (file_sector f0) [0..<unat k])"
    using Checkout_position_chain [OF nz can'(3) pos] by simp_all
  define txID where "txID = sv_lastTxID s + 1"
  define tip0 where "tip0 = chain_tip b2 ZeroHash (map (file_sector f0) [0..<unat k'])"
  have k': "k' = (if reset then 0 else k)" "ep' = (if reset then ep + 1 else ep)" using start by (simp_all split: if_splits)
  have tip0: "(if reset then ZeroHash else tip) = tip0" by (simp add: tip0_def tip k' chain_tip_def)
  obtain s1 f where s1: "Server_Checkout b2 L (envs 0) \<lparr>coq_Name = name, coq_ResetEpoch = reset\<rparr> s =
      (Ok \<lparr>cor_TxID = txID, cor_EpochHeight = ucast ep', cor_SectorSize = ucast k', cor_SectorTipHash = Hash_Bytes tip0\<rparr>, s1)"
    "checked_out b2 blobs f name txID (session_expiry (we_now (envs 0) 3)) \<lparr>at_work = if reset then blank_blob else f, at_pos = k'\<rparr> s1"
    "nd_db (sv_node s1) = nd_db (sv_node s)" "nd_lock (sv_node s1) = nd_lock (sv_node s)"
    "same_sectors (sv_world s) (sv_world s1)" "blob_file b2 blobs (sv_world s1) name = f"
    by (rule Server_Checkout_ok [OF can'(1,2,4) pos k sched, of reset]) (simp_all add: k' tip0 txID_def blobs)
  have "hash_wf tip0" using blob_tree_Tip [OF nz, of f0 k'] hash_wf_Tip [OF blob_tree_wf(2)] by (metis tip0_def)
  then have parsed: "NewHashFromBytes tip0 = Ok tip0" by (simp add: NewHashFromBytes_Ok)
  show ?thesis
  proof (rule that [of txID s1 f])
    show "BlobWriter_Open (server_client b2 ec L envs) (NewBlobWriter sk name reset) (0, s) =
        (Ok (), opened_writer sk name reset txID ep' k' (chain_tip b2 ZeroHash (map (file_sector f0) [0..<unat k'])), 1, s1)"
      using s1(1) parsed unfolding tip0_def [symmetric]
      by (simp add: BlobWriter_Open_def NewBlobWriter_def server_client_def at_call_def Let_def ucast_16_32 Hash_Bytes_def opened_writer_def)
    show "\<forall>i < MaxSectors. file_sector f i = file_sector f0 i"
      using s1(5,6) by (auto simp: same_sectors_def f0 blob_file_def)
    show "unat k' \<le> MaxSectors" using k by (simp add: k')
  qed (use s1 in simp_all)
qed

lemma BlobWriter_Commit_ok:
  fixes s :: "('pk, 'sk, 'd) Server"
  assumes fine: "leveldb_fine L v" and ec: "btcec_laws ec" "sign_total ec" and name: "name_fits name" "json_string name = name"
    and c: "GetHeaderCount L (nd_db (sv_node s)) = Ok cnt" and co: "checked_out b2 blobs f name txID expiry a s"
    and now: "we_now (envs i) 0 \<le> expiry" and sys: "\<And>i j. we_sys (envs i) j = sys_fine" "\<And>i. time_json_ok (we_now (envs i) 6)"
    and info: "GetNameInfo L ec (nd_db (sv_node s)) name = Ok info" "ni_PublicKey info = ec_PubKey ec sk"
    and tip: "tip = SectorHashes_Tip (blob_tree b2 (at_work a) sz)" and sz: "unat sz \<le> MaxSectors"
    and free: "inUse (nd_lock (sv_node s)) name = None"
  obtains sig b s' where
    "BlobWriter_Commit b2 ec ts (server_client b2 ec L envs) broadcast (opened_writer sk name reset txID ep sz tip) (i, s) =
      (Ok tip, b, Suc i, s')"
    "GetHeader L (nd_db (sv_node s')) name = Ok \<lparr>hd_Name = name, hd_EpochHeight = ep, hd_SectorSize = sz, hd_SectorTipHash = tip,
      hd_Signature = sig, hd_ReservedRoot = ZeroHash, hd_EpochStartAt = we_now (envs i) 6\<rparr>"
    "VerifySigPub ec (ec_PubKey ec sk) sig (SealHash b2 name ep sz tip ZeroHash) = Ok True" "sig_wf sig"
    "describes b2 L (nd_db (sv_node s')) name (blob_file b2 blobs (sv_world s') name)" "world_ok b2 blobs (sv_world s')"
    "\<forall>i < MaxSectors. file_sector (blob_file b2 blobs (sv_world s') name) i = file_sector (at_work a) i"
    "inUse (nd_lock (sv_node s')) = inUse (nd_lock (sv_node s))"
proof -
  define b where "b = opened_writer sk name reset txID ep sz tip"
  obtain sig where sig: "SignSeal b2 ec sk name ep sz tip ZeroHash = Ok sig" "sig_wf sig"
    "VerifySigPub ec (ec_PubKey ec sk) sig (SealHash b2 name ep sz tip ZeroHash) = Ok True"
    using SignSeal_verifies [OF ec name(1)] .
  define req where "req = commit_request ts broadcast sig b"
  have b: "wr_opened b" "\<not> wr_committed b" "wr_signer b = sk" "wr_name b = name" "wr_epochHeight b = ep" "wr_sectorSize b = sz"
    "wr_sectorTipHash b = tip" by (simp_all add: b_def)
  have req: "cmq_TxID req = txID" "cmq_SectorTipHash req = tip" "cmq_Signature req = sig" "cmq_EpochHeight req = ucast ep"
    "cmq_SectorSize req = ucast sz"
    by (simp_all add: req_def commit_request_def b_def Hash_Bytes_def)
  define h where "h = commit_header name req tip (we_now (envs i) 6)"
  have h: "h = \<lparr>hd_Name = name, hd_EpochHeight = ep, hd_SectorSize = sz, hd_SectorTipHash = tip, hd_Signature = sig,
      hd_ReservedRoot = ZeroHash, hd_EpochStartAt = we_now (envs i) 6\<rparr>"
    using sig(2) by (simp add: h_def commit_header_def req ucast_16_32 sig_wf_def ZeroSignature_def go_copy_same_length)
  have "hash_wf tip" unfolding tip by (rule hash_wf_Tip [OF blob_tree_wf(2)])
  then have hw: "header_wf h" using sig(2) sys(2) by (simp add: h header_wf_def) (simp add: hash_wf_def)
  have ver: "VerifySigPub ec (ni_PublicKey info) sig (SealHash b2 name ep sz tip ZeroHash) = Ok True"
    unfolding info(2) by (rule sig(3))
  obtain s' g where s': "Server_Commit b2 ec L (envs i) req s = (Ok (), s')"
    "GetHeader L (nd_db (sv_node s')) name = Ok h" "describes b2 L (nd_db (sv_node s')) name g"
    "inUse (nd_lock (sv_node s')) = inUse (nd_lock (sv_node s))" "world_ok b2 blobs (sv_world s')"
    "st_files (bw_store (sv_world s')) = (st_files (bw_store (sv_world s)))(blob_path b2 blobs name := Some g)"
    "\<forall>i < MaxSectors. file_sector g i = file_sector (at_work a) i"
    by (rule Server_Commit_ok [OF fine c co [folded req(1)] now sys(1) name info(1) req(2-5) tip sz sig(2) ver h_def hw free])
  have "blob_file b2 blobs (sv_world s') name = g" by (simp add: blob_file_def bw_file_def s'(6))
  moreover have "BlobWriter_Commit b2 ec ts (server_client b2 ec L envs) broadcast b (i, s) =
      (Ok tip, b\<lparr>wr_committed := True\<rparr>, Suc i, s')"
    unfolding BlobWriter_Commit_def using sig(1) s'(1)
    by (simp add: server_client_def at_call_def req_def [symmetric] b)
  ultimately show ?thesis using that [of "b\<lparr>wr_committed := True\<rparr>" s' sig] s' sig by (simp add: h b_def)
qed

lemma publish_ok:
  fixes s :: "('pk, 'sk, 'd) Server"
  assumes fine: "leveldb_fine L v" and nz: "hash_nonzero b2" and ec: "btcec_laws ec" "sign_total ec"
    and can: "can_publish b2 ec L envs (sv_node s) name sk" and name: "name_fits name" "json_string name = name"
    and pos: "Checkout_position b2 L (we_now (envs 0) 1) (nd_db (sv_node s)) name = Ok (ep, k, tip)"
    and sched: "reset \<Longrightarrow> ep \<le> CurrentEpoch b2 (we_now (envs 0) 2) name"
    and ss: "ss = command_sectors MaxSectors ZeroSector data" and start: "(ep', k') = (if reset then (ep + 1, 0) else (ep, k))"
    and fit: "unat k' + length ss \<le> MaxSectors"
    and intime: "\<And>i. i \<le> Suc (length ss) \<Longrightarrow> we_now (envs i) 0 \<le> session_expiry (we_now (envs 0) 3)"
    and blobs: "blobs = we_blobs (envs 0)"
  shows "\<exists>tip' sig s'.
      writeCmd b2 ec ts (server_client b2 ec L envs) sk name reset broadcast data (0, s) = (Ok tip', length ss + 2, s') \<and>
      GetHeader L (nd_db (sv_node s')) name = Ok \<lparr>hd_Name = name, hd_EpochHeight = ep', hd_SectorSize = k' + of_nat (length ss),
        hd_SectorTipHash = tip', hd_Signature = sig, hd_ReservedRoot = ZeroHash, hd_EpochStartAt = we_now (envs (Suc (length ss))) 6\<rparr> \<and>
      VerifySigPub ec (ec_PubKey ec sk) sig (SealHash b2 name ep' (k' + of_nat (length ss)) tip' ZeroHash) = Ok True \<and> sig_wf sig \<and>
      describes b2 L (nd_db (sv_node s')) name (blob_file b2 blobs (sv_world s') name) \<and>
      (\<forall>i < MaxSectors. file_sector (blob_file b2 blobs (sv_world s') name) i =
         (if unat k' \<le> i \<and> i < unat k' + length ss then ss ! (i - unat k')
          else if reset then ZeroSector else file_sector (blob_file b2 blobs (sv_world s) name) i)) \<and>
      world_ok b2 blobs (sv_world s') \<and> inUse (nd_lock (sv_node s')) = inUse (nd_lock (sv_node s))"
proof -
  define f0 where "f0 = blob_file b2 blobs (sv_world s) name"
  define tip0 where "tip0 = chain_tip b2 ZeroHash (map (file_sector f0) [0..<unat k'])"
  define sz where "sz = k' + of_nat (length ss)"
  obtain b w cnt info where can': "\<And>i j. we_sys (envs i) j = sys_fine" "\<And>i. time_json_ok (we_now (envs i) 6)"
    "GetHeaderCount L (nd_db (sv_node s)) = Ok cnt" "inUse (nd_lock (sv_node s)) name = None"
    "GetNameInfo L ec (nd_db (sv_node s)) name = Ok info" "ni_PublicKey info = ec_PubKey ec sk"
    using can_publishE [OF can] by metis
  define ex where "ex = session_expiry (we_now (envs 0) 3)"
  obtain txID s1 f where s1: "BlobWriter_Open (server_client b2 ec L envs) (NewBlobWriter sk name reset) (0, s) =
      (Ok (), opened_writer sk name reset txID ep' k' tip0, 1, s1)"
    "checked_out b2 blobs f name txID ex \<lparr>at_work = if reset then blank_blob else f, at_pos = k'\<rparr> s1"
    "nd_db (sv_node s1) = nd_db (sv_node s)" "nd_lock (sv_node s1) = nd_lock (sv_node s)"
    "\<forall>i < MaxSectors. file_sector f i = file_sector f0 i" "unat k' \<le> MaxSectors"
    unfolding tip0_def ex_def by (rule BlobWriter_Open_ok [OF nz can blobs pos sched start f0_def])
  define a where "a = fold aTx_exec (map OpWriteSector ss) \<lparr>at_work = if reset then blank_blob else f, at_pos = k'\<rparr>"
  have loop_now: "we_now (envs i) 0 \<le> ex" if "i < 1 + length (command_sectors MaxSectors ZeroSector data)" for i
    using intime [of i] that by (simp add: ss [symmetric] ex_def)
  obtain s2 where s2: "writeCmd_loop b2 (server_client b2 ec L envs) MaxSectors ZeroSector data
        (opened_writer sk name reset txID ep' k' tip0) (1, s1) =
      (Ok (), opened_writer sk name reset txID ep' sz (chain_tip b2 tip0 ss), Suc (length ss), s2)"
    "checked_out b2 blobs f name txID ex a s2"
    "nd_db (sv_node s2) = nd_db (sv_node s)" "nd_lock (sv_node s2) = nd_lock (sv_node s)"
    using writeCmd_loop_ok [OF s1(2), where b = "opened_writer sk name reset txID ep' k' tip0" and envs = envs and c = 1
        and sector = ZeroSector and n = MaxSectors and rd = data, OF _ _ _ _ can'(1) loop_now] s1(3,4)
    by (auto simp: sector_wf_def ss [symmetric] sz_def a_def)
  have "list_all sector_wf ss" unfolding ss by (rule command_sectors_wf) (simp add: sector_wf_def)
  then have W: "file_sector (at_work a) i = (if unat k' \<le> i \<and> i < unat k' + length ss then ss ! (i - unat k')
        else if reset then ZeroSector else file_sector f i)" for i
    using aTx_write_sectors [of ss "\<lparr>at_work = if reset then blank_blob else f, at_pos = k'\<rparr>"] fit
    by (simp add: a_def MaxSectors_def file_sector_blank)
  have "extended f0 k' ss (at_work a)" using W s1(5,6) start by (auto simp: extended_def split: if_splits)
  note sz = extended_tree [OF nz this fit, folded sz_def tip0_def]
  have now: "we_now (envs (Suc (length ss))) 0 \<le> ex" using intime by (simp add: ex_def)
  obtain sig bw s' where s':
    "BlobWriter_Commit b2 ec ts (server_client b2 ec L envs) broadcast
       (opened_writer sk name reset txID ep' sz (chain_tip b2 tip0 ss)) (Suc (length ss), s2) =
      (Ok (chain_tip b2 tip0 ss), bw, Suc (Suc (length ss)), s')"
    "GetHeader L (nd_db (sv_node s')) name = Ok \<lparr>hd_Name = name, hd_EpochHeight = ep', hd_SectorSize = sz,
      hd_SectorTipHash = chain_tip b2 tip0 ss, hd_Signature = sig, hd_ReservedRoot = ZeroHash,
      hd_EpochStartAt = we_now (envs (Suc (length ss))) 6\<rparr>"
    "VerifySigPub ec (ec_PubKey ec sk) sig (SealHash b2 name ep' sz (chain_tip b2 tip0 ss) ZeroHash) = Ok True" "sig_wf sig"
    "describes b2 L (nd_db (sv_node s')) name (blob_file b2 blobs (sv_world s') name)" "world_ok b2 blobs (sv_world s')"
    "\<forall>i < MaxSectors. file_sector (blob_file b2 blobs (sv_world s') name) i = file_sector (at_work a) i"
    "inUse (nd_lock (sv_node s')) = inUse (nd_lock (sv_node s2))"
    by (rule BlobWriter_Commit_ok [where envs = envs and i = "Suc (length ss)", OF fine ec name _ s2(2) now can'(1,2) _ can'(6) sz(1) [symmetric]])
      (use can' s2(3,4) sz(2) fit in simp_all)
  have "writeCmd b2 ec ts (server_client b2 ec L envs) sk name reset broadcast data (0, s) =
      (Ok (chain_tip b2 tip0 ss), length ss + 2, s')"
    using s1(1) s2(1) s'(1) by (simp add: writeCmd_def)
  then show ?thesis
    using s'(2-8) W s1(5) s2(4)
    by (intro exI [of _ "chain_tip b2 tip0 ss"] exI [of _ sig] exI [of _ s']) (simp add: sz_def f0_def)
qed

lemma demo_can_publish: "can_publish demo_b2 toy_ec mem_ldb (\<lambda>_. demo_env) (demo_node demo_db) ''a'' 5"
proof -
  have "describes demo_b2 mem_ldb demo_db ''a'' f" for f
    by (simp add: describes_def GetHeader_def leveldb_fineD(2) [OF leveldb_fine_mem] demo_views)
  moreover have "GetHeaderCount mem_ldb demo_db = Ok 0"
    by (simp add: GetHeaderCount_fine [OF leveldb_fine_mem] count_of_def demo_views)
  moreover have "time_json_ok 0" by (simp add: time_json_ok_def time_Second_def)
  ultimately show ?thesis
    using demo_world_ok demo_open demo_GetNameInfo [OF demo_views(1)]
    by (simp add: can_publish_def demo_env_def demo_node_def NewMultiLocker_def) (simp add: toy_ec_def)
qed

lemma demo_position:
  "Checkout_position demo_b2 mem_ldb now demo_db ''a'' = Ok (CurrentEpoch demo_b2 now ''a'', 0, ZeroHash)"
  by (simp add: Checkout_position_def GetHeader_def leveldb_fineD(2) [OF leveldb_fine_mem] demo_views)

lemma demo_command: "command_sectors MaxSectors ZeroSector [1, 2, 3] = [[1, 2, 3] @ replicate 253 0]"
proof -
have max: "MaxSectors = Suc (Suc (MaxSectors - 2))" by (simp add: MaxSectors_def)
  show ?thesis by (subst max) (simp add: go_copy_def ZeroSector_def SectorBytes_def)
qed



end
