(* ===== verification/Rpc_Read.thy ===== *)
theory Rpc_Read
  imports Rpc_Publish
begin

text \<open>
  The read command of \<open>cmd/fnd-cli/cmd/blob/read.go\<close>: \<open>io.Copy\<close> from a blob reader to the standard
  output, through the calls of \<open>rpc/blob_reader.go\<close> to the server's \<open>ReadAt\<close>.  It prints the blob
  that the node has stored, and so what the write command has published.
\<close>

section \<open>The command\<close>

text \<open>
  \<open>io.Copy\<close> reads into one buffer of 32 KiB until the reader reports an error, writes what each
  read returned, and takes the end of the input for success.  Every read but the last moves the
  offset on, so that as many turns as the blob has bytes and one more are enough (\<open>copy_blob\<close>);
  \<open>None\<close> is a copy that needs more.
\<close>

definition copyBufferSize :: nat where "copyBufferSize = 32 * 1024"

fun io_Copy :: "'s rpcClient \<Rightarrow> nat \<Rightarrow> BlobReader \<Rightarrow> bytes \<Rightarrow> bytes \<Rightarrow> 's \<Rightarrow> (unit go \<times> bytes \<times> 's) option" where
  "io_Copy cl 0 b buf out s = None"
| "io_Copy cl (Suc n) b buf out s =
     (case BlobReader_Read cl b buf s of
        (Panic m, b, s) \<Rightarrow> Some (Panic m, out, s)
      | (Err e, b, s) \<Rightarrow> Some (Err e, out, s)
      | (Ok (buf, nr, er), b, s) \<Rightarrow>
          (case er of
             None \<Rightarrow> io_Copy cl n b buf (out @ take nr buf) s
           | Some e \<Rightarrow> Some (if e = io_EOF then Ok () else Err e, out @ take nr buf, s)))"

definition readCmd :: "'s rpcClient \<Rightarrow> string \<Rightarrow> 's \<Rightarrow> (unit go \<times> bytes \<times> 's) option" where
  "readCmd cl name s = io_Copy cl (Suc blob_Size) (NewBlobReader name) (replicate copyBufferSize 0) [] s"

section \<open>One read\<close>

lemma blob_Size_bound: "blob_Size < 2 ^ 31"
  by (simp add: blob_Size_def MaxSectors_def SectorBytes_def)

text \<open>Files with the same sectors have the same bytes.\<close>

lemma file_bytes_sectors:
  assumes "\<forall>i < MaxSectors. file_sector f i = file_sector g i" "off + n \<le> blob_Size"
  shows "file_bytes f off n = file_bytes g off n"
proof -
  have "fdata f j = fdata g j" if "j < blob_Size" for j
  proof -
    have j: "j div SectorBytes < MaxSectors" "j mod SectorBytes < SectorBytes" "j div SectorBytes * SectorBytes + j mod SectorBytes = j"
      using that by (simp_all add: blob_Size_def SectorBytes_def)
    have "file_sector h (j div SectorBytes) ! (j mod SectorBytes) = fdata h j" for h
      using j(2,3) by (simp add: file_sector_def file_bytes_def)
    then show ?thesis using assms(1) j(1) by metis
  qed
  then show ?thesis using assms(2) by (simp add: file_bytes_def)
qed

lemma file_bytes_append: "file_bytes f off (a + b) = file_bytes f off a @ file_bytes f (off + a) b"
proof -
  have "map (\<lambda>i. fdata f (off + i)) [a..<a + b] = map (\<lambda>i. fdata f (off + a + i)) [0..<b]"
    by (rule nth_equalityI) (simp_all add: add.assoc)
  then show ?thesis using upt_add_eq_append [of 0 a b] by (simp add: file_bytes_def)
qed

lemma file_bytes_concat: "file_bytes f 0 (SectorBytes * n) = concat (map (file_sector f) [0..<n])"
proof (induction n)
  case 0
  then show ?case by (simp add: file_bytes_def)
next
  case (Suc n)
  have "file_bytes f 0 (SectorBytes * Suc n) = file_bytes f 0 (SectorBytes * n) @ file_bytes f (SectorBytes * n) SectorBytes"
    using file_bytes_append [of f 0 "SectorBytes * n" SectorBytes] by (simp add: add.commute)
  then show ?case using Suc by (simp add: file_sector_def mult.commute)
qed

text \<open>What a node must be able to do for reads of a name to succeed.\<close>

definition can_read :: "(bytes \<Rightarrow> bytes) \<Rightarrow> string \<Rightarrow> string \<Rightarrow> ('pk, 'sk, 'd) Server \<Rightarrow> bool" where
  "can_read b2 blobs name s \<longleftrightarrow>
     world_ok b2 blobs (sv_world s) \<and> length (b2 (bytes_of_string name)) = 32 \<and>
     blob_path b2 blobs name \<notin> st_dirs (bw_store (sv_world s)) \<and> inUse (nd_lock (sv_node s)) name = None"

lemma bw_Open_succeeds:
  assumes "length (b2 (bytes_of_string name)) = 32" and "blob_path b2 blobs name \<notin> st_dirs (bw_store w)"
  shows "\<exists>b w'. bw_Open b2 sys_fine blobs w name = (Ok b, w')"
proof -
  obtain sub where "PathifyName b2 name = Ok sub" using PathifyName_segs [of b2 name] assms(1) by blast
  then show ?thesis
    using assms(2) by (auto simp: bw_Open_def storeImpl_Open_def Pool_Get_def NewInStorePath_def fileExists_def os_OpenFile_def
        blob_path_def Let_def split: option.splits)
qed

lemma ReadAt_open_ok:
  fixes s :: "('pk, 'sk, 'd) Server"
  assumes can: "can_read b2 blobs name s" and env: "\<And>j. we_sys env j = sys_fine" "we_blobs env = blobs"
    and req: "raq_Name req = name" "nat (uint (raq_Offset req)) + unat (raq_Len req) \<le> blob_Size"
  shows "\<exists>w'. ReadAt_open b2 env req (sv_world s) =
      (Ok (file_bytes (blob_file b2 blobs (sv_world s) name) (nat (uint (raq_Offset req))) (unat (raq_Len req))), w') \<and>
    world_ok b2 blobs w' \<and> same_sectors (sv_world s) w' \<and> st_dirs (bw_store w') = st_dirs (bw_store (sv_world s))"
proof -
  define off where "off = nat (uint (raq_Offset req))"
  define n where "n = unat (raq_Len req)"
  have ok: "world_ok b2 blobs (sv_world s)" using can by (simp add: can_read_def)
  obtain b w1 where op: "bw_Open b2 sys_fine blobs (sv_world s) name = (Ok b, w1)"
    using bw_Open_succeeds [of b2 name blobs "sv_world s"] can by (auto simp: can_read_def)
  from bw_Open_ok [OF ok op] obtain e where ok1: "world_ok b2 blobs w1" and same: "same_sectors (sv_world s) w1"
    and e: "pool_blobs (bw_pool w1) name = Some e" "pe_blob e = b" by blast
  obtain c w2 where cl: "bw_Close sys_fine w1 b = (c, w2)" by fastforce
  have ok2: "world_ok b2 blobs w2" "st_files (bw_store w2) = st_files (bw_store w1)" "\<not> is_panic c"
    using bw_Close_ok [OF ok1 e(1), of c w2] cl e(2) by auto
  have "tx_ok (bw_next w1) (bw_file w1 (blob_path b2 blobs name), True, True) (blobImpl_Transaction name, bw_view w1 b)"
    using bw_view_ok [OF ok1 e(1)] by (simp add: e(2))
  then have vw: "fs_blobOpen (bw_view w1 b)" "blob_Size \<le> fsize (fs_blob (bw_view w1 b))"
    by (simp_all add: tx_ok_def tx_live_def Let_def aTx_wf_def tx_abs_def tx_view_def blobImpl_Transaction_def)
  have bf: "fs_blob (bw_view w1 b) = blob_file b2 blobs w1 name"
    using ok1 e by (auto simp: world_ok_def bw_view_def blob_file_def)
  have "nat (uint (raq_Offset req)) + n \<le> fsize (blob_file b2 blobs w1 name)" using vw(2) req(2) by (simp add: bf n_def)
  then have "file_ReadAt sys_fine (blob_file b2 blobs w1 name) (replicate n 0) (uint (raq_Offset req)) =
      (file_bytes (blob_file b2 blobs w1 name) off n, n, None)"
    using file_ReadAt_full [of sys_fine "uint (raq_Offset req)" "replicate n 0" "blob_file b2 blobs w1 name"]
    by (simp add: off_def)
  moreover have "off + n \<le> blob_Size" "uint (raq_Offset req) = int off" using req(2) by (simp_all add: off_def n_def)
  then have "\<not> int blob_Size < uint (raq_Offset req)" "\<not> int blob_Size < int n + uint (raq_Offset req)" by simp_all
  ultimately have rd: "blobImpl_ReadAt sys_fine (bw_view w1 b) (replicate n 0) (uint (raq_Offset req)) =
      (file_bytes (blob_file b2 blobs w1 name) off n, n, None)"
    by (simp add: blobImpl_ReadAt_def ReadBlobAt_def vw(1) bf)
  have "file_bytes (blob_file b2 blobs w1 name) off n = file_bytes (blob_file b2 blobs (sv_world s) name) off n"
    using same req(2) by (intro file_bytes_sectors) (simp_all add: same_sectors_def blob_file_def off_def n_def)
  with rd op cl ok2(3) have "ReadAt_open b2 env req (sv_world s) =
      (Ok (file_bytes (blob_file b2 blobs (sv_world s) name) off n), w2)"
    by (cases c) (simp_all add: ReadAt_open_def env req(1) n_def)
  moreover have "same_sectors (sv_world s) w2" using same ok2(2) by (simp add: same_sectors_def bw_file_def)
  moreover have "st_dirs (bw_store w2) = st_dirs (bw_store (sv_world s))"
    using bw_Open_dirs [OF op] bw_Close_dirs [OF cl] by simp
  ultimately show ?thesis using ok2(1) by (auto simp: off_def n_def)
qed

lemma Server_ReadAt_ok:
  fixes s :: "('pk, 'sk, 'd) Server"
  assumes can: "can_read b2 blobs name s" and env: "\<And>j. we_sys env j = sys_fine" "we_blobs env = blobs"
    and fit: "off + n \<le> blob_Size" "0 < n"
  shows "\<exists>s'. Server_ReadAt b2 env \<lparr>raq_Name = name, raq_Offset = of_int (int off), raq_Len = of_nat n\<rparr> s =
      (Ok (file_bytes (blob_file b2 blobs (sv_world s) name) off n), s') \<and>
    can_read b2 blobs name s' \<and> same_sectors (sv_world s) (sv_world s') \<and> nd_db (sv_node s') = nd_db (sv_node s)"
proof -
  let ?req = "\<lparr>raq_Name = name, raq_Offset = of_int (int off), raq_Len = of_nat n\<rparr> :: ReadAtReq"
  have b: "off < 2 ^ 31" "n < 2 ^ 31" "off + n < 2 ^ 31" using fit blob_Size_bound by simp_all
  have u: "unat (of_nat k :: uint32) = k" if "k < 2 ^ 31" for k
    unfolding unat_of_nat using that by simp
  have o: "nat (uint (of_int (int off) :: uint32)) = off" using u [OF b(1)] by simp
  have "\<not> of_nat blob_Size < (of_nat off :: uint32)" "\<not> of_nat blob_Size < (of_nat (off + n) :: uint32)"
    unfolding word_less_nat_alt u [OF blob_Size_bound] u [OF b(1)] u [OF b(3)] using fit by simp_all
  moreover have "(of_nat n :: uint32) \<noteq> 0" using u [OF b(2)] fit(2) by (metis unat_0 less_numeral_extra(3))
  ultimately have cmp: "\<not> of_nat blob_Size < raq_Offset ?req" "\<not> of_nat blob_Size < raq_Offset ?req + raq_Len ?req" "raq_Len ?req \<noteq> 0"
    by simp_all
  have r: "raq_Name ?req = name" "nat (uint (raq_Offset ?req)) = off" "unat (raq_Len ?req) = n"
    unfolding ReadAtReq.simps using o u [OF b(2)] by simp_all
  obtain w' where w': "ReadAt_open b2 env ?req (sv_world s) = (Ok (file_bytes (blob_file b2 blobs (sv_world s) name) off n), w')"
    "world_ok b2 blobs w'" "same_sectors (sv_world s) w'" "st_dirs (bw_store w') = st_dirs (bw_store (sv_world s))"
    using ReadAt_open_ok [OF can env r(1), unfolded r(2,3), OF fit(1)] by blast
  have idle: "inUse (nd_lock (sv_node s)) name = None" using can by (simp add: can_read_def)
  obtain l1 l2 where lock: "lock_TryRLock (nd_lock (sv_node s)) name = (True, l1)" "lock_RUnlock l1 name = (Ok (), l2)" "inUse l2 name = None"
    using idle by (simp add: lock_ops_defs Let_def)
  have "Server_ReadAt b2 env ?req s =
      (Ok (file_bytes (blob_file b2 blobs (sv_world s) name) off n), s\<lparr>sv_node := (sv_node s)\<lparr>nd_world := w', nd_lock := l2\<rparr>\<rparr>)"
    unfolding Server_ReadAt_def using cmp lock w'(1) by (simp only: if_False ReadAtReq.simps prod.case bool.case go.case)
  then show ?thesis
    using w' can lock(3) by (simp add: can_read_def sv_world_def)
qed

section \<open>The copy\<close>

lemma same_sectors_bytes:
  assumes "same_sectors w w'" "off + n \<le> blob_Size"
  shows "file_bytes (blob_file b2 blobs w' name) off n = file_bytes (blob_file b2 blobs w name) off n"
  using assms by (intro file_bytes_sectors) (simp_all add: same_sectors_def blob_file_def)

lemma same_sectors_trans: "same_sectors a b \<Longrightarrow> same_sectors b c \<Longrightarrow> same_sectors a c"
  by (simp add: same_sectors_def)

lemma BlobReader_Read_ok:
  fixes s :: "('pk, 'sk, 'd) Server"
  assumes can: "can_read b2 blobs name s" and env: "\<And>i j. we_sys (envs i) j = sys_fine" "\<And>i. we_blobs (envs i) = blobs"
    and off: "off < blob_Size" and buf: "buf \<noteq> []" and k: "k = min (length buf) (blob_Size - off)"
  shows "\<exists>s'. BlobReader_Read (server_client b2 ec L envs) \<lparr>rr_name = name, rr_off = int off\<rparr> buf (c, s) =
      (Ok (file_bytes (blob_file b2 blobs (sv_world s) name) off k @ drop k buf, k, None),
       \<lparr>rr_name = name, rr_off = int (off + k)\<rparr>, c + 1, s') \<and>
    can_read b2 blobs name s' \<and> same_sectors (sv_world s) (sv_world s') \<and> nd_db (sv_node s') = nd_db (sv_node s)"
proof -
  define to where "to = (if int off + int (length buf) > int blob_Size then int blob_Size - int off else int (length buf))"
  have to: "to = int k" using off by (auto simp: to_def k min_def)
  have kk: "off + k \<le> blob_Size" "0 < k" "length (take k buf) = k" using off buf by (auto simp: k)
  obtain s' where s': "Server_ReadAt b2 (envs c) \<lparr>raq_Name = name, raq_Offset = of_int (int off), raq_Len = of_nat k\<rparr> s =
      (Ok (file_bytes (blob_file b2 blobs (sv_world s) name) off k), s')"
    "can_read b2 blobs name s'" "same_sectors (sv_world s) (sv_world s')" "nd_db (sv_node s') = nd_db (sv_node s)"
    using Server_ReadAt_ok [where env = "envs c", OF can env kk(1,2)] by blast
  have len: "length (file_bytes g off k) = k" for g by (simp add: file_bytes_def)
  have cp: "go_copy (take k buf) (file_bytes g off k) = file_bytes g off k" for g
    by (rule go_copy_same_length) (simp only: len kk(3))
  have "BlobReader_ReadAt (server_client b2 ec L envs) \<lparr>rr_name = name, rr_off = int off\<rparr> (take k buf) (int off) (c, s) =
      (Ok (file_bytes (blob_file b2 blobs (sv_world s) name) off k, k, None), c + 1, s')"
    unfolding BlobReader_ReadAt_def kk(3) server_client_def at_call_def rpcClient.simps BlobReader.simps fst_conv snd_conv s'(1)
    by (simp add: len cp)
  moreover have "int off \<noteq> int blob_Size" using off by simp
  ultimately have "BlobReader_Read (server_client b2 ec L envs) \<lparr>rr_name = name, rr_off = int off\<rparr> buf (c, s) =
      (Ok (file_bytes (blob_file b2 blobs (sv_world s) name) off k @ drop k buf, k, None),
       \<lparr>rr_name = name, rr_off = int (off + k)\<rparr>, c + 1, s')"
    unfolding BlobReader_Read_def BlobReader.select_convs Let_def to_def [symmetric] to by simp
  with s' show ?thesis by blast
qed

lemma copy_blob:
  fixes s :: "('pk, 'sk, 'd) Server"
  assumes env: "\<And>i j. we_sys (envs i) j = sys_fine" "\<And>i. we_blobs (envs i) = blobs"
    and "can_read b2 blobs name s" "off \<le> blob_Size" "buf \<noteq> []" "blob_Size - off < n"
  shows "\<exists>c' s'. io_Copy (server_client b2 ec L envs) n \<lparr>rr_name = name, rr_off = int off\<rparr> buf out (c, s) =
      Some (Ok (), out @ file_bytes (blob_file b2 blobs (sv_world s) name) off (blob_Size - off), c', s') \<and>
    can_read b2 blobs name s' \<and> same_sectors (sv_world s) (sv_world s') \<and> nd_db (sv_node s') = nd_db (sv_node s)"
  using assms(3-)
proof (induction n arbitrary: off buf out c s)
  case 0
  then show ?case by simp
next
  case (Suc n)
  show ?case
  proof (cases "off = blob_Size")
    case True
    then show ?thesis
      using Suc.prems(1) by (simp add: BlobReader_Read_def file_bytes_def)
  next
    case False
    define k where "k = min (length buf) (blob_Size - off)"
    have off: "off < blob_Size" and k: "0 < k" "off + k \<le> blob_Size" using False Suc.prems(2,3) by (auto simp: k_def)
    let ?f = "blob_file b2 blobs (sv_world s) name"
    obtain s1 where s1: "BlobReader_Read (server_client b2 ec L envs) \<lparr>rr_name = name, rr_off = int off\<rparr> buf (c, s) =
        (Ok (file_bytes ?f off k @ drop k buf, k, None), \<lparr>rr_name = name, rr_off = int (off + k)\<rparr>, c + 1, s1)"
      "can_read b2 blobs name s1" "same_sectors (sv_world s) (sv_world s1)" "nd_db (sv_node s1) = nd_db (sv_node s)"
      using BlobReader_Read_ok [where envs = envs, OF Suc.prems(1) env off Suc.prems(3) k_def] by blast
    have len: "length (file_bytes ?f off k) = k" by (simp add: file_bytes_def)
    have "file_bytes ?f off k \<noteq> []" using len k(1) by (metis length_0_conv less_numeral_extra(3))
    then have "file_bytes ?f off k @ drop k buf \<noteq> []" "blob_Size - (off + k) < n" using k Suc.prems(4) by auto
    from Suc.IH [OF s1(2) k(2) this, of "out @ file_bytes ?f off k" "c + 1"] obtain c' s' where IH:
      "io_Copy (server_client b2 ec L envs) n \<lparr>rr_name = name, rr_off = int (off + k)\<rparr> (file_bytes ?f off k @ drop k buf)
         (out @ file_bytes ?f off k) (c + 1, s1) =
       Some (Ok (), (out @ file_bytes ?f off k) @ file_bytes (blob_file b2 blobs (sv_world s1) name) (off + k) (blob_Size - (off + k)), c', s')"
      "can_read b2 blobs name s'" "same_sectors (sv_world s1) (sv_world s')" "nd_db (sv_node s') = nd_db (sv_node s1)" by blast
    have "file_bytes ?f off k @ file_bytes (blob_file b2 blobs (sv_world s1) name) (off + k) (blob_Size - (off + k)) =
        file_bytes ?f off (blob_Size - off)"
      using same_sectors_bytes [OF s1(3), of "off + k" "blob_Size - (off + k)"] file_bytes_append [of ?f off k "blob_Size - (off + k)"] k(2)
      by simp
    with IH s1 len show ?thesis
      by (intro exI [of _ c'] exI [of _ s']) (auto intro: same_sectors_trans)
  qed
qed

lemma readCmd_ok:
  fixes s :: "('pk, 'sk, 'd) Server"
  assumes "\<And>i j. we_sys (envs i) j = sys_fine" "\<And>i. we_blobs (envs i) = blobs" "can_read b2 blobs name s"
  shows "\<exists>c' s'. readCmd (server_client b2 ec L envs) name (c, s) =
      Some (Ok (), concat (map (file_sector (blob_file b2 blobs (sv_world s) name)) [0..<MaxSectors]), c', s') \<and>
    can_read b2 blobs name s' \<and> same_sectors (sv_world s) (sv_world s') \<and> nd_db (sv_node s') = nd_db (sv_node s)"
proof -
  have b: "replicate copyBufferSize (0 :: byte) \<noteq> []" by (simp add: copyBufferSize_def)
  show ?thesis
    using copy_blob [where envs = envs, OF assms, of 0 "replicate copyBufferSize 0" "Suc blob_Size" ec L "[]" c] b
    unfolding readCmd_def NewBlobReader_def blob_Size_def file_bytes_concat [symmetric] by simp
qed

section \<open>Properties\<close>



end
