(* ===== verification/App_Config.thy ===== *)
theory App_Config
  imports Complex_Main Util_Cache Crypto Blob_Store
begin

text \<open>
  Configuration and the home directory: \<open>config/config.go\<close>, \<open>config/default.go\<close>,
  \<open>config/node_identity.go\<close>, \<open>config/paths.go\<close>, \<open>config/home.go\<close>, \<open>log/logger.go\<close> (the levels),
  \<open>cli/homedir.go\<close> and \<open>cli/signer.go\<close>.

  The two conversions of private keys of \<open>btcec\<close> are the parameter \<open>K\<close>.  The text of the default
  configuration file, which \<open>text/template\<close> makes from a constant, is the parameter \<open>text\<close>.
  The file system maps paths to files and directories; \<open>sys\<close> is the outcome of each system call.
\<close>

section \<open>Log levels\<close>

datatype Level = LevelTrace | LevelDebug | LevelInfo | LevelWarn | LevelError | LevelFatal

fun Level_String :: "Level \<Rightarrow> string" where
  "Level_String LevelTrace = ''trace''"
| "Level_String LevelDebug = ''debug''"
| "Level_String LevelInfo = ''info''"
| "Level_String LevelWarn = ''warn''"
| "Level_String LevelError = ''error''"
| "Level_String LevelFatal = ''fatal''"

definition NewLevel :: "string \<Rightarrow> Level go" where
  "NewLevel l =
     (if l = Level_String LevelTrace then Ok LevelTrace
      else if l = Level_String LevelDebug then Ok LevelDebug
      else if l = Level_String LevelInfo then Ok LevelInfo
      else if l = Level_String LevelWarn then Ok LevelWarn
      else if l = Level_String LevelError then Ok LevelError
      else if l = Level_String LevelFatal then Ok LevelFatal
      else Err (ErrNew ''invalid log level''))"

section \<open>The configuration\<close>

record HeartbeatConfig =
  hbc_Moniker :: string
  hbc_URL :: string

record P2PConfig =
  p2c_Host :: string
  p2c_DNSSeeds :: "string list"
  p2c_FixedSeeds :: "string list"
  p2c_MaxInboundPeers :: int
  p2c_MaxOutboundPeers :: int
  p2c_ConnectionTimeoutMS :: int

record RPCConfig =
  rpcc_Host :: string
  rpcc_Port :: int

record HNSResolverConfig =
  hns_Host :: string
  hns_Port :: int
  hns_BasePath :: string
  hns_APIKey :: string

record UpdateQueueConfig =
  uqc_MaxLen :: int
  uqc_ReapIntervalMS :: int

record UpdaterConfig =
  udc_PollIntervalMS :: int
  udc_Workers :: int

record SyncerConfig =
  syc_TreeBaseResponseTimeoutMS :: int
  syc_SectorResponseTimeoutMS :: int

record SectorServerConfig =
  ssc_CacheExpiryMS :: int

record PeerExchangerConfig =
  pec_SampleSize :: int
  pec_ResponseTimeoutMS :: int
  pec_RequestIntervalMS :: int
  pec_MaxSentPeers :: int
  pec_MaxReceivedPeers :: int
  pec_MaxConcurrentDials :: int

text \<open>A \<open>float64\<close> is the rational number it stands for.\<close>

record NameImporterConfig =
  nic_ConfirmationDepth :: int
  nic_CheckIntervalMS :: int
  nic_Workers :: int
  nic_VerificationThreshold :: rat

record HeartbeaterConfig =
  hb_IntervalMS :: int
  hb_TimeoutMS :: int

record NameSyncerConfig =
  nsc_Workers :: int
  nsc_SampleSize :: int
  nsc_UpdateResponseTimeoutMS :: int
  nsc_IntervalMS :: int
  nsc_SyncResponseTimeoutMS :: int

record TuningConfig =
  tun_UpdateQueue :: UpdateQueueConfig
  tun_Updater :: UpdaterConfig
  tun_Syncer :: SyncerConfig
  tun_SectorServer :: SectorServerConfig
  tun_PeerExchanger :: PeerExchangerConfig
  tun_NameImporter :: NameImporterConfig
  tun_Heartbeat :: HeartbeaterConfig
  tun_NameSyncer :: NameSyncerConfig

record Config =
  cfg_LogLevel :: string
  cfg_EnableProfiler :: bool
  cfg_Heartbeat :: HeartbeatConfig
  cfg_P2P :: P2PConfig
  cfg_RPC :: RPCConfig
  cfg_HNSResolver :: HNSResolverConfig
  cfg_BanLists :: "string list"
  cfg_Tuning :: TuningConfig

text \<open>A field that the literal leaves out is zero, as the exchanger's response timeout.\<close>

definition DefaultConfig :: Config where
  "DefaultConfig =
     \<lparr>cfg_LogLevel = Level_String LevelInfo, cfg_EnableProfiler = False,
      cfg_Heartbeat = \<lparr>hbc_Moniker = '''', hbc_URL = ''''\<rparr>,
      cfg_P2P = \<lparr>p2c_Host = ''0.0.0.0'', p2c_DNSSeeds = [''seeds-test.merkleblock.com''], p2c_FixedSeeds = [],
        p2c_MaxInboundPeers = 117, p2c_MaxOutboundPeers = 8, p2c_ConnectionTimeoutMS = 5000\<rparr>,
      cfg_RPC = \<lparr>rpcc_Host = ''127.0.0.1'', rpcc_Port = 9098\<rparr>,
      cfg_HNSResolver = \<lparr>hns_Host = ''http://127.0.0.1'', hns_Port = 15037, hns_BasePath = '''', hns_APIKey = ''''\<rparr>,
      cfg_BanLists = [],
      cfg_Tuning =
        \<lparr>tun_UpdateQueue = \<lparr>uqc_MaxLen = 1000, uqc_ReapIntervalMS = 5000\<rparr>,
         tun_Updater = \<lparr>udc_PollIntervalMS = 100, udc_Workers = 2\<rparr>,
         tun_Syncer = \<lparr>syc_TreeBaseResponseTimeoutMS = 10000, syc_SectorResponseTimeoutMS = 15000\<rparr>,
         tun_SectorServer = \<lparr>ssc_CacheExpiryMS = 5000\<rparr>,
         tun_PeerExchanger = \<lparr>pec_SampleSize = 12, pec_ResponseTimeoutMS = 0, pec_RequestIntervalMS = 60 * 60 * 1000,
           pec_MaxSentPeers = 255, pec_MaxReceivedPeers = 255, pec_MaxConcurrentDials = 2\<rparr>,
         tun_NameImporter = \<lparr>nic_ConfirmationDepth = 24, nic_CheckIntervalMS = 60000, nic_Workers = 5,
           nic_VerificationThreshold = 8106479329266893 / 2 ^ 53\<rparr>,
         tun_Heartbeat = \<lparr>hb_IntervalMS = 30000, hb_TimeoutMS = 10000\<rparr>,
         tun_NameSyncer = \<lparr>nsc_Workers = 2, nsc_SampleSize = 7, nsc_UpdateResponseTimeoutMS = 5000,
           nsc_IntervalMS = 60 * 60 * 1000, nsc_SyncResponseTimeoutMS = 60000\<rparr>\<rparr>\<rparr>"

definition ConvertDuration :: "int \<Rightarrow> duration \<Rightarrow> duration" where
  "ConvertDuration base unit = int64 (base * unit)"

section \<open>Identities\<close>

record 'sk privkeys =
  pk_Serialize :: "'sk \<Rightarrow> bytes"
  pk_FromBytes :: "bytes \<Rightarrow> 'sk"

text \<open>Documented behaviour: a private key serializes to 32 bytes, from which it is read back.\<close>

definition privkey_laws :: "'sk privkeys \<Rightarrow> bool" where
  "privkey_laws K \<longleftrightarrow> (\<forall>sk. length (pk_Serialize K sk) = 32 \<and> pk_FromBytes K (pk_Serialize K sk) = sk)"

definition Identity_MarshalBinary :: "'sk privkeys \<Rightarrow> 'sk \<Rightarrow> bytes" where
  "Identity_MarshalBinary K n = pk_Serialize K n"

definition Identity_UnmarshalBinary :: "'sk privkeys \<Rightarrow> bytes \<Rightarrow> 'sk go" where
  "Identity_UnmarshalBinary K d =
     (if length d \<noteq> 32 then Err (ErrNew ''invalid private key length'') else Ok (pk_FromBytes K d))"

section \<open>The home directory\<close>

datatype fsnode = FFile bytes | FDir

type_synonym homeFS = "string \<Rightarrow> fsnode option"

text \<open>
  \<open>os.MkdirAll\<close>: every directory on the way to the path is made if it is missing.  A file on the way
  is an error, after which the directories before it exist.
\<close>

definition path_parents :: "string \<Rightarrow> string list" where
  "path_parents p = filter (\<lambda>q. q \<noteq> []) (map (\<lambda>i. take i p) (filter (\<lambda>i. p ! i = CHR ''/'') [0..<length p])) @ [p]"

fun mkdirs :: "string list \<Rightarrow> homeFS \<Rightarrow> unit go \<times> homeFS" where
  "mkdirs [] fs = (Ok (), fs)"
| "mkdirs (p # ps) fs =
     (case fs p of
        Some (FFile _) \<Rightarrow> (Err (ErrNew ''not a directory''), fs)
      | _ \<Rightarrow> mkdirs ps (fs(p := Some FDir)))"

definition os_MkdirAll :: "err option \<Rightarrow> string \<Rightarrow> homeFS \<Rightarrow> unit go \<times> homeFS" where
  "os_MkdirAll e p fs = (case e of Some e \<Rightarrow> (Err e, fs) | None \<Rightarrow> mkdirs (path_parents p) fs)"

definition ioutil_WriteFile :: "err option \<Rightarrow> string \<Rightarrow> bytes \<Rightarrow> homeFS \<Rightarrow> unit go \<times> homeFS" where
  "ioutil_WriteFile e p d fs =
     (case e of
        Some e \<Rightarrow> (Err e, fs)
      | None \<Rightarrow> if fs p = Some FDir then (Err (ErrNew ''is a directory''), fs) else (Ok (), fs(p := Some (FFile d))))"

definition ioutil_ReadFile :: "err option \<Rightarrow> string \<Rightarrow> homeFS \<Rightarrow> bytes go" where
  "ioutil_ReadFile e p fs =
     (case e of
        Some e \<Rightarrow> Err e
      | None \<Rightarrow>
          (case fs p of
             None \<Rightarrow> Err os_ErrNotExist
           | Some FDir \<Rightarrow> Err (ErrNew ''is a directory'')
           | Some (FFile d) \<Rightarrow> Ok d))"

definition HomeDirExists :: "err option \<Rightarrow> string \<Rightarrow> homeFS \<Rightarrow> bool go" where
  "HomeDirExists e p fs =
     (case e of
        Some e \<Rightarrow> if errors_Is e os_ErrNotExist then Ok False else Err e
      | None \<Rightarrow>
          (case fs p of
             None \<Rightarrow> Ok False
           | Some (FFile _) \<Rightarrow> Err (ErrNew ''home dir path exists, but is a file'')
           | Some FDir \<Rightarrow> Ok True))"

definition EnsureHomeDir :: "err option \<Rightarrow> string \<Rightarrow> homeFS \<Rightarrow> unit go" where
  "EnsureHomeDir e p fs =
     go_bind (HomeDirExists e p fs) (\<lambda>exists.
     if \<not> exists then Err (ErrNew ''home directory does not exist - try running fnd init'') else Ok ())"

definition identity_path :: "string \<Rightarrow> string" where "identity_path home = path_Join [home, ''identity'']"
definition ExpandBlobsPath :: "string \<Rightarrow> string" where "ExpandBlobsPath home = path_Join [home, ''blobs'']"
definition ExpandDBPath :: "string \<Rightarrow> string" where "ExpandDBPath home = path_Join [home, ''db'']"

definition WriteIdentity :: "'sk privkeys \<Rightarrow> err option \<Rightarrow> string \<Rightarrow> 'sk \<Rightarrow> homeFS \<Rightarrow> unit go \<times> homeFS" where
  "WriteIdentity K e home i fs = ioutil_WriteFile e (identity_path home) (Identity_MarshalBinary K i) fs"

definition ReadNodeIdentity :: "'sk privkeys \<Rightarrow> err option \<Rightarrow> string \<Rightarrow> homeFS \<Rightarrow> 'sk go" where
  "ReadNodeIdentity K e home fs =
     go_bind (ioutil_ReadFile e (identity_path home) fs) (Identity_UnmarshalBinary K)"

definition InitBlobsDir :: "err option \<Rightarrow> string \<Rightarrow> homeFS \<Rightarrow> unit go \<times> homeFS" where
  "InitBlobsDir e home fs = os_MkdirAll e (ExpandBlobsPath home) fs"

definition InitDBDir :: "err option \<Rightarrow> string \<Rightarrow> homeFS \<Rightarrow> unit go \<times> homeFS" where
  "InitDBDir e home fs = os_MkdirAll e (ExpandDBPath home) fs"

definition WriteDefaultConfigFile :: "err option \<Rightarrow> bytes \<Rightarrow> string \<Rightarrow> homeFS \<Rightarrow> unit go \<times> homeFS" where
  "WriteDefaultConfigFile e text home fs = ioutil_WriteFile e (path_Join [home, ''config.toml'']) text fs"

text \<open>Running steps until one fails; the identity \<open>sk\<close> is what the random generator gives.\<close>

fun fs_steps :: "(homeFS \<Rightarrow> unit go \<times> homeFS) list \<Rightarrow> homeFS \<Rightarrow> unit go \<times> homeFS" where
  "fs_steps [] fs = (Ok (), fs)"
| "fs_steps (f # steps) fs = (case f fs of (Ok _, fs1) \<Rightarrow> fs_steps steps fs1 | (r, fs1) \<Rightarrow> (r, fs1))"

definition InitHomeDir ::
  "'sk privkeys \<Rightarrow> (nat \<Rightarrow> err option) \<Rightarrow> bytes \<Rightarrow> 'sk \<Rightarrow> string \<Rightarrow> homeFS \<Rightarrow> unit go \<times> homeFS" where
  "InitHomeDir K sys text sk home fs =
     fs_steps [os_MkdirAll (sys 0) home, WriteIdentity K (sys 1) home sk, InitBlobsDir (sys 2) home, InitDBDir (sys 3) home,
       WriteDefaultConfigFile (sys 4) text home] fs"

text \<open>The init command and the signer of \<open>cli\<close>; \<open>home\<close> is the expanded path.\<close>

definition cli_InitHomeDir ::
  "'sk privkeys \<Rightarrow> (nat \<Rightarrow> err option) \<Rightarrow> bytes \<Rightarrow> 'sk \<Rightarrow> string \<Rightarrow> homeFS \<Rightarrow> string go \<times> homeFS" where
  "cli_InitHomeDir K sys text sk home fs =
     (case HomeDirExists (sys 5) home fs of
        Panic m \<Rightarrow> (Panic m, fs)
      | Err e \<Rightarrow> (Err e, fs)
      | Ok True \<Rightarrow> (Err (ErrNew ''home directory is already initialized''), fs)
      | Ok False \<Rightarrow>
          (case InitHomeDir K sys text sk home fs of (r, fs1) \<Rightarrow> (go_bind r (\<lambda>_. Ok home), fs1)))"

definition GetSigner :: "'sk privkeys \<Rightarrow> err option \<Rightarrow> string \<Rightarrow> homeFS \<Rightarrow> 'sk go" where
  "GetSigner K e home fs = ReadNodeIdentity K e home fs"

section \<open>A fresh home\<close>

lemma NewLevel_String: "NewLevel (Level_String l) = Ok l"
  by (cases l) (simp_all add: NewLevel_def)

lemma path_Join_home: "home \<noteq> [] \<Longrightarrow> x \<noteq> [] \<Longrightarrow> path_Join [home, x] = home @ ''/'' @ x"
  by (simp add: path_Join_def)

lemma path_parents_iff:
  "q \<in> set (path_parents p) \<longleftrightarrow> q = p \<or> (\<exists>i < length p. q = take i p \<and> p ! i = CHR ''/'' \<and> q \<noteq> [])"
  by (auto simp: path_parents_def image_iff)

lemma path_parents_length: "q \<in> set (path_parents p) \<Longrightarrow> length q \<le> length p"
  by (auto simp: path_parents_iff)

lemma path_parents_self: "p \<in> set (path_parents p)"
  by (simp add: path_parents_iff)

lemma path_parents_sub:
  assumes "\<forall>c \<in> set x. c \<noteq> CHR ''/''" and "q \<in> set (path_parents (home @ ''/'' @ x))"
  shows "q \<in> set (path_parents home) \<or> q = home @ ''/'' @ x"
proof -
  consider "q = home @ ''/'' @ x"
    | i where "q = take i (home @ ''/'' @ x)" "i < length (home @ ''/'' @ x)" "(home @ ''/'' @ x) ! i = CHR ''/''" "q \<noteq> []"
    using assms(2) unfolding path_parents_iff by blast
  then show ?thesis
  proof cases
    case (2 i)
    have "i \<le> length home"
    proof (rule ccontr)
      assume "\<not> i \<le> length home"
      then obtain j where i: "i = Suc (length home + j)" by (metis less_natE not_le)
      then have "j < length x" "x ! j = CHR ''/''" using 2(2,3) by (simp_all add: nth_append)
      then show False using assms(1) by auto
    qed
    then show ?thesis
      using 2 by (cases "i = length home") (auto simp: path_parents_iff nth_append intro!: exI [of _ i])
  qed simp
qed

lemma mkdirs_ok:
  assumes "\<forall>p \<in> set ps. \<forall>d. fs p \<noteq> Some (FFile d)"
  shows "mkdirs ps fs = (Ok (), \<lambda>p. if p \<in> set ps then Some FDir else fs p)"
  using assms
proof (induction ps arbitrary: fs)
  case (Cons p ps)
  have "mkdirs (p # ps) fs = mkdirs ps (fs(p := Some FDir))"
    using Cons.prems by (auto split: option.splits fsnode.splits)
  also have "\<dots> = (Ok (), \<lambda>q. if q \<in> set ps then Some FDir else (fs(p := Some FDir)) q)"
    by (rule Cons.IH) (use Cons.prems in simp)
  finally show ?case by (auto simp: fun_eq_iff)
qed simp

definition above_dirs :: "string \<Rightarrow> homeFS \<Rightarrow> bool" where
  "above_dirs home fs \<longleftrightarrow> (\<forall>p \<in> set (path_parents home). fs p = Some FDir)"

lemma MkdirAll_below:
  assumes "above_dirs home fs" and "\<forall>c \<in> set x. c \<noteq> CHR ''/''" and "fs (home @ ''/'' @ x) = None"
  shows "os_MkdirAll None (home @ ''/'' @ x) fs = (Ok (), fs(home @ ''/'' @ x := Some FDir))"
proof -
  have dirs: "\<forall>p \<in> set (path_parents (home @ ''/'' @ x)). \<forall>d. fs p \<noteq> Some (FFile d)"
    using path_parents_sub [OF assms(2), of _ home] assms(1,3) by (fastforce simp: above_dirs_def)
  have "(\<lambda>p. if p \<in> set (path_parents (home @ ''/'' @ x)) then Some FDir else fs p) = fs(home @ ''/'' @ x := Some FDir)"
    using path_parents_sub [OF assms(2), of _ home] path_parents_self [of "home @ ''/'' @ x"] assms(1)
    by (fastforce simp: above_dirs_def fun_eq_iff)
  then show ?thesis unfolding os_MkdirAll_def mkdirs_ok [OF dirs] by simp
qed

lemma above_dirs_upd: "length home < length q \<Longrightarrow> above_dirs home fs \<Longrightarrow> above_dirs home (fs(q := v))"
  using path_parents_length by (fastforce simp: above_dirs_def)

text \<open>
  C37. Initializing a home directory where there is none, when no system call fails: the daemon and the
  client then find the directory, read back the identity that was generated, and have the directories of
  blobs and database; running the initialization again is refused and changes nothing, so that an
  identity is never overwritten.
\<close>

theorem home_initialized:
  assumes K: "privkey_laws K" and home: "home \<noteq> []" and new: "fs home = None" "\<And>x. fs (home @ ''/'' @ x) = None"
    and above: "\<And>p d. p \<in> set (path_parents home) \<Longrightarrow> fs p \<noteq> Some (FFile d)"
  shows "\<exists>fs'. cli_InitHomeDir K (\<lambda>_. None) text sk home fs = (Ok home, fs')
    \<and> EnsureHomeDir None home fs' = Ok () \<and> GetSigner K None home fs' = Ok sk
    \<and> fs' (ExpandBlobsPath home) = Some FDir \<and> fs' (ExpandDBPath home) = Some FDir
    \<and> cli_InitHomeDir K (\<lambda>_. None) text sk2 home fs' = (Err (ErrNew ''home directory is already initialized''), fs')"
proof -
  define fs1 where "fs1 = (\<lambda>p. if p \<in> set (path_parents home) then Some FDir else fs p)"
  have m0: "os_MkdirAll None home fs = (Ok (), fs1)"
    unfolding fs1_def os_MkdirAll_def by (simp add: mkdirs_ok above)
  have below: "fs1 (home @ ''/'' @ x) = None" for x
    using new(2) path_parents_length [of "home @ ''/'' @ x" home] by (auto simp: fs1_def)
  have ab1: "above_dirs home fs1" by (simp add: above_dirs_def fs1_def)
  define fs2 where "fs2 = fs1(home @ ''/identity'' := Some (FFile (pk_Serialize K sk)))"
  define fs3 where "fs3 = fs2(home @ ''/blobs'' := Some FDir)"
  define fs4 where "fs4 = fs3(home @ ''/db'' := Some FDir)"
  define fs5 where "fs5 = fs4(home @ ''/config.toml'' := Some (FFile text))"
  have paths: "identity_path home = home @ ''/identity''" "ExpandBlobsPath home = home @ ''/blobs''" "ExpandDBPath home = home @ ''/db''"
    "path_Join [home, ''config.toml''] = home @ ''/config.toml''"
    using home by (simp_all add: identity_path_def ExpandBlobsPath_def ExpandDBPath_def path_Join_home)
  have ab: "above_dirs home fs2" "above_dirs home fs3" "above_dirs home fs5"
    using ab1 by (simp_all add: fs2_def fs3_def fs4_def fs5_def above_dirs_upd)
  have w2: "WriteIdentity K None home sk fs1 = (Ok (), fs2)"
    using below [of "''identity''"] by (simp add: WriteIdentity_def ioutil_WriteFile_def paths Identity_MarshalBinary_def fs2_def)
  have w3: "InitBlobsDir None home fs2 = (Ok (), fs3)"
    using MkdirAll_below [OF ab(1), of "''blobs''"] below [of "''blobs''"] by (simp add: InitBlobsDir_def paths fs2_def fs3_def)
  have w4: "InitDBDir None home fs3 = (Ok (), fs4)"
    using MkdirAll_below [OF ab(2), of "''db''"] below [of "''db''"] by (simp add: InitDBDir_def paths fs2_def fs3_def fs4_def)
  have w5: "WriteDefaultConfigFile None text home fs4 = (Ok (), fs5)"
    using below [of "''config.toml''"]
    by (simp add: WriteDefaultConfigFile_def ioutil_WriteFile_def paths fs2_def fs3_def fs4_def fs5_def)
  have "cli_InitHomeDir K (\<lambda>_. None) text sk home fs = (Ok home, fs5)"
    using new(1) m0 w2 w3 w4 w5 by (simp add: cli_InitHomeDir_def HomeDirExists_def InitHomeDir_def)
  moreover have ex: "HomeDirExists None home fs5 = Ok True"
    using ab(3) path_parents_self by (auto simp: HomeDirExists_def above_dirs_def)
  moreover have "GetSigner K None home fs5 = Ok sk"
    using K by (simp add: GetSigner_def ReadNodeIdentity_def ioutil_ReadFile_def paths Identity_UnmarshalBinary_def privkey_laws_def
        fs2_def fs3_def fs4_def fs5_def)
  ultimately show ?thesis
    by (intro exI [of _ fs5]) (simp add: EnsureHomeDir_def cli_InitHomeDir_def paths, simp add: fs3_def fs4_def fs5_def)
qed

theorem home_initialized_witness:
  "\<exists>fs'. cli_InitHomeDir \<lparr>pk_Serialize = (\<lambda>sk. replicate 31 0 @ [sk]), pk_FromBytes = last\<rparr> (\<lambda>_. None) [] 7 ''/h'' (\<lambda>_. None) = (Ok ''/h'', fs')
     \<and> GetSigner \<lparr>pk_Serialize = (\<lambda>sk. replicate 31 0 @ [sk]), pk_FromBytes = last\<rparr> None ''/h'' fs' = Ok 7"
  using home_initialized [of "\<lparr>pk_Serialize = (\<lambda>sk. replicate 31 0 @ [sk]), pk_FromBytes = last\<rparr>" "''/h''" "\<lambda>_. None" "[]" 7 0]
  by (auto simp: privkey_laws_def)

end
