(* ===== verification/Net_IP.thy ===== *)
theory Net_IP
  imports Proto_Lists Wire_Codec
begin

text \<open>
  Addresses as text: \<open>net.ParseIP\<close> and \<open>IP.String\<close> of the Go standard library, version 1.12, which
  the peer exchanger and the RPC server use.
\<close>

section \<open>Numbers\<close>

definition big :: nat where "big = 0xFFFFFF"

text \<open>The number, how many characters it takes, and whether there is one.\<close>

fun dtoi_loop :: "nat \<Rightarrow> nat \<Rightarrow> string \<Rightarrow> nat \<times> nat \<times> bool" where
  "dtoi_loop n i [] = (if i = 0 then (0, 0, False) else (n, i, True))"
| "dtoi_loop n i (c # s) =
     (if 48 \<le> (of_char c :: nat) \<and> (of_char c :: nat) \<le> 57 then
        let n1 = n * 10 + (of_char c - 48) in
        if n1 \<ge> big then (big, i, False) else dtoi_loop n1 (i + 1) s
      else if i = 0 then (0, 0, False) else (n, i, True))"

definition dtoi :: "string \<Rightarrow> nat \<times> nat \<times> bool" where
  "dtoi s = dtoi_loop 0 0 s"

definition xdigit :: "char \<Rightarrow> nat option" where
  "xdigit c =
     (let x = (of_char c :: nat) in
      if 48 \<le> x \<and> x \<le> 57 then Some (x - 48)
      else if 97 \<le> x \<and> x \<le> 102 then Some (x - 97 + 10)
      else if 65 \<le> x \<and> x \<le> 70 then Some (x - 65 + 10)
      else None)"

fun xtoi_loop :: "nat \<Rightarrow> nat \<Rightarrow> string \<Rightarrow> nat \<times> nat \<times> bool" where
  "xtoi_loop n i [] = (if i = 0 then (0, i, False) else (n, i, True))"
| "xtoi_loop n i (c # s) =
     (case xdigit c of
        Some d \<Rightarrow> if n * 16 + d \<ge> big then (0, i, False) else xtoi_loop (n * 16 + d) (i + 1) s
      | None \<Rightarrow> if i = 0 then (0, i, False) else (n, i, True))"

definition xtoi :: "string \<Rightarrow> nat \<times> nat \<times> bool" where
  "xtoi s = xtoi_loop 0 0 s"

section \<open>Parsing\<close>

text \<open>The first argument counts the numbers that are missing, the last holds those found.\<close>

fun parseIPv4_loop :: "nat \<Rightarrow> string \<Rightarrow> bytes \<Rightarrow> bytes option" where
  "parseIPv4_loop 0 s p = (if s \<noteq> [] then None else Some p)"
| "parseIPv4_loop (Suc k) s p =
     (if s = [] then None
      else if p \<noteq> [] \<and> hd s \<noteq> CHR ''.'' then None
      else
        let s1 = (if p \<noteq> [] then tl s else s) in
        case dtoi s1 of
          (n, c, ok) \<Rightarrow> if \<not> ok \<or> n > 0xFF then None else parseIPv4_loop k (drop c s1) (p @ [of_nat n]))"

definition parseIPv4 :: "string \<Rightarrow> IP option" where
  "parseIPv4 s = map_option (\<lambda>p. v4InV6Prefix @ p) (parseIPv4_loop 4 s [])"

text \<open>The bytes so far, the rest of the text, and the place of the ellipsis.\<close>

fun parseIPv6_loop :: "nat \<Rightarrow> string \<Rightarrow> bytes \<Rightarrow> nat option \<Rightarrow> (bytes \<times> string \<times> nat option) option" where
  "parseIPv6_loop 0 s ip ellipsis = Some (ip, s, ellipsis)"
| "parseIPv6_loop (Suc k) s ip ellipsis =
     (case xtoi s of
        (n, c, ok) \<Rightarrow>
          if \<not> ok \<or> n > 0xFFFF then None
          else if c < length s \<and> s ! c = CHR ''.'' then
            if ellipsis = None \<and> length ip \<noteq> 12 then None
            else if length ip + 4 > 16 then None
            else map_option (\<lambda>ip4. (ip @ drop 12 ip4, [], ellipsis)) (parseIPv4 s)
          else
            let ip1 = ip @ [of_nat (n div 256), of_nat n]; s1 = drop c s in
            if s1 = [] then Some (ip1, [], ellipsis)
            else if hd s1 \<noteq> CHR '':'' \<or> length s1 = 1 then None
            else
              let s2 = tl s1 in
              if hd s2 = CHR '':'' then
                if ellipsis \<noteq> None then None
                else if tl s2 = [] then Some (ip1, [], Some (length ip1))
                else parseIPv6_loop k (tl s2) ip1 (Some (length ip1))
              else parseIPv6_loop k s2 ip1 ellipsis)"

definition parseIPv6 :: "string \<Rightarrow> IP option" where
  "parseIPv6 s =
     (let leading = (length s \<ge> 2 \<and> s ! 0 = CHR '':'' \<and> s ! 1 = CHR '':'');
          s1 = (if leading then drop 2 s else s) in
      if leading \<and> s1 = [] then Some (replicate 16 0)
      else
        case parseIPv6_loop 8 s1 [] (if leading then Some 0 else None) of
          None \<Rightarrow> None
        | Some (ip, s2, ellipsis) \<Rightarrow>
            if s2 \<noteq> [] then None
            else if length ip < 16 then
              map_option (\<lambda>e. take e ip @ replicate (16 - length ip) 0 @ drop e ip) ellipsis
            else if ellipsis \<noteq> None then None
            else Some ip)"

fun ParseIP_scan :: "string \<Rightarrow> string \<Rightarrow> IP option" where
  "ParseIP_scan s [] = None"
| "ParseIP_scan s (c # r) =
     (if c = CHR ''.'' then parseIPv4 s else if c = CHR '':'' then parseIPv6 s else ParseIP_scan s r)"

definition ParseIP :: "string \<Rightarrow> IP option" where
  "ParseIP s = ParseIP_scan s s"

section \<open>Printing\<close>

fun hex_nat :: "nat \<Rightarrow> string" where
  "hex_nat n = (if n < 16 then [hextable ! n] else hex_nat (n div 16) @ [hextable ! (n mod 16)])"

declare hex_nat.simps [simp del]

definition ip_groups :: "IP \<Rightarrow> nat list" where
  "ip_groups p = map (\<lambda>i. unat (p ! (2 * i)) * 256 + unat (p ! (2 * i + 1))) [0..<8]"

text \<open>The longest run of zero groups, as its first group and the one after its last.\<close>

function zero_run :: "nat list \<Rightarrow> nat \<Rightarrow> nat \<times> nat \<Rightarrow> nat \<times> nat" where
  "zero_run gs i (e0, e1) =
     (if i \<ge> length gs then (e0, e1)
      else
        let j = i + length (takeWhile (\<lambda>g. g = 0) (drop i gs)) in
        if j > i \<and> j - i > e1 - e0 then zero_run gs (j + 1) (i, j) else zero_run gs (i + 1) (e0, e1))"
  by pat_completeness auto
termination
  by (relation "measure (\<lambda>(gs, i, e). length gs - i)") auto

declare zero_run.simps [simp del]

function print_groups :: "nat list \<Rightarrow> nat option \<Rightarrow> nat \<Rightarrow> nat \<Rightarrow> string" where
  "print_groups gs e0 e1 i =
     (if i \<ge> length gs then []
      else if e0 = Some i \<and> i < e1 then
        ''::'' @ (if e1 \<ge> length gs then [] else hex_nat (gs ! e1) @ print_groups gs e0 e1 (e1 + 1))
      else (if i > 0 then '':'' else []) @ hex_nat (gs ! i) @ print_groups gs e0 e1 (i + 1))"
  by pat_completeness auto
termination
  by (relation "measure (\<lambda>(gs, e0, e1, i). length gs - i)") auto

declare print_groups.simps [simp del]

definition IP_String :: "IP \<Rightarrow> string" where
  "IP_String ip =
     (if ip = [] then ''<nil>''
      else
        case IP_To4 ip of
          Some p4 \<Rightarrow> IPv4_String p4
        | None \<Rightarrow>
            if length ip \<noteq> 16 then ''?'' @ hex_EncodeToString ip
            else
              case zero_run (ip_groups ip) 0 (0, 0) of
                (e0, e1) \<Rightarrow> print_groups (ip_groups ip) (if e1 - e0 \<le> 1 then None else Some e0) e1 0)"

section \<open>Dotted addresses\<close>

lemma itoa_not_Nil [simp]: "itoa n \<noteq> []"
  by (subst itoa.simps) simp

lemma dtoi_loop_itoa:
  "m * 10 ^ length (itoa n) + n < big \<Longrightarrow> dtoi_loop m i (itoa n @ r) = dtoi_loop (m * 10 ^ length (itoa n) + n) (i + length (itoa n)) r"
proof (induction n arbitrary: r rule: itoa.induct)
  case (1 n)
  show ?case
  proof (cases "n < 10")
    case True
    then show ?thesis using 1(2) by (subst itoa.simps) (simp add: itoa.simps [of n] Let_def)
  next
    case False
    have len: "length (itoa n) = Suc (length (itoa (n div 10)))" using False by (subst itoa.simps) simp
    have n: "n = n div 10 * 10 + n mod 10" by simp
    have bound: "m * 10 ^ length (itoa (n div 10)) + n div 10 < big"
      using 1(2) unfolding len by (simp add: algebra_simps)
    have "dtoi_loop m i (itoa n @ r) = dtoi_loop m i (itoa (n div 10) @ char_of (48 + n mod 10) # r)"
      using False by (subst itoa.simps) simp
    also have "\<dots> = dtoi_loop (m * 10 ^ length (itoa (n div 10)) + n div 10) (i + length (itoa (n div 10))) (char_of (48 + n mod 10) # r)"
      by (rule 1(1) [OF False bound])
    also have "\<dots> = dtoi_loop (m * 10 ^ length (itoa n) + n) (i + length (itoa n)) r"
    proof -
      have "(m * 10 ^ length (itoa (n div 10)) + n div 10) * 10 + n mod 10 = m * 10 ^ length (itoa n) + n"
        unfolding len by (simp add: algebra_simps)
      moreover have "n mod 10 \<le> 9" using mod_less_divisor [of 10 n] by linarith
      ultimately show ?thesis using 1(2) len by (simp add: Let_def not_le ac_simps)
    qed
    finally show ?thesis .
  qed
qed

lemma dtoi_itoa:
  assumes "n < 256" and "r = [] \<or> hd r = CHR ''.''"
  shows "dtoi (itoa n @ r) = (n, length (itoa n), True)"
proof -
  have "dtoi (itoa n @ r) = dtoi_loop n (length (itoa n)) r"
    using dtoi_loop_itoa [of 0 n 0 r] assms(1) by (simp add: dtoi_def big_def)
  then show ?thesis using assms(2) by (cases r) auto
qed

lemma parseIPv4_step:
  assumes "r = [] \<or> hd r = CHR ''.''"
  shows "parseIPv4_loop (Suc k) ((if p = [] then [] else ''.'') @ itoa (unat b) @ r) p = parseIPv4_loop k r (p @ [b :: byte])"
proof -
  have n: "unat b < 256" using unsigned_less [of b, where ?'a = nat] by simp
  show ?thesis using n by (simp add: dtoi_itoa [OF n assms] Let_def)
qed

lemma parseIPv4_String: "parseIPv4_loop 4 (IPv4_String [a, b, c, d]) [] = Some [a, b, c, d]"
proof -
  have "IPv4_String [a, b, c, d] = itoa (unat a) @ ''.'' @ itoa (unat b) @ ''.'' @ itoa (unat c) @ ''.'' @ itoa (unat d) @ []"
    by (simp add: IPv4_String_def)
  then show ?thesis
    using parseIPv4_step [of "''.'' @ itoa (unat b) @ ''.'' @ itoa (unat c) @ ''.'' @ itoa (unat d) @ []" 3 "[]" a]
      parseIPv4_step [of "''.'' @ itoa (unat c) @ ''.'' @ itoa (unat d) @ []" 2 "[a]" b]
      parseIPv4_step [of "''.'' @ itoa (unat d) @ []" 1 "[a, b]" c] parseIPv4_step [of "[]" 0 "[a, b, c]" d]
    by (simp add: numeral_eq_Suc)
qed

lemma itoa_digits: "c \<in> set (itoa n) \<Longrightarrow> c \<noteq> CHR ''.'' \<and> c \<noteq> CHR '':''"
proof (induction n rule: itoa.induct)
  case (1 n)
  have "char_of (48 + m) \<noteq> CHR ''.'' \<and> char_of (48 + m) \<noteq> CHR '':''" if "m < 10" for m :: nat
  proof -
    have "of_char (char_of (48 + m) :: char) = 48 + m" using that by simp
    then have "of_char (char_of (48 + m) :: char) \<noteq> (of_char CHR ''.'' :: nat)" "of_char (char_of (48 + m) :: char) \<noteq> (of_char CHR '':'' :: nat)"
      using that by simp_all
    then show ?thesis by metis
  qed
  then show ?case using 1 by (subst (asm) (2) itoa.simps) (auto split: if_splits)
qed

lemma ParseIP_scan_skip: "\<forall>c \<in> set x. c \<noteq> CHR ''.'' \<and> c \<noteq> CHR '':'' \<Longrightarrow> ParseIP_scan s (x @ CHR ''.'' # r) = parseIPv4 s"
  by (induction x) auto

lemma ParseIP_String_v4:
  assumes "IP_To4 ip = Some p"
  shows "ParseIP (IP_String ip) = Some (v4InV6Prefix @ p)" and "IP_String (v4InV6Prefix @ p) = IP_String ip"
proof -
  have len: "length p = 4" using assms by (auto simp: IP_To4_def split: if_splits)
  then obtain a b c d where p: "p = [a, b, c, d]" by (auto simp: numeral_eq_Suc length_Suc_conv)
  have s: "IP_String ip = IPv4_String p" using assms by (auto simp: IP_String_def IP_To4_def)
  have "IPv4_String p = itoa (unat a) @ CHR ''.'' # itoa (unat b) @ ''.'' @ itoa (unat c) @ ''.'' @ itoa (unat d)"
    by (simp add: p IPv4_String_def)
  then have "ParseIP (IPv4_String p) = parseIPv4 (IPv4_String p)"
    using ParseIP_scan_skip [of "itoa (unat a)" "IPv4_String p"] itoa_digits by (simp add: ParseIP_def)
  then show "ParseIP (IP_String ip) = Some (v4InV6Prefix @ p)"
    unfolding s by (simp add: parseIPv4_def p parseIPv4_String)
  show "IP_String (v4InV6Prefix @ p) = IP_String ip"
    unfolding s using len by (simp add: IP_String_def IP_To4_def v4InV6Prefix_def)
qed

end
