(* ===== verification/Proto_Exchange.thy ===== *)
theory Proto_Exchange
  imports App_Config Net_IP P2P_Manager "HOL-Library.Signed_Division" "HOL-Library.Multiset"
begin

text \<open>
  The exchange of peers, \<open>protocol/peer_exchanger.go\<close>: asking all peers for the peers they know,
  answering such requests from the peer store, and dialing what comes back.

  The dialer is an interface in the source: \<open>dial\<close> is its call \<open>DialPeer\<close> on a state \<open>'q\<close>, with the
  number of the call.  \<open>rnd\<close> is what the random generator gives for each step of the shuffle.  The field
  \<open>activeDials\<close> and the observable of the source are never used.
\<close>

section \<open>State\<close>

definition MaxSentPeerCount :: nat where "MaxSentPeerCount = 255"

record ('sk, 'd) PeerExchanger =
  pe_SampleSize :: int
  pe_ResponseTimeout :: duration
  pe_RequestInterval :: duration
  pe_mux :: "'sk PeerMuxer"
  pe_db :: 'd
  pe_cache :: "bool Cache"

definition NewPeerExchanger :: "'sk PeerMuxer \<Rightarrow> 'd \<Rightarrow> ('sk, 'd) PeerExchanger" where
  "NewPeerExchanger mux db =
     (let c = tun_PeerExchanger (cfg_Tuning DefaultConfig) in
      \<lparr>pe_SampleSize = pec_SampleSize c,
       pe_ResponseTimeout = ConvertDuration (pec_ResponseTimeoutMS c) time_Millisecond,
       pe_RequestInterval = ConvertDuration (pec_RequestIntervalMS c) time_Millisecond,
       pe_mux = mux, pe_db = db, pe_cache = NewCache\<rparr>)"

section \<open>Requests\<close>

text \<open>A tick of the loop of \<open>Start\<close>: every peer is asked, and every one of them may answer.\<close>

fun await_all :: "time \<Rightarrow> int \<Rightarrow> Hash list \<Rightarrow> bool Cache \<Rightarrow> unit go \<times> bool Cache" where
  "await_all now ms [] c = (Ok (), c)"
| "await_all now ms (recip # recips) c =
     (case Cache_Set now c (Hash_String recip) (Some True) ms of
        (Ok _, c1) \<Rightarrow> await_all now ms recips c1
      | (r, c1) \<Rightarrow> (r, c1))"

definition PeerExchanger_tick ::
  "(bytes \<Rightarrow> bytes) \<Rightarrow> ('pk, 'sk) btcec \<Rightarrow> time \<Rightarrow> (muxPeer \<Rightarrow> 'pk Envelope \<Rightarrow> err option \<times> uint64)
     \<Rightarrow> ('sk, 'd) PeerExchanger \<Rightarrow> unit go \<times> (Hash \<times> 'pk Envelope) list \<times> ('sk, 'd) PeerExchanger" where
  "PeerExchanger_tick b2 ec now net pe =
     (case BroadcastAll b2 ec now net (pe_mux pe) MPeerReq of
        ((recips, errs), sent, mux1) \<Rightarrow>
          (case await_all now (pe_ResponseTimeout pe sdiv time_Millisecond) recips (pe_cache pe) of
             (r, c) \<Rightarrow> (r, sent, pe\<lparr>pe_mux := mux1, pe_cache := c\<rparr>)))"

section \<open>Answers\<close>

text \<open>\<open>rand.Shuffle\<close>: from the last place on, each is swapped with one not after it.\<close>

fun shuffle_from :: "(nat \<Rightarrow> nat) \<Rightarrow> nat \<Rightarrow> 'a list \<Rightarrow> 'a list" where
  "shuffle_from rnd 0 xs = xs"
| "shuffle_from rnd (Suc i) xs =
     (let j = rnd (Suc i) mod (Suc i + 1) in shuffle_from rnd i (xs[Suc i := xs ! j, j := xs ! Suc i]))"

definition rand_Shuffle :: "(nat \<Rightarrow> nat) \<Rightarrow> 'a list \<Rightarrow> 'a list" where
  "rand_Shuffle rnd xs = shuffle_from rnd (length xs - 1) xs"

text \<open>An address that does not parse is the nil address, here the empty one.\<close>

definition exchanged_peer :: "storePeer \<Rightarrow> Peer" where
  "exchanged_peer peer = \<lparr>wpeer_IP = (case ParseIP (sp_IP peer) of None \<Rightarrow> [] | Some ip \<Rightarrow> ip), wpeer_ID = sp_ID peer\<rparr>"

function stored_peers ::
  "'d leveldb \<Rightarrow> time \<Rightarrow> 'd \<Rightarrow> (bytes \<times> dbval) list \<Rightarrow> storePeer list \<Rightarrow> storePeer list go" where
  "stored_peers L now db it peers =
     (if length peers = MaxSentPeerCount then Ok peers
      else if it = [] then Ok peers
      else
        case PeerStream_Next L now False db it of
          (Panic m, _) \<Rightarrow> Panic m
        | (Err e, _) \<Rightarrow> Err e
        | (Ok None, _) \<Rightarrow> Ok peers
        | (Ok (Some peer), it') \<Rightarrow> stored_peers L now db it' (peers @ [peer]))"
  by pat_completeness auto
termination
  by (relation "measure (\<lambda>(L, now, db, it, peers). length it)") (auto dest: PeerStream_Next_length simp: prod_eq_iff)

declare stored_peers.simps [simp del]

definition PeerExchanger_handlePeerReq ::
  "(bytes \<Rightarrow> bytes) \<Rightarrow> ('pk, 'sk) btcec \<Rightarrow> 'd leveldb \<Rightarrow> time \<Rightarrow> (muxPeer \<Rightarrow> 'pk Envelope \<Rightarrow> err option \<times> uint64)
     \<Rightarrow> (nat \<Rightarrow> nat) \<Rightarrow> Hash \<Rightarrow> ('sk, 'd) PeerExchanger
     \<Rightarrow> unit go \<times> (Hash \<times> 'pk Envelope) list \<times> ('sk, 'd) PeerExchanger" where
  "PeerExchanger_handlePeerReq b2 ec L now net rnd peerID pe =
     (case stored_peers L now (pe_db pe) (fst (StreamPeers L (pe_db pe))) [] of
        Panic m \<Rightarrow> (Panic m, [], pe)
      | Err e \<Rightarrow> (Ok (), [], pe)
      | Ok peers \<Rightarrow>
          (case PeerMuxer_Send b2 ec now net (pe_mux pe) peerID
                  (MPeerRes \<lparr>peerRes_Peers = rand_Shuffle rnd (map exchanged_peer peers)\<rparr>) of
             (r, sent, mux1) \<Rightarrow>
               (case r of Panic m \<Rightarrow> Panic m | _ \<Rightarrow> Ok (), sent, pe\<lparr>pe_mux := mux1\<rparr>)))"

section \<open>Dialing\<close>

text \<open>Every error of a dial is only logged.\<close>

definition dialPeer ::
  "(Hash \<Rightarrow> string \<Rightarrow> bool \<Rightarrow> 'q \<Rightarrow> unit go \<times> 'q) \<Rightarrow> Peer \<Rightarrow> 'q \<Rightarrow> unit go \<times> 'q" where
  "dialPeer dial peer q =
     (case dial (wpeer_ID peer) (IP_String (wpeer_IP peer)) False q of
        (Panic m, q1) \<Rightarrow> (Panic m, q1)
      | (_, q1) \<Rightarrow> (Ok (), q1))"

fun dialPeers ::
  "(nat \<Rightarrow> Hash \<Rightarrow> string \<Rightarrow> bool \<Rightarrow> 'q \<Rightarrow> unit go \<times> 'q) \<Rightarrow> nat \<Rightarrow> Peer list \<Rightarrow> 'q \<Rightarrow> unit go \<times> 'q" where
  "dialPeers dial i [] q = (Ok (), q)"
| "dialPeers dial i (peer # peers) q =
     (case dialPeer (dial i) peer q of
        (Ok _, q1) \<Rightarrow> dialPeers dial (i + 1) peers q1
      | (r, q1) \<Rightarrow> (r, q1))"

definition PeerExchanger_handlePeerRes ::
  "time \<Rightarrow> (nat \<Rightarrow> Hash \<Rightarrow> string \<Rightarrow> bool \<Rightarrow> 'q \<Rightarrow> unit go \<times> 'q) \<Rightarrow> Hash \<Rightarrow> PeerRes \<Rightarrow> ('sk, 'd) PeerExchanger \<Rightarrow> 'q
     \<Rightarrow> unit go \<times> ('sk, 'd) PeerExchanger \<times> 'q" where
  "PeerExchanger_handlePeerRes now dial peerID msg pe q =
     (case Cache_Has now (pe_cache pe) (Hash_String peerID) of
        (False, _, c) \<Rightarrow> (Ok (), pe\<lparr>pe_cache := c\<rparr>, q)
      | (True, _, c) \<Rightarrow>
          (case dialPeers dial 0 (peerRes_Peers msg) q of
             (r, q1) \<Rightarrow> (r, pe\<lparr>pe_cache := Cache_Del c (Hash_String peerID)\<rparr>, q1)))"

section \<open>An exchange\<close>

text \<open>Reference: dialing identities and addresses in turn, without verification, until one panics.\<close>

fun dial_in_turn ::
  "(nat \<Rightarrow> Hash \<Rightarrow> string \<Rightarrow> bool \<Rightarrow> 'q \<Rightarrow> unit go \<times> 'q) \<Rightarrow> nat \<Rightarrow> (Hash \<times> string) list \<Rightarrow> 'q \<Rightarrow> unit go \<times> 'q" where
  "dial_in_turn dial i [] q = (Ok (), q)"
| "dial_in_turn dial i ((peerID, ip) # calls) q =
     (case dial i peerID ip False q of
        (Panic m, q1) \<Rightarrow> (Panic m, q1)
      | (_, q1) \<Rightarrow> dial_in_turn dial (i + 1) calls q1)"

lemma dialPeers_calls: "dialPeers dial i peers q = dial_in_turn dial i (map (\<lambda>p. (wpeer_ID p, IP_String (wpeer_IP p))) peers) q"
  by (induction peers arbitrary: i q) (auto simp: dialPeer_def split: prod.splits go.splits)

lemma mset_shuffle_from: "i < length xs \<Longrightarrow> mset (shuffle_from rnd i xs) = mset xs"
proof (induction i arbitrary: xs)
  case (Suc i)
  define j where "j = rnd (Suc i) mod (Suc i + 1)"
  have "j < Suc i + 1" unfolding j_def by (rule mod_less_divisor) simp
  then have j: "j < length xs" using Suc.prems by simp
  have "mset (shuffle_from rnd (Suc i) xs) = mset (xs[Suc i := xs ! j, j := xs ! Suc i])"
    unfolding shuffle_from.simps Let_def j_def [symmetric] by (rule Suc.IH) (use Suc.prems in simp)
  also have "\<dots> = mset xs" using mset_swap [OF j Suc.prems] by simp
  finally show ?case .
qed simp

lemma mset_Shuffle: "mset (rand_Shuffle rnd xs) = mset xs"
  unfolding rand_Shuffle_def by (cases xs) (simp_all add: mset_shuffle_from)

lemma exchanged_call:
  assumes "length a = 4" and "sp_IP p = IPv4_String a"
  shows "IP_String (wpeer_IP (exchanged_peer p)) = sp_IP p" "IP_To16 (wpeer_IP (exchanged_peer p)) \<noteq> None"
proof -
  have v4: "IP_To4 a = Some a" using assms(1) by (simp add: IP_To4_def)
  have s: "IP_String a = IPv4_String a" using assms(1) by (auto simp: IP_String_def IP_To4_def)
  have "ParseIP (sp_IP p) = Some (v4InV6Prefix @ a)" using ParseIP_String_v4(1) [OF v4] s assms(2) by simp
  then show "IP_String (wpeer_IP (exchanged_peer p)) = sp_IP p" "IP_To16 (wpeer_IP (exchanged_peer p)) \<noteq> None"
    using ParseIP_String_v4(2) [OF v4] s assms by (simp_all add: exchanged_peer_def IP_To16_def v4InV6Prefix_def)
qed

lemma await_all_spec:
  "await_all now ms recips c = (Ok (), c') \<Longrightarrow> ms \<noteq> 0 \<Longrightarrow> i \<in> set recips \<Longrightarrow>
   map_of (cache_entries c') (Hash_String i) = Some \<lparr>entry_val = True, entry_expiry = int64 (now + int64 (ms * time_Millisecond))\<rparr>"
proof (induction recips arbitrary: c)
  case (Cons r recips)
  define x where "x = \<lparr>entry_val = True, entry_expiry = int64 (now + int64 (ms * time_Millisecond))\<rparr>"
  have keep: "map_of (cache_entries (snd (await_all now ms rs c1))) k = Some x"
    if "map_of (cache_entries c1) k = Some x" for rs c1 k
    using that
  proof (induction rs arbitrary: c1)
    case (Cons r' rs)
    have "map_of (cache_entries (snd (Cache_Set now c1 (Hash_String r') (Some True) ms))) k = Some x"
      using Cons.prems \<open>ms \<noteq> 0\<close> by (auto simp: Cache_Set_def Let_def Cache_touchReaper_def update_conv' x_def)
    then show ?case using Cons.IH by (auto simp: Cache_Set_def Let_def split: prod.splits go.splits)
  qed simp
  obtain c1 where c1: "Cache_Set now c (Hash_String r) (Some True) ms = (Ok (), c1)" by (simp add: Cache_Set_def Let_def)
  have at: "map_of (cache_entries c1) (Hash_String r) = Some x"
    using c1 \<open>ms \<noteq> 0\<close> by (auto simp: Cache_Set_def Let_def Cache_touchReaper_def update_conv' x_def)
  have rest: "await_all now ms recips c1 = (Ok (), c')" using Cons.prems(1) c1 by simp
  show ?case
  proof (cases "i = r")
    case True
    then show ?thesis using keep [OF at, of recips] rest by (simp add: x_def)
  next
    case False
    then show ?thesis using Cons.IH [OF rest] Cons.prems by simp
  qed
qed simp

lemma await_all_Ok: "fst (await_all now ms recips c) = Ok ()"
  by (induction recips arbitrary: c) (auto simp: Cache_Set_def Let_def split: prod.splits go.splits)

lemma tick_Ok: "fst (PeerExchanger_tick b2 ec now net pe) = Ok ()"
  using await_all_Ok by (auto simp: PeerExchanger_tick_def split: prod.splits) (metis fst_conv)

lemma handlePeerReq_sends:
  assumes "PeerExchanger_handlePeerReq b2 ec L now net rnd i pe = (r, [(j, envl)], pe')"
    and "stored_peers L now (pe_db pe) (fst (StreamPeers L (pe_db pe))) [] = Ok peers"
  shows "env_Message envl = MPeerRes \<lparr>peerRes_Peers = rand_Shuffle rnd (map exchanged_peer peers)\<rparr>"
proof -
  obtain x sent m where snd: "PeerMuxer_Send b2 ec now net (pe_mux pe) i
      (MPeerRes \<lparr>peerRes_Peers = rand_Shuffle rnd (map exchanged_peer peers)\<rparr>) = (x, sent, m)" by (metis prod_cases3)
  have "sent = [(j, envl)]" using assms snd by (auto simp: PeerExchanger_handlePeerReq_def)
  then show ?thesis using PeerMuxer_Send_message snd by blast
qed


section \<open>The default configuration\<close>

text \<open>
  Runs of an exchanger with its dialer: ticks and handlers, the cache's reaper, and changes of
  connections and store.  The clock is past the 32767th nanosecond of 1970 when an answer is handled.
\<close>

inductive pe_run ::
  "(bytes \<Rightarrow> bytes) \<Rightarrow> ('pk, 'sk) btcec \<Rightarrow> 'd leveldb \<Rightarrow> 'q \<Rightarrow> ('sk, 'd) PeerExchanger \<Rightarrow> 'q \<Rightarrow> bool"
  for b2 :: "bytes \<Rightarrow> bytes" and ec :: "('pk, 'sk) btcec" and L :: "'d leveldb" and q0 :: 'q where
  pe_new: "pe_run b2 ec L q0 (NewPeerExchanger mux db) q0"
| pe_tick: "pe_run b2 ec L q0 pe q \<Longrightarrow> pe_run b2 ec L q0 (snd (snd (PeerExchanger_tick b2 ec now net pe))) q"
| pe_req: "pe_run b2 ec L q0 pe q \<Longrightarrow> pe_run b2 ec L q0 (snd (snd (PeerExchanger_handlePeerReq b2 ec L now net rnd i pe))) q"
| pe_res: "pe_run b2 ec L q0 pe q \<Longrightarrow> MaxInt16 < now \<Longrightarrow> PeerExchanger_handlePeerRes now dial i msg pe q = (r, pe', q') \<Longrightarrow> pe_run b2 ec L q0 pe' q'"
| pe_reap: "pe_run b2 ec L q0 pe q \<Longrightarrow> pe_run b2 ec L q0 (pe\<lparr>pe_cache := snd (Cache_reapTick now (pe_cache pe))\<rparr>) q"
| pe_world: "pe_run b2 ec L q0 pe q \<Longrightarrow> pe_run b2 ec L q0 (pe\<lparr>pe_mux := mux, pe_db := db\<rparr>) q"

definition stale :: "bool Cache \<Rightarrow> bool" where
  "stale c \<longleftrightarrow> (\<forall>(k, e) \<in> set (cache_entries c). entry_expiry e = MaxInt16)"

lemma stale_delete: "stale c \<Longrightarrow> stale (c\<lparr>cache_entries := AList.delete k (cache_entries c)\<rparr>)"
  by (auto simp: stale_def AList.delete_eq)

lemma stale_Has: "stale c \<Longrightarrow> stale (snd (snd (Cache_Has now c k)))"
  using stale_delete by (auto simp: Cache_Has_def Cache_Get_def Let_def split: option.splits prod.splits if_splits)

lemma set_AList_update: "set (AList.update k v xs) \<subseteq> insert (k, v) (set xs)"
  by (induction xs) auto

lemma stale_Set: "stale c \<Longrightarrow> stale (snd (Cache_Set now c k v 0))"
  by (auto simp: stale_def Cache_Set_def Cache_touchReaper_def Let_def dest: set_AList_update [THEN subsetD] split: option.splits)

lemma stale_await: "stale c \<Longrightarrow> stale (snd (await_all now 0 is c))"
proof (induction "is" arbitrary: c)
  case (Cons i "is")
  obtain r c1 where s: "Cache_Set now c (Hash_String i) (Some True) 0 = (r, c1)" by fastforce
  then have "stale c1" using stale_Set [OF Cons.prems, of now "Hash_String i" "Some True"] by simp
  then show ?case using Cons.IH s by (auto split: go.splits)
qed simp

lemma stale_reap: "stale c \<Longrightarrow> stale (snd (Cache_reapTick now c))"
proof -
  have "set (cache_entries (snd (Cache_reap now c))) \<subseteq> set (cache_entries c)"
  proof -
    have "set (fold (\<lambda>(k, e). AList.delete k) ds xs) \<subseteq> set xs" for ds and xs :: "(string \<times> bool entry) list"
    proof (induction ds arbitrary: xs)
      case (Cons d ds)
      have "set (AList.delete (fst d) xs) \<subseteq> set xs" by (auto simp: AList.delete_eq)
      then show ?case using Cons [of "AList.delete (fst d) xs"] by (auto simp: case_prod_beta)
    qed simp
    then show ?thesis by (simp add: Cache_reap_def)
  qed
  then show "stale c \<Longrightarrow> stale (snd (Cache_reapTick now c))"
    by (auto simp: stale_def Cache_reapTick_def Let_def split: prod.splits)
qed

lemma handlePeerRes_stale:
  assumes "stale (pe_cache pe)" and "MaxInt16 < now" and "PeerExchanger_handlePeerRes now dial i msg pe q = (r, pe', q')"
  shows "r = Ok () \<and> q' = q \<and> pe_ResponseTimeout pe' = pe_ResponseTimeout pe \<and> stale (pe_cache pe')"
proof -
  have "fst (Cache_Has now (pe_cache pe) (Hash_String i)) = False"
    using assms(1,2) map_of_SomeD [of "cache_entries (pe_cache pe)" "Hash_String i"]
    by (fastforce simp: stale_def Cache_Has_def Cache_Get_def Let_def split: option.splits prod.splits)
  then show ?thesis
    using assms(3) stale_Has [OF assms(1), of now "Hash_String i"]
    by (auto simp: PeerExchanger_handlePeerRes_def split: prod.splits bool.splits)
qed

lemma pe_run_stale:
  "pe_run b2 ec L q0 pe q \<Longrightarrow> q = q0 \<and> pe_ResponseTimeout pe = 0 \<and> stale (pe_cache pe)"
proof (induction rule: pe_run.induct)
  case (pe_new mux db)
  show ?case by (simp add: NewPeerExchanger_def DefaultConfig_def ConvertDuration_def int64_def stale_def NewCache_def Let_def)
next
  case (pe_tick pe q now net)
  then show ?case
    using stale_await [of "pe_cache pe" now "fst (fst (BroadcastAll b2 ec now net (pe_mux pe) MPeerReq))"]
    by (auto simp: PeerExchanger_tick_def split: prod.splits)
next
  case (pe_req pe q now net rnd i)
  then show ?case by (auto simp: PeerExchanger_handlePeerReq_def split: prod.splits go.splits)
next
  case (pe_res pe q now dial i msg r pe' q')
  then show ?case using handlePeerRes_stale by metis
next
  case (pe_reap pe q now)
  then show ?case by (simp add: stale_reap)
qed simp

text \<open>
  C39. With the default configuration no peer is ever exchanged: the configuration has no response timeout,
  a timeout of zero makes the cache store an expiry of 32767 nanoseconds after the epoch, and so
  in every run every answer counts as unsolicited.  The dialer is never called: its state is that of the
  start, whatever is received.
\<close>

theorem default_exchange_dials_nobody:
  assumes "pe_run b2 ec L q0 pe q"
  shows "q = q0"
  using pe_run_stale [OF assms] by simp

section \<open>Examples\<close>

definition demo_known :: storePeer where
  "demo_known = \<lparr>sp_ID = ZeroHash, sp_IP = IPv4_String [10, 0, 0, 7], sp_LastSeen = 0, sp_Verify = False,
     sp_InboundBannedUntil = time_zero, sp_OutboundBannedUntil = time_zero, sp_Whitelisted = False\<rparr>"

definition demo_store :: "(bytes \<times> dbval option) list" where
  "demo_store = [(peerDataPrefix [Hash_String ZeroHash], Some (VJson (doc_clean (storePeer_MarshalJSON demo_known))))]"

definition demo_exchanger :: "(bytes \<times> dbval option) list \<Rightarrow> duration \<Rightarrow> (8 word, (bytes \<times> dbval option) list) PeerExchanger" where
  "demo_exchanger db timeout = (NewPeerExchanger (demo_mux (demo_peer 1)) db)\<lparr>pe_ResponseTimeout := timeout\<rparr>"

lemma demo_stored: "stored_peers mem_ldb 0 demo_store (fst (StreamPeers mem_ldb demo_store)) [] = Ok [demo_known]"
proof -
  define x where "x = VJson (doc_clean (storePeer_MarshalJSON demo_known))"
  have it: "fst (StreamPeers mem_ldb demo_store) = [(peerDataPrefix [Hash_String ZeroHash], x)]"
    by (simp add: StreamPeers_def mem_ldb_def mem_entries_def demo_store_def peerDataPrefix_def Prefixer_def x_def bytes_of_string_def
        string_of_bytes_def comp_def)
  have views: "mem_view demo_store (peerInBanPrefix [ip]) = None" "mem_view demo_store (peerOutBanPrefix [ip]) = None"
    "mem_view demo_store (whitelistPrefix [ip]) = None" for ip
    by (simp_all add: mem_view_def demo_store_def key_defs Prefixer_def)
  have "PeerStream_entry mem_ldb demo_store x = Ok demo_known"
  proof -
    have ip: "json_string (sp_IP demo_known) = sp_IP demo_known"
      by (rule json_string_ascii) (code_simp)
    have "storePeer_UnmarshalJSON (doc_clean (storePeer_MarshalJSON demo_known)) = Ok demo_known"
      using storePeer_JSON_roundtrip [of demo_known] ip by (simp add: demo_known_def hash_wf_def time_json_ok_def time_Second_def)
    then show ?thesis
      by (simp add: PeerStream_entry_def x_def mustUnmarshalJSON_def get_bytes_def mem_ldb_def views mustDecodeTime_def demo_known_def go_simps)
  qed
  then have "PeerStream_Next mem_ldb 0 False demo_store [(peerDataPrefix [Hash_String ZeroHash], x)] = (Ok (Some demo_known), [])"
    by (simp add: storePeer_IsBanned_def demo_known_def time_zero_def time_Second_def)
  then show ?thesis unfolding it by (simp add: stored_peers.simps MaxSentPeerCount_def)
qed


theorem default_exchange_dials_nobody_witness:
  "snd (snd (PeerExchanger_handlePeerRes 1000000000 (\<lambda>_ _ _ _ q. (Ok (), q + 1)) ZeroHash \<lparr>peerRes_Peers = [exchanged_peer demo_known]\<rparr>
     (snd (snd (PeerExchanger_tick (\<lambda>_. []) toy_ec 0 (\<lambda>_ _. (None, 0)) (NewPeerExchanger (demo_mux (demo_peer 1)) demo_store)))) (0 :: nat))) = 0"
proof -
  define pe1 where "pe1 = snd (snd (PeerExchanger_tick (\<lambda>_. []) toy_ec 0 (\<lambda>_ _. (None, 0)) (NewPeerExchanger (demo_mux (demo_peer 1)) demo_store)))"
  obtain r pe2 q where h: "PeerExchanger_handlePeerRes 1000000000 (\<lambda>_ _ _ _ q. (Ok (), q + 1)) ZeroHash
      \<lparr>peerRes_Peers = [exchanged_peer demo_known]\<rparr> pe1 (0 :: nat) = (r, pe2, q)" by (metis prod_cases3)
  have "pe_run (\<lambda>_. []) toy_ec mem_ldb (0 :: nat) pe1 0" unfolding pe1_def by (rule pe_tick [OF pe_new])
  then have "q = 0" by (rule default_exchange_dials_nobody [OF pe_res [OF _ _ h]]) (simp add: MaxInt16_def)
  then show ?thesis unfolding pe1_def [symmetric] h by simp
qed

end
