(* ===== verification/Proto_Pinger.thy ===== *)
theory Proto_Pinger
  imports P2P_Muxer
begin

text \<open>
  The pinger, \<open>protocol/pinger.go\<close>: one goroutine for each open peer that sends pings and closes the peer
  when nothing has come from it for too long.

  \<open>PingPeer\<close> is a loop over what happens to it: a message that the multiplexer dispatches, a tick of one
  of its two tickers, the end of its context, and changes that others make to the table of peers.
\<close>

section \<open>The loop\<close>

record PingConfig =
  pc_CheckInterval :: duration
  pc_PingInterval :: duration
  pc_Timeout :: duration
  pc_PeerID :: Hash

definition ErrPingTimeout :: err where "ErrPingTimeout = ErrVar ''ping timeout''"
definition ErrPingPeerClosed :: err where "ErrPingPeerClosed = ErrVar ''peer closed''"

record Pinger =
  pg_CheckInterval :: duration
  pg_PingInterval :: duration
  pg_Timeout :: duration

definition NewPinger :: Pinger where
  "NewPinger = \<lparr>pg_CheckInterval = time_Second, pg_PingInterval = 5 * time_Second, pg_Timeout = 30 * time_Second\<rparr>"

definition Pinger_handlePeerOpen :: "Pinger \<Rightarrow> Hash \<Rightarrow> PingConfig" where
  "Pinger_handlePeerOpen p peerID =
     \<lparr>pc_CheckInterval = pg_CheckInterval p, pc_PingInterval = pg_PingInterval p, pc_Timeout = pg_Timeout p, pc_PeerID = peerID\<rparr>"

datatype 'sk ping_event =
    PMessage Hash time
  | PCheck time
  | PPing time
  | PDone err
  | PTable "'sk PeerMuxer"

text \<open>One turn: the error that ends the loop, if one does, and what was sent.\<close>

fun PingPeer_turn ::
  "(bytes \<Rightarrow> bytes) \<Rightarrow> ('pk, 'sk) btcec \<Rightarrow> (muxPeer \<Rightarrow> 'pk Envelope \<Rightarrow> err option \<times> uint64) \<Rightarrow> PingConfig
     \<Rightarrow> 'sk ping_event \<Rightarrow> int \<times> 'sk PeerMuxer
     \<Rightarrow> err option go \<times> (Hash \<times> 'pk Envelope) list \<times> int \<times> 'sk PeerMuxer" where
  "PingPeer_turn b2 ec net cfg (PMessage peerID now) (lastPing, mux) =
     (Ok None, [], if pc_PeerID cfg \<noteq> peerID then lastPing else now, mux)"
| "PingPeer_turn b2 ec net cfg (PCheck now) (lastPing, mux) =
     (if \<not> PeerMuxer_HasPeerID mux (pc_PeerID cfg) then (Ok (Some ErrPingPeerClosed), [], lastPing, mux)
      else if int64 (now - lastPing) > pc_Timeout cfg
      then (Ok (Some ErrPingTimeout), [], lastPing, snd (PeerMuxer_ClosePeer mux (pc_PeerID cfg)))
      else (Ok None, [], lastPing, mux))"
| "PingPeer_turn b2 ec net cfg (PPing now) (lastPing, mux) =
     (if \<not> PeerMuxer_HasPeerID mux (pc_PeerID cfg) then (Ok (Some ErrPingPeerClosed), [], lastPing, mux)
      else
        case PeerMuxer_Send b2 ec now net mux (pc_PeerID cfg) MPing of
          (Panic m, sent, mux1) \<Rightarrow> (Panic m, sent, lastPing, mux1)
        | (_, sent, mux1) \<Rightarrow> (Ok None, sent, lastPing, mux1))"
| "PingPeer_turn b2 ec net cfg (PDone e) (lastPing, mux) = (Ok (Some e), [], lastPing, mux)"
| "PingPeer_turn b2 ec net cfg (PTable mux1) (lastPing, mux) = (Ok None, [], lastPing, mux1)"

fun PingPeer_loop ::
  "(bytes \<Rightarrow> bytes) \<Rightarrow> ('pk, 'sk) btcec \<Rightarrow> (muxPeer \<Rightarrow> 'pk Envelope \<Rightarrow> err option \<times> uint64) \<Rightarrow> PingConfig
     \<Rightarrow> 'sk ping_event list \<Rightarrow> int \<times> 'sk PeerMuxer
     \<Rightarrow> err option go \<times> (Hash \<times> 'pk Envelope) list \<times> int \<times> 'sk PeerMuxer" where
  "PingPeer_loop b2 ec net cfg [] st = (Ok None, [], st)"
| "PingPeer_loop b2 ec net cfg (ev # evs) st =
     (case PingPeer_turn b2 ec net cfg ev st of
        (Ok None, sent, st1) \<Rightarrow>
          (case PingPeer_loop b2 ec net cfg evs st1 of (r, sent2, st2) \<Rightarrow> (r, sent @ sent2, st2))
      | (r, sent, st1) \<Rightarrow> (r, sent, st1))"

text \<open>\<open>Ok None\<close>: the loop is still running after the events.\<close>

definition PingPeer ::
  "(bytes \<Rightarrow> bytes) \<Rightarrow> ('pk, 'sk) btcec \<Rightarrow> (muxPeer \<Rightarrow> 'pk Envelope \<Rightarrow> err option \<times> uint64) \<Rightarrow> PingConfig
     \<Rightarrow> time \<Rightarrow> 'sk ping_event list \<Rightarrow> 'sk PeerMuxer \<Rightarrow> err option go \<times> (Hash \<times> 'pk Envelope) list \<times> int \<times> 'sk PeerMuxer" where
  "PingPeer b2 ec net cfg now evs mux = PingPeer_loop b2 ec net cfg evs (now, mux)"

section \<open>When a peer is closed\<close>

text \<open>Reference: when the peer was last heard of.\<close>

fun heard :: "Hash \<Rightarrow> int \<Rightarrow> 'sk ping_event list \<Rightarrow> int" where
  "heard i t [] = t"
| "heard i t (PMessage j now # evs) = heard i (if j = i then now else t) evs"
| "heard i t (ev # evs) = heard i t evs"

lemma ClosePeer_gone: "\<not> PeerMuxer_HasPeerID (snd (PeerMuxer_ClosePeer mux i)) i"
  by (auto simp: PeerMuxer_HasPeerID_def PeerMuxer_ClosePeer_def PeerMuxer_handlePeerClose_def PeerMuxer_removeInboundPeerByIP_def
      Let_def delete_conv' split: option.splits)

lemma PingPeer_loop_timeout:
  assumes "PingPeer_loop b2 ec net cfg evs (l, mux) = (Ok (Some ErrPingTimeout), sent, l', mux')"
    and "\<forall>e. PDone e \<in> set evs \<longrightarrow> e \<noteq> ErrPingTimeout"
  shows "\<exists>a t b. evs = a @ PCheck t # b \<and> int64 (t - heard (pc_PeerID cfg) l a) > pc_Timeout cfg
    \<and> \<not> PeerMuxer_HasPeerID mux' (pc_PeerID cfg)"
  using assms
proof (induction evs arbitrary: l mux sent)
  case (Cons ev evs)
  obtain x s1 l1 m1 where t: "PingPeer_turn b2 ec net cfg ev (l, mux) = (x, s1, l1, m1)" by (metis prod_cases4)
  show ?case
  proof (cases "x = Ok None")
    case True
    obtain s2 where "PingPeer_loop b2 ec net cfg evs (l1, m1) = (Ok (Some ErrPingTimeout), s2, l', mux')"
      using Cons.prems(1) t True by (auto split: prod.splits)
    from Cons.IH [OF this] obtain a u b where ab: "evs = a @ PCheck u # b" "int64 (u - heard (pc_PeerID cfg) l1 a) > pc_Timeout cfg"
      "\<not> PeerMuxer_HasPeerID mux' (pc_PeerID cfg)" using Cons.prems(2) by auto
    have "heard (pc_PeerID cfg) l (ev # a) = heard (pc_PeerID cfg) l1 a"
      using t True by (cases ev) (auto split: if_splits prod.splits go.splits)
    then show ?thesis using ab by (intro exI [of _ "ev # a"]) simp
  next
    case False
    then have x: "x = Ok (Some ErrPingTimeout)" "m1 = mux'"
      using Cons.prems(1) t by (auto split: go.splits option.splits)
    then obtain u where "ev = PCheck u" "int64 (u - l) > pc_Timeout cfg" "\<not> PeerMuxer_HasPeerID mux' (pc_PeerID cfg)"
      using t Cons.prems(2) ClosePeer_gone
      by (cases ev) (auto simp: ErrPingTimeout_def ErrPingPeerClosed_def split: if_splits prod.splits go.splits)
    then show ?thesis by (intro exI [of _ "[]"]) simp
  qed
qed simp

lemma PingPeer_loop_silent:
  assumes "\<forall>j t. PMessage j t \<in> set evs \<longrightarrow> j \<noteq> pc_PeerID cfg" and "PCheck t \<in> set evs" and "int64 (t - l) > pc_Timeout cfg"
  shows "fst (PingPeer_loop b2 ec net cfg evs (l, mux)) \<noteq> Ok None"
  using assms
proof (induction evs arbitrary: mux)
  case (Cons ev evs)
  obtain x s1 l1 m1 where tt: "PingPeer_turn b2 ec net cfg ev (l, mux) = (x, s1, l1, m1)" by (metis prod_cases4)
  have l1: "l1 = l" using tt Cons.prems(1) by (cases ev) (auto split: if_splits prod.splits go.splits)
  have "x \<noteq> Ok None" if "ev = PCheck t" using tt that Cons.prems(3) by (auto split: if_splits)
  moreover have "fst (PingPeer_loop b2 ec net cfg evs (l, m1)) \<noteq> Ok None" if "ev \<noteq> PCheck t"
    using Cons.IH [of m1] Cons.prems that by auto
  ultimately show ?case
    using tt l1 by (cases "ev = PCheck t") (auto split: go.splits option.splits prod.splits)
qed simp

text \<open>
  C40. The pinger decides by silence alone.  When it gives a peer up for a timeout, then at a check at
  which more than the timeout had passed since the last message of that peer, or since the start if there
  was none, and the peer is then no longer in the table; messages of other peers do not count.  And
  a peer that stays silent is not kept: once a check has come later than the timeout after the start with no
  message from the peer, the loop has ended, whatever else happened.
\<close>

theorem pinger_closes_silent_peers:
  assumes "PingPeer b2 ec net cfg start evs mux = (r, sent, l, mux')" and "\<forall>e. PDone e \<in> set evs \<longrightarrow> e \<noteq> ErrPingTimeout"
  shows "(r = Ok (Some ErrPingTimeout) \<longrightarrow>
      (\<exists>a t b. evs = a @ PCheck t # b \<and> int64 (t - heard (pc_PeerID cfg) start a) > pc_Timeout cfg)
      \<and> \<not> PeerMuxer_HasPeerID mux' (pc_PeerID cfg))
    \<and> ((\<forall>j t. PMessage j t \<in> set evs \<longrightarrow> j \<noteq> pc_PeerID cfg) \<and> (\<exists>t. PCheck t \<in> set evs \<and> int64 (t - start) > pc_Timeout cfg)
        \<longrightarrow> r \<noteq> Ok None)"
proof -
  have "PingPeer_loop b2 ec net cfg evs (start, mux) = (r, sent, l, mux')" using assms(1) by (simp add: PingPeer_def)
  then show ?thesis
    using PingPeer_loop_timeout [of b2 ec net cfg evs start mux sent l mux'] assms(2)
      PingPeer_loop_silent [of evs cfg _ start b2 ec net mux] by (metis fst_conv)
qed

theorem pinger_closes_silent_peers_witness:
  "fst (PingPeer (\<lambda>_. []) toy_ec (\<lambda>_ _. (None, 0)) (Pinger_handlePeerOpen NewPinger ZeroHash) 0
       [PCheck (20 * time_Second), PMessage (replicate 32 9) (25 * time_Second), PCheck (40 * time_Second)] (demo_mux (demo_peer 1))) \<noteq> Ok None"
proof -
  define evs :: "8 word ping_event list" where
    "evs = [PCheck (20 * time_Second), PMessage (replicate 32 9) (25 * time_Second), PCheck (40 * time_Second)]"
  obtain r sent l mux' where p: "PingPeer (\<lambda>_. []) toy_ec (\<lambda>_ _. (None, 0)) (Pinger_handlePeerOpen NewPinger ZeroHash) 0 evs (demo_mux (demo_peer 1))
      = (r, sent, l, mux')" by (metis prod_cases4)
  have "\<forall>j t. PMessage j t \<in> set evs \<longrightarrow> j \<noteq> pc_PeerID (Pinger_handlePeerOpen NewPinger ZeroHash)"
    by (simp add: evs_def Pinger_handlePeerOpen_def ZeroHash_def)
  moreover have "PCheck (40 * time_Second) \<in> set evs" by (simp add: evs_def)
  moreover have "int64 (40 * time_Second - 0) > pc_Timeout (Pinger_handlePeerOpen NewPinger ZeroHash)"
    by (simp add: Pinger_handlePeerOpen_def NewPinger_def int64_def time_Second_def)
  ultimately have "r \<noteq> Ok None" using pinger_closes_silent_peers [OF p] by (auto simp: evs_def)
  then show ?thesis using p by (simp add: evs_def)
qed

end
