(* ===== verification/Hns_Chain.thy ===== *)
theory Hns_Chain
  imports Go_Base
begin

text \<open>
  Handshake blocks and their serialized form:
  \<open>vendor/fnd.localhost/handshake/encoding/decoding.go\<close> and \<open>encoding.go\<close>, and the types of
  \<open>vendor/fnd.localhost/handshake/primitives\<close> that the name importer reads (\<open>block.go\<close>,
  \<open>transaction.go\<close>, \<open>input.go\<close>, \<open>output.go\<close>, \<open>outpoint.go\<close>, \<open>address.go\<close>, \<open>covenant.go\<close>,
  \<open>witness.go\<close>).  A decoder maps the bytes left in its reader to a value and the bytes left then;
  an encoder is the bytes it writes to a writer that accepts them all.
\<close>

section \<open>Numbers and byte strings\<close>

text \<open>\<open>binary.LittleEndian\<close>, which reads the leading bytes of a slice and panics on a short one.\<close>

definition LE_PutUint16 :: "uint16 \<Rightarrow> bytes" where "LE_PutUint16 w = rev (PutUint16 w)"
definition LE_PutUint32 :: "uint32 \<Rightarrow> bytes" where "LE_PutUint32 w = rev (PutUint32 w)"
definition LE_PutUint64 :: "uint64 \<Rightarrow> bytes" where "LE_PutUint64 w = rev (PutUint64 w)"

definition LE_Uint16 :: "bytes \<Rightarrow> uint16" where "LE_Uint16 b = Uint16 (rev (take 2 b))"
definition LE_Uint32 :: "bytes \<Rightarrow> uint32" where "LE_Uint32 b = Uint32 (rev (take 4 b))"
definition LE_Uint64 :: "bytes \<Rightarrow> uint64" where "LE_Uint64 b = Uint64 (rev (take 8 b))"

definition ReadUint64 :: "bytes \<Rightarrow> (uint64 \<times> bytes) go" where
  "ReadUint64 r = go_bind (io_ReadFull 8 r) (\<lambda>(buf, r). Ok (LE_Uint64 buf, r))"

definition ReadUint32 :: "bytes \<Rightarrow> (uint32 \<times> bytes) go" where
  "ReadUint32 r = go_bind (io_ReadFull 4 r) (\<lambda>(buf, r). Ok (LE_Uint32 buf, r))"

definition ReadUint16BE :: "bytes \<Rightarrow> (uint16 \<times> bytes) go" where
  "ReadUint16BE r = go_bind (io_ReadFull 2 r) (\<lambda>(buf, r). Ok (Uint16 buf, r))"

definition ReadUint8 :: "bytes \<Rightarrow> (byte \<times> bytes) go" where
  "ReadUint8 r = go_bind (io_ReadFull 1 r) (\<lambda>(buf, r). Ok (buf ! 0, r))"

text \<open>\<open>make([]byte, l)\<close> panics on a length that is negative or above the address space.\<close>

definition maxAlloc :: int where "maxAlloc = 2 ^ 48"

definition ReadBytes :: "int \<Rightarrow> bytes \<Rightarrow> (bytes \<times> bytes) go" where
  "ReadBytes l r =
     (if l < 0 \<or> maxAlloc < l then Panic ''makeslice: len out of range'' else io_ReadFull (nat l) r)"

definition ReadString :: "int \<Rightarrow> bytes \<Rightarrow> (string \<times> bytes) go" where
  "ReadString l r = go_bind (ReadBytes l r) (\<lambda>(b, r). Ok (string_of_bytes b, r))"

definition ReadByte :: "bytes \<Rightarrow> (byte \<times> bytes) go" where
  "ReadByte r = go_bind (ReadBytes 1 r) (\<lambda>(buf, r). Ok (buf ! 0, r))"

text \<open>The error of the first read is dropped: at the end of the input the number read is 0.\<close>

definition ReadVarint :: "bytes \<Rightarrow> (uint64 \<times> bytes) go" where
  "ReadVarint r =
     (case ReadByte r of
        Panic p \<Rightarrow> Panic p
      | Err e \<Rightarrow> Ok (0, r)
      | Ok (sigil, r) \<Rightarrow>
          if sigil < 0xfd then Ok (ucast sigil, r)
          else if sigil = 0xfd then go_bind (io_ReadFull 2 r) (\<lambda>(num, r). Ok (ucast (LE_Uint16 num), r))
          else if sigil = 0xfe then go_bind (io_ReadFull 4 r) (\<lambda>(num, r). Ok (ucast (LE_Uint32 num), r))
          else go_bind (io_ReadFull 8 r) (\<lambda>(num, r). Ok (LE_Uint64 num, r)))"

definition ReadVarBytes :: "bytes \<Rightarrow> (bytes \<times> bytes) go" where
  "ReadVarBytes r = go_bind (ReadVarint r) (\<lambda>(l, r). ReadBytes (sint l) r)"

text \<open>
  In the last branch of \<open>WriteVarint\<close> the slice is a new variable of that block, so that nothing
  is written for a number that needs eight bytes.
\<close>

definition WriteVarint :: "uint64 \<Rightarrow> bytes" where
  "WriteVarint val =
     (if val \<le> 0xfc then [ucast val]
      else if val \<le> 0xffff then 0xfd # LE_PutUint16 (ucast val)
      else if val \<le> 0xffffffff then 0xfe # LE_PutUint32 (ucast val)
      else [])"

definition WriteVarBytes :: "bytes \<Rightarrow> bytes" where
  "WriteVarBytes buf = WriteVarint (of_nat (length buf)) @ buf"

text \<open>A counting loop that decodes one value per turn and stops at the first error.\<close>

fun read_many :: "(bytes \<Rightarrow> ('a \<times> bytes) go) \<Rightarrow> nat \<Rightarrow> bytes \<Rightarrow> ('a list \<times> bytes) go" where
  "read_many dec 0 r = Ok ([], r)"
| "read_many dec (Suc n) r =
     go_bind (dec r) (\<lambda>(x, r). go_bind (read_many dec n r) (\<lambda>(xs, r). Ok (x # xs, r)))"

section \<open>Covenants, outputs, transactions and blocks\<close>

definition CovenantRegister :: byte where "CovenantRegister = 6"
definition CovenantUpdate :: byte where "CovenantUpdate = 7"
definition CovenantRevoke :: byte where "CovenantRevoke = 11"
definition MaxScriptStack :: uint64 where "MaxScriptStack = 1000"

record Covenant =
  cov_Type :: byte
  cov_Items :: "bytes list"

definition Covenant_Encode :: "Covenant \<Rightarrow> bytes" where
  "Covenant_Encode c =
     [cov_Type c] @ WriteVarint (of_nat (length (cov_Items c))) @ concat (map WriteVarBytes (cov_Items c))"

definition Covenant_Decode :: "bytes \<Rightarrow> (Covenant \<times> bytes) go" where
  "Covenant_Decode r =
     go_bind (ReadUint8 r) (\<lambda>(typ, r).
     if CovenantRevoke < typ then Err (ErrNew ''invalid covenant type'')
     else go_bind (ReadVarint r) (\<lambda>(count, r).
       if MaxScriptStack < count then Err (ErrNew ''too many covenant items'')
       else go_bind (read_many ReadVarBytes (nat (sint count)) r) (\<lambda>(items, r).
         Ok (\<lparr>cov_Type = typ, cov_Items = items\<rparr>, r))))"

record Address =
  ad_Version :: byte
  ad_Hash :: bytes

definition Address_Encode :: "Address \<Rightarrow> bytes" where
  "Address_Encode a = [ad_Version a] @ [of_nat (length (ad_Hash a))] @ ad_Hash a"

definition Address_Decode :: "bytes \<Rightarrow> (Address \<times> bytes) go" where
  "Address_Decode r =
     go_bind (ReadUint8 r) (\<lambda>(version, r).
     if 31 < version then Err (ErrNew ''invalid address version'')
     else go_bind (ReadUint8 r) (\<lambda>(len, r).
       if len < 2 \<or> 40 < len then Err (ErrNew ''invalid address length'')
       else go_bind (io_ReadFull (unat len) r) (\<lambda>(hash, r).
         Ok (\<lparr>ad_Version = version, ad_Hash = hash\<rparr>, r))))"

record Outpoint =
  op_Hash :: bytes
  op_Index :: uint32

definition Outpoint_Encode :: "Outpoint \<Rightarrow> bytes" where
  "Outpoint_Encode p = op_Hash p @ LE_PutUint32 (op_Index p)"

definition Outpoint_Decode :: "bytes \<Rightarrow> (Outpoint \<times> bytes) go" where
  "Outpoint_Decode r =
     go_bind (io_ReadFull 32 r) (\<lambda>(hash, r).
     go_bind (ReadUint32 r) (\<lambda>(index, r). Ok (\<lparr>op_Hash = hash, op_Index = index\<rparr>, r)))"

record Input =
  in_Prevout :: Outpoint
  in_Sequence :: uint32

definition Input_Encode :: "Input \<Rightarrow> bytes" where
  "Input_Encode i = Outpoint_Encode (in_Prevout i) @ LE_PutUint32 (in_Sequence i)"

definition Input_Decode :: "bytes \<Rightarrow> (Input \<times> bytes) go" where
  "Input_Decode r =
     go_bind (Outpoint_Decode r) (\<lambda>(prevout, r).
     go_bind (ReadUint32 r) (\<lambda>(sequence, r). Ok (\<lparr>in_Prevout = prevout, in_Sequence = sequence\<rparr>, r)))"

record Output =
  out_Value :: uint64
  out_Address :: Address
  out_Covenant :: Covenant

definition Output_Encode :: "Output \<Rightarrow> bytes" where
  "Output_Encode x =
     LE_PutUint64 (out_Value x) @ Address_Encode (out_Address x) @ Covenant_Encode (out_Covenant x)"

definition Output_Decode :: "bytes \<Rightarrow> (Output \<times> bytes) go" where
  "Output_Decode r =
     go_bind (ReadUint64 r) (\<lambda>(val, r).
     go_bind (Address_Decode r) (\<lambda>(address, r).
     go_bind (Covenant_Decode r) (\<lambda>(covenant, r).
     Ok (\<lparr>out_Value = val, out_Address = address, out_Covenant = covenant\<rparr>, r))))"

text \<open>A witness is its list of items.\<close>

type_synonym Witness = "bytes list"

definition Witness_Encode :: "Witness \<Rightarrow> bytes" where
  "Witness_Encode items = WriteVarint (of_nat (length items)) @ concat (map WriteVarBytes items)"

definition Witness_Decode :: "bytes \<Rightarrow> (Witness \<times> bytes) go" where
  "Witness_Decode r =
     go_bind (ReadVarint r) (\<lambda>(count, r).
     if MaxScriptStack < count then Err (ErrNew ''too many witness items'')
     else read_many ReadVarBytes (nat (sint count)) r)"

record Transaction =
  tx_Version :: uint32
  tx_Inputs :: "Input list"
  tx_Outputs :: "Output list"
  tx_Locktime :: uint32
  tx_Witnesses :: "Witness list"

definition Transaction_EncodeNoWitnesses :: "Transaction \<Rightarrow> bytes" where
  "Transaction_EncodeNoWitnesses t =
     LE_PutUint32 (tx_Version t) @
     WriteVarint (of_nat (length (tx_Inputs t))) @ concat (map Input_Encode (tx_Inputs t)) @
     WriteVarint (of_nat (length (tx_Outputs t))) @ concat (map Output_Encode (tx_Outputs t)) @
     LE_PutUint32 (tx_Locktime t)"

definition Transaction_Encode :: "Transaction \<Rightarrow> bytes" where
  "Transaction_Encode t =
     Transaction_EncodeNoWitnesses t @ concat (map Witness_Encode (tx_Witnesses t))"

definition Transaction_Decode :: "bytes \<Rightarrow> (Transaction \<times> bytes) go" where
  "Transaction_Decode r =
     go_bind (ReadUint32 r) (\<lambda>(version, r).
     go_bind (ReadVarint r) (\<lambda>(inCount, r).
     go_bind (read_many Input_Decode (nat (sint inCount)) r) (\<lambda>(inputs, r).
     go_bind (ReadVarint r) (\<lambda>(outCount, r).
     go_bind (read_many Output_Decode (nat (sint outCount)) r) (\<lambda>(outputs, r).
     go_bind (ReadUint32 r) (\<lambda>(locktime, r).
     go_bind (read_many Witness_Decode (nat (sint inCount)) r) (\<lambda>(witnesses, r).
     Ok (\<lparr>tx_Version = version, tx_Inputs = inputs, tx_Outputs = outputs, tx_Locktime = locktime,
          tx_Witnesses = witnesses\<rparr>, r))))))))"

record Block =
  bk_Nonce :: uint32
  bk_Time :: uint64
  bk_PrevHash :: bytes
  bk_TreeRoot :: bytes
  bk_ExtraNonce :: bytes
  bk_ReservedRoot :: bytes
  bk_WitnessRoot :: bytes
  bk_MerkleRoot :: bytes
  bk_Version :: uint32
  bk_Bits :: uint32
  bk_Mask :: bytes
  bk_Transactions :: "Transaction list"

definition Block_Encode :: "Block \<Rightarrow> bytes" where
  "Block_Encode b =
     LE_PutUint32 (bk_Nonce b) @ LE_PutUint64 (bk_Time b) @ bk_PrevHash b @ bk_TreeRoot b @
     bk_ExtraNonce b @ bk_ReservedRoot b @ bk_WitnessRoot b @ bk_MerkleRoot b @
     LE_PutUint32 (bk_Version b) @ LE_PutUint32 (bk_Bits b) @ bk_Mask b @
     WriteVarint (of_nat (length (bk_Transactions b))) @ concat (map Transaction_Encode (bk_Transactions b))"

text \<open>The hashes of the header are filled by a single \<open>Read\<close> each, which may return fewer bytes.\<close>

definition read_array :: "nat \<Rightarrow> bytes \<Rightarrow> (bytes \<times> bytes) go" where
  "read_array n r = bytes_Read (replicate n 0) r"

definition Block_Decode :: "bytes \<Rightarrow> (Block \<times> bytes) go" where
  "Block_Decode r =
     go_bind (ReadUint32 r) (\<lambda>(nonce, r).
     go_bind (ReadUint64 r) (\<lambda>(ts, r).
     go_bind (read_array 32 r) (\<lambda>(hash, r).
     go_bind (read_array 32 r) (\<lambda>(treeRoot, r).
     go_bind (read_array 24 r) (\<lambda>(extraNonce, r).
     go_bind (read_array 32 r) (\<lambda>(reservedRoot, r).
     go_bind (read_array 32 r) (\<lambda>(witnessRoot, r).
     go_bind (read_array 32 r) (\<lambda>(merkleRoot, r).
     go_bind (ReadUint32 r) (\<lambda>(version, r).
     go_bind (ReadUint32 r) (\<lambda>(bits, r).
     go_bind (read_array 32 r) (\<lambda>(mask, r).
     go_bind (ReadVarint r) (\<lambda>(txCount, r).
     go_bind (read_many Transaction_Decode (nat (sint txCount)) r) (\<lambda>(txs, r).
     Ok (\<lparr>bk_Nonce = nonce, bk_Time = ts, bk_PrevHash = hash, bk_TreeRoot = treeRoot,
          bk_ExtraNonce = extraNonce, bk_ReservedRoot = reservedRoot, bk_WitnessRoot = witnessRoot,
          bk_MerkleRoot = merkleRoot, bk_Version = version, bk_Bits = bits, bk_Mask = mask,
          bk_Transactions = txs\<rparr>, r))))))))))))))"

section \<open>Round trips\<close>

text \<open>
  The contract of a serialized type: what the encoder wrote is read back, and nothing after it.
  A counted list of such values is read back by the counting loop.
\<close>

locale chain_codec =
  fixes enc :: "'a \<Rightarrow> bytes" and dec :: "bytes \<Rightarrow> ('a \<times> bytes) go" and ok :: "'a \<Rightarrow> bool"
  assumes roundtrip: "ok x \<Longrightarrow> dec (enc x @ rest) = Ok (x, rest)"
begin

lemma many:
  "list_all ok xs \<Longrightarrow> read_many dec (length xs) (concat (map enc xs) @ rest) = Ok (xs, rest)"
  by (induction xs) (simp_all add: roundtrip go_simps)

lemma many_last:
  "list_all ok xs \<Longrightarrow> read_many dec (length xs) (concat (map enc xs)) = Ok (xs, [])"
  using many [of xs "[]"] by simp

end

lemma length_LE_Put [simp]:
  "length (LE_PutUint16 a) = 2" "length (LE_PutUint32 b) = 4" "length (LE_PutUint64 c) = 8"
  by (simp_all add: LE_PutUint16_def LE_PutUint32_def LE_PutUint64_def)

lemma LE_Uint_Put [simp]:
  "LE_Uint16 (LE_PutUint16 a) = a" "LE_Uint32 (LE_PutUint32 b) = b" "LE_Uint64 (LE_PutUint64 c) = c"
  by (simp_all add: LE_PutUint16_def LE_PutUint32_def LE_PutUint64_def LE_Uint16_def LE_Uint32_def
      LE_Uint64_def)

lemma ReadUint_append [simp]:
  "ReadUint64 (LE_PutUint64 a @ r) = Ok (a, r)"
  "ReadUint32 (LE_PutUint32 b @ r) = Ok (b, r)"
  by (simp_all add: ReadUint64_def ReadUint32_def go_simps)

lemma ReadUint8_Cons [simp]: "ReadUint8 (b # r) = Ok (b, r)"
  by (simp add: ReadUint8_def io_ReadFull_def go_simps)

lemma ReadByte_Cons [simp]: "ReadByte (b # r) = Ok (b, r)"
  by (simp add: ReadByte_def ReadBytes_def maxAlloc_def io_ReadFull_def go_simps)

lemma ReadByte_Nil [simp]: "ReadByte [] = Err io_EOF"
  by (simp add: ReadByte_def ReadBytes_def maxAlloc_def io_ReadFull_def go_simps)

lemma ucast_ucast_small:
  fixes v :: uint64
  shows "v \<le> 0xfc \<Longrightarrow> ucast (ucast v :: byte) = v \<and> (ucast v :: byte) < 0xfd"
    and "v \<le> 0xffff \<Longrightarrow> ucast (ucast v :: uint16) = v"
    and "v \<le> 0xffffffff \<Longrightarrow> ucast (ucast v :: uint32) = v"
proof -
  show "ucast (ucast v :: byte) = v \<and> (ucast v :: byte) < 0xfd" if "v \<le> 0xfc"
  proof -
    have "unat v \<le> 252" using that by (simp add: word_le_nat_alt)
    then show ?thesis by (simp add: word_unat_eq_iff word_less_nat_alt unsigned_ucast_eq take_bit_eq_mod unat_mod_distrib)
  qed
  show "ucast (ucast v :: uint16) = v" if "v \<le> 0xffff"
  proof -
    have "unat v \<le> 65535" using that by (simp add: word_le_nat_alt)
    then show ?thesis by (simp add: word_unat_eq_iff unsigned_ucast_eq take_bit_eq_mod unat_mod_distrib)
  qed
  show "ucast (ucast v :: uint32) = v" if "v \<le> 0xffffffff"
  proof -
    have "unat v \<le> 4294967295" using that by (simp add: word_le_nat_alt)
    then show ?thesis by (simp add: word_unat_eq_iff unsigned_ucast_eq take_bit_eq_mod unat_mod_distrib)
  qed
qed

lemma ReadVarint_Write:
  assumes "v \<le> 0xffffffff"
  shows "ReadVarint (WriteVarint v @ r) = Ok (v, r)"
proof -
  consider "v \<le> 0xfc" | "\<not> v \<le> 0xfc" "v \<le> 0xffff" | "\<not> v \<le> 0xfc" "\<not> v \<le> 0xffff" by blast
  then show ?thesis
    using assms by cases (simp_all add: WriteVarint_def ReadVarint_def ucast_ucast_small go_simps)
qed

lemma small_count:
  assumes "n < 2 ^ 32"
  shows "unat (of_nat n :: uint64) = n" "sint (of_nat n :: uint64) = int n"
    "(of_nat n :: uint64) \<le> 0xffffffff"
proof -
  have n: "n < 18446744073709551616" using assms by simp
  show u: "unat (of_nat n :: uint64) = n" unfolding unat_of_nat using n by simp
  have i: "uint (of_nat n :: uint64) = int n"
    by (subst (2) u [symmetric]) (rule uint_nat)
  have "sint (of_nat n :: uint64) = signed_take_bit 63 (uint (of_nat n :: uint64))"
    by (simp only: sint_uint) simp
  also have "\<dots> = int n" unfolding i by (rule signed_take_bit_int_eq_self) (use assms in simp_all)
  finally show "sint (of_nat n :: uint64) = int n" .
  show "(of_nat n :: uint64) \<le> 0xffffffff" unfolding word_le_nat_alt u using assms by simp
qed

lemma ReadVarint_length:
  assumes "n < 2 ^ 32"
  shows "ReadVarint (WriteVarint (of_nat n) @ r) = Ok (of_nat n, r)" "nat (sint (of_nat n :: uint64)) = n"
    "sint (of_nat n :: uint64) = int n"
  using small_count [OF assms] by (simp_all add: ReadVarint_Write del: of_nat_le_iff)

interpretation item_codec: chain_codec WriteVarBytes ReadVarBytes "\<lambda>b. length b < 2 ^ 32"
  by unfold_locales
    (simp add: WriteVarBytes_def ReadVarBytes_def ReadVarint_length ReadBytes_def maxAlloc_def go_simps)

text \<open>Values within the limits of the format.\<close>

definition items_ok :: "bytes list \<Rightarrow> bool" where
  "items_ok items \<longleftrightarrow> length items \<le> 1000 \<and> list_all (\<lambda>b. length b < 2 ^ 32) items"

definition Covenant_ok :: "Covenant \<Rightarrow> bool" where
  "Covenant_ok c \<longleftrightarrow> cov_Type c \<le> CovenantRevoke \<and> items_ok (cov_Items c)"

definition Address_ok :: "Address \<Rightarrow> bool" where
  "Address_ok a \<longleftrightarrow> ad_Version a \<le> 31 \<and> 2 \<le> length (ad_Hash a) \<and> length (ad_Hash a) \<le> 40"

definition Input_ok :: "Input \<Rightarrow> bool" where
  "Input_ok i \<longleftrightarrow> length (op_Hash (in_Prevout i)) = 32"

definition Output_ok :: "Output \<Rightarrow> bool" where
  "Output_ok x \<longleftrightarrow> Address_ok (out_Address x) \<and> Covenant_ok (out_Covenant x)"

definition Transaction_ok :: "Transaction \<Rightarrow> bool" where
  "Transaction_ok t \<longleftrightarrow>
     list_all Input_ok (tx_Inputs t) \<and> list_all Output_ok (tx_Outputs t) \<and> list_all items_ok (tx_Witnesses t) \<and>
     length (tx_Witnesses t) = length (tx_Inputs t) \<and> length (tx_Inputs t) < 2 ^ 32 \<and> length (tx_Outputs t) < 2 ^ 32"

definition Block_ok :: "Block \<Rightarrow> bool" where
  "Block_ok b \<longleftrightarrow>
     list_all (\<lambda>f. length (f b) = 32)
       [bk_PrevHash, bk_TreeRoot, bk_ReservedRoot, bk_WitnessRoot, bk_MerkleRoot, bk_Mask] \<and>
     length (bk_ExtraNonce b) = 24 \<and> list_all Transaction_ok (bk_Transactions b) \<and>
     length (bk_Transactions b) < 2 ^ 32"

lemma count_small: "n \<le> 1000 \<Longrightarrow> \<not> MaxScriptStack < of_nat n"
  by (simp add: MaxScriptStack_def word_less_nat_alt unat_of_nat)

interpretation covenant_codec: chain_codec Covenant_Encode Covenant_Decode Covenant_ok
proof (unfold_locales)
  fix x rest assume "Covenant_ok x"
  then show "Covenant_Decode (Covenant_Encode x @ rest) = Ok (x, rest)"
    by (simp add: Covenant_Decode_def Covenant_Encode_def Covenant_ok_def items_ok_def ReadVarint_length
        item_codec.many count_small go_simps linorder_not_less)
qed

interpretation witness_codec: chain_codec Witness_Encode Witness_Decode items_ok
  by unfold_locales
    (simp add: Witness_Decode_def Witness_Encode_def items_ok_def ReadVarint_length item_codec.many
      count_small go_simps)

interpretation address_codec: chain_codec Address_Encode Address_Decode Address_ok
proof (unfold_locales)
  fix x rest assume ok: "Address_ok x"
  then have u: "unat (of_nat (length (ad_Hash x)) :: byte) = length (ad_Hash x)"
    by (simp add: Address_ok_def unat_of_nat)
  with ok have "\<not> of_nat (length (ad_Hash x)) < (2 :: byte)" "\<not> (40 :: byte) < of_nat (length (ad_Hash x))"
    by (simp_all add: Address_ok_def word_less_nat_alt)
  with ok u show "Address_Decode (Address_Encode x @ rest) = Ok (x, rest)"
    by (simp add: Address_Decode_def Address_Encode_def Address_ok_def go_simps linorder_not_less)
qed

interpretation input_codec: chain_codec Input_Encode Input_Decode Input_ok
  by unfold_locales
    (simp add: Input_Decode_def Input_Encode_def Outpoint_Decode_def Outpoint_Encode_def Input_ok_def go_simps)

interpretation output_codec: chain_codec Output_Encode Output_Decode Output_ok
  by unfold_locales
    (simp add: Output_Decode_def Output_Encode_def Output_ok_def address_codec.roundtrip
      covenant_codec.roundtrip go_simps)

interpretation transaction_codec: chain_codec Transaction_Encode Transaction_Decode Transaction_ok
proof (unfold_locales)
  fix x rest assume ok: "Transaction_ok x"
  then have w: "read_many Witness_Decode (length (tx_Inputs x)) (concat (map Witness_Encode (tx_Witnesses x)) @ rest) =
      Ok (tx_Witnesses x, rest)"
    using witness_codec.many [of "tx_Witnesses x" rest] by (simp add: Transaction_ok_def)
  from ok show "Transaction_Decode (Transaction_Encode x @ rest) = Ok (x, rest)"
    by (simp add: Transaction_Decode_def Transaction_Encode_def Transaction_EncodeNoWitnesses_def
        Transaction_ok_def ReadVarint_length input_codec.many output_codec.many w go_simps)
qed

lemma read_array_append [simp]: "length b = n \<Longrightarrow> 0 < n \<Longrightarrow> read_array n (b @ rest) = Ok (b, rest)"
  unfolding read_array_def by (rule bytes_Read_append) auto

interpretation block_codec: chain_codec Block_Encode Block_Decode Block_ok
  by unfold_locales
    (simp add: Block_Decode_def Block_Encode_def Block_ok_def ReadVarint_length transaction_codec.many go_simps)

end
