(* ===== verification/Hns_Resource.thy ===== *)
theory Hns_Resource
  imports Hns_Chain
begin

text \<open>
  The DNS resource a name's owner puts on the chain: the decoder of
  \<open>vendor/fnd.localhost/handshake/dns\<close> (\<open>io.go\<close>, \<open>record.go\<close>, \<open>resource.go\<close>) and the register and
  update covenants of \<open>primitives/covenant.go\<close>.  Domain names are unpacked by a library, which is
  an argument.
\<close>

section \<open>The resource reader\<close>

record ResourceReader =
  rr_b :: bytes
  rr_off :: nat

definition NewResourceReader :: "bytes \<Rightarrow> ResourceReader" where
  "NewResourceReader b = \<lparr>rr_b = b, rr_off = 0\<rparr>"

text \<open>A decoder on the reader works on the bytes from its offset on and moves the offset past what it read.\<close>

definition rr_do :: "(bytes \<Rightarrow> ('a \<times> bytes) go) \<Rightarrow> ResourceReader \<Rightarrow> ('a \<times> ResourceReader) go" where
  "rr_do dec rr =
     go_bind (dec (drop (rr_off rr) (rr_b rr))) (\<lambda>(x, rest). Ok (x, rr\<lparr>rr_off := length (rr_b rr) - length rest\<rparr>))"

text \<open>
  The library call that unpacks the domain name at an offset of a message: the name and the
  offset behind it, which lies within the message.
\<close>

type_synonym unpacker = "bytes \<Rightarrow> nat \<Rightarrow> (string \<times> nat) go"

definition unpacker_laws :: "unpacker \<Rightarrow> bool" where
  "unpacker_laws U \<longleftrightarrow>
     (\<forall>b off. (\<forall>p. U b off \<noteq> Panic p) \<and> (\<forall>name off'. U b off = Ok (name, off') \<longrightarrow> off < off' \<and> off' \<le> length b))"

definition readName :: "unpacker \<Rightarrow> ResourceReader \<Rightarrow> (string \<times> ResourceReader) go" where
  "readName U rr = go_bind (U (rr_b rr) (rr_off rr)) (\<lambda>(name, off). Ok (name, rr\<lparr>rr_off := off\<rparr>))"

section \<open>Records\<close>

datatype Record =
    DSRecord uint16 byte byte bytes
  | NSRecord string
  | Glue4Record string bytes
  | Glue6Record string bytes
  | Synth4Record bytes
  | Synth6Record bytes
  | TXTRecord "string list"

definition DSRecord_Decode :: "bytes \<Rightarrow> (Record \<times> bytes) go" where
  "DSRecord_Decode r =
     go_bind (ReadUint16BE r) (\<lambda>(keyTag, r).
     go_bind (ReadUint8 r) (\<lambda>(algorithm, r).
     go_bind (ReadUint8 r) (\<lambda>(digestType, r).
     go_bind (ReadUint8 r) (\<lambda>(digestLen, r).
     go_bind (ReadBytes (uint digestLen) r) (\<lambda>(digest, r).
     Ok (DSRecord keyTag algorithm digestType digest, r))))))"

definition ReadIP4 :: "bytes \<Rightarrow> (bytes \<times> bytes) go" where "ReadIP4 r = io_ReadFull 4 r"
definition ReadIP6 :: "bytes \<Rightarrow> (bytes \<times> bytes) go" where "ReadIP6 r = io_ReadFull 16 r"

definition NSRecord_Decode :: "unpacker \<Rightarrow> ResourceReader \<Rightarrow> (Record \<times> ResourceReader) go" where
  "NSRecord_Decode U rr = go_bind (readName U rr) (\<lambda>(server, rr). Ok (NSRecord server, rr))"

definition Glue4Record_Decode :: "unpacker \<Rightarrow> ResourceReader \<Rightarrow> (Record \<times> ResourceReader) go" where
  "Glue4Record_Decode U rr =
     go_bind (readName U rr) (\<lambda>(server, rr).
     go_bind (rr_do ReadIP4 rr) (\<lambda>(addr, rr). Ok (Glue4Record server addr, rr)))"

definition Glue6Record_Decode :: "unpacker \<Rightarrow> ResourceReader \<Rightarrow> (Record \<times> ResourceReader) go" where
  "Glue6Record_Decode U rr =
     go_bind (readName U rr) (\<lambda>(server, rr).
     go_bind (rr_do ReadIP6 rr) (\<lambda>(addr, rr). Ok (Glue6Record server addr, rr)))"

definition Synth4Record_Decode :: "bytes \<Rightarrow> (Record \<times> bytes) go" where
  "Synth4Record_Decode r = go_bind (ReadIP4 r) (\<lambda>(addr, r). Ok (Synth4Record addr, r))"

definition Synth6Record_Decode :: "bytes \<Rightarrow> (Record \<times> bytes) go" where
  "Synth6Record_Decode r = go_bind (ReadIP6 r) (\<lambda>(addr, r). Ok (Synth6Record addr, r))"

definition TXTEntry_Decode :: "bytes \<Rightarrow> (string \<times> bytes) go" where
  "TXTEntry_Decode r = go_bind (ReadUint8 r) (\<lambda>(entryLen, r). ReadString (uint entryLen) r)"

definition TXTRecord_Decode :: "bytes \<Rightarrow> (Record \<times> bytes) go" where
  "TXTRecord_Decode r =
     go_bind (ReadUint8 r) (\<lambda>(count, r).
     go_bind (read_many TXTEntry_Decode (unat count) r) (\<lambda>(entries, r). Ok (TXTRecord entries, r)))"

definition Record_Decode :: "unpacker \<Rightarrow> byte \<Rightarrow> ResourceReader \<Rightarrow> (Record \<times> ResourceReader) go" where
  "Record_Decode U recType rr =
     (if recType = 0 then rr_do DSRecord_Decode rr
      else if recType = 1 then NSRecord_Decode U rr
      else if recType = 2 then Glue4Record_Decode U rr
      else if recType = 3 then Glue6Record_Decode U rr
      else if recType = 4 then rr_do Synth4Record_Decode rr
      else if recType = 5 then rr_do Synth6Record_Decode rr
      else if recType = 6 then rr_do TXTRecord_Decode rr
      else Err (ErrNew ''unknown record type''))"

text \<open>
  The loop over the records ends at the end of the resource.  Each turn moves the offset on when the
  unpacker does, so that the length of the resource bounds the number of turns
  (\<open>Resource_loop_enough\<close>).
\<close>

fun Resource_loop :: "unpacker \<Rightarrow> nat \<Rightarrow> ResourceReader \<Rightarrow> Record list go" where
  "Resource_loop U 0 rr = Err (ErrVar ''too many turns'')"
| "Resource_loop U (Suc n) rr =
     (case rr_do ReadUint8 rr of
        Panic p \<Rightarrow> Panic p
      | Err e \<Rightarrow> if e = io_EOF then Ok [] else Err e
      | Ok (recType, rr) \<Rightarrow>
          go_bind (Record_Decode U recType rr) (\<lambda>(record, rr).
          go_bind (Resource_loop U n rr) (\<lambda>records. Ok (record # records))))"

definition Resource_Decode :: "unpacker \<Rightarrow> bytes \<Rightarrow> Record list go" where
  "Resource_Decode U buf =
     go_bind (rr_do ReadUint8 (NewResourceReader buf)) (\<lambda>(version, rr).
     if version \<noteq> 0 then Err (ErrNew ''invalid serialization version'')
     else Resource_loop U (length buf) rr)"

section \<open>Register and update covenants\<close>

definition MaxResourceSize :: nat where "MaxResourceSize = 512"

text \<open>Indexing past the items and a height of fewer than four bytes panic.\<close>

definition cov_item :: "Covenant \<Rightarrow> nat \<Rightarrow> bytes go" where
  "cov_item cov i =
     (if i < length (cov_Items cov) then Ok (cov_Items cov ! i) else Panic ''index out of range'')"

definition cov_uint32 :: "Covenant \<Rightarrow> nat \<Rightarrow> uint32 go" where
  "cov_uint32 cov i =
     go_bind (cov_item cov i) (\<lambda>b. if length b < 4 then Panic ''index out of range'' else Ok (LE_Uint32 b))"

text \<open>The resource of an update may be absent: its slice is empty.\<close>

definition cov_resource :: "unpacker \<Rightarrow> Covenant \<Rightarrow> Record list option go" where
  "cov_resource U cov =
     go_bind (cov_item cov 2) (\<lambda>resourceB.
     if MaxResourceSize < length resourceB then Err (ErrNew ''resource too large'')
     else if 0 < length resourceB then go_bind (Resource_Decode U resourceB) (\<lambda>resource. Ok (Some resource))
     else Ok None)"

record covUpdate =
  cu_NameHash :: bytes
  cu_Height :: uint32
  cu_Resource :: "Record list option"

record Register = covUpdate +
  cr_RenewalBlockHash :: bytes

definition UpdateFromCovenant :: "unpacker \<Rightarrow> Covenant \<Rightarrow> covUpdate go" where
  "UpdateFromCovenant U cov =
     (if cov_Type cov \<noteq> CovenantUpdate then Err (ErrNew ''covenant is not an update covenant'')
      else
        go_bind (cov_resource U cov) (\<lambda>resource.
        go_bind (cov_item cov 0) (\<lambda>nameHash.
        go_bind (cov_uint32 cov 1) (\<lambda>height.
        Ok \<lparr>cu_NameHash = nameHash, cu_Height = height, cu_Resource = resource\<rparr>))))"

definition RegisterFromCovenant :: "unpacker \<Rightarrow> Covenant \<Rightarrow> Register go" where
  "RegisterFromCovenant U cov =
     (if cov_Type cov \<noteq> CovenantRegister then Err (ErrNew ''covenant is not a register covenant'')
      else
        go_bind (cov_resource U cov) (\<lambda>resource.
        go_bind (cov_item cov 0) (\<lambda>nameHash.
        go_bind (cov_uint32 cov 1) (\<lambda>height.
        go_bind (cov_item cov 3) (\<lambda>renewal.
        Ok \<lparr>cu_NameHash = nameHash, cu_Height = height, cu_Resource = resource,
            cr_RenewalBlockHash = renewal\<rparr>)))))"

section \<open>Lemmas\<close>

text \<open>A reader whose offset lies within its buffer, and decoders that leave a suffix of their input.\<close>

definition rr_ok :: "ResourceReader \<Rightarrow> bool" where
  "rr_ok rr \<longleftrightarrow> rr_off rr \<le> length (rr_b rr)"

definition shrinks :: "(bytes \<Rightarrow> ('a \<times> bytes) go) \<Rightarrow> bool" where
  "shrinks dec \<longleftrightarrow> (\<forall>r x r'. dec r = Ok (x, r') \<longrightarrow> length r' \<le> length r)"

named_theorems shrink_intros

lemma shrinks_ReadFull [shrink_intros]: "shrinks (io_ReadFull n)"
  by (auto simp: shrinks_def io_ReadFull_Ok)

lemma shrinks_ret [shrink_intros]: "shrinks (\<lambda>r. Ok (x, r))"
  by (simp add: shrinks_def)

lemma shrinks_bind [shrink_intros]:
  assumes "shrinks f" "\<And>x. shrinks (g x)"
  shows "shrinks (\<lambda>r. go_bind (f r) (\<lambda>(x, r). g x r))"
  unfolding shrinks_def
proof (intro allI impI)
  fix r x r' assume "go_bind (f r) (\<lambda>(x, r). g x r) = Ok (x, r')"
  then obtain y r1 where "f r = Ok (y, r1)" "g y r1 = Ok (x, r')" by (auto simp: go_bind_eq_Ok)
  with assms have "length r1 \<le> length r" "length r' \<le> length r1" unfolding shrinks_def by blast+
  then show "length r' \<le> length r" by simp
qed

lemma shrinks_ReadBytes [shrink_intros]: "shrinks (ReadBytes l)"
  unfolding shrinks_def ReadBytes_def by (auto simp: io_ReadFull_Ok)

lemma shrinks_many [shrink_intros]: "shrinks dec \<Longrightarrow> shrinks (read_many dec n)"
proof (induction n)
  case 0
  then show ?case by (simp add: shrinks_def)
next
  case (Suc n)
  have "shrinks (\<lambda>r. go_bind (dec r) (\<lambda>(x, r). go_bind (read_many dec n r) (\<lambda>(xs, r). Ok (x # xs, r))))"
    using Suc by (intro shrink_intros) auto
  then show ?case by (simp only: read_many.simps [abs_def])
qed

lemma shrinks_records [shrink_intros]:
  "shrinks ReadUint8" "shrinks DSRecord_Decode" "shrinks ReadIP4" "shrinks ReadIP6"
  "shrinks Synth4Record_Decode" "shrinks Synth6Record_Decode" "shrinks TXTRecord_Decode"
  unfolding ReadUint8_def [abs_def] ReadUint16BE_def [abs_def] DSRecord_Decode_def [abs_def]
    ReadIP4_def [abs_def] ReadIP6_def [abs_def] Synth4Record_Decode_def [abs_def]
    Synth6Record_Decode_def [abs_def] TXTRecord_Decode_def [abs_def] TXTEntry_Decode_def [abs_def]
    ReadString_def [abs_def]
  by (intro shrink_intros)+

text \<open>A step of the reader stays within the buffer and does not go back.\<close>

definition advances :: "ResourceReader \<Rightarrow> ResourceReader \<Rightarrow> bool" where
  "advances rr rr' \<longleftrightarrow> rr_b rr' = rr_b rr \<and> rr_off rr \<le> rr_off rr' \<and> rr_ok rr'"

lemma advances_trans: "advances a b \<Longrightarrow> advances b c \<Longrightarrow> advances a c"
  by (auto simp: advances_def)

lemma advances_ok: "advances a b \<Longrightarrow> rr_ok b"
  by (simp add: advances_def)

lemma rr_do_advances:
  assumes "shrinks dec" "rr_ok rr" "rr_do dec rr = Ok (x, rr')"
  shows "advances rr rr'"
proof -
  from assms(3) obtain rest where "dec (drop (rr_off rr) (rr_b rr)) = Ok (x, rest)"
    and rr': "rr' = rr\<lparr>rr_off := length (rr_b rr) - length rest\<rparr>"
    by (auto simp: rr_do_def go_bind_eq_Ok)
  with assms(1) have "length rest \<le> length (rr_b rr) - rr_off rr" unfolding shrinks_def by fastforce
  with assms(2) rr' show ?thesis by (auto simp: advances_def rr_ok_def)
qed

lemma readName_advances: "unpacker_laws U \<Longrightarrow> readName U rr = Ok (x, rr') \<Longrightarrow> advances rr rr'"
  by (fastforce simp: readName_def go_bind_eq_Ok unpacker_laws_def advances_def rr_ok_def)

lemma Record_Decode_advances:
  assumes U: "unpacker_laws U" and ok: "rr_ok rr" and r: "Record_Decode U t rr = Ok (x, rr')"
  shows "advances rr rr'"
proof -
  have glue: "advances rr rr'" if "readName U rr = Ok (n, rr1)" "shrinks dec" "rr_do dec rr1 = Ok (a, rr')"
    for n rr1 a and dec :: "bytes \<Rightarrow> (bytes \<times> bytes) go"
    using readName_advances [OF U that(1)] rr_do_advances [OF that(2) _ that(3)]
    by (blast intro: advances_trans advances_ok)
  from r show ?thesis
    by (auto simp: Record_Decode_def NSRecord_Decode_def Glue4Record_Decode_def Glue6Record_Decode_def
        go_bind_eq_Ok intro: readName_advances [OF U] glue [OF _ shrinks_records(3)]
        glue [OF _ shrinks_records(4)] rr_do_advances [OF _ ok] shrinks_records
        split: if_splits)
qed

lemma ReadUint8_advances:
  assumes "rr_ok rr" "rr_do ReadUint8 rr = Ok (x, rr')"
  shows "advances rr rr'" "rr_off rr < rr_off rr'"
proof -
  show a: "advances rr rr'" using assms by (blast intro: rr_do_advances shrinks_records)
  from assms show "rr_off rr < rr_off rr'"
    by (auto simp: rr_do_def ReadUint8_def go_bind_eq_Ok io_ReadFull_def rr_ok_def split: if_splits)
qed

lemma go_bind_agree: "(\<And>x. m = Ok x \<Longrightarrow> f x = g x) \<Longrightarrow> go_bind m f = go_bind m g"
  by (cases m) auto

lemma Resource_loop_enough:
  assumes "unpacker_laws U" "rr_ok rr" "length (rr_b rr) - rr_off rr < n" "length (rr_b rr) - rr_off rr < m"
  shows "Resource_loop U n rr = Resource_loop U m rr"
  using assms(2-)
proof (induction n arbitrary: rr m)
  case 0
  then show ?case by simp
next
  case (Suc n)
  then obtain m' where m: "m = Suc m'" by (cases m) auto
  have "Resource_loop U n rr2 = Resource_loop U m' rr2"
    if "rr_do ReadUint8 rr = Ok (t, rr1)" "Record_Decode U t rr1 = Ok (x, rr2)" for t rr1 x rr2
  proof -
    note a = ReadUint8_advances [OF Suc.prems(1) that(1)]
    have b: "advances rr1 rr2" using Record_Decode_advances [OF assms(1) _ that(2)] advances_ok [OF a(1)] .
    show ?thesis
      using Suc.IH [of rr2 m'] a b Suc.prems m by (auto simp: advances_def rr_ok_def)
  qed
  then show ?case by (auto simp: m split: go.splits intro!: go_bind_agree)
qed

text \<open>Whatever the owner of a name put into the resource, decoding it does not panic.\<close>

definition no_panic :: "('a \<Rightarrow> 'b go) \<Rightarrow> bool" where
  "no_panic f \<longleftrightarrow> (\<forall>x p. f x \<noteq> Panic p)"

lemma no_panic_bind: "no_panic f \<Longrightarrow> (\<And>x. no_panic (g x)) \<Longrightarrow> no_panic (\<lambda>r. go_bind (f r) (\<lambda>(x, r). g x r))"
  by (auto simp: no_panic_def go_simps)

lemma no_panic_basic: "no_panic (io_ReadFull n)" "no_panic (\<lambda>r. Ok (x, r))" "no_panic (ReadBytes (uint (w :: byte)))"
  using uint_lt2p [of w] by (auto simp: no_panic_def go_simps ReadBytes_def maxAlloc_def)

lemma no_panic_many: "no_panic dec \<Longrightarrow> no_panic (read_many dec n)"
proof (induction n)
  case 0
  then show ?case by (simp add: no_panic_def)
next
  case (Suc n)
  then show ?case by (auto simp: no_panic_def go_simps)
qed

lemmas no_panic_intros = no_panic_bind no_panic_basic no_panic_many

lemma no_panic_records:
  "no_panic ReadUint8" "no_panic DSRecord_Decode" "no_panic ReadIP4" "no_panic ReadIP6"
  "no_panic Synth4Record_Decode" "no_panic Synth6Record_Decode" "no_panic TXTRecord_Decode"
  unfolding ReadUint8_def [abs_def] ReadUint16BE_def [abs_def] DSRecord_Decode_def [abs_def]
    ReadIP4_def [abs_def] ReadIP6_def [abs_def] Synth4Record_Decode_def [abs_def]
    Synth6Record_Decode_def [abs_def] TXTRecord_Decode_def [abs_def] TXTEntry_Decode_def [abs_def]
    ReadString_def [abs_def]
  by (intro no_panic_intros)+

lemma rr_do_no_panic: "no_panic dec \<Longrightarrow> rr_do dec rr \<noteq> Panic p"
  by (auto simp: rr_do_def no_panic_def go_simps)

lemma readName_no_panic: "unpacker_laws U \<Longrightarrow> readName U rr \<noteq> Panic p"
  by (auto simp: readName_def unpacker_laws_def go_simps)

lemma Record_Decode_no_panic: "unpacker_laws U \<Longrightarrow> Record_Decode U t rr \<noteq> Panic p"
  by (simp add: Record_Decode_def NSRecord_Decode_def Glue4Record_Decode_def Glue6Record_Decode_def
      rr_do_no_panic no_panic_records readName_no_panic go_bind_eq_Panic split_beta)

lemma Resource_loop_no_panic: "unpacker_laws U \<Longrightarrow> Resource_loop U n rr \<noteq> Panic p"
proof (induction n arbitrary: rr)
  case 0
  then show ?case by simp
next
  case (Suc n)
  then show ?case
    by (auto simp: rr_do_no_panic no_panic_records Record_Decode_no_panic go_bind_eq_Panic split: go.splits)
qed

lemma Resource_Decode_no_panic: "unpacker_laws U \<Longrightarrow> Resource_Decode U buf \<noteq> Panic p"
  by (auto simp: Resource_Decode_def rr_do_no_panic no_panic_records Resource_loop_no_panic go_bind_eq_Panic)

end
