(* ===== verification/Base64.thy ===== *)
theory Base64
  imports Go_Base
begin

text \<open>
  \<open>base64.StdEncoding\<close> of the standard library: the padded encoding over the alphabet
  \<open>A-Za-z0-9+/\<close>.  The decoder passes over line breaks and does not look at the unused bits of a
  padded group.
\<close>

definition b64_char :: "nat \<Rightarrow> char" where
  "b64_char n =
     (if n < 26 then char_of (65 + n)
      else if n < 52 then char_of (97 + (n - 26))
      else if n < 62 then char_of (48 + (n - 52))
      else if n = 62 then CHR ''+'' else CHR ''/'')"

definition b64_value :: "char \<Rightarrow> nat option" where
  "b64_value c =
     (let n = of_char c :: nat in
      if 65 \<le> n \<and> n \<le> 90 then Some (n - 65)
      else if 97 \<le> n \<and> n \<le> 122 then Some (n - 97 + 26)
      else if 48 \<le> n \<and> n \<le> 57 then Some (n - 48 + 52)
      else if n = 43 then Some 62
      else if n = 47 then Some 63
      else None)"

definition b64_quad :: "nat \<Rightarrow> string" where
  "b64_quad v = map b64_char [v div 64 div 64 div 64, v div 64 div 64 mod 64, v div 64 mod 64, v mod 64]"

definition b64_triple :: "nat \<Rightarrow> nat \<Rightarrow> nat \<Rightarrow> nat \<Rightarrow> bytes" where
  "b64_triple w x y z =
     (let v = ((w * 64 + x) * 64 + y) * 64 + z in
      map of_nat [v div 256 div 256, v div 256 mod 256, v mod 256])"

fun base64_EncodeToString :: "bytes \<Rightarrow> string" where
  "base64_EncodeToString [] = []"
| "base64_EncodeToString [a] = take 2 (b64_quad (unat a * 256 ^ 2)) @ ''==''"
| "base64_EncodeToString [a, b] = take 3 (b64_quad (unat a * 256 ^ 2 + unat b * 256)) @ ''=''"
| "base64_EncodeToString (a # b # c # bs) =
     b64_quad (unat a * 256 ^ 2 + unat b * 256 + unat c) @ base64_EncodeToString bs"

definition CorruptInputError :: err where "CorruptInputError = ErrVar ''illegal base64 data''"

fun b64_decode :: "string \<Rightarrow> bytes go" where
  "b64_decode [] = Ok []"
| "b64_decode (a # b # c # d # s) =
     (case (b64_value a, b64_value b) of
        (Some w, Some x) \<Rightarrow>
          if c = CHR ''='' then
            if d = CHR ''='' \<and> s = [] then Ok (take 1 (b64_triple w x 0 0)) else Err CorruptInputError
          else (case b64_value c of
              None \<Rightarrow> Err CorruptInputError
            | Some y \<Rightarrow>
                if d = CHR ''='' then
                  if s = [] then Ok (take 2 (b64_triple w x y 0)) else Err CorruptInputError
                else (case b64_value d of
                    None \<Rightarrow> Err CorruptInputError
                  | Some z \<Rightarrow> go_bind (b64_decode s) (\<lambda>bs. Ok (b64_triple w x y z @ bs))))
      | _ \<Rightarrow> Err CorruptInputError)"
| "b64_decode _ = Err CorruptInputError"

definition base64_DecodeString :: "string \<Rightarrow> bytes go" where
  "base64_DecodeString s = b64_decode (filter (\<lambda>c. c \<noteq> CHR 0x0A \<and> c \<noteq> CHR 0x0D) s)"

section \<open>Lemmas\<close>

lemma of_char_b64:
  "(of_char (b64_char n) :: nat) =
     (if n < 26 then 65 + n else if n < 52 then 71 + n else if n < 62 then n - 4 else if n = 62 then 43 else 47)"
  by (simp add: b64_char_def)

lemma b64_value_char: "n < 64 \<Longrightarrow> b64_value (b64_char n) = Some n"
  by (simp add: b64_value_def of_char_b64 Let_def) arith

lemma b64_char_not: "(of_char c :: nat) \<in> {10, 13, 61} \<Longrightarrow> b64_char n \<noteq> c"
  using of_char_b64 [of n] by (auto split: if_splits)

lemma b64_char_neq [simp]: "b64_char n \<noteq> CHR ''=''" "b64_char n \<noteq> CHR 0x0A" "b64_char n \<noteq> CHR 0x0D"
  by (rule b64_char_not, simp)+

lemmas b64_char_neq' [simp] = b64_char_neq [symmetric]

lemma b64_triple_digits:
  "b64_triple (v div 64 div 64 div 64) (v div 64 div 64 mod 64) (v div 64 mod 64) (v mod 64) =
     map of_nat [v div 256 div 256, v div 256 mod 256, v mod 256]"
  unfolding b64_triple_def Let_def by (simp only: div_mult_mod_eq)

lemma b64_quad_digits:
  fixes v :: nat
  assumes "v < 256 ^ 3"
  shows "v div 64 div 64 div 64 < 64" "v div 64 div 64 mod 64 < 64" "v div 64 mod 64 < 64" "v mod 64 < 64"
  using assms by (simp_all add: div_mult2_eq [symmetric] less_mult_imp_div_less)

lemma b64_decode_quad:
  assumes "v < 256 ^ 3"
  shows "b64_decode (b64_quad v @ s) =
    go_bind (b64_decode s) (\<lambda>bs. Ok (map of_nat [v div 256 div 256, v div 256 mod 256, v mod 256] @ bs))"
proof -
  note d = b64_quad_digits [OF assms]
  note p = d [THEN b64_value_char] b64_char_neq(1)
  show ?thesis unfolding b64_quad_def by (simp only: list.map append_Cons append_Nil b64_decode.simps p
        prod.case option.case if_False b64_triple_digits)
qed

lemma b64_decode_padded:
  assumes "v < 256 ^ 3"
  shows "v mod 64 = 0 \<Longrightarrow> v div 64 mod 64 = 0 \<Longrightarrow>
      b64_decode (take 2 (b64_quad v) @ ''=='') = Ok [of_nat (v div 256 div 256)]"
    and "v mod 64 = 0 \<Longrightarrow>
      b64_decode (take 3 (b64_quad v) @ ''='') = Ok [of_nat (v div 256 div 256), of_nat (v div 256 mod 256)]"
proof -
  note d = b64_quad_digits [OF assms]
  note p = d [THEN b64_value_char] b64_char_neq(1)
  note t = b64_triple_digits [of v]
  show "b64_decode (take 2 (b64_quad v) @ ''=='') = Ok [of_nat (v div 256 div 256)]"
    if "v mod 64 = 0" "v div 64 mod 64 = 0"
    using p t unfolding that b64_quad_def by (simp add: numeral_2_eq_2)
  show "b64_decode (take 3 (b64_quad v) @ ''='') = Ok [of_nat (v div 256 div 256), of_nat (v div 256 mod 256)]"
    if "v mod 64 = 0"
    using p t unfolding that b64_quad_def by (simp add: numeral_3_eq_3 numeral_2_eq_2)
qed

lemma byte_digits:
  fixes a b c :: byte
  defines "v \<equiv> unat a * 256 ^ 2 + unat b * 256 + unat c"
  shows "v < 256 ^ 3" "of_nat (v div 256 div 256) = a" "of_nat (v div 256 mod 256) = b" "of_nat (v mod 256) = c"
proof -
  have u: "unat a < 256" "unat b < 256" "unat c < 256"
    using unsigned_less [of a, where ?'a = nat] unsigned_less [of b, where ?'a = nat]
      unsigned_less [of c, where ?'a = nat] by simp_all
  then show "v < 256 ^ 3" unfolding v_def by simp
  have v: "v = (unat a * 256 + unat b) * 256 + unat c" unfolding v_def by simp
  have dm: "(x * 256 + y) div 256 = x" "(x * 256 + y) mod 256 = y" if "y < 256" for x y :: nat
    using that by simp_all
  show "of_nat (v div 256 div 256) = a" "of_nat (v div 256 mod 256) = b" "of_nat (v mod 256) = c"
    unfolding v dm [OF u(3)] dm [OF u(2)] by simp_all
qed

lemma b64_roundtrip: "b64_decode (base64_EncodeToString bs) = Ok bs"
proof (induction bs rule: base64_EncodeToString.induct)
  case 1
  then show ?case by simp
next
  case (2 a)
  define v where "v = unat a * 256 ^ 2"
  have v: "v < 256 ^ 3" "of_nat (v div 256 div 256) = a"
    using byte_digits(1,2) [of a 0 0] by (simp_all add: v_def)
  have "v = (unat a * 1024) * 64" "v div 64 = (unat a * 16) * 64" by (simp_all add: v_def)
  then have "v mod 64 = 0" "v div 64 mod 64 = 0" by (metis mod_mult_self2_is_0)+
  with v show ?case unfolding base64_EncodeToString.simps v_def [symmetric] by (simp only: b64_decode_padded(1))
next
  case (3 a b)
  define v where "v = unat a * 256 ^ 2 + unat b * 256"
  have v: "v < 256 ^ 3" "of_nat (v div 256 div 256) = a" "of_nat (v div 256 mod 256) = b"
    using byte_digits(1-3) [of a b 0] by (simp_all add: v_def)
  have "v = (unat a * 1024 + unat b * 4) * 64" by (simp add: v_def)
  then have "v mod 64 = 0" by (metis mod_mult_self2_is_0)
  with v show ?case unfolding base64_EncodeToString.simps v_def [symmetric] by (simp only: b64_decode_padded(2))
next
  case (4 a b c bs)
  show ?case
    by (simp only: base64_EncodeToString.simps b64_decode_quad [OF byte_digits(1)] 4 go_bind.simps byte_digits
        list.map append_Cons append_Nil)
qed

lemma set_base64_Encode: "set (base64_EncodeToString bs) \<inter> {CHR 0x0A, CHR 0x0D} = {}"
  by (induction bs rule: base64_EncodeToString.induct) (auto simp: b64_quad_def)

lemma base64_roundtrip: "base64_DecodeString (base64_EncodeToString bs) = Ok bs"
proof -
  have "filter (\<lambda>c. c \<noteq> CHR 0x0A \<and> c \<noteq> CHR 0x0D) (base64_EncodeToString bs) = base64_EncodeToString bs"
    using set_base64_Encode [of bs] by (intro filter_True) auto
  then show ?thesis by (simp add: base64_DecodeString_def b64_roundtrip)
qed

lemma length_base64_Encode: "length bs = 3 * k \<Longrightarrow> length (base64_EncodeToString bs) = 4 * k"
proof (induction bs arbitrary: k rule: base64_EncodeToString.induct)
  case (4 a b c bs)
  then obtain j where "k = Suc j" by (cases k) auto
  with 4 show ?case by (simp add: b64_quad_def)
qed (auto simp: b64_quad_def, presburger+)

end
