(* ===== verification/Proto_Import.thy ===== *)
theory Proto_Import
  imports App_Config Hns_Resource Base64 Store_Schema
begin

text \<open>
  Importing the owners of names from the chain: \<open>protocol/name_importer.go\<close> and the record that
  \<open>cmd/fnd-cli/cmd/identity.go\<close> prints.  The chain is reached through the client of a full node,
  which is an argument: what it answers to each call.
\<close>

section \<open>Records\<close>

definition ParseFNRecord :: "('pk, 'sk) btcec \<Rightarrow> string \<Rightarrow> 'pk go" where
  "ParseFNRecord ec record =
     (if length record \<noteq> 45 then Err (ErrNew ''mal-formed txt record'')
      else
        let prefix = take 1 record; pubkeyb64 = drop 1 record in
        if prefix \<noteq> ''f'' then Err (ErrNew ''mal-formed record sigil'')
        else if length pubkeyb64 \<noteq> 44 then Err (ErrNew ''invalid public key length'')
        else
          case base64_DecodeString pubkeyb64 of
            Ok keyBytes \<Rightarrow> go_wrap (go_of (ec_ParsePubKey ec keyBytes)) ''error parsing public key''
          | Err e \<Rightarrow> Err (ErrNew ''mal-formed public key'')
          | Panic p \<Rightarrow> Panic p)"

text \<open>What the identity command prints for a signer.\<close>

definition identityCmd :: "('pk, 'sk) btcec \<Rightarrow> 'sk \<Rightarrow> string" where
  "identityCmd ec sk = base64_EncodeToString (ec_SerializeCompressed ec (SECP256k1Signer_Pub ec sk))"

record 'pk FNRecord =
  fn_NameHash :: string
  fn_PublicKey :: 'pk

text \<open>The last entry of the text records that parses.\<close>

fun entries_pub :: "('pk, 'sk) btcec \<Rightarrow> string list \<Rightarrow> 'pk option \<Rightarrow> 'pk option go" where
  "entries_pub ec [] pub = Ok pub"
| "entries_pub ec (entry # entries) pub =
     (case ParseFNRecord ec entry of
        Ok p \<Rightarrow> entries_pub ec entries (Some p)
      | Err e \<Rightarrow> entries_pub ec entries pub
      | Panic p \<Rightarrow> Panic p)"

fun records_pub :: "('pk, 'sk) btcec \<Rightarrow> Record list \<Rightarrow> 'pk option \<Rightarrow> 'pk option go" where
  "records_pub ec [] pub = Ok pub"
| "records_pub ec (TXTRecord entries # records) pub =
     go_bind (entries_pub ec entries pub) (records_pub ec records)"
| "records_pub ec (_ # records) pub = records_pub ec records pub"

text \<open>
  One output.  The switch on the covenant's type skips the output on an error; otherwise it gives
  the resource and the hash of the name.
\<close>

definition output_covenant :: "unpacker \<Rightarrow> Covenant \<Rightarrow> (Record list option \<times> bytes) option go" where
  "output_covenant U covenant =
     (if cov_Type covenant = CovenantUpdate then
        (case UpdateFromCovenant U covenant of
           Ok cov \<Rightarrow> Ok (Some (cu_Resource cov, cu_NameHash cov))
         | Err e \<Rightarrow> Ok None
         | Panic p \<Rightarrow> Panic p)
      else if cov_Type covenant = CovenantRegister then
        (case RegisterFromCovenant U covenant of
           Ok cov \<Rightarrow> Ok (Some (cu_Resource cov, cu_NameHash cov))
         | Err e \<Rightarrow> Ok None
         | Panic p \<Rightarrow> Panic p)
      else Ok None)"

definition output_record :: "unpacker \<Rightarrow> ('pk, 'sk) btcec \<Rightarrow> Output \<Rightarrow> 'pk FNRecord list go" where
  "output_record U ec vOut =
     go_bind (output_covenant U (out_Covenant vOut)) (\<lambda>res.
     case res of
       Some (Some resource, nh) \<Rightarrow>
         go_bind (records_pub ec resource None) (\<lambda>pub.
         case pub of
           None \<Rightarrow> Ok []
         | Some pub \<Rightarrow> Ok [\<lparr>fn_NameHash = hex_EncodeToString nh, fn_PublicKey = pub\<rparr>])
     | _ \<Rightarrow> Ok [])"

fun outputs_records :: "unpacker \<Rightarrow> ('pk, 'sk) btcec \<Rightarrow> Output list \<Rightarrow> 'pk FNRecord list go" where
  "outputs_records U ec [] = Ok []"
| "outputs_records U ec (vOut # vOuts) =
     go_bind (output_record U ec vOut) (\<lambda>recs.
     go_bind (outputs_records U ec vOuts) (\<lambda>recs'. Ok (recs @ recs')))"

definition ExtractTXTRecordsTx :: "unpacker \<Rightarrow> ('pk, 'sk) btcec \<Rightarrow> Transaction \<Rightarrow> 'pk FNRecord list go" where
  "ExtractTXTRecordsTx U ec tx = outputs_records U ec (tx_Outputs tx)"

text \<open>The map of records by name hash and the order in which the hashes were first seen.\<close>

type_synonym 'pk uniq = "(string \<rightharpoonup> 'pk FNRecord) \<times> string list"

definition uniq_add :: "'pk FNRecord \<Rightarrow> 'pk uniq \<Rightarrow> 'pk uniq" where
  "uniq_add rec u =
     (case u of (uniqRecords, order) \<Rightarrow>
        (uniqRecords(fn_NameHash rec \<mapsto> rec),
         if uniqRecords (fn_NameHash rec) = None then order @ [fn_NameHash rec] else order))"

fun txs_records :: "unpacker \<Rightarrow> ('pk, 'sk) btcec \<Rightarrow> Transaction list \<Rightarrow> 'pk uniq \<Rightarrow> 'pk uniq go" where
  "txs_records U ec [] u = Ok u"
| "txs_records U ec (tx # txs) u =
     go_bind (ExtractTXTRecordsTx U ec tx) (\<lambda>records. txs_records U ec txs (fold uniq_add records u))"

definition ExtractTXTRecordsBlock :: "unpacker \<Rightarrow> ('pk, 'sk) btcec \<Rightarrow> Block \<Rightarrow> 'pk FNRecord list go" where
  "ExtractTXTRecordsBlock U ec block =
     go_bind (txs_records U ec (bk_Transactions block) (Map.empty, [])) (\<lambda>(uniqRecords, order).
     Ok (map (\<lambda>h. the (uniqRecords h)) order))"

section \<open>The importer\<close>

record BlockchainInfo =
  bi_Blocks :: int
  bi_VerificationProgress :: rat

text \<open>
  The answers of the full node during one pass: the state of the chain, the hexadecimal block at a
  height, and the name behind a hash, asked for while the block at a height is processed.
\<close>

record hsdClient =
  RPCGetBlockchainInfo :: "err + BlockchainInfo"
  RPCGetBlockHexByHeight :: "int \<Rightarrow> err + string"
  RPCGetNameByHash :: "int \<Rightarrow> string \<Rightarrow> err + string option"

record NameImporter =
  nmi_ConfirmationDepth :: int
  nmi_CheckInterval :: duration
  nmi_Workers :: int
  nmi_VerificationThreshold :: rat

definition NewNameImporter :: NameImporter where
  "NewNameImporter =
     (let cfg = tun_NameImporter (cfg_Tuning DefaultConfig) in
      \<lparr>nmi_ConfirmationDepth = nic_ConfirmationDepth cfg,
       nmi_CheckInterval = ConvertDuration (nic_CheckIntervalMS cfg) 1000000,
       nmi_Workers = nic_Workers cfg,
       nmi_VerificationThreshold = nic_VerificationThreshold cfg\<rparr>)"

text \<open>One worker of \<open>fetchBlocks\<close>.\<close>

definition fetch_block :: "hsdClient \<Rightarrow> int \<Rightarrow> Block go" where
  "fetch_block cl height =
     go_bind (go_wrap (go_of (RPCGetBlockHexByHeight cl height)) ''error fetching HNS block'') (\<lambda>blockHex.
     go_bind (go_wrap (hex_DecodeString blockHex) ''error parsing HNS block hex'') (\<lambda>blockB.
     go_bind (go_wrap (Block_Decode blockB) ''error decoding HNS block'') (\<lambda>(block, rest). Ok block)))"

fun go_err :: "'a go \<Rightarrow> err option" where
  "go_err (Err e) = Some e"
| "go_err _ = None"

fun go_val :: "'a go \<Rightarrow> 'a option" where
  "go_val (Ok x) = Some x"
| "go_val _ = None"

fun go_panic :: "'a go \<Rightarrow> string option" where
  "go_panic (Panic p) = Some p"
| "go_panic _ = None"

text \<open>
  The workers run side by side and the caller waits for all of them.  A panic of one of them ends
  the process; when some fail the error is that of the one that stored its error last, which
  the caller only logs: here the one with the greatest height.
\<close>

definition fetchBlocks :: "hsdClient \<Rightarrow> int \<Rightarrow> int \<Rightarrow> Block list go" where
  "fetchBlocks cl start count =
     (if count < 0 then Panic ''makeslice: len out of range''
      else
        let rs = map (\<lambda>i. fetch_block cl (start + int i)) [0..<nat count] in
        case List.map_filter go_panic rs of
          p # _ \<Rightarrow> Panic p
        | [] \<Rightarrow>
            (case rev (List.map_filter go_err rs) of
               e # _ \<Rightarrow> Err (ErrWrap e ''error fetching blocks'')
             | [] \<Rightarrow> Ok (List.map_filter go_val rs)))"

fun resolve_names :: "hsdClient \<Rightarrow> int \<Rightarrow> 'pk FNRecord list \<Rightarrow> string list go" where
  "resolve_names cl height [] = Ok []"
| "resolve_names cl height (update # updates) =
     (case RPCGetNameByHash cl height (fn_NameHash update) of
        Inr (Some name) \<Rightarrow> go_bind (resolve_names cl height updates) (\<lambda>names. Ok (name # names))
      | _ \<Rightarrow> Err (ErrNew ''error resolving name hash''))"

fun set_names ::
  "'d leveldb \<Rightarrow> ('pk, 'sk) btcec \<Rightarrow> int \<Rightarrow> (string \<times> 'pk FNRecord) list \<Rightarrow> ('d \<Rightarrow> 'd \<times> unit go) \<Rightarrow> 'd \<Rightarrow> 'd \<times> unit go" where
  "set_names L ec height [] cont tx = cont tx"
| "set_names L ec height ((name, record) # rest) cont tx =
     (case tx_wrap (SetNameInfoTx L ec name (fn_PublicKey record) height tx) ''error inserting name info'' of
        (tx, Ok _) \<Rightarrow> set_names L ec height rest cont tx
      | (tx, r) \<Rightarrow> (tx, r))"

text \<open>The end of the callback of a block's transaction.\<close>

definition set_height :: "'d leveldb \<Rightarrow> int \<Rightarrow> int \<Rightarrow> 'd \<Rightarrow> 'd \<times> unit go" where
  "set_height L confirmedHeight height tx =
     (case tx_wrap (SetLastNameImportHeightTx L height tx) ''error setting last name import height'' of
        (tx, Ok _) \<Rightarrow>
          if height = confirmedHeight - 1 then
            tx_wrap (SetInitialImportCompleteTx L tx) ''error setting initial import complete''
          else (tx, Ok ())
      | (tx, r) \<Rightarrow> (tx, r))"

definition import_block ::
  "hsdClient \<Rightarrow> 'd leveldb \<Rightarrow> unpacker \<Rightarrow> ('pk, 'sk) btcec \<Rightarrow> int \<Rightarrow> int \<Rightarrow> Block \<Rightarrow> 'd \<Rightarrow> 'd \<times> unit go" where
  "import_block cl L U ec confirmedHeight height block db =
     (case go_bind (ExtractTXTRecordsBlock U ec block) (\<lambda>records.
             go_bind (resolve_names cl height records) (\<lambda>names. Ok (zip names records))) of
        Ok named \<Rightarrow> WithTx L db (set_names L ec height named (set_height L confirmedHeight height))
      | Err e \<Rightarrow> (db, Err e)
      | Panic p \<Rightarrow> (db, Panic p))"

fun import_blocks ::
  "hsdClient \<Rightarrow> 'd leveldb \<Rightarrow> unpacker \<Rightarrow> ('pk, 'sk) btcec \<Rightarrow> int \<Rightarrow> int \<Rightarrow> Block list \<Rightarrow> 'd \<Rightarrow> 'd \<times> unit go" where
  "import_blocks cl L U ec confirmedHeight height [] db = (db, Ok ())"
| "import_blocks cl L U ec confirmedHeight height (block # blocks) db =
     (case import_block cl L U ec confirmedHeight height block db of
        (db, Ok _) \<Rightarrow> import_blocks cl L U ec confirmedHeight (height + 1) blocks db
      | (db, r) \<Rightarrow> (db, r))"

text \<open>
  The loop over the blocks.  With no workers it fetches no blocks and never ends, which is the
  value \<open>None\<close>.
\<close>

partial_function (option) import_loop ::
  "NameImporter \<Rightarrow> hsdClient \<Rightarrow> 'd leveldb \<Rightarrow> unpacker \<Rightarrow> ('pk, 'sk) btcec \<Rightarrow> int \<Rightarrow> int \<Rightarrow> 'd \<Rightarrow> ('d \<times> unit go) option" where
  "import_loop n cl L U ec confirmedHeight height db =
     (if height < confirmedHeight then
        (case fetchBlocks cl height
                (if nmi_Workers n < confirmedHeight - height then nmi_Workers n else confirmedHeight - height) of
           Panic p \<Rightarrow> Some (db, Panic p)
         | Err e \<Rightarrow> Some (db, Err e)
         | Ok blocks \<Rightarrow>
             (case import_blocks cl L U ec confirmedHeight height blocks db of
                (db, Ok _) \<Rightarrow> import_loop n cl L U ec confirmedHeight (height + int (length blocks)) db
              | (db, r) \<Rightarrow> Some (db, r)))
      else Some (db, Ok ()))"

text \<open>
  One pass.  Nothing is returned but the state of the database; the outcome here tells a pass
  that was cut off (what the code logs as an error) from one that was not.
\<close>

definition doSync ::
  "NameImporter \<Rightarrow> hsdClient \<Rightarrow> 'd leveldb \<Rightarrow> unpacker \<Rightarrow> ('pk, 'sk) btcec \<Rightarrow> 'd \<Rightarrow> ('d \<times> unit go) option" where
  "doSync n cl L U ec db =
     (case RPCGetBlockchainInfo cl of
        Inl e \<Rightarrow> Some (db, Err e)
      | Inr info \<Rightarrow>
          if bi_VerificationProgress info < nmi_VerificationThreshold n then Some (db, Ok ())
          else
            let chainHeight = bi_Blocks info in
            if chainHeight < 0 then Some (db, Err (ErrNew ''chain height is negative''))
            else if chainHeight < nmi_ConfirmationDepth n then Some (db, Ok ())
            else
              case GetLastNameImportHeight L db of
                Panic p \<Rightarrow> Some (db, Panic p)
              | Err e \<Rightarrow> Some (db, Err e)
              | Ok syncedHeight \<Rightarrow>
                  let confirmedHeight = chainHeight - nmi_ConfirmationDepth n in
                  if confirmedHeight = syncedHeight then Some (db, Ok ())
                  else if confirmedHeight < syncedHeight then Some (db, Ok ())
                  else import_loop n cl L U ec confirmedHeight (syncedHeight + 1) db)"

section \<open>The import as a fold over the blocks\<close>

text \<open>What a block's transaction writes: the names in the order of the records, then the height.\<close>

type_synonym dbview = "bytes \<rightharpoonup> dbval"

definition name_val :: "('pk, 'sk) btcec \<Rightarrow> string \<Rightarrow> 'pk \<Rightarrow> int \<Rightarrow> dbval" where
  "name_val ec name key height =
     VJson (doc_clean (NameInfo_MarshalJSON ec \<lparr>ni_Name = name, ni_PublicKey = key, ni_ImportHeight = height\<rparr>))"

fun put_names :: "('pk, 'sk) btcec \<Rightarrow> int \<Rightarrow> (string \<times> 'pk FNRecord) list \<Rightarrow> dbview \<Rightarrow> dbview" where
  "put_names ec h [] m = m"
| "put_names ec h ((name, r) # named) m =
     put_names ec h named (m(nameDataPrefix [name] \<mapsto> name_val ec name (fn_PublicKey r) h))"

definition block_view :: "('pk, 'sk) btcec \<Rightarrow> int \<Rightarrow> (string \<times> 'pk FNRecord) list \<Rightarrow> dbview \<Rightarrow> dbview" where
  "block_view ec h named m = (put_names ec h named m)(lastNameImportHeightKey \<mapsto> VBytes (mustEncodeInt h))"

definition complete :: "dbview \<Rightarrow> dbview" where
  "complete m = m(initialImportCompleteKey \<mapsto> VBytes [1])"

text \<open>The blocks at the heights \<open>s + 1\<close> to \<open>s + n\<close>, given their named records.\<close>

fun import_view :: "('pk, 'sk) btcec \<Rightarrow> (int \<Rightarrow> (string \<times> 'pk FNRecord) list) \<Rightarrow> int \<Rightarrow> nat \<Rightarrow> dbview \<Rightarrow> dbview" where
  "import_view ec nrs s 0 m = m"
| "import_view ec nrs s (Suc n) m =
     block_view ec (s + int n + 1) (nrs (s + int n + 1)) (import_view ec nrs s n m)"

lemma import_view_add:
  "import_view ec nrs s (a + b) m = import_view ec nrs (s + int a) b (import_view ec nrs s a m)"
  by (induction b) (simp_all add: add.assoc)

lemma import_keys [simp]:
  "nameDataPrefix [a] \<noteq> lastNameImportHeightKey" "nameDataPrefix [a] \<noteq> initialImportCompleteKey"
  "lastNameImportHeightKey \<noteq> nameDataPrefix [a]" "initialImportCompleteKey \<noteq> nameDataPrefix [a]"
  "lastNameImportHeightKey \<noteq> initialImportCompleteKey" "initialImportCompleteKey \<noteq> lastNameImportHeightKey"
  by (simp_all add: key_defs Prefixer_def)

lemma name_key_inject [simp]: "nameDataPrefix [a] = nameDataPrefix [b] \<longleftrightarrow> a = b"
  by (simp add: nameDataPrefix_def)

lemma complete_upd: "k \<noteq> initialImportCompleteKey \<Longrightarrow> (complete m)(k \<mapsto> x) = complete (m(k \<mapsto> x))"
  unfolding complete_def by (rule fun_upd_twist) simp

lemma put_names_complete: "put_names ec h named (complete m) = complete (put_names ec h named m)"
  by (induction ec h named m rule: put_names.induct) (simp_all add: complete_upd del: fun_upd_apply)

lemma import_view_complete: "import_view ec nrs s n (complete m) = complete (import_view ec nrs s n m)"
  by (induction n) (simp_all add: block_view_def put_names_complete complete_upd del: fun_upd_apply)

lemma put_names_other:
  "(\<And>a. k \<noteq> nameDataPrefix [a]) \<Longrightarrow> put_names ec h named m k = m k"
  by (induction ec h named m rule: put_names.induct) simp_all

lemma import_view_height:
  "import_view ec nrs s n m lastNameImportHeightKey =
     (if n = 0 then m lastNameImportHeightKey else Some (VBytes (mustEncodeInt (s + int n))))"
  by (cases n) (simp_all add: block_view_def ac_simps)

subsection \<open>One block\<close>

lemma SetNameInfoTx_fine:
  assumes "leveldb_fine L v"
  obtains tx' where "SetNameInfoTx L ec name key h tx = (tx', Ok ())"
    "v tx' = (v tx)(nameDataPrefix [name] \<mapsto> name_val ec name key h)"
proof -
  obtain tx' where "ldb_Put L tx (nameDataPrefix [name]) (name_val ec name key h) = (tx', None)"
    "v tx' = (v tx)(nameDataPrefix [name] \<mapsto> name_val ec name key h)" by (rule fine_put [OF assms])
  then show ?thesis
    by (intro that [of tx']) (simp_all add: SetNameInfoTx_def tx_put_json_def mustMarshalJSON_Ok tx_do_def
        flip: name_val_def)
qed

lemma set_names_fine:
  assumes "leveldb_fine L v"
  shows "\<exists>tx'. set_names L ec h named cont tx = cont tx' \<and> v tx' = put_names ec h named (v tx)"
proof (induction named arbitrary: tx)
  case Nil
  then show ?case by auto
next
  case (Cons nr named)
  obtain name r where nr: "nr = (name, r)" by fastforce
  obtain tx1 where s: "SetNameInfoTx L ec name (fn_PublicKey r) h tx = (tx1, Ok ())"
    "v tx1 = (v tx)(nameDataPrefix [name] \<mapsto> name_val ec name (fn_PublicKey r) h)"
    by (rule SetNameInfoTx_fine [OF assms])
  from Cons [of tx1] show ?case unfolding s(2) by (simp add: nr s(1) tx_wrap_def del: fun_upd_apply)
qed

lemma set_height_fine:
  assumes "leveldb_fine L v"
  shows "\<exists>tx'. set_height L c h tx = (tx', Ok ()) \<and>
    v tx' = (let m = (v tx)(lastNameImportHeightKey \<mapsto> VBytes (mustEncodeInt h)) in if h = c - 1 then complete m else m)"
proof -
  obtain tx1 where 1: "ldb_Put L tx lastNameImportHeightKey (VBytes (mustEncodeInt h)) = (tx1, None)"
    "v tx1 = (v tx)(lastNameImportHeightKey \<mapsto> VBytes (mustEncodeInt h))" by (rule fine_put [OF assms])
  obtain tx2 where 2: "ldb_Put L tx1 initialImportCompleteKey (VBytes [1]) = (tx2, None)"
    "v tx2 = (v tx1)(initialImportCompleteKey \<mapsto> VBytes [1])" by (rule fine_put [OF assms])
  from 1 2 show ?thesis
    by (simp add: set_height_def SetLastNameImportHeightTx_def SetInitialImportCompleteTx_def tx_do_def tx_wrap_def
        complete_def)
qed

lemma import_block_fine:
  assumes fine: "leveldb_fine L v"
    and named: "go_bind (ExtractTXTRecordsBlock U ec block) (\<lambda>records.
      go_bind (resolve_names cl h records) (\<lambda>names. Ok (zip names records))) = Ok named"
  shows "\<exists>db'. import_block cl L U ec c h block db = (db', Ok ()) \<and>
    v db' = (let m = block_view ec h named (v db) in if h = c - 1 then complete m else m)"
proof -
  let ?cb = "set_names L ec h named (set_height L c h)"
  obtain tx where tx: "v tx = v db" "\<not> is_panic (snd (?cb tx)) \<longrightarrow>
      v (fst (WithTx L db ?cb)) = v (fst (?cb tx)) \<and> snd (WithTx L db ?cb) = snd (?cb tx)"
    using WithTx_fine [OF fine, of db ?cb] by blast
  obtain tx1 where 1: "?cb tx = set_height L c h tx1" "v tx1 = put_names ec h named (v tx)"
    using set_names_fine [OF fine] by blast
  obtain tx2 where 2: "set_height L c h tx1 = (tx2, Ok ())"
    "v tx2 = (let m = (v tx1)(lastNameImportHeightKey \<mapsto> VBytes (mustEncodeInt h)) in if h = c - 1 then complete m else m)"
    using set_height_fine [OF fine] by blast
  from tx(2) have "v (fst (WithTx L db ?cb)) = v tx2" "snd (WithTx L db ?cb) = Ok ()"
    unfolding 1(1) 2(1) by simp_all
  with 1(2) 2(2) tx(1) show ?thesis
    by (cases "WithTx L db ?cb") (simp add: import_block_def named block_view_def)
qed

subsection \<open>A client of a chain\<close>

text \<open>
  A chain gives the block at each height, the records in it and the name behind a hash.  A client
  agrees with it when every answer it gives is right, and serves it when it gives all of them.
\<close>

record 'pk hnsChain =
  ch_block :: "int \<Rightarrow> Block"
  ch_records :: "int \<Rightarrow> 'pk FNRecord list"
  ch_name :: "string \<Rightarrow> string"

definition chain_ok :: "unpacker \<Rightarrow> ('pk, 'sk) btcec \<Rightarrow> 'pk hnsChain \<Rightarrow> bool" where
  "chain_ok U ec ch \<longleftrightarrow>
     (\<forall>h. Block_ok (ch_block ch h) \<and> ExtractTXTRecordsBlock U ec (ch_block ch h) = Ok (ch_records ch h))"

definition agrees :: "hsdClient \<Rightarrow> 'pk hnsChain \<Rightarrow> bool" where
  "agrees cl ch \<longleftrightarrow>
     (\<forall>h s. RPCGetBlockHexByHeight cl h = Inr s \<longrightarrow> s = hex_EncodeToString (Block_Encode (ch_block ch h))) \<and>
     (\<forall>h k x. RPCGetNameByHash cl h k = Inr (Some x) \<longrightarrow> x = ch_name ch k)"

definition serves :: "hsdClient \<Rightarrow> 'pk hnsChain \<Rightarrow> bool" where
  "serves cl ch \<longleftrightarrow>
     (\<forall>h. RPCGetBlockHexByHeight cl h = Inr (hex_EncodeToString (Block_Encode (ch_block ch h)))) \<and>
     (\<forall>h k. RPCGetNameByHash cl h k = Inr (Some (ch_name ch k)))"

definition ch_named :: "'pk hnsChain \<Rightarrow> int \<Rightarrow> (string \<times> 'pk FNRecord) list" where
  "ch_named ch h = map (\<lambda>r. (ch_name ch (fn_NameHash r), r)) (ch_records ch h)"

lemma serves_agrees: "serves cl ch \<Longrightarrow> agrees cl ch"
  by (simp add: serves_def agrees_def)

lemma fetch_block_right:
  assumes "Block_ok (ch_block ch h)"
    and "RPCGetBlockHexByHeight cl h = Inr (hex_EncodeToString (Block_Encode (ch_block ch h)))"
  shows "fetch_block cl h = Ok (ch_block ch h)"
  using block_codec.roundtrip [OF assms(1), of "[]"] by (simp add: fetch_block_def assms(2) go_simps)

lemma fetch_block_agrees:
  assumes "chain_ok U ec ch" "agrees cl ch"
  shows "fetch_block cl h = Ok (ch_block ch h) \<or> (\<exists>e. fetch_block cl h = Err e)"
proof (cases "RPCGetBlockHexByHeight cl h")
  case (Inl e)
  then show ?thesis by (simp add: fetch_block_def)
next
  case (Inr s)
  with assms show ?thesis by (metis fetch_block_right agrees_def chain_ok_def)
qed

lemma fetchBlocks_agrees:
  assumes "chain_ok U ec ch" "agrees cl ch" "0 \<le> count"
  shows "fetchBlocks cl start count = Ok (map (\<lambda>i. ch_block ch (start + int i)) [0..<nat count]) \<or>
    (\<exists>e. fetchBlocks cl start count = Err e)"
proof -
  let ?rs = "map (\<lambda>i. fetch_block cl (start + int i)) [0..<nat count]"
  have f: "fetch_block cl h = Ok (ch_block ch h) \<or> (\<exists>e. fetch_block cl h = Err e)" for h
    by (rule fetch_block_agrees [OF assms(1,2)])
  have p: "List.map_filter go_panic ?rs = []"
    using f by (auto simp: List.map_filter_def filter_empty_conv) (metis go_panic.simps(2,3))
  show ?thesis
  proof (cases "rev (List.map_filter go_err ?rs)")
    case Nil
    then have "\<forall>i \<in> {0..<nat count}. go_err (fetch_block cl (start + int i)) = None"
      by (simp add: List.map_filter_def filter_empty_conv)
    then have "fetch_block cl (start + int i) = Ok (ch_block ch (start + int i))" if "i < nat count" for i
      using f [of "start + int i"] that by force
    then have "?rs = map (\<lambda>i. Ok (ch_block ch (start + int i))) [0..<nat count]" by simp
    then have "List.map_filter go_val ?rs = map (\<lambda>i. ch_block ch (start + int i)) [0..<nat count]"
      by (simp add: List.map_filter_def comp_def)
    with p Nil assms(3) show ?thesis by (simp add: fetchBlocks_def Let_def)
  next
    case (Cons e es)
    with p assms(3) show ?thesis by (simp add: fetchBlocks_def Let_def)
  qed
qed

lemma fetchBlocks_serves:
  assumes "chain_ok U ec ch" "serves cl ch" "0 \<le> count"
  shows "fetchBlocks cl start count = Ok (map (\<lambda>i. ch_block ch (start + int i)) [0..<nat count])"
proof -
  have f: "fetch_block cl h = Ok (ch_block ch h)" for h
    using assms(1,2) by (intro fetch_block_right) (auto simp: chain_ok_def serves_def)
  show ?thesis using assms(3) by (simp add: fetchBlocks_def f List.map_filter_def comp_def)
qed

lemma resolve_names_agrees:
  assumes "agrees cl ch"
  shows "resolve_names cl h rs = Ok (map (ch_name ch \<circ> fn_NameHash) rs) \<or> (\<exists>e. resolve_names cl h rs = Err e)"
  using assms
  by (induction rs) (auto simp: agrees_def split: sum.splits option.splits)

lemma resolve_names_serves:
  assumes "serves cl ch"
  shows "resolve_names cl h rs = Ok (map (ch_name ch \<circ> fn_NameHash) rs)"
  using assms by (induction rs) (auto simp: serves_def)

lemma import_block_agrees:
  assumes fine: "leveldb_fine L v" and ok: "chain_ok U ec ch" "agrees cl ch"
  shows "(\<exists>db'. import_block cl L U ec c h (ch_block ch h) db = (db', Ok ()) \<and>
      v db' = (let m = block_view ec h (ch_named ch h) (v db) in if h = c - 1 then complete m else m)) \<or>
    (\<not> serves cl ch \<and> (\<exists>e. import_block cl L U ec c h (ch_block ch h) db = (db, Err e)))"
proof -
  have x: "ExtractTXTRecordsBlock U ec (ch_block ch h) = Ok (ch_records ch h)" using ok(1) by (simp add: chain_ok_def)
  have z: "zip (map (ch_name ch \<circ> fn_NameHash) rs) rs = map (\<lambda>r. (ch_name ch (fn_NameHash r), r)) rs" for rs
    by (induction rs) auto
  consider "resolve_names cl h (ch_records ch h) = Ok (map (ch_name ch \<circ> fn_NameHash) (ch_records ch h))"
    | e where "resolve_names cl h (ch_records ch h) = Err e" "\<not> serves cl ch"
    using resolve_names_agrees [OF ok(2), of h "ch_records ch h"] resolve_names_serves by fastforce
  then show ?thesis
  proof cases
    case 1
    then show ?thesis using import_block_fine [OF fine, of U ec "ch_block ch h" cl h "ch_named ch h" c db]
      by (simp add: x z ch_named_def)
  next
    case 2
    then show ?thesis by (simp add: import_block_def x)
  qed
qed

subsection \<open>A pass\<close>

text \<open>
  The blocks of one batch, from a database that holds the import of the first \<open>k\<close> blocks after
  \<open>s\<close>: afterwards it holds that of some more, of the whole batch when the client failed nowhere.
\<close>

definition imported :: "('pk, 'sk) btcec \<Rightarrow> 'pk hnsChain \<Rightarrow> int \<Rightarrow> int \<Rightarrow> nat \<Rightarrow> nat \<Rightarrow> dbview \<Rightarrow> dbview" where
  "imported ec ch c s k j m =
     (let m' = import_view ec (ch_named ch) s j m in if k < j \<and> s + int j = c - 1 then complete m' else m')"

lemma import_blocks_prefix:
  assumes "leveldb_fine L v" "chain_ok U ec ch" "agrees cl ch"
    and "v db = import_view ec (ch_named ch) s k m" "s + int (k + n) \<le> c - 1"
  shows "\<exists>db' r j. import_blocks cl L U ec c (s + int k + 1) (map (\<lambda>i. ch_block ch (s + int k + 1 + int i)) [0..<n]) db = (db', r) \<and>
    j \<le> n \<and> v db' = imported ec ch c s k (k + j) m \<and> (r = Ok () \<and> j = n \<or> (\<exists>e. r = Err e) \<and> \<not> serves cl ch)"
  using assms(4,5)
proof (induction n arbitrary: k db)
  case 0
  then show ?case by (simp add: imported_def)
next
  case (Suc n)
  let ?h = "s + int k + 1"
  have blocks: "map (\<lambda>i. ch_block ch (?h + int i)) [0..<Suc n] =
      ch_block ch ?h # map (\<lambda>i. ch_block ch (s + int (Suc k) + 1 + int i)) [0..<n]"
    by (simp add: map_upt_Suc ac_simps del: upt_Suc)
  consider db1 where "import_block cl L U ec c ?h (ch_block ch ?h) db = (db1, Ok ())"
      "v db1 = (let m = block_view ec ?h (ch_named ch ?h) (v db) in if ?h = c - 1 then complete m else m)"
    | e where "import_block cl L U ec c ?h (ch_block ch ?h) db = (db, Err e)" "\<not> serves cl ch"
    using import_block_agrees [OF assms(1-3)] by blast
  then show ?case
  proof cases
    case 1
    show ?thesis
    proof (cases n)
      case 0
      with 1 Suc.prems show ?thesis
        by (intro exI [of _ db1] exI [of _ "Ok ()"] exI [of _ 1]) (simp add: imported_def algebra_simps)
    next
      case (Suc n')
      with 1(2) Suc.prems have "v db1 = import_view ec (ch_named ch) s (Suc k) m" by simp
      from Suc.IH [OF this] Suc.prems(2) obtain db' r j where r:
        "import_blocks cl L U ec c (s + int (Suc k) + 1) (map (\<lambda>i. ch_block ch (s + int (Suc k) + 1 + int i)) [0..<n]) db1 = (db', r)"
        "j \<le> n" "v db' = imported ec ch c s (Suc k) (Suc k + j) m" "r = Ok () \<and> j = n \<or> (\<exists>e. r = Err e) \<and> \<not> serves cl ch"
        by (auto simp: algebra_simps)
      have "imported ec ch c s (Suc k) (Suc k + j) m = imported ec ch c s k (k + Suc j) m"
        using Suc.prems(2) \<open>n = Suc n'\<close> by (cases j) (simp_all add: imported_def)
      with r 1(1) blocks show ?thesis
        by (intro exI [of _ db'] exI [of _ r] exI [of _ "Suc j"]) (simp add: ac_simps)
    qed
  next
    case 2
    then show ?thesis
      using Suc.prems blocks by (intro exI [of _ db] exI [of _ "Err e"] exI [of _ 0]) (simp add: imported_def)
  qed
qed

lemma import_loop_prefix:
  assumes base: "leveldb_fine L v" "chain_ok U ec ch" "agrees cl ch" and w: "0 < nmi_Workers n"
    and "v db = import_view ec (ch_named ch) s k m" "s + int k \<le> c - 1"
  shows "\<exists>db' r j. import_loop n cl L U ec c (s + int k + 1) db = Some (db', r) \<and> k \<le> j \<and> s + int j \<le> c - 1 \<and>
    v db' = imported ec ch c s k j m \<and> (r = Ok () \<and> s + int j = c - 1 \<or> (\<exists>e. r = Err e) \<and> \<not> serves cl ch)"
  using assms(5,6)
proof (induction "nat (c - 1 - (s + int k))" arbitrary: k db rule: less_induct)
  case less
  let ?h = "s + int k + 1"
  show ?case
  proof (cases "?h < c")
    case False
    with less.prems show ?thesis
      by (intro exI [of _ db] exI [of _ "Ok ()"] exI [of _ k]) (simp add: import_loop.simps imported_def)
  next
    case True
    define d where "d = (if nmi_Workers n < c - ?h then nmi_Workers n else c - ?h)"
    have d: "0 < d" "s + int (k + nat d) \<le> c - 1" using True w by (auto simp: d_def)
    consider "fetchBlocks cl ?h d = Ok (map (\<lambda>i. ch_block ch (?h + int i)) [0..<nat d])"
      | e where "fetchBlocks cl ?h d = Err e" "\<not> serves cl ch"
      using fetchBlocks_agrees [OF base(2,3), of d ?h] fetchBlocks_serves [OF base(2), of cl d ?h] d(1) by fastforce
    then show ?thesis
    proof cases
      case 2
      with True less.prems show ?thesis
        by (intro exI [of _ db] exI [of _ "Err e"] exI [of _ k])
          (simp add: import_loop.simps imported_def flip: d_def)
    next
      case 1
      obtain db1 r j where j: "import_blocks cl L U ec c ?h (map (\<lambda>i. ch_block ch (?h + int i)) [0..<nat d]) db = (db1, r)"
        "j \<le> nat d" "v db1 = imported ec ch c s k (k + j) m" "r = Ok () \<and> j = nat d \<or> (\<exists>e. r = Err e) \<and> \<not> serves cl ch"
        using import_blocks_prefix [OF base less.prems(1) d(2)] by blast
      have step: "import_loop n cl L U ec c ?h db =
          (case r of Ok x \<Rightarrow> import_loop n cl L U ec c (?h + d) db1 | r \<Rightarrow> Some (db1, r))"
        using True 1 j(1) d(1) by (subst import_loop.simps) (simp flip: d_def split: go.splits)
      show ?thesis
      proof (cases "r = Ok ()")
        case False
        with j step d show ?thesis
          by (intro exI [of _ db1] exI [of _ r] exI [of _ "k + j"]) auto
      next
        case ok: True
        with j have jd: "j = nat d" by auto
        show ?thesis
        proof (cases "s + int (k + nat d) = c - 1")
          case True
          then have "import_loop n cl L U ec c (?h + d) db1 = Some (db1, Ok ())"
            using d(1) by (subst import_loop.simps) simp
          with ok j jd step True d show ?thesis
            by (intro exI [of _ db1] exI [of _ r] exI [of _ "k + j"]) auto
        next
          case False
          with j(3) jd have v1: "v db1 = import_view ec (ch_named ch) s (k + nat d) m" by (simp add: imported_def)
          have "nat (c - 1 - (s + int (k + nat d))) < nat (c - 1 - (s + int k))" using d by simp
          from less.hyps [OF this v1 d(2)] False obtain db' r' j' where IH:
            "import_loop n cl L U ec c (s + int (k + nat d) + 1) db1 = Some (db', r')" "k + nat d \<le> j'" "s + int j' \<le> c - 1"
            "v db' = imported ec ch c s (k + nat d) j' m" "r' = Ok () \<and> s + int j' = c - 1 \<or> (\<exists>e. r' = Err e) \<and> \<not> serves cl ch"
            by blast
          have "imported ec ch c s (k + nat d) j' m = imported ec ch c s k j' m"
            using False IH(2) d(1) by (auto simp: imported_def Let_def)
          moreover have "import_loop n cl L U ec c ?h db = Some (db', r')"
            using step ok IH(1) d(1) by (simp add: ac_simps)
          ultimately show ?thesis using IH(2-5)
            by (intro exI [of _ db'] exI [of _ r'] exI [of _ j']) auto
        qed
      qed
    qed
  qed
qed

text \<open>The height recorded in a database, as the getter reads it.\<close>

definition height_of :: "dbview \<Rightarrow> int go" where
  "height_of m = (case m lastNameImportHeightKey of None \<Rightarrow> Ok 0 | Some x \<Rightarrow> go_bind (val_bytes x) mustDecodeInt)"

lemma GetLastNameImportHeight_fine: "leveldb_fine L v \<Longrightarrow> GetLastNameImportHeight L db = height_of (v db)"
  by (cases "v db lastNameImportHeightKey" rule: option.exhaust [case_names None Some];
      (cases "the (v db lastNameImportHeightKey)")?)
    (auto simp: GetLastNameImportHeight_def get_bytes_def height_of_def leveldb_fineD(2))

lemma height_of_complete [simp]: "height_of (complete m) = height_of m"
  by (simp add: height_of_def complete_def)

lemma height_of_import:
  assumes "height_of m = Ok s" "0 \<le> s" "s + int n < 2 ^ 31"
  shows "height_of (import_view ec nrs s n m) = Ok (s + int n)"
  using assms by (cases "n = 0") (simp_all add: height_of_def import_view_height)

text \<open>The height up to which a client lets a pass import: the chain is synchronized and long enough.\<close>

definition can_sync :: "NameImporter \<Rightarrow> hsdClient \<Rightarrow> int \<Rightarrow> bool" where
  "can_sync n cl c \<longleftrightarrow>
     (\<exists>info. RPCGetBlockchainInfo cl = Inr info \<and> nmi_VerificationThreshold n \<le> bi_VerificationProgress info \<and>
        0 \<le> bi_Blocks info \<and> nmi_ConfirmationDepth n \<le> bi_Blocks info \<and> c = bi_Blocks info - nmi_ConfirmationDepth n)"

lemma doSync_idle:
  assumes "\<And>c. can_sync n cl c \<Longrightarrow> c \<le> s" "GetLastNameImportHeight L db = Ok s"
  shows "\<exists>r. doSync n cl L U ec db = Some (db, r) \<and> \<not> is_panic r"
proof (cases "RPCGetBlockchainInfo cl")
  case (Inl e)
  then show ?thesis by (simp add: doSync_def)
next
  case (Inr info)
  consider "bi_VerificationProgress info < nmi_VerificationThreshold n" | "bi_Blocks info < 0"
    | "bi_Blocks info < nmi_ConfirmationDepth n" | "can_sync n cl (bi_Blocks info - nmi_ConfirmationDepth n)"
    using Inr by (force simp: can_sync_def)
  then show ?thesis
  proof cases
    case 4
    with assms show ?thesis by (auto simp: doSync_def Inr Let_def dest!: assms(1))
  qed (simp_all add: doSync_def Inr Let_def)
qed

lemma doSync_prefix:
  assumes "leveldb_fine L v" "chain_ok U ec ch" "agrees cl ch" "0 < nmi_Workers n"
    and "can_sync n cl c" "GetLastNameImportHeight L db = Ok s" "s < c"
  shows "\<exists>db' r j. doSync n cl L U ec db = Some (db', r) \<and> s + int j \<le> c - 1 \<and>
    v db' = imported ec ch c s 0 j (v db) \<and> (r = Ok () \<and> s + int j = c - 1 \<or> (\<exists>e. r = Err e) \<and> \<not> serves cl ch)"
proof -
  from assms(5-7) have "doSync n cl L U ec db = import_loop n cl L U ec c (s + int 0 + 1) db"
    by (auto simp: doSync_def can_sync_def)
  with import_loop_prefix [OF assms(1-4), of db s 0 "v db" c] assms(7) show ?thesis by auto
qed

subsection \<open>Passes that are cut off\<close>

text \<open>
  Any number of passes, each with a client that may fail anywhere but gives no wrong answer and
  knows of no block from \<open>c\<close> on.
\<close>

inductive passes ::
  "NameImporter \<Rightarrow> 'd leveldb \<Rightarrow> unpacker \<Rightarrow> ('pk, 'sk) btcec \<Rightarrow> 'pk hnsChain \<Rightarrow> int \<Rightarrow> 'd \<Rightarrow> 'd \<Rightarrow> bool"
  for n L U ec ch c where
  passes_none: "passes n L U ec ch c db db"
| passes_pass: "passes n L U ec ch c db db1 \<Longrightarrow> agrees cl ch \<Longrightarrow> (\<And>c1. can_sync n cl c1 \<Longrightarrow> c1 \<le> c) \<Longrightarrow>
    doSync n cl L U ec db1 = Some (db2, r) \<Longrightarrow> passes n L U ec ch c db db2"

definition partly_imported :: "('pk, 'sk) btcec \<Rightarrow> 'pk hnsChain \<Rightarrow> int \<Rightarrow> int \<Rightarrow> nat \<Rightarrow> dbview \<Rightarrow> dbview \<Rightarrow> bool" where
  "partly_imported ec ch c s j m w \<longleftrightarrow>
     s + int j \<le> c - 1 \<and>
     (w = import_view ec (ch_named ch) s j m \<and> s + int j < c - 1 \<or> w = complete (import_view ec (ch_named ch) s j m))"

lemma complete_complete [simp]: "complete (complete m) = complete m"
  by (simp add: complete_def)

lemma partly_imported_height:
  assumes "partly_imported ec ch c s j m w" "height_of m = Ok s" "0 \<le> s" "c \<le> 2 ^ 31"
  shows "height_of w = Ok (s + int j)"
proof -
  from assms have "s + int j < 2 ^ 31" by (simp add: partly_imported_def)
  with assms show ?thesis by (auto simp: partly_imported_def height_of_import)
qed

lemma partly_imported_pass:
  assumes "partly_imported ec ch c s j m w" "c1 \<le> c" "s + int j + int i \<le> c1 - 1"
  shows "partly_imported ec ch c s (j + i) m (imported ec ch c1 (s + int j) 0 i w)"
proof (cases "i = 0")
  case True
  with assms(1) show ?thesis by (simp add: imported_def)
next
  case False
  have "import_view ec (ch_named ch) (s + int j) i w = import_view ec (ch_named ch) s (j + i) m \<or>
      import_view ec (ch_named ch) (s + int j) i w = complete (import_view ec (ch_named ch) s (j + i) m)"
    using assms(1) by (auto simp: partly_imported_def import_view_add import_view_complete)
  with False assms(2,3) show ?thesis by (auto simp: partly_imported_def imported_def Let_def)
qed

lemma passes_partly:
  assumes run: "passes n L U ec ch c db db1"
    and base: "leveldb_fine L v" "chain_ok U ec ch" "0 < nmi_Workers n"
    and start: "GetLastNameImportHeight L db = Ok s" "0 \<le> s" "s < c - 1" "c \<le> 2 ^ 31"
  shows "\<exists>j. partly_imported ec ch c s j (v db) (v db1)"
  using run start
proof (induction rule: passes.induct)
  case (passes_none db)
  then show ?case by (intro exI [of _ 0]) (simp add: partly_imported_def)
next
  case (passes_pass db db1 cl db2 r)
  from passes_pass.IH passes_pass.prems obtain j where j: "partly_imported ec ch c s j (v db) (v db1)" by blast
  have h: "GetLastNameImportHeight L db1 = Ok (s + int j)"
    using partly_imported_height [OF j] passes_pass.prems by (simp add: GetLastNameImportHeight_fine [OF base(1)])
  show ?case
  proof (cases "\<exists>c1. can_sync n cl c1 \<and> s + int j < c1")
    case True
    then obtain c1 where c1: "can_sync n cl c1" "s + int j < c1" by blast
    obtain i where i: "s + int j + int i \<le> c1 - 1" "v db2 = imported ec ch c1 (s + int j) 0 i (v db1)"
      using doSync_prefix [OF base(1,2) passes_pass.hyps(2) base(3) c1(1) h c1(2)] passes_pass.hyps(4) by auto
    show ?thesis using partly_imported_pass [OF j passes_pass.hyps(3) [OF c1(1)] i(1)] i(2) by auto
  next
    case False
    then obtain r' where "doSync n cl L U ec db1 = Some (db1, r')"
      using doSync_idle [OF _ h, of n cl U ec] by (meson not_less)
    with passes_pass.hyps(4) j show ?thesis by auto
  qed
qed

lemma last_pass:
  assumes base: "leveldb_fine L v" "chain_ok U ec ch" "0 < nmi_Workers n"
    and cl: "serves cl ch" "can_sync n cl c"
    and m: "height_of m = Ok s" "0 \<le> s" "s < c - 1" "c \<le> 2 ^ 31" and part: "partly_imported ec ch c s j m (v db)"
  shows "\<exists>db'. doSync n cl L U ec db = Some (db', Ok ()) \<and>
    v db' = complete (import_view ec (ch_named ch) s (nat (c - 1 - s)) m)"
proof -
  have h: "GetLastNameImportHeight L db = Ok (s + int j)"
    using partly_imported_height [OF part m(1,2,4)] by (simp add: GetLastNameImportHeight_fine [OF base(1)])
  have less: "s + int j < c" using part by (simp add: partly_imported_def)
  obtain db' i where d: "doSync n cl L U ec db = Some (db', Ok ())" "s + int j + int i = c - 1"
    "v db' = imported ec ch c (s + int j) 0 i (v db)"
    using doSync_prefix [OF base(1,2) serves_agrees [OF cl(1)] base(3) cl(2) h less] cl(1) by auto
  have "partly_imported ec ch c s (j + i) m (v db')"
    using partly_imported_pass [OF part order_refl, of i] d(2,3) by simp
  moreover have "nat (c - 1 - s) = j + i" using d(2) m(2,3) by linarith
  ultimately show ?thesis using d by (auto simp: partly_imported_def)
qed

section \<open>What the store holds afterwards\<close>

text \<open>The last record of a name among the blocks \<open>s + 1\<close> to \<open>s + n\<close>, with its height.\<close>

fun latest :: "'pk hnsChain \<Rightarrow> int \<Rightarrow> nat \<Rightarrow> string \<Rightarrow> ('pk \<times> int) option" where
  "latest ch s 0 name = None"
| "latest ch s (Suc n) name =
     (case map_of (rev (ch_named ch (s + int n + 1))) name of
        Some r \<Rightarrow> Some (fn_PublicKey r, s + int n + 1)
      | None \<Rightarrow> latest ch s n name)"

lemma put_names_at:
  "put_names ec h named m (nameDataPrefix [name]) =
     (case map_of (rev named) name of Some r \<Rightarrow> Some (name_val ec name (fn_PublicKey r) h) | None \<Rightarrow> m (nameDataPrefix [name]))"
proof (induction named arbitrary: m)
  case (Cons nr named)
  then show ?case by (cases nr) (auto simp: map_add_def split: option.splits)
qed simp

lemma import_view_name:
  "import_view ec (ch_named ch) s n m (nameDataPrefix [name]) =
     (case latest ch s n name of Some (key, h) \<Rightarrow> Some (name_val ec name key h) | None \<Rightarrow> m (nameDataPrefix [name]))"
  by (induction n) (simp_all add: block_view_def put_names_at split: option.splits)

lemma latest_height: "latest ch s n name = Some (key, h) \<Longrightarrow> s < h \<and> h \<le> s + int n"
  by (induction n) (auto split: option.splits)

lemma latest_name: "latest ch s n name = Some kh \<Longrightarrow> \<exists>hash. name = ch_name ch hash"
  by (induction n) (auto simp: ch_named_def dest!: map_of_SomeD split: option.splits)

lemma GetNameInfo_fine:
  assumes "leveldb_fine L v"
  shows "v db' (nameDataPrefix [name]) = v db (nameDataPrefix [name]) \<Longrightarrow> GetNameInfo L ec db' name = GetNameInfo L ec db name"
    and "btcec_laws ec \<Longrightarrow> name_valid name \<Longrightarrow> - (2 ^ 63) \<le> h \<Longrightarrow> h < 2 ^ 63 \<Longrightarrow>
      v db (nameDataPrefix [name]) = Some (name_val ec name key h) \<Longrightarrow>
      GetNameInfo L ec db name = Ok \<lparr>ni_Name = name, ni_PublicKey = key, ni_ImportHeight = h\<rparr>"
  using NameInfo_JSON_roundtrip [of ec "\<lparr>ni_Name = name, ni_PublicKey = key, ni_ImportHeight = h\<rparr>"]
  by (simp_all add: GetNameInfo_def leveldb_fineD(2) [OF assms] name_val_def mustUnmarshalJSON_def)

lemma GetInitialImportComplete_fine:
  assumes "leveldb_fine L v" "v db = complete m"
  shows "GetInitialImportComplete L db = Ok True"
  by (simp add: GetInitialImportComplete_def leveldb_fineD(3) [OF assms(1)] assms(2) complete_def)

section \<open>From the owner's key to a record\<close>

text \<open>A resource of one text record, and an output whose update covenant carries it.\<close>

definition txt_resource :: "string \<Rightarrow> bytes" where
  "txt_resource entry = [0, 6, 1, of_nat (length entry)] @ bytes_of_string entry"

definition owner_output :: "bytes \<Rightarrow> uint32 \<Rightarrow> string \<Rightarrow> Output" where
  "owner_output nh height entry =
     \<lparr>out_Value = 0, out_Address = \<lparr>ad_Version = 0, ad_Hash = replicate 20 0\<rparr>,
      out_Covenant = \<lparr>cov_Type = CovenantUpdate, cov_Items = [nh, LE_PutUint32 height, txt_resource entry]\<rparr>\<rparr>"

lemma identity_record:
  assumes "btcec_laws ec"
  shows "ParseFNRecord ec (CHR ''f'' # identityCmd ec sk) = Ok (ec_PubKey ec sk)"
    and "length (CHR ''f'' # identityCmd ec sk) = 45"
proof -
  let ?b = "ec_SerializeCompressed ec (ec_PubKey ec sk)"
  have b: "length ?b = 3 * 11" "ec_ParsePubKey ec ?b = Inr (ec_PubKey ec sk)" using assms by (simp_all add: btcec_laws_def)
  have l: "length (base64_EncodeToString ?b) = 44" using length_base64_Encode [OF b(1)] by simp
  then show "length (CHR ''f'' # identityCmd ec sk) = 45" by (simp add: identityCmd_def SECP256k1Signer_Pub_def)
  show "ParseFNRecord ec (CHR ''f'' # identityCmd ec sk) = Ok (ec_PubKey ec sk)"
    by (simp add: ParseFNRecord_def identityCmd_def SECP256k1Signer_Pub_def l base64_roundtrip b)
qed

lemma rr_do_at:
  assumes "dec (drop off b) = Ok (x, drop off' b)" "off' \<le> length b"
  shows "rr_do dec \<lparr>rr_b = b, rr_off = off\<rparr> = Ok (x, \<lparr>rr_b = b, rr_off = off'\<rparr>)"
  using assms by (simp add: rr_do_def)

lemma Resource_Decode_txt:
  assumes "length entry < 256"
  shows "Resource_Decode U (txt_resource entry) = Ok [TXTRecord [entry]]"
proof -
  let ?b = "txt_resource entry" and ?n = "4 + length entry"
  have u: "uint (of_nat (length entry) :: byte) = int (length entry)"
    using assms by (simp add: uint_nat unat_of_nat)
  have l: "length ?b = ?n" by (simp add: txt_resource_def)
  have "rr_do ReadUint8 \<lparr>rr_b = ?b, rr_off = 0\<rparr> = Ok (0, \<lparr>rr_b = ?b, rr_off = 1\<rparr>)"
    "rr_do ReadUint8 \<lparr>rr_b = ?b, rr_off = 1\<rparr> = Ok (6, \<lparr>rr_b = ?b, rr_off = 2\<rparr>)"
    by (rule rr_do_at; simp add: txt_resource_def numeral_2_eq_2)+
  moreover have "rr_do TXTRecord_Decode \<lparr>rr_b = ?b, rr_off = 2\<rparr> = Ok (TXTRecord [entry], \<lparr>rr_b = ?b, rr_off = ?n\<rparr>)"
    using assms by (intro rr_do_at)
      (simp_all add: txt_resource_def TXTRecord_Decode_def TXTEntry_Decode_def ReadString_def ReadBytes_def
        maxAlloc_def u io_ReadFull_def numeral_2_eq_2 go_simps)
  moreover have "rr_do ReadUint8 \<lparr>rr_b = ?b, rr_off = ?n\<rparr> = Err io_EOF"
    by (simp add: rr_do_def l ReadUint8_def io_ReadFull_def)
  moreover have "Record_Decode U 6 rr = rr_do TXTRecord_Decode rr" for rr by (simp add: Record_Decode_def)
  moreover have "length ?b = Suc (Suc (2 + length entry))" using l by simp
  ultimately show ?thesis by (simp add: Resource_Decode_def NewResourceReader_def)
qed

lemma output_record_owner:
  assumes "btcec_laws ec"
  shows "output_record U ec (owner_output nh height (CHR ''f'' # identityCmd ec sk)) =
    Ok [\<lparr>fn_NameHash = hex_EncodeToString nh, fn_PublicKey = ec_PubKey ec sk\<rparr>]"
proof -
  let ?e = "CHR ''f'' # identityCmd ec sk"
  note e = identity_record [OF assms, of sk]
  have r: "Resource_Decode U (txt_resource ?e) = Ok [TXTRecord [?e]]" using e(2) by (intro Resource_Decode_txt) simp
  have l: "length (txt_resource ?e) = 49" using e(2) by (simp add: txt_resource_def)
  show ?thesis
    using r l e(1)
    by (simp add: output_record_def output_covenant_def owner_output_def UpdateFromCovenant_def cov_resource_def
        cov_item_def cov_uint32_def MaxResourceSize_def)
qed

lemma ExtractTXTRecordsBlock_empty: "bk_Transactions b = [] \<Longrightarrow> ExtractTXTRecordsBlock U ec b = Ok []"
  by (simp add: ExtractTXTRecordsBlock_def)

lemma ExtractTXTRecordsBlock_single:
  assumes "bk_Transactions b = [t]" "tx_Outputs t = [x]" "output_record U ec x = Ok [r]"
  shows "ExtractTXTRecordsBlock U ec b = Ok [r]"
  using assms by (simp add: ExtractTXTRecordsBlock_def ExtractTXTRecordsTx_def uniq_add_def)

text \<open>
  The records of a block: of all the records of its outputs, in their order, each name hash has
  its last one.
\<close>

definition last_record :: "'pk FNRecord list \<Rightarrow> string \<rightharpoonup> 'pk FNRecord" where
  "last_record rs = map_of (rev (map (\<lambda>r. (fn_NameHash r, r)) rs))"

lemma last_record_append: "last_record (xs @ ys) = last_record xs ++ last_record ys"
  by (simp add: last_record_def)

lemma fold_uniq_add:
  "distinct ord \<Longrightarrow> set ord = dom m \<Longrightarrow>
    (case fold uniq_add rs (m, ord) of (m', ord') \<Rightarrow> distinct ord' \<and> set ord' = dom m' \<and> m' = m ++ last_record rs)"
proof (induction rs arbitrary: m ord)
  case Nil
  then show ?case by (simp add: last_record_def)
next
  case (Cons r rs)
  define m1 ord1 where "m1 = m(fn_NameHash r \<mapsto> r)"
    and "ord1 = (if m (fn_NameHash r) = None then ord @ [fn_NameHash r] else ord)"
  have "distinct ord1" "set ord1 = dom m1" using Cons.prems by (auto simp: m1_def ord1_def)
  from Cons.IH [OF this] have "case fold uniq_add rs (m1, ord1) of (m', ord') \<Rightarrow>
      distinct ord' \<and> set ord' = dom m' \<and> m' = m1 ++ last_record rs" .
  moreover have "m1 ++ last_record rs = m ++ last_record (r # rs)"
    by (simp add: m1_def last_record_def)
  moreover have "uniq_add r (m, ord) = (m1, ord1)" by (simp add: uniq_add_def m1_def ord1_def)
  ultimately show ?case by simp
qed

lemma outputs_records_append:
  "outputs_records U ec (xs @ ys) =
     go_bind (outputs_records U ec xs) (\<lambda>a. go_bind (outputs_records U ec ys) (\<lambda>b. Ok (a @ b)))"
proof (induction xs)
  case Nil
  then show ?case by (cases "outputs_records U ec ys") simp_all
next
  case (Cons x xs)
  then show ?case
    by (cases "output_record U ec x"; cases "outputs_records U ec xs"; cases "outputs_records U ec ys") simp_all
qed

lemma txs_records_all:
  assumes "txs_records U ec txs (m, ord) = Ok (m', ord')" "distinct ord" "set ord = dom m"
  shows "\<exists>all. outputs_records U ec (concat (map tx_Outputs txs)) = Ok all \<and> distinct ord' \<and> set ord' = dom m' \<and>
    m' = m ++ last_record all"
  using assms
proof (induction txs arbitrary: m ord)
  case Nil
  then show ?case by (simp add: last_record_def)
next
  case (Cons tx txs)
  then obtain rs where rs: "outputs_records U ec (tx_Outputs tx) = Ok rs"
    "txs_records U ec txs (fold uniq_add rs (m, ord)) = Ok (m', ord')"
    by (auto simp: go_bind_eq_Ok ExtractTXTRecordsTx_def)
  obtain m1 ord1 where f: "fold uniq_add rs (m, ord) = (m1, ord1)" by fastforce
  then have "distinct ord1" "set ord1 = dom m1" "m1 = m ++ last_record rs"
    using fold_uniq_add [OF Cons.prems(2,3), of rs] by auto
  with Cons.IH [of m1 ord1] rs f show ?case
    by (auto simp: outputs_records_append last_record_append)
qed

lemma ExtractTXTRecordsBlock_last:
  assumes "ExtractTXTRecordsBlock U ec b = Ok rs"
  shows "\<exists>all. outputs_records U ec (concat (map tx_Outputs (bk_Transactions b))) = Ok all \<and>
    distinct (map fn_NameHash rs) \<and> (\<forall>h. map_of (map (\<lambda>r. (fn_NameHash r, r)) rs) h = last_record all h)"
proof -
  obtain m ord where t: "txs_records U ec (bk_Transactions b) (Map.empty, []) = Ok (m, ord)"
    and rs: "rs = map (\<lambda>h. the (m h)) ord"
    using assms by (auto simp: ExtractTXTRecordsBlock_def go_bind_eq_Ok)
  from txs_records_all [OF t] obtain all where all:
    "outputs_records U ec (concat (map tx_Outputs (bk_Transactions b))) = Ok all"
    "distinct ord" "set ord = dom m" "m = last_record all" by auto
  have "fn_NameHash r = h" if "m h = Some r" for h r
    using that unfolding all(4) last_record_def by (auto dest!: map_of_SomeD)
  then have h: "fn_NameHash (the (m h)) = h" if "h \<in> set ord" for h
    using that all(3) by auto
  then have d: "map fn_NameHash rs = ord" by (simp add: rs map_idI)
  have "map_of (map (\<lambda>r. (fn_NameHash r, r)) rs) k = m k" for k
  proof -
    have "map (\<lambda>r. (fn_NameHash r, r)) rs = map (\<lambda>h. (h, the (m h))) ord" using h by (simp add: rs)
    then show ?thesis using all(3) by (cases "m k") (auto simp: map_of_map_restrict restrict_map_def domIff)
  qed
  then show ?thesis using all d by auto
qed

text \<open>
  A block that the full node cuts off right behind its header is taken for a block without
  transactions: the number of transactions reads as 0 at the end of the input.
\<close>

lemma fetch_block_truncated:
  assumes ok: "Block_ok b" and cut: "RPCGetBlockHexByHeight cl h = Inr (hex_EncodeToString (take 236 (Block_Encode b)))"
  shows "fetch_block cl h = Ok (b\<lparr>bk_Transactions := []\<rparr>)"
proof -
  let ?hd = "LE_PutUint32 (bk_Nonce b) @ LE_PutUint64 (bk_Time b) @ bk_PrevHash b @ bk_TreeRoot b @ bk_ExtraNonce b @
    bk_ReservedRoot b @ bk_WitnessRoot b @ bk_MerkleRoot b @ LE_PutUint32 (bk_Version b) @ LE_PutUint32 (bk_Bits b) @ bk_Mask b"
  have l: "length ?hd = 236" using ok by (simp add: Block_ok_def)
  have "take 236 (Block_Encode b) = ?hd" unfolding Block_Encode_def l [symmetric] by simp
  moreover have "read_array 32 (bk_Mask b) = Ok (bk_Mask b, [])"
    using read_array_append [of "bk_Mask b" 32 "[]"] ok by (simp add: Block_ok_def)
  moreover have "ReadVarint [] = Ok (0, [])" by (simp add: ReadVarint_def)
  ultimately have "Block_Decode (take 236 (Block_Encode b)) = Ok (b\<lparr>bk_Transactions := []\<rparr>, [])"
    using ok by (simp add: Block_Decode_def Block_ok_def)
  with cut show ?thesis by (simp add: fetch_block_def)
qed

section \<open>The outcome of a pass\<close>

lemma pass_outcome:
  assumes "leveldb_fine L v" and "btcec_laws ec" and "chain_ok U ec ch" and "serves cl ch"
    and "0 < nmi_Workers n" and "can_sync n cl c" and "\<forall>k. name_valid (ch_name ch k)"
    and "GetLastNameImportHeight L db = Ok s" and "0 \<le> s" and "s < c - 1" and "c \<le> 2 ^ 31"
  shows "\<exists>db'. doSync n cl L U ec db = Some (db', Ok ())
    \<and> GetLastNameImportHeight L db' = Ok (c - 1)
    \<and> GetInitialImportComplete L db' = Ok True
    \<and> (\<forall>name. GetNameInfo L ec db' name =
         (case latest ch s (nat (c - 1 - s)) name of
            Some (key, h) \<Rightarrow> Ok \<lparr>ni_Name = name, ni_PublicKey = key, ni_ImportHeight = h\<rparr>
          | None \<Rightarrow> GetNameInfo L ec db name))"
proof -
  let ?n = "nat (c - 1 - s)" and ?m = "import_view ec (ch_named ch) s (nat (c - 1 - s)) (v db)"
  note fine = assms(1)
  have h: "height_of (v db) = Ok s" using assms(8) by (simp add: GetLastNameImportHeight_fine [OF fine])
  have p: "partly_imported ec ch c s 0 (v db) (v db)" using assms(10) by (simp add: partly_imported_def)
  obtain db' where d: "doSync n cl L U ec db = Some (db', Ok ())" "v db' = complete ?m"
    using last_pass [OF fine assms(3,5,4,6) h assms(9-11) p] by blast
  have n: "s + int ?n = c - 1" using assms(10) by simp
  have "height_of (v db') = Ok (c - 1)" using height_of_import [OF h assms(9), of ?n] n assms(11) by (simp add: d(2))
  moreover have "GetNameInfo L ec db' name =
         (case latest ch s ?n name of
            Some (key, h) \<Rightarrow> Ok \<lparr>ni_Name = name, ni_PublicKey = key, ni_ImportHeight = h\<rparr>
          | None \<Rightarrow> GetNameInfo L ec db name)" for name
  proof (cases "latest ch s ?n name")
    case None
    then show ?thesis by (simp add: GetNameInfo_fine(1) [OF fine, of db' name db] d(2) complete_def import_view_name)
  next
    case (Some kh)
    obtain key h where kh: "kh = (key, h)" by fastforce
    have "name_valid name" using latest_name [OF Some] assms(7) by auto
    moreover have "s < h" "h \<le> c - 1" using latest_height Some n unfolding kh by fastforce+
    ultimately show ?thesis
      using GetNameInfo_fine(2) [OF fine assms(2), of name h db' key] Some kh assms(9,11)
      by (simp add: d(2) complete_def import_view_name)
  qed
  ultimately show ?thesis
    using d(1) GetInitialImportComplete_fine [OF fine d(2)] by (auto simp: GetLastNameImportHeight_fine [OF fine])
qed

text \<open>Emptying the name store deletes what is stored under its prefix, which the recorded height is not.\<close>

lemma TruncateNameStore_fine:
  assumes fine: "leveldb_fine L v" and t: "TruncateNameStore L db = (db0, r)"
  shows "v db0 = v db |` {k. \<not> prefix (namesPrefix []) k}"
proof -
  let ?cb = "\<lambda>tx. DeleteLoop L ''error deleting name store key'' (fst (ldb_PrefixIterator L tx (namesPrefix []))) tx"
  obtain tx where tx: "v tx = v db" "\<not> is_panic (snd (?cb tx)) \<Longrightarrow>
      v (fst (WithTx L db ?cb)) = v (fst (?cb tx)) \<and> snd (WithTx L db ?cb) = snd (?cb tx)"
    using WithTx_fine [OF fine, of db ?cb] by blast
  obtain tx' where "?cb tx = (tx', Ok ())" "v tx' = v tx |` {k. \<not> prefix (namesPrefix []) k}"
    by (rule delete_prefix_fine [OF fine])
  moreover have "db0 = fst (WithTx L db ?cb)" using t by (simp add: TruncateNameStore_def tx_wrap_def)
  ultimately show ?thesis using tx by simp
qed

section \<open>Properties\<close>

text \<open>A chain whose first block has one owner's record, and a client that serves three blocks of it.\<close>

definition demo_blank :: Block where
  "demo_blank =
     \<lparr>bk_Nonce = 0, bk_Time = 0, bk_PrevHash = replicate 32 0, bk_TreeRoot = replicate 32 0,
      bk_ExtraNonce = replicate 24 0, bk_ReservedRoot = replicate 32 0, bk_WitnessRoot = replicate 32 0,
      bk_MerkleRoot = replicate 32 0, bk_Version = 0, bk_Bits = 0, bk_Mask = replicate 32 0, bk_Transactions = []\<rparr>"

definition demo_tx :: Transaction where
  "demo_tx =
     \<lparr>tx_Version = 0, tx_Inputs = [], tx_Outputs = [owner_output [171] 5 (CHR ''f'' # identityCmd toy_ec 9)],
      tx_Locktime = 0, tx_Witnesses = []\<rparr>"

definition demo_hns :: "byte hnsChain" where
  "demo_hns =
     \<lparr>ch_block = (\<lambda>h. if h = 1 then demo_blank\<lparr>bk_Transactions := [demo_tx]\<rparr> else demo_blank),
      ch_records = (\<lambda>h. if h = 1 then [\<lparr>fn_NameHash = ''ab'', fn_PublicKey = 9\<rparr>] else []),
      ch_name = (\<lambda>_. ''alpha'')\<rparr>"

definition no_unpacker :: unpacker where "no_unpacker b off = Err (ErrNew ''no name'')"

definition demo_hsd :: hsdClient where
  "demo_hsd =
     \<lparr>RPCGetBlockchainInfo = Inr \<lparr>bi_Blocks = 27, bi_VerificationProgress = 1\<rparr>,
      RPCGetBlockHexByHeight = (\<lambda>h. Inr (hex_EncodeToString (Block_Encode (ch_block demo_hns h)))),
      RPCGetNameByHash = (\<lambda>h k. Inr (Some ''alpha''))\<rparr>"

lemma demo_chain_ok: "chain_ok no_unpacker toy_ec demo_hns"
proof -
  have "output_record no_unpacker toy_ec (owner_output [171] 5 (CHR ''f'' # identityCmd toy_ec 9)) =
      Ok [\<lparr>fn_NameHash = ''ab'', fn_PublicKey = 9\<rparr>]"
    using output_record_owner [OF btcec_laws_toy_ec, of no_unpacker "[171]" 5 9]
    by (simp add: toy_ec_def hex_EncodeToString_def hextable_def)
  then have "ExtractTXTRecordsBlock no_unpacker toy_ec (ch_block demo_hns h) = Ok (ch_records demo_hns h)" for h
    by (simp add: demo_hns_def demo_blank_def ExtractTXTRecordsBlock_empty
        ExtractTXTRecordsBlock_single [where t = demo_tx] demo_tx_def)
  moreover have "Block_ok (ch_block demo_hns h)" for h
    using identity_record(2) [OF btcec_laws_toy_ec, of 9]
    by (simp add: demo_hns_def demo_blank_def Block_ok_def Transaction_ok_def demo_tx_def Output_ok_def owner_output_def
        Address_ok_def Covenant_ok_def items_ok_def CovenantUpdate_def CovenantRevoke_def txt_resource_def)
  ultimately show ?thesis by (simp add: chain_ok_def)
qed

lemma demo_serves: "serves demo_hsd demo_hns" "can_sync NewNameImporter demo_hsd 3" "0 < nmi_Workers NewNameImporter"
  by (simp_all add: serves_def demo_hsd_def demo_hns_def can_sync_def NewNameImporter_def DefaultConfig_def)

lemma demo_names: "name_valid (ch_name demo_hns k)"
  by (simp add: demo_hns_def name_valid_def name_alnum_def name_hyphen_def blacklist_def)



text \<open>
  C6. The import can be cut off anywhere: after any number of passes in which calls to the full
  node failed at any point, a pass that goes through leaves the same database as one that
  had been made from the start.
\<close>

theorem import_resumes:
  assumes "leveldb_fine L v" and "chain_ok U ec ch" and "0 < nmi_Workers n"
    and "passes n L U ec ch c db db1" and "serves cl ch" and "can_sync n cl c"
    and "GetLastNameImportHeight L db = Ok s" and "0 \<le> s" and "s < c - 1" and "c \<le> 2 ^ 31"
  shows "\<exists>db2 db3. doSync n cl L U ec db1 = Some (db2, Ok ()) \<and> doSync n cl L U ec db = Some (db3, Ok ())
    \<and> v db2 = v db3"
proof -
  have h: "height_of (v db) = Ok s" using assms(7) by (simp add: GetLastNameImportHeight_fine [OF assms(1)])
  obtain j where j: "partly_imported ec ch c s j (v db) (v db1)"
    using passes_partly [OF assms(4,1,2,3,7-10)] by blast
  have "partly_imported ec ch c s 0 (v db) (v db)" using assms(9) by (simp add: partly_imported_def)
  from last_pass [OF assms(1-3,5,6) h assms(8-10) this] last_pass [OF assms(1-3,5,6) h assms(8-10) j]
  show ?thesis by force
qed

text \<open>A pass in which the node does not answer for the second block.\<close>

definition demo_broken :: hsdClient where
  "demo_broken = demo_hsd\<lparr>RPCGetBlockHexByHeight := (\<lambda>h. if h = 2 then Inl (ErrNew ''timeout'') else RPCGetBlockHexByHeight demo_hsd h)\<rparr>"

theorem import_resumes_witness:
  "\<exists>db1 db2 db3. passes NewNameImporter mem_ldb no_unpacker toy_ec demo_hns 3 [] db1
    \<and> doSync NewNameImporter demo_hsd mem_ldb no_unpacker toy_ec db1 = Some (db2, Ok ())
    \<and> doSync NewNameImporter demo_hsd mem_ldb no_unpacker toy_ec [] = Some (db3, Ok ()) \<and> mem_view db2 = mem_view db3"
proof -
  have 0: "GetLastNameImportHeight mem_ldb [] = Ok 0"
    by (simp add: GetLastNameImportHeight_fine [OF leveldb_fine_mem] height_of_def mem_view_def)
  have a: "agrees demo_broken demo_hns"
    using serves_agrees [OF demo_serves(1)] by (simp add: demo_broken_def agrees_def)
  have c: "can_sync NewNameImporter demo_broken 3" "c = 3" if "can_sync NewNameImporter demo_broken c" for c
    using that by (auto simp: demo_broken_def demo_hsd_def can_sync_def NewNameImporter_def DefaultConfig_def)
  have c3: "can_sync NewNameImporter demo_broken 3"
    using demo_serves(2) by (simp add: demo_broken_def can_sync_def)
  obtain db1 r where "doSync NewNameImporter demo_broken mem_ldb no_unpacker toy_ec [] = Some (db1, r)"
    using doSync_prefix [OF leveldb_fine_mem demo_chain_ok a demo_serves(3) c3 0] by auto
  then have p: "passes NewNameImporter mem_ldb no_unpacker toy_ec demo_hns 3 [] db1"
    using passes_pass [OF passes_none a] c(2) by fastforce
  from import_resumes [OF leveldb_fine_mem demo_chain_ok demo_serves(3) p demo_serves(1,2) 0] p
  show ?thesis by auto
qed

text \<open>
  C7. Emptying the name store keeps the height up to which names were imported: the next pass goes on
  from there, and every name whose last record lies in an earlier block stays unknown, although the
  import counts as complete.
\<close>

theorem reset_loses_names:
  assumes "leveldb_fine L v" and "btcec_laws ec" and "chain_ok U ec ch" and "serves cl ch"
    and "0 < nmi_Workers n" and "can_sync n cl c" and "\<forall>k. name_valid (ch_name ch k)"
    and "GetLastNameImportHeight L db = Ok s" and "0 \<le> s" and "s < c - 1" and "c \<le> 2 ^ 31"
    and "TruncateNameStore L db = (db0, r)"
  shows "\<exists>db'. doSync n cl L U ec db0 = Some (db', Ok ()) \<and> GetInitialImportComplete L db' = Ok True
    \<and> (\<forall>name. latest ch s (nat (c - 1 - s)) name = None \<longrightarrow>
         GetNameInfo L ec db' name = Err (ErrWrap leveldb_ErrNotFound ''error getting name info''))"
proof -
  note v0 = TruncateNameStore_fine [OF assms(1,12)]
  have "\<not> prefix (namesPrefix []) lastNameImportHeightKey" "prefix (namesPrefix []) (nameDataPrefix [name])" for name
    by (simp_all add: key_defs Prefixer_def)
  then have "GetLastNameImportHeight L db0 = Ok s" and
    "GetNameInfo L ec db0 name = Err (ErrWrap leveldb_ErrNotFound ''error getting name info'')" for name
    using assms(8) by (simp_all add: GetLastNameImportHeight_fine [OF assms(1)] height_of_def v0 GetNameInfo_def
        leveldb_fineD(2) [OF assms(1)])
  with pass_outcome [OF assms(1-7) _ assms(9-11)] show ?thesis by force
qed

text \<open>A store that has imported the first block of the chain.\<close>

definition demo_named :: "(bytes \<times> dbval option) list" where
  "demo_named = [(lastNameImportHeightKey, Some (VBytes (mustEncodeInt 1))),
     (nameDataPrefix [''alpha''], Some (name_val toy_ec ''alpha'' 9 1))]"

theorem reset_loses_names_witness:
  "GetNameInfo mem_ldb toy_ec demo_named ''alpha'' = Ok \<lparr>ni_Name = ''alpha'', ni_PublicKey = 9, ni_ImportHeight = 1\<rparr> \<and>
   (\<exists>db'. doSync NewNameImporter demo_hsd mem_ldb no_unpacker toy_ec (fst (TruncateNameStore mem_ldb demo_named)) = Some (db', Ok ())
     \<and> GetInitialImportComplete mem_ldb db' = Ok True
     \<and> GetNameInfo mem_ldb toy_ec db' ''alpha'' = Err (ErrWrap leveldb_ErrNotFound ''error getting name info''))"
proof -
  have h: "GetLastNameImportHeight mem_ldb demo_named = Ok 1"
    by (simp add: GetLastNameImportHeight_fine [OF leveldb_fine_mem] height_of_def mem_view_def demo_named_def)
  have "name_valid ''alpha''" using demo_names by (simp add: demo_hns_def)
  then have k: "GetNameInfo mem_ldb toy_ec demo_named ''alpha'' = Ok \<lparr>ni_Name = ''alpha'', ni_PublicKey = 9, ni_ImportHeight = 1\<rparr>"
    by (intro GetNameInfo_fine(2) [OF leveldb_fine_mem btcec_laws_toy_ec]) (simp_all add: mem_view_def demo_named_def)
  have l: "latest demo_hns 1 (nat (3 - 1 - 1)) ''alpha'' = None" by (simp add: demo_hns_def ch_named_def)
  obtain db0 r where t: "TruncateNameStore mem_ldb demo_named = (db0, r)" by fastforce
  from reset_loses_names [OF leveldb_fine_mem btcec_laws_toy_ec demo_chain_ok demo_serves(1,3,2) _ h _ _ _ t] demo_names l k t
  show ?thesis by auto
qed

end
