(* ===== verification/Spec2Isabelle.thy ===== *)
theory Spec2Isabelle
  imports Util_Locker Util_Cache Util_Sampler Util_Observable Wire_Envelope Store_Schema P2P_Manager Proto_Replication Rpc_Read Proto_Exchange Proto_Pinger Proto_Import
begin

text \<open>
  A verification development for fnd, the Footnote daemon.
\<close>

section \<open>From one node's disk to another's\<close>

lemma demo_send:
  assumes "message_fits m"
  shows "\<exists>envl x mx. PeerMuxer_Send demo_b2 toy_ec 0 (\<lambda>_ _. (None, 0)) (demo_mux (demo_peer 1)) ZeroHash m = (x, [(ZeroHash, envl)], mx)
    \<and> env_Message envl = m"
proof -
  obtain envl where e: "NewEnvelope demo_b2 toy_ec 0 7 m 5 = Ok envl"
    using NewEnvelope_total [OF sign_total_toy assms, of 0 demo_b2 7 5] by (auto simp: time_Unix_def)
  have mux: "map_of (mx_peers (demo_mux (demo_peer 1))) ZeroHash = Some (demo_peer 1)" "mx_magic (demo_mux (demo_peer 1)) = 7"
    "mx_signer (demo_mux (demo_peer 1)) = 5"
    by (simp_all add: demo_mux_def demo_peer_def PeerMuxer_AddPeer_def PeerMuxer_handlePeerOpen_def NewPeerMuxer_def Let_def)
  obtain x sent mx where snd: "PeerMuxer_Send demo_b2 toy_ec 0 (\<lambda>_ _. (None, 0)) (demo_mux (demo_peer 1)) ZeroHash m = (x, sent, mx)"
    by (metis prod_cases3)
  then have sent: "sent = [(ZeroHash, envl)]" using e mux by (simp add: PeerMuxer_Send_def)
  show ?thesis using snd PeerMuxer_Send_message [OF snd [unfolded sent]] sent by blast
qed



section \<open>From an owner's terminal to another node's disk\<close>

lemma owner_seal_valid:
  assumes "ValidateName name = Ok ()" and "NameIsBanned L db name = Ok False"
    and "GetNameInfo L ec db name = Ok info" and "ni_PublicKey info = pk" and "VerifySigPub ec pk sig (SealHash b2 name ep sz tip rr) = Ok True"
  shows "validateBlobUpdate b2 ec L db name ep sz tip rr sig = Ok ()"
  using assms by (simp add: validateBlobUpdate_def)



end
